(* ===== verification/Prelude.thy ===== *)
theory Prelude
  imports Main "HOL-Library.Word"
begin

text \<open>
  The vocabulary shared by every theory of the development: the machine integers of the
  C++ sources, the way a run of the hypervisor can fail, and the generic lemmas about words
  and lists that the component proofs use.

  A \<^verbatim>\<open>uint64_t\<close> is a \<open>64 word\<close>, a \<^verbatim>\<open>uint32_t\<close> a \<open>32 word\<close>, and so on; a C bit-field of
  \<open>n\<close> bits is an \<open>n word\<close>, so that assigning to it truncates. The failures of the code are
  values: \<open>ExitError\<close> is \<^verbatim>\<open>exit(1)\<close>, \<open>OutOfBounds\<close> an array access beyond the array's end,
  \<open>NullDeref\<close> a dereference of \<^verbatim>\<open>NULL\<close>, \<open>DivByZero\<close> a remainder by zero, \<open>NotHandled\<close> the \<^verbatim>\<open>P::EPRINT\<close> abort of the processor loop,
  \<open>NoReturn\<close> control that falls off the end of a function that promises a value, and
  \<open>OutOfFuel\<close> a bound of the model (never of the code) that was too small.
\<close>

unbundle bit_operations_syntax

type_synonym u8 = "8 word"
type_synonym u16 = "16 word"
type_synonym u32 = "32 word"
type_synonym u64 = "64 word"

datatype hv_error = ExitError | OutOfBounds | NullDeref | DivByZero | NotHandled | NoReturn | OutOfFuel

type_synonym 'a result = "hv_error + 'a"

section \<open>Collections of facts\<close>

named_theorems bitblast \<open>expands a bounded quantifier over bit positions\<close>
named_theorems frame \<open>what an operation leaves unchanged\<close>

section \<open>Results\<close>

definition bind_result :: "'a result \<Rightarrow> ('a \<Rightarrow> 'b result) \<Rightarrow> 'b result" where
  "bind_result r f = (case r of Inl e \<Rightarrow> Inl e | Inr x \<Rightarrow> f x)"

lemma bind_result_simps [simp]:
  "bind_result (Inl e) f = Inl e"
  "bind_result (Inr x) f = f x"
  by (simp_all add: bind_result_def)

lemma bind_result_Inr_iff:
  "bind_result r f = Inr y \<longleftrightarrow> (\<exists>x. r = Inr x \<and> f x = Inr y)"
  by (cases r) simp_all

lemma bind_result_cong [fundef_cong]:
  "r = r' \<Longrightarrow> (\<And>x. r' = Inr x \<Longrightarrow> f x = f' x) \<Longrightarrow> bind_result r f = bind_result r' f'"
  by (cases r') simp_all

section \<open>Words\<close>

text \<open>
  Equality of 64-bit words bit by bit. With the bound a numeral, \<open>bitblast\<close> expands the
  quantifier into one conjunct per bit, which \<open>bit_simps\<close> decides for every expression
  built from masks, shifts and conversions.
\<close>

lemma word64_eqI: "(\<forall>n<64. bit x n = bit y n) \<Longrightarrow> x = (y::u64)"
  by (rule bit_word_eqI) simp

lemma word32_eqI: "(\<forall>n<32. bit x n = bit y n) \<Longrightarrow> x = (y::u32)"
  by (rule bit_word_eqI) simp

lemma word64_eq_iff: "x = (y::u64) \<longleftrightarrow> (\<forall>n<64. bit x n = bit y n)"
  by (auto intro: word64_eqI)

lemma word32_eq_iff: "x = (y::u32) \<longleftrightarrow> (\<forall>n<32. bit x n = bit y n)"
  by (auto intro: word32_eqI)

lemma word16_eqI: "(\<forall>n<16. bit x n = bit y n) \<Longrightarrow> x = (y::u16)"
  by (rule bit_word_eqI) simp

lemma word8_eqI: "(\<forall>n<8. bit x n = bit y n) \<Longrightarrow> x = (y::u8)"
  by (rule bit_word_eqI) simp

lemma all_less_numeral [bitblast]:
  "(\<forall>n<numeral k::nat. P n) = (P (pred_numeral k) \<and> (\<forall>n<pred_numeral k. P n))"
  by (simp add: numeral_eq_Suc All_less_Suc)

lemma bit_beyond [bitblast]:
  "64 \<le> n \<Longrightarrow> bit (x :: u64) n = False" "32 \<le> n \<Longrightarrow> bit (y :: u32) n = False"
  "16 \<le> n \<Longrightarrow> bit (z :: u16) n = False" "8 \<le> n \<Longrightarrow> bit (b :: u8) n = False"
  "6 \<le> n \<Longrightarrow> bit (f :: 6 word) n = False" "5 \<le> n \<Longrightarrow> bit (r :: 5 word) n = False"
  "26 \<le> n \<Longrightarrow> bit (j :: 26 word) n = False"
  by (auto dest: bit_imp_le_length)

lemma bit1_cases: "w = 0 \<or> w = (1 :: 1 word)"
proof -
  have "w = of_bool (bit w 0)" by (rule bit_word_eqI) (simp add: bit_simps)
  then show ?thesis by (metis of_bool_eq_0_iff of_bool_eq_1_iff)
qed

lemma unat_ucast_small: "k < 2 ^ LENGTH('b) \<Longrightarrow> k < 2 ^ LENGTH('a) \<Longrightarrow>
    (ucast (of_nat k :: 'a::len word) :: 'b::len word) = of_nat k"
  by (simp add: unsigned_of_nat take_bit_nat_eq_self)

lemma low_bits_of_nat:
  "k < 64 \<Longrightarrow> (0x3f :: u64) AND of_nat k = of_nat k"
proof -
  assume "k < 64"
  have "(0x3f :: u64) AND of_nat k = take_bit 6 (of_nat k)"
    by (rule word64_eqI) (simp add: bitblast bit_simps)
  also have "\<dots> = of_nat k" using \<open>k < 64\<close> by (simp add: take_bit_of_nat take_bit_nat_eq_self)
  finally show ?thesis .
qed

lemma and_le_right: "x AND m \<le> (m :: 'a::len word)"
  by (rule word_and_le1)

lemma unat_and_le: "unat (x AND m) \<le> unat (m :: 'a::len word)"
  using word_and_le1 [of x m] by (simp add: word_le_nat_alt)

lemma unat_and_less: "unat (m :: 'a::len word) < k \<Longrightarrow> unat (x AND m) < k"
  using unat_and_le [of x m] by linarith

lemma and_mask_split: "(x AND m) OR (x AND NOT m) = (x :: 'a::len word)"
  by (rule bit_word_eqI) (auto simp: bit_simps)

lemma or_and_cancel:
  "v AND m = 0 \<Longrightarrow> (x OR v) AND m = x AND (m :: 'a::len word)"
  by (simp add: bit.conj_disj_distrib2)

text \<open>
  The cast \<^verbatim>\<open>(int32_t)\<close> followed by the widening to \<^verbatim>\<open>uint64_t\<close>: the low 32 bits are kept and
  sign-extended.
\<close>

definition sext32 :: "u64 \<Rightarrow> u64" where
  "sext32 x = scast (ucast x :: u32)"

text \<open>\<^verbatim>\<open>__builtin_popcount\<close>: its parameter is an \<^verbatim>\<open>unsigned int\<close>, so a wider argument is cut first.\<close>

definition popcount32 :: "u64 \<Rightarrow> nat" where
  "popcount32 x = length (filter (\<lambda>n. bit (ucast x :: u32) n) [0..<32])"

section \<open>The first index that satisfies a test\<close>

text \<open>
  The C++ idiom \<^verbatim>\<open>for (idx = 0; idx < N; idx++) if (test) break;\<close>: the result is the length
  of the list when no element passes.
\<close>

fun first_index :: "('a \<Rightarrow> bool) \<Rightarrow> 'a list \<Rightarrow> nat" where
  "first_index p [] = 0"
| "first_index p (x # xs) = (if p x then 0 else Suc (first_index p xs))"

lemma first_index_le: "first_index p xs \<le> length xs"
  by (induction xs) auto

lemma first_index_hit: "first_index p xs < length xs \<Longrightarrow> p (xs ! first_index p xs)"
  by (induction xs) (auto split: if_splits)

lemma first_index_before: "i < first_index p xs \<Longrightarrow> \<not> p (xs ! i)"
  by (induction xs arbitrary: i) (auto simp: nth_Cons split: if_splits nat.splits)

lemma first_index_none: "first_index p xs = length xs \<longleftrightarrow> (\<forall>x\<in>set xs. \<not> p x)"
  by (induction xs) auto

lemma first_index_eqI:
  "i < length xs \<Longrightarrow> p (xs ! i) \<Longrightarrow> (\<And>j. j < i \<Longrightarrow> \<not> p (xs ! j)) \<Longrightarrow> first_index p xs = i"
proof (induction xs arbitrary: i)
  case Nil
  then show ?case by simp
next
  case (Cons x xs)
  show ?case
  proof (cases i)
    case 0
    with Cons.prems show ?thesis by simp
  next
    case (Suc k)
    have "\<not> p x" using Cons.prems(3) [of 0] Suc by simp
    moreover have "first_index p xs = k"
    proof (rule Cons.IH)
      show "k < length xs" "p (xs ! k)" using Cons.prems Suc by simp_all
      show "\<not> p (xs ! j)" if "j < k" for j
        using Cons.prems(3) [of "Suc j"] Suc that by simp
    qed
    ultimately show ?thesis using Suc by simp
  qed
qed

end
