(* ===== verification/IInfo.thy ===== *)
theory IInfo
  imports Prelude
begin

text \<open>
  Guest instructions: \<^verbatim>\<open>IInfo.h\<close> and \<^verbatim>\<open>IInfo.cpp\<close> split a 32-bit MIPS word into the fields of its
  format and say whether it transfers control, and \<^verbatim>\<open>InstBlock.cpp\<close> collects a basic block, up to
  the first control transfer and its delay slot.

  The three formats are members of one structure side by side, not a union, and the constructor
  clears all of them, so the fields of the other two formats of an instruction are zero. The
  guest's code is a function from word indices to words; the loop of \<^verbatim>\<open>getBlock\<close> has no bound, so
  the model gives it fuel.
\<close>

section \<open>Fields\<close>

datatype TYPES = RTYPE | ITYPE | JTYPE | ILLEGAL

record IInfo =
  opcode :: "6 word"
  R_rs :: "5 word"
  R_rt :: "5 word"
  R_rd :: "5 word"
  R_shft :: "5 word"
  R_func :: "6 word"
  I_rs :: "5 word"
  I_rt :: "5 word"
  I_imm :: u16
  j_addr :: "26 word"
  encoding :: u32
  ins_type :: TYPES
  isControlInst :: bool

definition EXTBITS :: "u32 \<Rightarrow> nat \<Rightarrow> nat \<Rightarrow> u32" where
  "EXTBITS val start end = drop_bit start val AND (push_bit (end - start + 1) 1 - 1)"

definition getType :: "6 word \<Rightarrow> TYPES" where
  "getType op =
     (if op = 0 \<or> (15 < op \<and> op < 20) \<or> op = 31 \<or> op = 28 then RTYPE
      else if op = 2 \<or> op = 3 then JTYPE
      else ITYPE)"

definition isCntrlInstR :: "6 word \<Rightarrow> 5 word \<Rightarrow> 6 word \<Rightarrow> bool" where
  "isCntrlInstR oc rs func \<longleftrightarrow>
     (oc = 0 \<and> (func = 8 \<or> func = 9)) \<or> ((oc = 16 \<or> oc = 18) \<and> rs = 8)
     \<or> (oc = 17 \<and> (rs = 8 \<or> rs = 9 \<or> rs = 10))"

definition isCntrlInstI :: "6 word \<Rightarrow> 5 word \<Rightarrow> bool" where
  "isCntrlInstI oc rt \<longleftrightarrow>
     (4 \<le> oc \<and> oc \<le> 7) \<or> (20 \<le> oc \<and> oc \<le> 23) \<or> oc = 50 \<or> oc = 54 \<or> oc = 58 \<or> oc = 62
     \<or> (oc = 1 \<and> ((0 \<le> rt \<and> rt \<le> 3) \<or> (16 \<le> rt \<and> rt \<le> 19)))"

definition isCntrlInstJ :: "6 word \<Rightarrow> bool" where
  "isCntrlInstJ oc \<longleftrightarrow> oc = 2 \<or> oc = 3 \<or> oc = 29"

text \<open>The constructor, which calls \<^verbatim>\<open>parse\<close>.\<close>

definition IInfo_of :: "u32 \<Rightarrow> IInfo" where
  "IInfo_of ins =
     (let op = ucast (EXTBITS ins 26 31); t = getType op;
          p = \<lparr>opcode = op, R_rs = 0, R_rt = 0, R_rd = 0, R_shft = 0, R_func = 0, I_rs = 0, I_rt = 0,
               I_imm = 0, j_addr = 0, encoding = ins, ins_type = t, isControlInst = False\<rparr> in
      if t = RTYPE then
        (let p = p\<lparr>R_rs := ucast (EXTBITS ins 21 25), R_rt := ucast (EXTBITS ins 16 20),
                   R_rd := ucast (EXTBITS ins 11 15), R_shft := ucast (EXTBITS ins 6 10),
                   R_func := ucast (EXTBITS ins 0 5)\<rparr> in
         p\<lparr>isControlInst := isCntrlInstR op (R_rs p) (R_func p)\<rparr>)
      else if t = ITYPE then
        (let p = p\<lparr>I_rs := ucast (EXTBITS ins 21 25), I_rt := ucast (EXTBITS ins 16 20),
                   I_imm := ucast (EXTBITS ins 0 15)\<rparr> in
         p\<lparr>isControlInst := isCntrlInstI op (I_rt p)\<rparr>)
      else
        p\<lparr>j_addr := ucast (EXTBITS ins 0 25), isControlInst := isCntrlInstJ op\<rparr>)"

section \<open>Blocks\<close>

fun getBlock :: "nat \<Rightarrow> (nat \<Rightarrow> u32) \<Rightarrow> nat \<Rightarrow> IInfo list result" where
  "getBlock 0 code pcptr = Inl OutOfFuel"
| "getBlock (Suc fuel) code pcptr =
     (let anInstruction = IInfo_of (code pcptr); pcptr = Suc pcptr in
      if isControlInst anInstruction
      then Inr [anInstruction, IInfo_of (code pcptr)]
      else bind_result (getBlock fuel code pcptr) (\<lambda>rest. Inr (anInstruction # rest)))"

section \<open>Fields of a word\<close>

lemma EXTBITS_bit: "start \<le> end \<Longrightarrow> end < 32 \<Longrightarrow>
    bit (EXTBITS val start end) n \<longleftrightarrow> n \<le> end - start \<and> bit val (start + n)"
proof -
  assume "start \<le> end" "end < 32"
  have "push_bit (end - start + 1) 1 - 1 = (mask (end - start + 1) :: u32)"
    by (simp only: push_bit_eq_mult mult_1 mask_eq_exp_minus_1)
  with \<open>start \<le> end\<close> \<open>end < 32\<close> show ?thesis
    unfolding EXTBITS_def by (auto simp: bit_simps)
qed

lemma opcode_IInfo_of [simp]: "opcode (IInfo_of ins) = ucast (EXTBITS ins 26 31)"
  by (simp add: IInfo_of_def Let_def)

lemma encoding_IInfo_of [simp]: "encoding (IInfo_of ins) = ins"
  by (simp add: IInfo_of_def Let_def)

lemma ins_type_IInfo_of [simp]: "ins_type (IInfo_of ins) = getType (ucast (EXTBITS ins 26 31))"
  by (simp add: IInfo_of_def Let_def)

text \<open>What a word of each format is rebuilt from.\<close>

lemma R_fields:
  assumes "getType (ucast (EXTBITS ins 26 31)) = RTYPE"
  shows "R_rs (IInfo_of ins) = ucast (EXTBITS ins 21 25)" "R_rt (IInfo_of ins) = ucast (EXTBITS ins 16 20)"
    "R_rd (IInfo_of ins) = ucast (EXTBITS ins 11 15)" "R_shft (IInfo_of ins) = ucast (EXTBITS ins 6 10)"
    "R_func (IInfo_of ins) = ucast (EXTBITS ins 0 5)"
  using assms by (simp_all add: IInfo_of_def Let_def)

lemma I_fields:
  assumes "getType (ucast (EXTBITS ins 26 31)) = ITYPE"
  shows "I_rs (IInfo_of ins) = ucast (EXTBITS ins 21 25)" "I_rt (IInfo_of ins) = ucast (EXTBITS ins 16 20)"
    "I_imm (IInfo_of ins) = ucast (EXTBITS ins 0 15)"
  using assms by (simp_all add: IInfo_of_def Let_def)

lemma J_fields:
  assumes "getType (ucast (EXTBITS ins 26 31)) = JTYPE"
  shows "j_addr (IInfo_of ins) = ucast (EXTBITS ins 0 25)"
  using assms by (simp_all add: IInfo_of_def Let_def)

lemma getType_legal: "getType op \<in> {RTYPE, ITYPE, JTYPE}"
  by (simp add: getType_def)

section \<open>The loop of getBlock\<close>

lemma getBlock_finds:
  assumes "\<forall>j<k. \<not> isControlInst (IInfo_of (code (i + j)))" "isControlInst (IInfo_of (code (i + k)))"
  shows "getBlock (Suc k + extra) code i = Inr (map (\<lambda>j. IInfo_of (code (i + j))) [0..<k + 2])"
  using assms
proof (induction k arbitrary: i)
  case 0
  then show ?case by (simp add: Let_def numeral_2_eq_2)
next
  case (Suc k)
  have "\<not> isControlInst (IInfo_of (code i))" using Suc.prems(1) by fastforce
  moreover have "getBlock (Suc k + extra) code (Suc i) = Inr (map (\<lambda>j. IInfo_of (code (Suc i + j))) [0..<k + 2])"
    using Suc.prems by (intro Suc.IH) auto
  ultimately show ?case
    by (simp add: Let_def upt_conv_Cons [of 0 "Suc (Suc (Suc k))"] map_Suc_upt [symmetric] comp_def
        del: upt_Suc)
qed

lemma getBlock_starves:
  "\<forall>j<fuel. \<not> isControlInst (IInfo_of (code (i + j))) \<Longrightarrow> getBlock fuel code i = Inl OutOfFuel"
proof (induction fuel arbitrary: i)
  case 0
  then show ?case by simp
next
  case (Suc fuel)
  have "\<not> isControlInst (IInfo_of (code i))" using Suc.prems by fastforce
  moreover have "getBlock fuel code (Suc i) = Inl OutOfFuel"
    using Suc.prems by (intro Suc.IH) auto
  ultimately show ?case by (simp add: Let_def)
qed

section \<open>Properties\<close>

text \<open>
  The fields of an R-format and of an I-format instruction determine its word: the
  decoder loses nothing, so an emitter that puts the fields back reproduces the instruction.
\<close>

lemma fields_roundtrip:
  shows "ins = (let p = IInfo_of ins; op = push_bit 26 (ucast (opcode p)) :: u32 in
     case ins_type p of
       RTYPE \<Rightarrow> op OR push_bit 21 (ucast (R_rs p)) OR push_bit 16 (ucast (R_rt p))
                OR push_bit 11 (ucast (R_rd p)) OR push_bit 6 (ucast (R_shft p)) OR ucast (R_func p)
     | ITYPE \<Rightarrow> op OR push_bit 21 (ucast (I_rs p)) OR push_bit 16 (ucast (I_rt p)) OR ucast (I_imm p)
     | _ \<Rightarrow> op OR ucast (j_addr p))"
proof (cases "getType (ucast (EXTBITS ins 26 31))")
  case RTYPE
  show ?thesis
    by (rule word32_eqI) (simp add: Let_def RTYPE R_fields [OF RTYPE] bitblast bit_simps EXTBITS_bit)
next
  case ITYPE
  show ?thesis
    by (rule word32_eqI) (simp add: Let_def ITYPE I_fields [OF ITYPE] bitblast bit_simps EXTBITS_bit)
next
  case JTYPE
  show ?thesis
    by (rule word32_eqI) (simp add: Let_def JTYPE J_fields [OF JTYPE] bitblast bit_simps EXTBITS_bit)
next
  case ILLEGAL
  then show ?thesis using getType_legal [of "ucast (EXTBITS ins 26 31)"] by simp
qed

text \<open>
  Property C31. \<^verbatim>\<open>getBlock\<close> returns the instructions from the entry point up to the first control
  transfer, that one and its delay slot included; if no instruction transfers control, it never
  returns, whatever the fuel.
\<close>

theorem getBlock_correct:
  shows "(\<forall>k. (\<forall>j<k. \<not> isControlInst (IInfo_of (code (i + j)))) \<and> isControlInst (IInfo_of (code (i + k)))
          \<longrightarrow> (\<forall>fuel>k. getBlock fuel code i = Inr (map (\<lambda>j. IInfo_of (code (i + j))) [0..<k + 2])))
    \<and> ((\<forall>j. \<not> isControlInst (IInfo_of (code (i + j)))) \<longrightarrow> (\<forall>fuel. getBlock fuel code i = Inl OutOfFuel))"
proof (intro conjI allI impI)
  fix k fuel
  assume first: "(\<forall>j<k. \<not> isControlInst (IInfo_of (code (i + j)))) \<and> isControlInst (IInfo_of (code (i + k)))"
    and "k < fuel"
  then obtain extra where "fuel = Suc k + extra" using less_imp_add_positive by (metis add_Suc less_iff_Suc_add)
  then show "getBlock fuel code i = Inr (map (\<lambda>j. IInfo_of (code (i + j))) [0..<k + 2])"
    using getBlock_finds first by blast
qed (simp add: getBlock_starves)

theorem getBlock_correct_witness:
  "getBlock 2 (\<lambda>i. if i = 0 then 0x24420001 else if i = 1 then 0x03e00008 else 0) 0 =
     Inr [IInfo_of 0x24420001, IInfo_of 0x03e00008, IInfo_of 0]"
proof -
  let ?code = "\<lambda>i. if i = (0::nat) then 0x24420001 else if i = 1 then 0x03e00008 else (0::u32)"
  have "\<not> isControlInst (IInfo_of 0x24420001)" "isControlInst (IInfo_of 0x03e00008)"
    by (simp_all add: IInfo_of_def EXTBITS_def getType_def isCntrlInstR_def isCntrlInstI_def Let_def)
  then show ?thesis
    using getBlock_correct [of ?code 0, THEN conjunct1, THEN spec [of _ 1]]
    by (simp add: numeral_2_eq_2)
qed

end
