(* ===== verification/Emit.thy ===== *)
theory Emit
  imports IInfo
begin

text \<open>
  The emitters of \<^verbatim>\<open>Translation_IPE.cpp\<close>: for each kind of guest instruction, the host words that
  carry out its effect on the guest's register image. A \<^verbatim>\<open>push_back\<close> appends one word to the block
  being built, so an emitter is the list of the words it pushes, in order.

  The register image is an array of 8-byte cells addressed from host register 12 (\<open>BASE_REG\<close>):
  the general registers at offset \<open>BaseGP\<close>, the coprocessor registers at \<open>BaseCP\<close>, and control cells
  for the hand-over to the hypervisor. Branch and jump emitters place the translation of the delay
  slot in the middle; it is their parameter \<open>slot\<close> and \<open>Decode\<close> supplies it. Code that is commented
  out in the source is not modelled, and neither are the diagnostic prints.
\<close>

section \<open>Layout of the register image and request codes\<close>

abbreviation (input) PROG_COUNTER_OFFSET :: u32 where "PROG_COUNTER_OFFSET \<equiv> 0"
abbreviation (input) LLBIT_OFFSET :: u32 where "LLBIT_OFFSET \<equiv> 32"
abbreviation (input) LL_DATA_OFFSET :: u32 where "LL_DATA_OFFSET \<equiv> 40"
abbreviation (input) TRANS_ADDR_OFFSET :: u32 where "TRANS_ADDR_OFFSET \<equiv> 48"
abbreviation (input) LDST_ADDR_OFFSET :: u32 where "LDST_ADDR_OFFSET \<equiv> 56"
abbreviation (input) LDST_DATA_OFFSET :: u32 where "LDST_DATA_OFFSET \<equiv> 64"
abbreviation (input) TEMP_REG1_OFFSET :: u32 where "TEMP_REG1_OFFSET \<equiv> 72"
abbreviation (input) TEMP_REG2_OFFSET :: u32 where "TEMP_REG2_OFFSET \<equiv> 80"
abbreviation (input) C_FUNC_CALL_OFFSET :: u32 where "C_FUNC_CALL_OFFSET \<equiv> 88"
abbreviation (input) CONTROL_FLAG_OFFSET :: u32 where "CONTROL_FLAG_OFFSET \<equiv> 104"
abbreviation (input) CONTEXT_STAT_OFFSET :: u32 where "CONTEXT_STAT_OFFSET \<equiv> 120"
abbreviation (input) LDST_OP_OFFSET :: u32 where "LDST_OP_OFFSET \<equiv> 168"
abbreviation (input) BLOCK_START_PC_OFFSET :: u32 where "BLOCK_START_PC_OFFSET \<equiv> 176"
abbreviation (input) BLOCK_END_PC_OFFSET :: u32 where "BLOCK_END_PC_OFFSET \<equiv> 184"
abbreviation (input) GP_REGS_OFFSET :: u32 where "GP_REGS_OFFSET \<equiv> 200"
abbreviation (input) CP0_REGS_OFFSET :: u32 where "CP0_REGS_OFFSET \<equiv> 520"
abbreviation (input) CHECK_TLB_DATA :: u32 where "CHECK_TLB_DATA \<equiv> 0"
abbreviation (input) FETCH_NEXT_BLOCK :: u32 where "FETCH_NEXT_BLOCK \<equiv> 1"
abbreviation (input) HANLDE_SYSCALL_INT :: u32 where "HANLDE_SYSCALL_INT \<equiv> 2"
abbreviation (input) HANLDE_TLB_PROBE :: u32 where "HANLDE_TLB_PROBE \<equiv> 3"
abbreviation (input) HANLDE_TLB_READ :: u32 where "HANLDE_TLB_READ \<equiv> 4"
abbreviation (input) HANLDE_TLB_WRITEI :: u32 where "HANLDE_TLB_WRITEI \<equiv> 5"
abbreviation (input) HANLDE_TLB_WRITE :: u32 where "HANLDE_TLB_WRITE \<equiv> 6"
abbreviation (input) HANDLE_ASID_CHANGE :: u32 where "HANDLE_ASID_CHANGE \<equiv> 7"
abbreviation (input) HANLDE_EXTERNAL_INT :: u32 where "HANLDE_EXTERNAL_INT \<equiv> 8"
abbreviation (input) HANDLE_Compare_Write :: u32 where "HANDLE_Compare_Write \<equiv> 9"
abbreviation (input) HANDLE_count_write :: u32 where "HANDLE_count_write \<equiv> 10"
abbreviation (input) WRITE_LOG_FILES :: u32 where "WRITE_LOG_FILES \<equiv> 11"
abbreviation (input) HANLDE_BR :: u32 where "HANLDE_BR \<equiv> 12"
abbreviation (input) HANLDE_TRAP_INT :: u32 where "HANLDE_TRAP_INT \<equiv> 13"
abbreviation (input) EXP_RI :: u32 where "EXP_RI \<equiv> 14"
abbreviation (input) HANDLE_count_read :: u32 where "HANDLE_count_read \<equiv> 15"

abbreviation (input) LOG_GEN :: bool where "LOG_GEN \<equiv> False"

section \<open>Register numbers and opcodes\<close>

abbreviation (input) BaseGP :: u32 where "BaseGP \<equiv> GP_REGS_OFFSET"
abbreviation (input) BaseCP :: u32 where "BaseCP \<equiv> CP0_REGS_OFFSET"
abbreviation (input) Addr_Store :: u32 where "Addr_Store \<equiv> LDST_ADDR_OFFSET"
abbreviation (input) Trans_Addr :: u32 where "Trans_Addr \<equiv> TRANS_ADDR_OFFSET"
abbreviation (input) Control_Mark :: u32 where "Control_Mark \<equiv> CONTROL_FLAG_OFFSET"
abbreviation (input) Memory_Temp4 :: u32 where "Memory_Temp4 \<equiv> TEMP_REG1_OFFSET"
abbreviation (input) Memory_Temp5 :: u32 where "Memory_Temp5 \<equiv> TEMP_REG2_OFFSET"
abbreviation (input) Block_End_PC :: u32 where "Block_End_PC \<equiv> BLOCK_END_PC_OFFSET"
abbreviation (input) LDST_Data :: u32 where "LDST_Data \<equiv> LDST_DATA_OFFSET"
abbreviation (input) OP_Indicator :: u32 where "OP_Indicator \<equiv> LDST_OP_OFFSET"
abbreviation (input) LLBIT_Flag :: u32 where "LLBIT_Flag \<equiv> LLBIT_OFFSET"
abbreviation (input) LL_Data :: u32 where "LL_Data \<equiv> LL_DATA_OFFSET"
abbreviation (input) BASE_REG :: u32 where "BASE_REG \<equiv> 12"
abbreviation (input) TEMP1 :: u32 where "TEMP1 \<equiv> 13"
abbreviation (input) TEMP2 :: u32 where "TEMP2 \<equiv> 14"
abbreviation (input) TEMP3 :: u32 where "TEMP3 \<equiv> 15"
abbreviation (input) C_LABEL_REG :: u32 where "C_LABEL_REG \<equiv> 24"
abbreviation (input) RET_ADDR_REG :: u32 where "RET_ADDR_REG \<equiv> 25"
abbreviation (input) REG_HI :: u32 where "REG_HI \<equiv> 32"
abbreviation (input) REG_LO :: u32 where "REG_LO \<equiv> 33"
abbreviation (input) MPL0 :: u32 where "MPL0 \<equiv> 35"
abbreviation (input) MPL1 :: u32 where "MPL1 \<equiv> 36"
abbreviation (input) MPL2 :: u32 where "MPL2 \<equiv> 37"
abbreviation (input) P0 :: u32 where "P0 \<equiv> 38"
abbreviation (input) P1 :: u32 where "P1 \<equiv> 39"
abbreviation (input) P2 :: u32 where "P2 \<equiv> 40"
abbreviation (input) OPCODE_LW :: u32 where "OPCODE_LW \<equiv> 35"
abbreviation (input) OPCODE_LD :: u32 where "OPCODE_LD \<equiv> 55"
abbreviation (input) OPCODE_SW :: u32 where "OPCODE_SW \<equiv> 43"
abbreviation (input) OPCODE_SD :: u32 where "OPCODE_SD \<equiv> 63"
abbreviation (input) OPCODE_LUI :: u32 where "OPCODE_LUI \<equiv> 15"
abbreviation (input) OPCODE_JAL :: u32 where "OPCODE_JAL \<equiv> 3"
abbreviation (input) OPCODE_J :: u32 where "OPCODE_J \<equiv> 2"
abbreviation (input) OPCODE_BEQ :: u32 where "OPCODE_BEQ \<equiv> 4"
abbreviation (input) OPCODE_BNE :: u32 where "OPCODE_BNE \<equiv> 5"
abbreviation (input) OPCODE_BGEZ :: u32 where "OPCODE_BGEZ \<equiv> 1"
abbreviation (input) OPCODE_ADDIU :: u32 where "OPCODE_ADDIU \<equiv> 9"
abbreviation (input) OPCODE_DADDI :: u32 where "OPCODE_DADDI \<equiv> 24"
abbreviation (input) OPCODE_DADDIU :: u32 where "OPCODE_DADDIU \<equiv> 25"
abbreviation (input) OPCODE_ZERO :: u32 where "OPCODE_ZERO \<equiv> 0"
abbreviation (input) OPCODE_ADDI :: u32 where "OPCODE_ADDI \<equiv> 8"
abbreviation (input) OPCODE_ANDI :: u32 where "OPCODE_ANDI \<equiv> 12"
abbreviation (input) OPCODE_ORI :: u32 where "OPCODE_ORI \<equiv> 13"
abbreviation (input) OPCODE_SPECIAL2 :: u32 where "OPCODE_SPECIAL2 \<equiv> 28"
abbreviation (input) OPCODE_SPECIAL3 :: u32 where "OPCODE_SPECIAL3 \<equiv> 31"
abbreviation (input) OPCODE_SRL :: u32 where "OPCODE_SRL \<equiv> 2"
abbreviation (input) OPCODE_INS :: u32 where "OPCODE_INS \<equiv> 4"
abbreviation (input) OPCODE_DINSU :: u32 where "OPCODE_DINSU \<equiv> 6"
abbreviation (input) OPCODE_DINS :: u32 where "OPCODE_DINS \<equiv> 7"
abbreviation (input) OPCODE_JR :: u32 where "OPCODE_JR \<equiv> 8"
abbreviation (input) OPCODE_JALR :: u32 where "OPCODE_JALR \<equiv> 9"
abbreviation (input) OPCODE_SAAD :: u32 where "OPCODE_SAAD \<equiv> 25"
abbreviation (input) OPCODE_CAVIUMADDITION :: u32 where "OPCODE_CAVIUMADDITION \<equiv> 28"
abbreviation (input) OPCODE_ADD :: u32 where "OPCODE_ADD \<equiv> 32"
abbreviation (input) OPCODE_AND :: u32 where "OPCODE_AND \<equiv> 36"
abbreviation (input) OPCODE_RDHWR :: u32 where "OPCODE_RDHWR \<equiv> 59"
abbreviation (input) OPCODE_DSLL32 :: u32 where "OPCODE_DSLL32 \<equiv> 60"
abbreviation (input) OPCODE_DSRL32 :: u32 where "OPCODE_DSRL32 \<equiv> 62"
abbreviation (input) OPCODE_MFHI :: u32 where "OPCODE_MFHI \<equiv> 16"
abbreviation (input) OPCODE_MTHI :: u32 where "OPCODE_MTHI \<equiv> 17"
abbreviation (input) OPCODE_MFLO :: u32 where "OPCODE_MFLO \<equiv> 18"
abbreviation (input) OPCODE_MTLO :: u32 where "OPCODE_MTLO \<equiv> 19"
abbreviation (input) Control_from_LS :: u32 where "Control_from_LS \<equiv> CHECK_TLB_DATA"
abbreviation (input) Control_from_EndOfBlock :: u32 where "Control_from_EndOfBlock \<equiv> FETCH_NEXT_BLOCK"
abbreviation (input) Control_from_LogWrite :: u32 where "Control_from_LogWrite \<equiv> WRITE_LOG_FILES"
abbreviation (input) Control_from_trap :: u32 where "Control_from_trap \<equiv> HANLDE_TRAP_INT"
abbreviation (input) Control_from_tlbr :: u32 where "Control_from_tlbr \<equiv> HANLDE_TLB_READ"
abbreviation (input) Control_from_tlbwi :: u32 where "Control_from_tlbwi \<equiv> HANLDE_TLB_WRITEI"
abbreviation (input) Control_from_tlbwr :: u32 where "Control_from_tlbwr \<equiv> HANLDE_TLB_WRITE"
abbreviation (input) Control_from_tlbp :: u32 where "Control_from_tlbp \<equiv> HANLDE_TLB_PROBE"
abbreviation (input) Control_from_syscall :: u32 where "Control_from_syscall \<equiv> HANLDE_SYSCALL_INT"
abbreviation (input) Control_from_break :: u32 where "Control_from_break \<equiv> HANLDE_BR"
abbreviation (input) Control_from_EXT_INT :: u32 where "Control_from_EXT_INT \<equiv> HANLDE_EXTERNAL_INT"
abbreviation (input) COntrol_from_RI :: u32 where "COntrol_from_RI \<equiv> EXP_RI"
abbreviation (input) Control_from_ENTRYHI :: u32 where "Control_from_ENTRYHI \<equiv> HANDLE_ASID_CHANGE"
abbreviation (input) Control_from_compare :: u32 where "Control_from_compare \<equiv> HANDLE_Compare_Write"
abbreviation (input) Control_from_countRead :: u32 where "Control_from_countRead \<equiv> HANDLE_count_read"
abbreviation (input) Control_from_countwrite :: u32 where "Control_from_countwrite \<equiv> HANDLE_count_write"

section \<open>Encoding\<close>

definition encodeI :: "u32 \<Rightarrow> u32 \<Rightarrow> u32 \<Rightarrow> u32 \<Rightarrow> u32" where
  "encodeI op rs rt imm =
     push_bit 26 (op AND 0x3f) OR push_bit 21 (rs AND 0x1f) OR push_bit 16 (rt AND 0x1f) OR (imm AND 0xffff)"

definition encodeR :: "u32 \<Rightarrow> u32 \<Rightarrow> u32 \<Rightarrow> u32 \<Rightarrow> u32 \<Rightarrow> u32 \<Rightarrow> u32" where
  "encodeR op rs rt rd sa func =
     push_bit 26 (op AND 0x3f) OR push_bit 21 (rs AND 0x1f) OR push_bit 16 (rt AND 0x1f)
     OR push_bit 11 (rd AND 0x1f) OR push_bit 6 (sa AND 0x1f) OR (func AND 0x3f)"

section \<open>Logging and the program counter\<close>

definition add_Log :: "u32 list" where
  "add_Log =
     [encodeI OPCODE_ADDIU 0 TEMP1 Control_from_LogWrite,
      encodeI OPCODE_SD BASE_REG TEMP1 Control_Mark,
      encodeI OPCODE_LD BASE_REG C_LABEL_REG C_FUNC_CALL_OFFSET,
      encodeR OPCODE_ZERO C_LABEL_REG 0 RET_ADDR_REG 0 9,
      0]"

definition update_pc :: "u32 list" where
  "update_pc =
     [encodeI OPCODE_ADDI 0 TEMP1 4,
      encodeR OPCODE_SPECIAL2 BASE_REG TEMP1 0 0 OPCODE_SAAD]"

definition checking_previlige :: "u32 list" where
  "checking_previlige =
     [encodeI OPCODE_LD BASE_REG TEMP1 ((BaseCP + (64 * 12)) + (8 * 0)),
      encodeI OPCODE_ANDI TEMP1 TEMP2 0x1E,
      encodeI 14 TEMP2 TEMP2 0x10,
      encodeI OPCODE_BNE 0 TEMP2 6,
      0,
      encodeI OPCODE_ADDIU 0 TEMP3 COntrol_from_RI,
      encodeI OPCODE_SD BASE_REG TEMP3 Control_Mark,
      encodeI OPCODE_LD BASE_REG C_LABEL_REG C_FUNC_CALL_OFFSET,
      encodeR OPCODE_ZERO C_LABEL_REG 0 RET_ADDR_REG 0 9,
      0]"

section \<open>Coprocessor moves\<close>

definition mfc0 :: "IInfo \<Rightarrow> u32 list" where
  "mfc0 InsP =
     (let source = ucast (R_rd InsP); dest = ucast (R_rt InsP); sel = (ucast (R_func InsP)) AND 0x07 in
      checking_previlige @
      (if (source = 9) \<and> ((sel = 0) \<or> (sel = 6))
       then [encodeR OPCODE_SPECIAL3 0 TEMP1 31 0 59,
             encodeR 0 TEMP1 TEMP1 TEMP1 0 45,
             encodeI OPCODE_ORI 0 TEMP2 3,
             encodeR OPCODE_ZERO TEMP1 TEMP2 0 0 31,
             encodeR 0 0 0 TEMP1 0 18,
             encodeI OPCODE_SD BASE_REG TEMP1 ((BaseCP + (64 * 9)) + (8 * 6)),
             encodeI OPCODE_SD BASE_REG TEMP1 ((BaseCP + (64 * 9)) + (8 * 0))]
       else []) @
      [encodeI OPCODE_LD BASE_REG TEMP1 ((BaseCP + (64 * source)) + (8 * sel)),
       encodeI OPCODE_SD BASE_REG TEMP1 (BaseGP + (8 * dest))])"

definition mtc0_index_random :: "u32 \<Rightarrow> u32 \<Rightarrow> u32 \<Rightarrow> u32 list" where
  "mtc0_index_random source dest sel =
     (if sel = 0
      then [encodeI OPCODE_LD BASE_REG TEMP1 (BaseGP + (8 * source)),
            encodeI OPCODE_ADDI 0 TEMP2 0x003f,
            encodeR OPCODE_ZERO TEMP2 TEMP1 TEMP1 0 36,
            encodeI OPCODE_SD BASE_REG TEMP1 ((BaseCP + (64 * dest)) + (8 * sel))]
      else [encodeI OPCODE_LD BASE_REG TEMP1 (BaseGP + (8 * source)),
            encodeI OPCODE_SD BASE_REG TEMP1 ((BaseCP + (64 * dest)) + (8 * sel))])"

definition mtc0_entryLo :: "u32 \<Rightarrow> u32 \<Rightarrow> u32 \<Rightarrow> u32 list" where
  "mtc0_entryLo source dest sel =
     [encodeI OPCODE_LD BASE_REG TEMP1 (BaseGP + (8 * source))] @
     (if sel = 0
      then [encodeR OPCODE_SPECIAL3 0 TEMP1 31 30 OPCODE_INS,
            encodeR OPCODE_SPECIAL3 0 TEMP1 31 0 OPCODE_DINSU]
      else []) @
     [encodeI OPCODE_SD BASE_REG TEMP1 ((BaseCP + (64 * dest)) + (8 * sel))]"

definition mtc0_context :: "u32 \<Rightarrow> u32 \<Rightarrow> u32 \<Rightarrow> u32 list" where
  "mtc0_context source dest sel =
     (if sel = 0
      then [encodeI OPCODE_LD BASE_REG TEMP1 (BaseGP + (8 * source)),
            encodeI OPCODE_LUI 0 TEMP2 0xffff,
            encodeI OPCODE_ADDI TEMP2 TEMP2 0xfff0,
            encodeR OPCODE_ZERO 0 TEMP2 TEMP2 32 60,
            encodeR OPCODE_ZERO 0 TEMP2 TEMP2 32 63,
            encodeR OPCODE_ZERO TEMP2 TEMP1 TEMP1 0 36,
            encodeI OPCODE_SD BASE_REG TEMP1 ((BaseCP + (64 * dest)) + (8 * sel))]
      else [encodeI OPCODE_LD BASE_REG TEMP1 (BaseGP + (8 * source)),
            encodeI OPCODE_SD BASE_REG TEMP1 ((BaseCP + (64 * dest)) + (8 * sel))])"

definition mtc0_pagemask :: "u32 \<Rightarrow> u32 \<Rightarrow> u32 \<Rightarrow> u32 list" where
  "mtc0_pagemask source dest sel =
     [encodeI OPCODE_LD BASE_REG TEMP1 (BaseGP + (8 * source))] @
     (if sel = 0
      then [encodeR OPCODE_ZERO 0 TEMP1 TEMP2 13 OPCODE_SRL,
            encodeR OPCODE_SPECIAL3 TEMP2 TEMP1 28 13 OPCODE_DINS]
      else if sel = 1
      then [encodeR OPCODE_SPECIAL3 0 TEMP1 28 0 OPCODE_DINS]
      else []) @
     [encodeI OPCODE_SD BASE_REG TEMP1 ((BaseCP + (64 * dest)) + (8 * sel))]"

definition mtc0_wired :: "u32 \<Rightarrow> u32 \<Rightarrow> u32 \<Rightarrow> u32 list" where
  "mtc0_wired source dest sel =
     (if sel = 0
      then [encodeI OPCODE_LD BASE_REG TEMP1 (BaseGP + (8 * source)),
            encodeI OPCODE_ADDI 0 TEMP2 0x003f,
            encodeR OPCODE_ZERO TEMP2 TEMP1 TEMP1 0 36,
            encodeI OPCODE_SD BASE_REG TEMP1 ((BaseCP + (64 * dest)) + (8 * sel)),
            encodeI OPCODE_SD BASE_REG TEMP2 ((BaseCP + (64 * 1)) + (8 * sel))]
      else [encodeI OPCODE_LD BASE_REG TEMP1 (BaseGP + (8 * source)),
            encodeI OPCODE_SD BASE_REG TEMP1 ((BaseCP + (64 * dest)) + (8 * sel))])"

definition mtc0_hwrena :: "u32 \<Rightarrow> u32 \<Rightarrow> u32 \<Rightarrow> u32 list" where
  "mtc0_hwrena source dest sel =
     (if sel = 0
      then [encodeI OPCODE_LD BASE_REG TEMP1 (BaseGP + (8 * source)),
            encodeI OPCODE_LUI 0 TEMP2 0x0,
            encodeI OPCODE_ADDI TEMP2 TEMP2 0x003f,
            encodeR OPCODE_ZERO TEMP2 TEMP1 TEMP1 0 36,
            encodeR OPCODE_ZERO 0 TEMP1 TEMP1 32 60,
            encodeR OPCODE_ZERO 0 TEMP1 TEMP1 32 63,
            encodeI OPCODE_SD BASE_REG TEMP1 ((BaseCP + (64 * dest)) + (8 * sel))]
      else [encodeI OPCODE_LD BASE_REG TEMP1 (BaseGP + (8 * source)),
            encodeI OPCODE_SD BASE_REG TEMP1 ((BaseCP + (64 * dest)) + (8 * sel))])"

definition mtc0_count :: "u32 \<Rightarrow> u32 \<Rightarrow> u32 \<Rightarrow> u32 list" where
  "mtc0_count source dest sel =
     (if sel = 0
      then [encodeI OPCODE_LD BASE_REG TEMP1 (BaseGP + (8 * source)),
            encodeR OPCODE_ZERO 0 TEMP1 TEMP1 0 OPCODE_DSLL32,
            encodeR OPCODE_ZERO 0 TEMP1 TEMP1 0 OPCODE_DSRL32,
            encodeI OPCODE_SD BASE_REG TEMP1 ((BaseCP + (64 * dest)) + (8 * sel)),
            encodeI OPCODE_ADDIU 0 TEMP3 Control_from_countwrite,
            encodeI OPCODE_SD BASE_REG TEMP3 Control_Mark,
            encodeI OPCODE_LD BASE_REG C_LABEL_REG C_FUNC_CALL_OFFSET,
            encodeR OPCODE_ZERO C_LABEL_REG 0 RET_ADDR_REG 0 9,
            0]
      else if sel = 7
      then [encodeI OPCODE_LD BASE_REG TEMP1 (BaseGP + (8 * source)),
            encodeI OPCODE_LUI 0 TEMP2 0xb800,
            encodeR OPCODE_ZERO TEMP2 TEMP1 TEMP1 0 37,
            encodeI OPCODE_SD BASE_REG TEMP1 ((BaseCP + (64 * dest)) + (8 * sel)),
            encodeI OPCODE_LD BASE_REG TEMP1 ((BaseCP + (64 * 9)) + (8 * 7)),
            encodeI OPCODE_LD BASE_REG TEMP3 ((BaseCP + (64 * 12)) + (8 * 1)),
            encodeI OPCODE_ANDI TEMP1 TEMP2 0x70,
            encodeR OPCODE_ZERO 0 TEMP2 TEMP2 25 56,
            encodeR OPCODE_ZERO TEMP2 TEMP3 TEMP3 0 37,
            encodeI OPCODE_ANDI TEMP1 TEMP2 0x380,
            encodeR OPCODE_ZERO 0 TEMP2 TEMP2 19 56,
            encodeR OPCODE_ZERO TEMP2 TEMP3 TEMP3 0 37,
            encodeI OPCODE_SD BASE_REG TEMP3 ((BaseCP + (64 * 12)) + (8 * 1))]
      else [encodeI OPCODE_LD BASE_REG TEMP1 (BaseGP + (8 * source)),
            encodeI OPCODE_SD BASE_REG TEMP1 ((BaseCP + (64 * dest)) + (8 * sel))])"

definition mtc0_entryHi :: "u32 \<Rightarrow> u32 \<Rightarrow> u32 \<Rightarrow> u32 list" where
  "mtc0_entryHi source dest sel =
     [encodeI OPCODE_LD BASE_REG TEMP1 (BaseGP + (8 * source))] @
     (if sel = 0
      then [encodeR OPCODE_SPECIAL3 0 TEMP1 32 17 OPCODE_DINSU,
            encodeR OPCODE_SPECIAL3 0 TEMP1 12 8 OPCODE_DINS]
      else []) @
     [encodeI OPCODE_SD BASE_REG TEMP1 ((BaseCP + (64 * dest)) + (8 * sel)),
      encodeI OPCODE_ADDIU 0 TEMP1 Control_from_ENTRYHI,
      encodeI OPCODE_SD BASE_REG TEMP1 Control_Mark,
      encodeI OPCODE_LD BASE_REG C_LABEL_REG C_FUNC_CALL_OFFSET,
      encodeR OPCODE_ZERO C_LABEL_REG 0 RET_ADDR_REG 0 9,
      0]"

definition mtc0_compare :: "u32 \<Rightarrow> u32 \<Rightarrow> u32 \<Rightarrow> u32 list" where
  "mtc0_compare source dest sel =
     (if sel = 0
      then [encodeI OPCODE_LD BASE_REG TEMP1 ((BaseCP + (64 * 13)) + (8 * 0)),
            encodeI OPCODE_LUI 0 TEMP2 0xffff,
            encodeI OPCODE_ADDI TEMP2 TEMP2 0x7fff,
            encodeR OPCODE_ZERO TEMP2 TEMP1 TEMP1 0 36,
            encodeI OPCODE_SD BASE_REG TEMP1 ((BaseCP + (64 * 13)) + (8 * 0)),
            encodeI OPCODE_LD BASE_REG TEMP1 (BaseGP + (8 * source)),
            encodeR OPCODE_ZERO 0 TEMP1 TEMP1 0 OPCODE_DSLL32,
            encodeR OPCODE_ZERO 0 TEMP1 TEMP1 0 OPCODE_DSRL32,
            encodeI OPCODE_SD BASE_REG TEMP1 ((BaseCP + (64 * dest)) + (8 * sel)),
            encodeI OPCODE_ADDIU 0 TEMP3 Control_from_compare,
            encodeI OPCODE_SD BASE_REG TEMP3 Control_Mark,
            encodeI OPCODE_LD BASE_REG C_LABEL_REG C_FUNC_CALL_OFFSET,
            encodeR OPCODE_ZERO C_LABEL_REG 0 RET_ADDR_REG 0 9,
            0]
      else [encodeI OPCODE_LD BASE_REG TEMP1 (BaseGP + (8 * source)),
            encodeI OPCODE_SD BASE_REG TEMP1 ((BaseCP + (64 * dest)) + (8 * sel))])"

definition mtc0_status :: "u32 \<Rightarrow> u32 \<Rightarrow> u32 \<Rightarrow> u32 list" where
  "mtc0_status source dest sel =
     (if sel = 0
      then [encodeI OPCODE_LD BASE_REG TEMP1 (BaseGP + (8 * source)),
            encodeI OPCODE_LUI 0 TEMP2 0x50f8,
            encodeI OPCODE_ADDI TEMP2 TEMP2 0xffff,
            encodeR OPCODE_ZERO TEMP2 TEMP1 TEMP1 0 36,
            encodeR OPCODE_ZERO 0 TEMP1 TEMP1 32 60,
            encodeR OPCODE_ZERO 0 TEMP1 TEMP1 32 63,
            encodeI OPCODE_SD BASE_REG TEMP1 ((BaseCP + (64 * dest)) + (8 * sel))]
      else if sel = 1
      then [encodeI OPCODE_LD BASE_REG TEMP1 (BaseGP + (8 * source)),
            encodeI OPCODE_LUI 0 TEMP2 0xfc00,
            encodeI OPCODE_ADDI TEMP2 TEMP2 0x0000,
            encodeR OPCODE_ZERO TEMP2 TEMP1 TEMP1 0 36,
            encodeR OPCODE_ZERO 0 TEMP1 TEMP1 32 60,
            encodeR OPCODE_ZERO 0 TEMP1 TEMP1 32 63,
            encodeI OPCODE_SD BASE_REG TEMP1 ((BaseCP + (64 * dest)) + (8 * sel))]
      else if sel = 2
      then [encodeI OPCODE_SD BASE_REG 0 ((BaseCP + (64 * dest)) + (8 * sel))]
      else [encodeI OPCODE_LD BASE_REG TEMP1 (BaseGP + (8 * source)),
            encodeI OPCODE_SD BASE_REG TEMP1 ((BaseCP + (64 * dest)) + (8 * sel))])"

definition mtc0_cause :: "u32 \<Rightarrow> u32 \<Rightarrow> u32 \<Rightarrow> u32 list" where
  "mtc0_cause source dest sel =
     (if sel = 0
      then [encodeI OPCODE_LD BASE_REG TEMP1 (BaseGP + (8 * source)),
            encodeI OPCODE_LUI 0 TEMP2 0xfcc0,
            encodeI OPCODE_ADDI TEMP2 TEMP2 0xff7c,
            encodeR OPCODE_ZERO TEMP2 TEMP1 TEMP1 0 36,
            encodeR OPCODE_ZERO 0 TEMP1 TEMP1 32 60,
            encodeR OPCODE_ZERO 0 TEMP1 TEMP1 32 63,
            encodeI OPCODE_SD BASE_REG TEMP1 ((BaseCP + (64 * dest)) + (8 * sel))]
      else [encodeI OPCODE_LD BASE_REG TEMP1 (BaseGP + (8 * source)),
            encodeI OPCODE_SD BASE_REG TEMP1 ((BaseCP + (64 * dest)) + (8 * sel))])"

definition mtc0_ebase :: "u32 \<Rightarrow> u32 \<Rightarrow> u32 \<Rightarrow> u32 list" where
  "mtc0_ebase source dest sel =
     (if sel = 0
      then []
      else if sel = 1
      then [encodeI OPCODE_LD BASE_REG TEMP1 (BaseGP + (8 * source)),
            encodeI OPCODE_LD BASE_REG TEMP2 ((BaseCP + (64 * dest)) + (8 * sel)),
            encodeR OPCODE_SPECIAL3 TEMP2 TEMP1 9 0 OPCODE_INS,
            encodeI OPCODE_LUI 0 TEMP2 0xbfff,
            encodeI OPCODE_ADDI TEMP2 TEMP2 0xf3ff,
            encodeR OPCODE_ZERO TEMP2 TEMP1 TEMP1 0 36,
            encodeI OPCODE_LUI 0 TEMP2 0x8000,
            encodeI OPCODE_ADDI TEMP2 TEMP2 0x0000,
            encodeR OPCODE_ZERO TEMP2 TEMP1 TEMP1 0 37,
            encodeR OPCODE_ZERO 0 TEMP1 TEMP1 32 60,
            encodeR OPCODE_ZERO 0 TEMP1 TEMP1 32 63,
            encodeI OPCODE_SD BASE_REG TEMP1 ((BaseCP + (64 * dest)) + (8 * sel))]
      else [encodeI OPCODE_LD BASE_REG TEMP1 (BaseGP + (8 * source)),
            encodeI OPCODE_SD BASE_REG TEMP1 ((BaseCP + (64 * dest)) + (8 * sel))])"

definition mtc0_xcontext :: "u32 \<Rightarrow> u32 \<Rightarrow> u32 \<Rightarrow> u32 list" where
  "mtc0_xcontext source dest sel =
     (if sel = 0
      then [encodeI OPCODE_LD BASE_REG TEMP1 (BaseGP + (8 * source)),
            encodeI OPCODE_LUI 0 TEMP2 0xffff,
            encodeI OPCODE_ADDI TEMP2 TEMP2 0xfff0,
            encodeR OPCODE_ZERO 0 TEMP2 TEMP2 32 60,
            encodeR OPCODE_ZERO 0 TEMP2 TEMP2 32 63,
            encodeR OPCODE_ZERO TEMP2 TEMP1 TEMP1 0 36,
            encodeI OPCODE_SD BASE_REG TEMP1 ((BaseCP + (64 * dest)) + (8 * sel))]
      else [encodeI OPCODE_LD BASE_REG TEMP1 (BaseGP + (8 * source)),
            encodeI OPCODE_SD BASE_REG TEMP1 ((BaseCP + (64 * dest)) + (8 * sel))])"

definition mtc0_other :: "u32 \<Rightarrow> u32 \<Rightarrow> u32 \<Rightarrow> u32 list" where
  "mtc0_other source dest sel =
     [encodeI OPCODE_LD BASE_REG TEMP1 (BaseGP + (8 * source)),
      encodeI OPCODE_SD BASE_REG TEMP1 ((BaseCP + (64 * dest)) + (8 * sel))]"

definition mtc0 :: "IInfo \<Rightarrow> u32 list" where
  "mtc0 InsP =
     (let source = ucast (R_rt InsP); dest = ucast (R_rd InsP); sel = ucast (R_func InsP) AND 0x07 in
      checking_previlige @
      (if dest = 0 \<or> dest = 1 then mtc0_index_random source dest sel
       else if dest = 2 \<or> dest = 3 then mtc0_entryLo source dest sel
       else if dest = 4 then mtc0_context source dest sel
       else if dest = 5 then mtc0_pagemask source dest sel
       else if dest = 6 then mtc0_wired source dest sel
       else if dest = 7 then mtc0_hwrena source dest sel
       else if dest = 9 then mtc0_count source dest sel
       else if dest = 10 then mtc0_entryHi source dest sel
       else if dest = 11 then mtc0_compare source dest sel
       else if dest = 12 then mtc0_status source dest sel
       else if dest = 13 then mtc0_cause source dest sel
       else if dest = 15 then mtc0_ebase source dest sel
       else if dest = 20 then mtc0_xcontext source dest sel
       else mtc0_other source dest sel))"

section \<open>TLB instructions and interrupt enable\<close>

definition tlbr :: "u32 list" where
  "tlbr =
     checking_previlige @
     [encodeI OPCODE_ADDIU 0 TEMP3 Control_from_tlbr,
      encodeI OPCODE_SD BASE_REG TEMP3 Control_Mark,
      encodeI OPCODE_LD BASE_REG C_LABEL_REG C_FUNC_CALL_OFFSET,
      encodeR OPCODE_ZERO C_LABEL_REG 0 RET_ADDR_REG 0 9,
      0]"

definition tlbwi :: "u32 list" where
  "tlbwi =
     checking_previlige @
     [encodeI OPCODE_ADDIU 0 TEMP3 Control_from_tlbwi,
      encodeI OPCODE_SD BASE_REG TEMP3 Control_Mark,
      encodeI OPCODE_LD BASE_REG C_LABEL_REG C_FUNC_CALL_OFFSET,
      encodeR OPCODE_ZERO C_LABEL_REG 0 RET_ADDR_REG 0 9,
      0]"

definition tlbwr :: "u32 list" where
  "tlbwr =
     checking_previlige @
     [encodeI OPCODE_ADDIU 0 TEMP3 Control_from_tlbwr,
      encodeI OPCODE_SD BASE_REG TEMP3 Control_Mark,
      encodeI OPCODE_LD BASE_REG C_LABEL_REG C_FUNC_CALL_OFFSET,
      encodeR OPCODE_ZERO C_LABEL_REG 0 RET_ADDR_REG 0 9,
      0]"

definition tlbp :: "u32 list" where
  "tlbp =
     checking_previlige @
     [encodeI OPCODE_ADDIU 0 TEMP3 Control_from_tlbp,
      encodeI OPCODE_SD BASE_REG TEMP3 Control_Mark,
      encodeI OPCODE_LD BASE_REG C_LABEL_REG C_FUNC_CALL_OFFSET,
      encodeR OPCODE_ZERO C_LABEL_REG 0 RET_ADDR_REG 0 9,
      0]"

definition di :: "IInfo \<Rightarrow> u32 list" where
  "di InsP =
     (let sel = (ucast (R_func InsP)) AND 0x07; dest = ucast (R_rt InsP) in
      checking_previlige @
      [encodeI OPCODE_LD BASE_REG TEMP1 ((BaseCP + (64 * 12)) + (8 * sel))] @
      (if dest \<noteq> 0
       then [encodeI OPCODE_SD BASE_REG TEMP1 (BaseGP + (8 * dest))]
       else []) @
      [encodeI OPCODE_LUI 0 TEMP2 0xffff,
       encodeI OPCODE_ADDI TEMP2 TEMP2 0xfffe,
       encodeR OPCODE_ZERO TEMP2 TEMP1 TEMP1 0 36,
       encodeI OPCODE_SD BASE_REG TEMP1 ((BaseCP + (64 * 12)) + (8 * sel))])"

definition ei :: "IInfo \<Rightarrow> u32 list" where
  "ei InsP =
     (let dest = ucast (R_rt InsP); sel = (ucast (R_func InsP)) AND 0x07 in
      checking_previlige @
      [encodeI OPCODE_LD BASE_REG TEMP1 ((BaseCP + (64 * 12)) + (8 * sel))] @
      (if dest \<noteq> 0
       then [encodeI OPCODE_SD BASE_REG TEMP1 (BaseGP + (8 * dest))]
       else []) @
      [encodeI OPCODE_ORI TEMP1 TEMP1 1,
       encodeI OPCODE_SD BASE_REG TEMP1 ((BaseCP + (64 * 12)) + (8 * sel))])"

section \<open>Traps\<close>

definition trap_control :: "u32 list" where
  "trap_control =
     [encodeI OPCODE_ADDIU 0 TEMP3 Control_from_trap,
      encodeI OPCODE_SD BASE_REG TEMP3 Control_Mark,
      encodeI OPCODE_LD BASE_REG C_LABEL_REG C_FUNC_CALL_OFFSET,
      encodeR OPCODE_ZERO C_LABEL_REG 0 RET_ADDR_REG 0 9,
      0]"

definition teq_tne_R :: "IInfo \<Rightarrow> u32 list" where
  "teq_tne_R InsP =
     (let source1 = ucast (R_rs InsP); source2 = ucast (R_rt InsP) in
      [encodeI OPCODE_LD BASE_REG TEMP1 (BaseGP + (8 * source1)),
       encodeI OPCODE_LD BASE_REG TEMP2 (BaseGP + (8 * source2))] @
      (if R_func InsP = 52
       then [encodeI OPCODE_BEQ TEMP1 TEMP2 3]
       else [encodeI OPCODE_BNE TEMP1 TEMP2 3]) @
      [0,
       encodeI OPCODE_BEQ 0 0 6,
       0] @
      trap_control)"

definition tge_tgeu_tlt_tltu_R :: "IInfo \<Rightarrow> u32 list" where
  "tge_tgeu_tlt_tltu_R InsP =
     (let source1 = ucast (R_rs InsP); source2 = ucast (R_rt InsP) in
      [encodeI OPCODE_LD BASE_REG TEMP1 (BaseGP + (8 * source1)),
       encodeI OPCODE_LD BASE_REG TEMP2 (BaseGP + (8 * source2))] @
      (if R_func InsP = 48
       then [encodeR OPCODE_ZERO TEMP1 TEMP2 TEMP2 0 34]
       else if R_func InsP = 49
       then [encodeR OPCODE_ZERO TEMP1 TEMP2 TEMP2 0 35]
       else if R_func InsP = 50
       then [encodeR OPCODE_ZERO TEMP2 TEMP1 TEMP2 0 34]
       else if R_func InsP = 51
       then [encodeR OPCODE_ZERO TEMP2 TEMP1 TEMP2 0 35]
       else []) @
      [encodeI OPCODE_BGEZ TEMP2 1 3,
       0,
       encodeI OPCODE_BEQ 0 0 6,
       0] @
      trap_control)"

definition teqi_tnei_I :: "IInfo \<Rightarrow> u32 list" where
  "teqi_tnei_I InsP =
     (let source1 = ucast (I_rs InsP) in
      [encodeI OPCODE_LD BASE_REG TEMP1 (BaseGP + (8 * source1)),
       encodeI OPCODE_ADDI 0 TEMP2 (ucast (I_imm InsP))] @
      (if I_rt InsP = 12
       then [encodeI OPCODE_BEQ TEMP1 TEMP2 3]
       else [encodeI OPCODE_BNE TEMP1 TEMP2 3]) @
      [0,
       encodeI OPCODE_BEQ 0 0 6,
       0] @
      trap_control)"

definition tgei_tgeiu_tlti_tltiu_I :: "IInfo \<Rightarrow> u32 list" where
  "tgei_tgeiu_tlti_tltiu_I InsP =
     (let source1 = ucast (I_rs InsP) in
      [encodeI OPCODE_LD BASE_REG TEMP1 (BaseGP + (8 * source1)),
       encodeI OPCODE_ADDI 0 TEMP2 (ucast (I_imm InsP))] @
      (if I_rt InsP = 8
       then [encodeR OPCODE_ZERO TEMP1 TEMP2 TEMP2 0 34]
       else if I_rt InsP = 9
       then [encodeR OPCODE_ZERO TEMP1 TEMP2 TEMP2 0 35]
       else if I_rt InsP = 10
       then [encodeR OPCODE_ZERO TEMP2 TEMP1 TEMP2 0 34]
       else if I_rt InsP = 11
       then [encodeR OPCODE_ZERO TEMP2 TEMP1 TEMP2 0 35]
       else []) @
      [encodeI OPCODE_BGEZ TEMP2 1 3,
       0,
       encodeI OPCODE_BEQ 0 0 6,
       0] @
      trap_control)"

section \<open>Arithmetic, shifts, multiplication and bit fields\<close>

definition unprev_R :: "IInfo \<Rightarrow> u32 list" where
  "unprev_R InsP =
     (let source1 = ucast (R_rs InsP); source2 = ucast (R_rt InsP); dest = ucast (R_rd InsP) in
      (if dest \<noteq> 0
       then [encodeI OPCODE_LD BASE_REG TEMP1 (BaseGP + (8 * source1)),
             encodeI OPCODE_LD BASE_REG TEMP2 (BaseGP + (8 * source2)),
             encodeI OPCODE_LD BASE_REG TEMP3 (BaseGP + (8 * dest)),
             encodeR (ucast (opcode InsP)) TEMP1 TEMP2 TEMP3 (ucast (R_shft InsP)) (ucast (R_func InsP)),
             encodeI OPCODE_SD BASE_REG TEMP3 (BaseGP + (8 * dest))]
       else [0]))"

definition shift_R :: "IInfo \<Rightarrow> u32 list" where
  "shift_R InsP =
     (let source1 = ucast (R_rt InsP); dest = ucast (R_rd InsP) in
      [encodeI OPCODE_LD BASE_REG TEMP1 (BaseGP + (8 * source1)),
       encodeR (ucast (opcode InsP)) (ucast (R_rs InsP)) TEMP1 TEMP2 (ucast (R_shft InsP)) (ucast (R_func InsP)),
       encodeI OPCODE_SD BASE_REG TEMP2 (BaseGP + (8 * dest))])"

definition mulDiv_R :: "IInfo \<Rightarrow> u32 list" where
  "mulDiv_R InsP =
     (let source1 = ucast (R_rs InsP); source2 = ucast (R_rt InsP) in
      [encodeI OPCODE_LD BASE_REG TEMP1 (BaseGP + (8 * source1)),
       encodeI OPCODE_LD BASE_REG TEMP2 (BaseGP + (8 * source2)),
       encodeR (ucast (opcode InsP)) TEMP1 TEMP2 (ucast (R_rd InsP)) (ucast (R_shft InsP)) (ucast (R_func InsP)),
       encodeR 0 0 0 TEMP2 0 OPCODE_MFLO,
       encodeR 0 0 0 TEMP1 0 OPCODE_MFHI,
       encodeI OPCODE_SD BASE_REG TEMP2 (BaseGP + (8 * REG_LO)),
       encodeI OPCODE_SD BASE_REG TEMP1 (BaseGP + (8 * REG_HI))])"

definition madd :: "IInfo \<Rightarrow> u32 list" where
  "madd InsP =
     (let source1 = ucast (R_rs InsP); source2 = ucast (R_rt InsP) in
      [encodeI OPCODE_LD BASE_REG TEMP1 (BaseGP + (8 * REG_LO)),
       encodeR OPCODE_ZERO 0 TEMP1 TEMP1 0 60,
       encodeR OPCODE_ZERO 0 TEMP1 TEMP1 0 62,
       encodeI OPCODE_LD BASE_REG TEMP2 (BaseGP + (8 * REG_HI)),
       encodeR OPCODE_ZERO 0 TEMP2 TEMP2 0 60,
       encodeR OPCODE_ZERO TEMP2 TEMP1 TEMP3 0 37,
       encodeI OPCODE_LD BASE_REG TEMP1 (BaseGP + (8 * source1)),
       encodeI OPCODE_LD BASE_REG TEMP2 (BaseGP + (8 * source2)),
       encodeR OPCODE_ZERO TEMP2 TEMP1 0 0 24,
       encodeR 0 0 0 TEMP1 0 OPCODE_MFLO,
       encodeR OPCODE_ZERO 0 TEMP1 TEMP1 0 60,
       encodeR OPCODE_ZERO 0 TEMP1 TEMP1 0 62,
       encodeR 0 0 0 TEMP2 0 OPCODE_MFHI,
       encodeR OPCODE_ZERO 0 TEMP2 TEMP2 0 60,
       encodeR OPCODE_ZERO TEMP2 TEMP1 TEMP1 0 37] @
      (if R_func InsP = 0
       then [encodeR OPCODE_ZERO TEMP3 TEMP1 TEMP1 0 44]
       else if R_func InsP = 1
       then [encodeR OPCODE_ZERO TEMP3 TEMP1 TEMP1 0 45]
       else if R_func InsP = 4
       then [encodeR OPCODE_ZERO TEMP3 TEMP1 TEMP1 0 46]
       else if R_func InsP = 5
       then [encodeR OPCODE_ZERO TEMP3 TEMP1 TEMP1 0 47]
       else []) @
      [encodeR OPCODE_ZERO 0 TEMP1 TEMP2 0 63,
       encodeI OPCODE_SD BASE_REG TEMP2 (BaseGP + (8 * REG_HI)),
       encodeR OPCODE_ZERO 0 TEMP1 TEMP1 0 60,
       encodeR OPCODE_ZERO 0 TEMP1 TEMP1 0 63,
       encodeI OPCODE_SD BASE_REG TEMP1 (BaseGP + (8 * REG_LO))])"

definition moveFromLoHi_R :: "IInfo \<Rightarrow> u32 list" where
  "moveFromLoHi_R InsP =
     (let dest = ucast (R_rd InsP) in
      (if R_func InsP = 16
       then [encodeI OPCODE_LD BASE_REG TEMP1 (BaseGP + (8 * REG_HI))] @
            (if dest \<noteq> 0
             then [encodeI OPCODE_SD BASE_REG TEMP1 (BaseGP + (8 * dest))]
             else [])
       else []) @
      (if R_func InsP = 18
       then [encodeI OPCODE_LD BASE_REG TEMP1 (BaseGP + (8 * REG_LO))] @
            (if dest \<noteq> 0
             then [encodeI OPCODE_SD BASE_REG TEMP1 (BaseGP + (8 * dest))]
             else [])
       else []))"

definition moveToLoHi_R :: "IInfo \<Rightarrow> u32 list" where
  "moveToLoHi_R InsP =
     (let source1 = ucast (R_rs InsP) in
      (if R_func InsP = 16
       then [encodeI OPCODE_LD BASE_REG TEMP1 (BaseGP + (8 * source1)),
             encodeI OPCODE_SD BASE_REG TEMP1 (BaseGP + (8 * REG_HI))]
       else []) @
      (if R_func InsP = 18
       then [encodeI OPCODE_LD BASE_REG TEMP1 (BaseGP + (8 * source1)),
             encodeI OPCODE_SD BASE_REG TEMP1 (BaseGP + (8 * REG_LO))]
       else []))"

definition ext_R :: "IInfo \<Rightarrow> u32 list" where
  "ext_R InsP =
     (let source = ucast (R_rs InsP); dest = ucast (R_rt InsP) in
      [encodeI OPCODE_LD BASE_REG TEMP1 (BaseGP + (8 * source)),
       encodeR (ucast (opcode InsP)) TEMP1 TEMP2 (ucast (R_rd InsP)) (ucast (R_shft InsP)) (ucast (R_func InsP)),
       encodeI OPCODE_SD BASE_REG TEMP2 (BaseGP + (8 * dest))])"

definition ins_R :: "IInfo \<Rightarrow> u32 list" where
  "ins_R InsP =
     (let source = ucast (R_rs InsP); dest = ucast (R_rt InsP) in
      [encodeI OPCODE_LD BASE_REG TEMP1 (BaseGP + (8 * source)),
       encodeI OPCODE_LD BASE_REG TEMP2 (BaseGP + (8 * dest)),
       encodeR (ucast (opcode InsP)) TEMP1 TEMP2 (ucast (R_rd InsP)) (ucast (R_shft InsP)) (ucast (R_func InsP)),
       encodeI OPCODE_SD BASE_REG TEMP2 (BaseGP + (8 * dest))])"

definition unprev_I :: "IInfo \<Rightarrow> u32 list" where
  "unprev_I InsP =
     (let source1 = ucast (I_rs InsP); dest = ucast (I_rt InsP) in
      (if opcode InsP \<noteq> 15
       then [encodeI OPCODE_LD BASE_REG TEMP1 (BaseGP + (8 * source1)),
             encodeI (ucast (opcode InsP)) TEMP1 TEMP2 (ucast (I_imm InsP)),
             encodeI OPCODE_SD BASE_REG TEMP2 (BaseGP + (8 * dest))]
       else [encodeI OPCODE_LD BASE_REG TEMP1 (BaseGP + (8 * source1)),
             encodeI (ucast (opcode InsP)) 0 TEMP2 (ucast (I_imm InsP)),
             encodeI OPCODE_SD BASE_REG TEMP2 (BaseGP + (8 * dest))]))"

section \<open>Loads and stores\<close>

definition common_in_LS :: "IInfo \<Rightarrow> u32 \<Rightarrow> u32 list" where
  "common_in_LS InsP store =
     (let rt = ucast (I_rt InsP); rs = ucast (I_rs InsP) in
      [encodeI OPCODE_ADDIU 0 TEMP2 store,
       encodeI OPCODE_SD BASE_REG TEMP2 OP_Indicator] @
      (if store = 1
       then [encodeI OPCODE_LD BASE_REG TEMP1 (BaseGP + (8 * rt)),
             encodeI OPCODE_SD BASE_REG TEMP1 LDST_Data]
       else []) @
      [encodeI OPCODE_LD BASE_REG TEMP1 (BaseGP + (8 * rs)),
       encodeI OPCODE_DADDIU TEMP1 TEMP1 (ucast (I_imm InsP)),
       encodeI OPCODE_SD BASE_REG TEMP1 Addr_Store,
       encodeI OPCODE_ADDIU 0 TEMP2 Control_from_LS,
       encodeI OPCODE_SD BASE_REG TEMP2 Control_Mark,
       encodeI OPCODE_LD BASE_REG C_LABEL_REG C_FUNC_CALL_OFFSET,
       encodeR OPCODE_ZERO C_LABEL_REG 0 RET_ADDR_REG 0 9,
       0,
       encodeI OPCODE_LD BASE_REG TEMP1 Trans_Addr,
       encodeI OPCODE_LD BASE_REG TEMP2 (BaseGP + (8 * rt))])"

definition unprev_I_Load :: "IInfo \<Rightarrow> u32 list" where
  "unprev_I_Load InsP =
     (let store = 0 in
      (if I_rt InsP = 0
       then [0]
       else common_in_LS InsP store @
        [encodeI (ucast (opcode InsP)) TEMP1 TEMP2 0,
         encodeI OPCODE_SD BASE_REG TEMP2 (BaseGP + (8 * (ucast (I_rt InsP))))]))"

definition unprev_I_Store :: "IInfo \<Rightarrow> u32 list" where
  "unprev_I_Store InsP =
     (let store = 1 in
      common_in_LS InsP store @
      [encodeI (ucast (opcode InsP)) TEMP1 TEMP2 0])"

definition common_in_sc :: "IInfo \<Rightarrow> u32 list" where
  "common_in_sc InsP =
     [encodeI OPCODE_LD BASE_REG TEMP3 LLBIT_Flag,
      encodeI OPCODE_BEQ 0 TEMP3 14,
      encodeR OPCODE_ZERO 0 0 TEMP1 0 OPCODE_ADD,
      encodeI OPCODE_LD BASE_REG TEMP1 (BaseGP + (8 * (ucast (I_rs InsP)))),
      encodeI OPCODE_LD BASE_REG TEMP2 Addr_Store,
      encodeI OPCODE_DADDIU TEMP1 TEMP1 (ucast (I_imm InsP)),
      encodeI OPCODE_BNE TEMP1 TEMP2 9,
      encodeR OPCODE_ZERO 0 0 TEMP1 0 OPCODE_ADD,
      encodeI OPCODE_LD BASE_REG TEMP3 Trans_Addr,
      encodeI OPCODE_LD BASE_REG TEMP1 LL_Data]"

definition sc :: "IInfo \<Rightarrow> u32 list" where
  "sc InsP =
     common_in_sc InsP @
     [encodeI OPCODE_LW TEMP3 TEMP2 0,
      encodeI OPCODE_BNE TEMP1 TEMP2 4,
      encodeR OPCODE_ZERO 0 0 TEMP1 0 OPCODE_ADD,
      encodeI OPCODE_LD BASE_REG TEMP2 (BaseGP + (8 * (ucast (I_rt InsP)))),
      encodeI OPCODE_SW TEMP3 TEMP2 0,
      encodeI OPCODE_ADDIU 0 TEMP1 1,
      encodeI OPCODE_SD BASE_REG TEMP1 (BaseGP + (8 * (ucast (I_rt InsP)))),
      encodeI OPCODE_SD BASE_REG 0 LLBIT_Flag]"

definition scd :: "IInfo \<Rightarrow> u32 list" where
  "scd InsP =
     common_in_sc InsP @
     [encodeI OPCODE_LD TEMP3 TEMP2 0,
      encodeI OPCODE_BNE TEMP1 TEMP2 4,
      encodeR OPCODE_ZERO 0 0 TEMP1 0 OPCODE_ADD,
      encodeI OPCODE_LD BASE_REG TEMP2 (BaseGP + (8 * (ucast (I_rt InsP)))),
      encodeI OPCODE_SD TEMP3 TEMP2 0,
      encodeI OPCODE_ADDIU 0 TEMP1 1,
      encodeI OPCODE_SD BASE_REG TEMP1 (BaseGP + (8 * (ucast (I_rt InsP)))),
      encodeI OPCODE_SD BASE_REG 0 LLBIT_Flag]"

definition common_in_ll :: "IInfo \<Rightarrow> u32 list" where
  "common_in_ll InsP =
     (let rs = ucast (I_rs InsP); rt = (ucast (I_rt InsP) :: u32) in
      [encodeI OPCODE_ADDI 0 TEMP3 1,
       encodeI OPCODE_SD BASE_REG TEMP3 LLBIT_Flag] @
      (if rt = 0
       then [0]
       else [encodeI OPCODE_ADDIU 0 TEMP2 0,
         encodeI OPCODE_SD BASE_REG TEMP2 OP_Indicator,
         encodeI OPCODE_LD BASE_REG TEMP1 (BaseGP + (8 * rs)),
         encodeI OPCODE_DADDIU TEMP1 TEMP1 (ucast (I_imm InsP)),
         encodeI OPCODE_SD BASE_REG TEMP1 Addr_Store,
         encodeI OPCODE_ADDIU 0 TEMP2 Control_from_LS,
         encodeI OPCODE_SD BASE_REG TEMP2 Control_Mark,
         encodeI OPCODE_LD BASE_REG C_LABEL_REG C_FUNC_CALL_OFFSET,
         encodeR OPCODE_ZERO C_LABEL_REG 0 RET_ADDR_REG 0 9,
         0,
         encodeI OPCODE_LD BASE_REG TEMP1 Trans_Addr]))"

definition ll :: "IInfo \<Rightarrow> u32 list" where
  "ll InsP =
     (let rt = ucast (I_rt InsP) in
      common_in_ll InsP @
      [encodeI OPCODE_LW TEMP1 TEMP2 0,
       encodeI OPCODE_SD BASE_REG TEMP2 (BaseGP + (8 * rt)),
       encodeI OPCODE_SD BASE_REG TEMP2 LL_Data])"

definition lld :: "IInfo \<Rightarrow> u32 list" where
  "lld InsP =
     (let rt = ucast (I_rt InsP) in
      common_in_ll InsP @
      [encodeI OPCODE_LD TEMP1 TEMP2 0,
       encodeI OPCODE_SD BASE_REG TEMP2 (BaseGP + (8 * rt)),
       encodeI OPCODE_SD BASE_REG TEMP2 LL_Data])"

definition saa :: "IInfo \<Rightarrow> u32 list" where
  "saa InsP =
     (let b = ucast (R_rs InsP); t = ucast (R_rt InsP) in
      [encodeI OPCODE_LD BASE_REG TEMP1 (BaseGP + (8 * b)),
       encodeI OPCODE_SD BASE_REG TEMP1 Addr_Store,
       encodeI OPCODE_ADDIU 0 TEMP2 Control_from_LS,
       encodeI OPCODE_SD BASE_REG TEMP2 Control_Mark,
       encodeI OPCODE_LD BASE_REG C_LABEL_REG C_FUNC_CALL_OFFSET,
       encodeR OPCODE_ZERO C_LABEL_REG 0 RET_ADDR_REG 0 9,
       0,
       encodeI OPCODE_LD BASE_REG TEMP1 Trans_Addr,
       encodeI OPCODE_LD BASE_REG TEMP3 (BaseGP + (8 * t)),
       encodeR OPCODE_CAVIUMADDITION TEMP1 TEMP3 (ucast (R_rd InsP)) (ucast (R_shft InsP)) (ucast (R_func InsP))])"

definition saad :: "IInfo \<Rightarrow> u32 list" where
  "saad InsP =
     (let b = ucast (R_rs InsP); t = ucast (R_rt InsP) in
      [encodeI OPCODE_LD BASE_REG TEMP1 (BaseGP + (8 * b)),
       encodeI OPCODE_SD BASE_REG TEMP1 Addr_Store,
       encodeI OPCODE_ADDIU 0 TEMP2 Control_from_LS,
       encodeI OPCODE_SD BASE_REG TEMP2 Control_Mark,
       encodeI OPCODE_LD BASE_REG C_LABEL_REG C_FUNC_CALL_OFFSET,
       encodeR OPCODE_ZERO C_LABEL_REG 0 RET_ADDR_REG 0 9,
       0,
       encodeI OPCODE_LD BASE_REG TEMP1 Trans_Addr,
       encodeI OPCODE_LD BASE_REG TEMP3 (BaseGP + (8 * t)),
       encodeR OPCODE_CAVIUMADDITION TEMP1 TEMP3 (ucast (R_rd InsP)) (ucast (R_shft InsP)) (ucast (R_func InsP))])"

section \<open>Multiplier registers\<close>

definition seqi_snei :: "IInfo \<Rightarrow> u32 list" where
  "seqi_snei InsP =
     (let source1 = ucast (R_rs InsP); dest = ucast (R_rt InsP) in
      [encodeI OPCODE_LD BASE_REG TEMP1 (BaseGP + (8 * source1)),
       encodeR (ucast (opcode InsP)) TEMP1 TEMP2 (ucast (R_rd InsP)) (ucast (R_shft InsP)) (ucast (R_func InsP)),
       encodeI OPCODE_SD BASE_REG TEMP2 (BaseGP + (8 * dest))])"

definition mtm0 :: "IInfo \<Rightarrow> u32 list" where
  "mtm0 InsP =
     (let source = ucast (R_rs InsP) in
      [encodeI OPCODE_LD BASE_REG TEMP1 (BaseGP + (8 * source)),
       encodeI OPCODE_SD BASE_REG TEMP1 (BaseGP + (8 * MPL0)),
       encodeI OPCODE_SD BASE_REG 0 (BaseGP + (8 * P0)),
       encodeI OPCODE_SD BASE_REG 0 (BaseGP + (8 * P1)),
       encodeI OPCODE_SD BASE_REG 0 (BaseGP + (8 * P2))])"

definition mtm1 :: "IInfo \<Rightarrow> u32 list" where
  "mtm1 InsP =
     (let source = ucast (R_rs InsP) in
      [encodeI OPCODE_LD BASE_REG TEMP1 (BaseGP + (8 * source)),
       encodeI OPCODE_SD BASE_REG TEMP1 (BaseGP + (8 * MPL1)),
       encodeI OPCODE_SD BASE_REG 0 (BaseGP + (8 * P0)),
       encodeI OPCODE_SD BASE_REG 0 (BaseGP + (8 * P1)),
       encodeI OPCODE_SD BASE_REG 0 (BaseGP + (8 * P2))])"

definition mtm2 :: "IInfo \<Rightarrow> u32 list" where
  "mtm2 InsP =
     (let source = ucast (R_rs InsP) in
      [encodeI OPCODE_LD BASE_REG TEMP1 (BaseGP + (8 * source)),
       encodeI OPCODE_SD BASE_REG TEMP1 (BaseGP + (8 * MPL2)),
       encodeI OPCODE_SD BASE_REG 0 (BaseGP + (8 * P0)),
       encodeI OPCODE_SD BASE_REG 0 (BaseGP + (8 * P1)),
       encodeI OPCODE_SD BASE_REG 0 (BaseGP + (8 * P2))])"

definition mtp0 :: "IInfo \<Rightarrow> u32 list" where
  "mtp0 InsP =
     (let source = ucast (R_rs InsP) in
      [encodeI OPCODE_LD BASE_REG TEMP1 (BaseGP + (8 * source)),
       encodeI OPCODE_SD BASE_REG TEMP1 (BaseGP + (8 * P0))])"

definition mtp1 :: "IInfo \<Rightarrow> u32 list" where
  "mtp1 InsP =
     (let source = ucast (R_rs InsP) in
      [encodeI OPCODE_LD BASE_REG TEMP1 (BaseGP + (8 * source)),
       encodeI OPCODE_SD BASE_REG TEMP1 (BaseGP + (8 * P1))])"

definition mtp2 :: "IInfo \<Rightarrow> u32 list" where
  "mtp2 InsP =
     (let source = ucast (R_rs InsP) in
      [encodeI OPCODE_LD BASE_REG TEMP1 (BaseGP + (8 * source)),
       encodeI OPCODE_SD BASE_REG TEMP1 (BaseGP + (8 * P2))])"

definition v3mulu :: "IInfo \<Rightarrow> u32 list" where
  "v3mulu InsP =
     [encodeI OPCODE_LD BASE_REG TEMP1 (BaseGP + (8 * MPL0)),
      encodeR OPCODE_CAVIUMADDITION TEMP1 0 0 0 8,
      encodeI OPCODE_LD BASE_REG TEMP1 (BaseGP + (8 * MPL1)),
      encodeR OPCODE_CAVIUMADDITION TEMP1 0 0 0 12,
      encodeI OPCODE_LD BASE_REG TEMP1 (BaseGP + (8 * MPL2)),
      encodeR OPCODE_CAVIUMADDITION TEMP1 0 0 0 13,
      encodeI OPCODE_LD BASE_REG TEMP1 (BaseGP + (8 * P0)),
      encodeR OPCODE_CAVIUMADDITION TEMP1 0 0 0 9,
      encodeI OPCODE_LD BASE_REG TEMP1 (BaseGP + (8 * P1)),
      encodeR OPCODE_CAVIUMADDITION TEMP1 0 0 0 10,
      encodeI OPCODE_LD BASE_REG TEMP1 (BaseGP + (8 * P2)),
      encodeR OPCODE_CAVIUMADDITION TEMP1 0 0 0 11] @
     unprev_R InsP"

section \<open>Branches\<close>

definition And_Link :: "u32 list" where
  "And_Link =
     [encodeI OPCODE_LD BASE_REG TEMP1 Block_End_PC,
      encodeI OPCODE_DADDI TEMP1 TEMP1 8,
      encodeI OPCODE_SD BASE_REG TEMP1 (BaseGP + (8 * 31))]"

definition BranchPath :: "u32 \<Rightarrow> u32 list" where
  "BranchPath imm =
     (let imm = 0xffff AND ((imm * 4) + 4) in
      [encodeI OPCODE_LD BASE_REG TEMP3 Block_End_PC,
       encodeI OPCODE_DADDI TEMP3 TEMP3 8,
       encodeI OPCODE_SD BASE_REG TEMP3 PROG_COUNTER_OFFSET,
       encodeI OPCODE_LD BASE_REG C_LABEL_REG C_FUNC_CALL_OFFSET,
       encodeR OPCODE_ZERO C_LABEL_REG 0 0 0 8,
       0,
       encodeI OPCODE_LD BASE_REG TEMP3 Block_End_PC,
       encodeI OPCODE_DADDI TEMP3 TEMP3 imm,
       encodeI OPCODE_SD BASE_REG TEMP3 PROG_COUNTER_OFFSET,
       encodeI OPCODE_LD BASE_REG C_LABEL_REG C_FUNC_CALL_OFFSET,
       encodeR OPCODE_ZERO C_LABEL_REG 0 0 0 8,
       0])"

definition BranchPath_likely :: "u32 \<Rightarrow> u32 list \<Rightarrow> u32 list" where
  "BranchPath_likely imm slot =
     (let imm = 0xffff AND ((imm * 4) + 4) in
      [encodeI OPCODE_ADDIU 0 TEMP3 Control_from_EndOfBlock,
       encodeI OPCODE_SD BASE_REG TEMP3 Control_Mark,
       encodeI OPCODE_LD BASE_REG TEMP3 Block_End_PC,
       encodeI OPCODE_DADDI TEMP3 TEMP3 8,
       encodeI OPCODE_SD BASE_REG TEMP3 PROG_COUNTER_OFFSET,
       encodeI OPCODE_LD BASE_REG C_LABEL_REG C_FUNC_CALL_OFFSET,
       encodeR OPCODE_ZERO C_LABEL_REG 0 0 0 8,
       0] @
      slot @
      [encodeI OPCODE_ADDIU 0 TEMP3 Control_from_EndOfBlock,
       encodeI OPCODE_SD BASE_REG TEMP3 Control_Mark,
       encodeI OPCODE_LD BASE_REG TEMP3 Block_End_PC,
       encodeI OPCODE_DADDI TEMP3 TEMP3 imm,
       encodeI OPCODE_SD BASE_REG TEMP3 PROG_COUNTER_OFFSET,
       encodeI OPCODE_LD BASE_REG C_LABEL_REG C_FUNC_CALL_OFFSET,
       encodeR OPCODE_ZERO C_LABEL_REG 0 0 0 8,
       0])"

definition bne_beq :: "IInfo \<Rightarrow> u32 list \<Rightarrow> u32 list" where
  "bne_beq InsB slot =
     (let source1 = ucast (I_rs InsB); source2 = ucast (I_rt InsB) in
      (if LOG_GEN then add_Log else []) @
      [encodeI OPCODE_LD BASE_REG TEMP3 (BaseGP + (8 * source1)),
       encodeI OPCODE_LD BASE_REG TEMP2 (BaseGP + (8 * source2)),
       encodeI OPCODE_SD BASE_REG TEMP3 Memory_Temp4,
       encodeI OPCODE_SD BASE_REG TEMP2 Memory_Temp5] @
      slot @
      [encodeI OPCODE_ADDIU 0 TEMP1 Control_from_EndOfBlock,
       encodeI OPCODE_SD BASE_REG TEMP1 Control_Mark,
       encodeI OPCODE_LD BASE_REG TEMP3 Memory_Temp4,
       encodeI OPCODE_LD BASE_REG TEMP2 Memory_Temp5,
       encodeI (ucast (opcode InsB)) TEMP3 TEMP2 7,
       0] @
      BranchPath (ucast (I_imm InsB)))"

definition bbit :: "IInfo \<Rightarrow> u32 list \<Rightarrow> u32 list" where
  "bbit InsB slot =
     (let source1 = ucast (I_rs InsB) in
      (if LOG_GEN then add_Log else []) @
      [encodeI OPCODE_LD BASE_REG TEMP3 (BaseGP + (8 * source1)),
       encodeI OPCODE_SD BASE_REG TEMP3 Memory_Temp4] @
      slot @
      [encodeI OPCODE_ADDIU 0 TEMP1 Control_from_EndOfBlock,
       encodeI OPCODE_SD BASE_REG TEMP1 Control_Mark,
       encodeI OPCODE_LD BASE_REG TEMP3 Memory_Temp4,
       encodeI (ucast (opcode InsB)) TEMP3 (ucast (I_rt InsB)) 7,
       0] @
      BranchPath (ucast (I_imm InsB)))"

definition branch :: "IInfo \<Rightarrow> u32 list \<Rightarrow> u32 list" where
  "branch InsB slot =
     (let source1 = ucast (I_rs InsB) in
      (if (I_rt InsB = 16) \<or> (I_rt InsB = 17)
       then And_Link
       else []) @
      (if LOG_GEN then add_Log else []) @
      [encodeI OPCODE_LD BASE_REG TEMP3 (BaseGP + (8 * source1)),
       encodeI OPCODE_SD BASE_REG TEMP3 Memory_Temp4] @
      slot @
      [encodeI OPCODE_ADDIU 0 TEMP1 Control_from_EndOfBlock,
       encodeI OPCODE_SD BASE_REG TEMP1 Control_Mark,
       encodeI OPCODE_LD BASE_REG TEMP3 Memory_Temp4,
       encodeI (ucast (opcode InsB)) TEMP3 (ucast (I_rt InsB)) 7,
       0] @
      BranchPath (ucast (I_imm InsB)))"

definition bne_beq_likely :: "IInfo \<Rightarrow> u32 list \<Rightarrow> u32 list" where
  "bne_beq_likely InsB slot =
     (let source1 = ucast (I_rs InsB); source2 = ucast (I_rt InsB) in
      (if LOG_GEN then add_Log else []) @
      [encodeI OPCODE_LD BASE_REG TEMP1 (BaseGP + (8 * source1)),
       encodeI OPCODE_LD BASE_REG TEMP2 (BaseGP + (8 * source2)),
       encodeI (ucast (opcode InsB)) TEMP1 TEMP2 9,
       0] @
      BranchPath_likely (ucast (I_imm InsB)) slot)"

definition branch_likely :: "IInfo \<Rightarrow> u32 list \<Rightarrow> u32 list" where
  "branch_likely InsB slot =
     (let source1 = ucast (I_rs InsB) in
      (if (I_rt InsB = 18) \<or> (I_rt InsB = 19)
       then And_Link
       else []) @
      (if LOG_GEN then add_Log else []) @
      [encodeI OPCODE_LD BASE_REG TEMP1 (BaseGP + (8 * source1)),
       encodeI (ucast (opcode InsB)) TEMP1 (ucast (I_rt InsB)) 9,
       0] @
      BranchPath_likely (ucast (I_imm InsB)) slot)"

section \<open>Jumps\<close>

definition j_ins :: "IInfo \<Rightarrow> u64 \<Rightarrow> u32 list \<Rightarrow> u32 list" where
  "j_ins InsJ blockEndPcValue slot =
     (let addr = (blockEndPcValue AND 0xf0000000) OR (push_bit 2 (ucast (j_addr InsJ)));
          addr_up = ucast (drop_bit 16 addr);
          addr_low = ucast (addr AND 0x0000ffff) in
      (if LOG_GEN then add_Log else []) @
      slot @
      [encodeI OPCODE_LUI 0 TEMP1 addr_up,
       encodeI OPCODE_ORI TEMP1 TEMP1 addr_low,
       encodeI OPCODE_SD BASE_REG TEMP1 PROG_COUNTER_OFFSET,
       encodeI OPCODE_ADDIU 0 TEMP1 Control_from_EndOfBlock,
       encodeI OPCODE_SD BASE_REG TEMP1 Control_Mark,
       encodeI OPCODE_LD BASE_REG C_LABEL_REG C_FUNC_CALL_OFFSET,
       encodeR OPCODE_ZERO C_LABEL_REG 0 0 0 8,
       0])"

definition jal :: "IInfo \<Rightarrow> u64 \<Rightarrow> u32 list \<Rightarrow> u32 list" where
  "jal InsJ blockEndPcValue slot =
     (let addr = (blockEndPcValue AND 0xf0000000) OR (push_bit 2 (ucast (j_addr InsJ)));
          addr_up = ucast (drop_bit 16 addr);
          addr_low = ucast (addr AND 0x0000ffff) in
      And_Link @
      (if LOG_GEN then add_Log else []) @
      slot @
      [encodeI OPCODE_LUI 0 TEMP1 addr_up,
       encodeI OPCODE_ORI TEMP1 TEMP1 addr_low,
       encodeI OPCODE_SD BASE_REG TEMP1 PROG_COUNTER_OFFSET,
       encodeI OPCODE_ADDIU 0 TEMP1 Control_from_EndOfBlock,
       encodeI OPCODE_SD BASE_REG TEMP1 Control_Mark,
       encodeI OPCODE_LD BASE_REG C_LABEL_REG C_FUNC_CALL_OFFSET,
       encodeR OPCODE_ZERO C_LABEL_REG 0 0 0 8,
       0])"

definition jr :: "IInfo \<Rightarrow> u32 list \<Rightarrow> u32 list" where
  "jr InsJ slot =
     (let source = ucast (R_rs InsJ) in
      (if LOG_GEN then add_Log else []) @
      [encodeI OPCODE_LD BASE_REG TEMP1 (BaseGP + (8 * source)),
       encodeI OPCODE_SD BASE_REG TEMP1 Memory_Temp4] @
      slot @
      [encodeI OPCODE_LD BASE_REG TEMP1 Memory_Temp4,
       encodeI OPCODE_SD BASE_REG TEMP1 PROG_COUNTER_OFFSET,
       encodeI OPCODE_ADDIU 0 TEMP1 Control_from_EndOfBlock,
       encodeI OPCODE_SD BASE_REG TEMP1 Control_Mark,
       encodeI OPCODE_LD BASE_REG C_LABEL_REG C_FUNC_CALL_OFFSET,
       encodeR OPCODE_ZERO C_LABEL_REG 0 0 0 8,
       0])"

definition jalr :: "IInfo \<Rightarrow> u32 list \<Rightarrow> u32 list" where
  "jalr InsJ slot =
     (let source = ucast (R_rs InsJ); d = ucast (R_rd InsJ) in
      [encodeI OPCODE_LD BASE_REG TEMP1 Block_End_PC,
       encodeI OPCODE_DADDI TEMP1 TEMP1 8,
       encodeI OPCODE_SD BASE_REG TEMP1 (BaseGP + (8 * d)),
       encodeI OPCODE_LD BASE_REG TEMP1 (BaseGP + (8 * source)),
       encodeI OPCODE_SD BASE_REG TEMP1 Memory_Temp4] @
      (if LOG_GEN then add_Log else []) @
      slot @
      [encodeI OPCODE_LD BASE_REG TEMP1 Memory_Temp4,
       encodeI OPCODE_SD BASE_REG TEMP1 PROG_COUNTER_OFFSET,
       encodeI OPCODE_ADDIU 0 TEMP1 Control_from_EndOfBlock,
       encodeI OPCODE_SD BASE_REG TEMP1 Control_Mark,
       encodeI OPCODE_LD BASE_REG C_LABEL_REG C_FUNC_CALL_OFFSET,
       encodeR OPCODE_ZERO C_LABEL_REG 0 0 0 8,
       0])"

section \<open>Control instructions\<close>

definition syscall :: "u32 list" where
  "syscall =
     [encodeI OPCODE_ADDIU 0 TEMP3 Control_from_syscall,
      encodeI OPCODE_SD BASE_REG TEMP3 Control_Mark,
      encodeI OPCODE_LD BASE_REG C_LABEL_REG C_FUNC_CALL_OFFSET,
      encodeR OPCODE_ZERO C_LABEL_REG 0 RET_ADDR_REG 0 9,
      0]"

definition sync :: "u32 list" where
  "sync =
     [0]"

definition nop :: "u32 list" where
  "nop =
     [0]"

definition cache :: "u32 list" where
  "cache =
     [0]"

definition rdhwr :: "IInfo \<Rightarrow> u32 list" where
  "rdhwr InsP =
     (let dest = ucast (R_rt InsP) in
      (if R_rd InsP = 0
       then [encodeI OPCODE_LD BASE_REG TEMP2 ((BaseCP + (64 * 15)) + (8 * 1)),
             encodeI OPCODE_ADDIU 0 TEMP3 0x3FF,
             encodeR OPCODE_ZERO TEMP2 TEMP3 TEMP3 0 36]
       else if R_rd InsP = 31
       then [encodeI OPCODE_LD BASE_REG TEMP3 ((BaseCP + (64 * 9)) + (8 * 6))]
       else if (R_rd InsP = 2) \<or> (R_rd InsP = 3)
       then [encodeI OPCODE_LD BASE_REG TEMP3 ((BaseCP + (64 * 9)) + (8 * 0))]
       else [encodeI OPCODE_ADDIU 0 TEMP3 0]) @
      [encodeI OPCODE_SD BASE_REG TEMP3 (BaseGP + (8 * dest))])"

definition br :: "u32 list" where
  "br =
     [encodeI OPCODE_ADDIU 0 TEMP3 Control_from_break,
      encodeI OPCODE_SD BASE_REG TEMP3 Control_Mark,
      encodeI OPCODE_LD BASE_REG C_LABEL_REG C_FUNC_CALL_OFFSET,
      encodeR OPCODE_ZERO C_LABEL_REG 0 RET_ADDR_REG 0 9,
      0]"

definition pref :: "u32 list" where
  "pref =
     [0,
      0]"

definition eret :: "u32 list" where
  "eret =
     [encodeI OPCODE_LD BASE_REG TEMP1 ((BaseCP + (64 * 12)) + (8 * 0)),
      encodeI OPCODE_ANDI TEMP1 TEMP2 0x4,
      encodeI OPCODE_BEQ TEMP2 0 12,
      0,
      encodeI OPCODE_LD BASE_REG TEMP2 ((BaseCP + (64 * 30)) + (8 * 0)),
      encodeI OPCODE_SD BASE_REG TEMP2 PROG_COUNTER_OFFSET,
      encodeI OPCODE_LUI 0 TEMP2 0xffff,
      encodeI OPCODE_ADDI TEMP2 TEMP2 0xfffb,
      encodeR OPCODE_ZERO TEMP2 TEMP1 TEMP1 0 36,
      encodeI OPCODE_SD BASE_REG TEMP1 ((BaseCP + (64 * 12)) + (8 * 0)),
      encodeI OPCODE_ADDIU 0 TEMP1 Control_from_EndOfBlock,
      encodeI OPCODE_SD BASE_REG TEMP1 Control_Mark,
      encodeI OPCODE_LD BASE_REG C_LABEL_REG C_FUNC_CALL_OFFSET,
      encodeR OPCODE_ZERO C_LABEL_REG 0 0 0 8,
      0,
      encodeI OPCODE_LD BASE_REG TEMP2 ((BaseCP + (64 * 14)) + (8 * 0)),
      encodeI OPCODE_SD BASE_REG TEMP2 PROG_COUNTER_OFFSET,
      encodeI OPCODE_LUI 0 TEMP2 0xffff,
      encodeI OPCODE_ADDI TEMP2 TEMP2 0xfffd,
      encodeR OPCODE_ZERO TEMP2 TEMP1 TEMP1 0 36,
      encodeI OPCODE_SD BASE_REG TEMP1 ((BaseCP + (64 * 12)) + (8 * 0)),
      encodeI OPCODE_ADDIU 0 TEMP1 Control_from_EndOfBlock,
      encodeI OPCODE_SD BASE_REG TEMP1 Control_Mark,
      encodeI OPCODE_LD BASE_REG C_LABEL_REG C_FUNC_CALL_OFFSET,
      encodeR OPCODE_ZERO C_LABEL_REG 0 0 0 8,
      0]"

definition ssnop :: "u32 list" where
  "ssnop =
     [0]"

definition deret :: "u32 list" where
  "deret =
     [0]"

definition wait :: "u32 list" where
  "wait =
     [encodeI OPCODE_ADDIU 0 TEMP3 Control_from_EXT_INT,
      encodeI OPCODE_SD BASE_REG TEMP3 Control_Mark,
      encodeI OPCODE_LD BASE_REG C_LABEL_REG C_FUNC_CALL_OFFSET,
      encodeR OPCODE_ZERO C_LABEL_REG 0 RET_ADDR_REG 0 9,
      0]"

definition TerminateBlock :: "u32 list" where
  "TerminateBlock =
     [encodeI OPCODE_ADDIU 0 TEMP3 Control_from_EndOfBlock,
      encodeI OPCODE_SD BASE_REG TEMP3 Control_Mark,
      encodeI OPCODE_LD BASE_REG C_LABEL_REG C_FUNC_CALL_OFFSET,
      encodeR OPCODE_ZERO C_LABEL_REG 0 0 0 8,
      0]"

end
