(* ===== verification/Decode.thy ===== *)
theory Decode
  imports Emit
begin

text \<open>
  Instruction decoding, \<^verbatim>\<open>InsDecoding.cpp\<close>, and the translation of a block,
  \<^verbatim>\<open>BlockTranslation_IPE.cpp\<close>. A handler gets the instruction, its delay slot and the address of the
  last instruction of the block, and appends host words; the handlers are entries of seven tables,
  indexed by the opcode and then by a field of the instruction.

  The only recursion is a branch handler translating its delay slot, for which it calls
  \<^verbatim>\<open>findInstrCase\<close> with no delay slot; a branch in that position dereferences a null pointer. So a
  handler's second argument here is the result of translating the delay slot, \<open>findInstrCase\<close> applies
  the dispatch twice and the second time with \<open>Inl NullDeref\<close>. An index beyond a table is \<open>OutOfBounds\<close>,
  and \<^verbatim>\<open>not_an_Ins\<close>, which exits, is \<open>ExitError\<close>.
\<close>

type_synonym emulate = "IInfo \<Rightarrow> u32 list result \<Rightarrow> u64 \<Rightarrow> u32 list result"

definition table_call :: "emulate list \<Rightarrow> nat \<Rightarrow> emulate" where
  "table_call tab i InsB slot blockEndPC =
     (if i < length tab then (tab ! i) InsB slot blockEndPC else Inl OutOfBounds)"

section \<open>Handlers of single instructions\<close>

definition not_an_Ins :: emulate where
  "not_an_Ins InsB slot blockEndPC = Inl ExitError"

definition OP0_0to5bits_0 :: emulate where
  "OP0_0to5bits_0 InsB slot blockEndPC =
     (if encoding InsB = 0 then Inr nop
      else if R_rs InsB = 0 \<and> R_rd InsB = 0 \<and> R_rt InsB = 0 then
        (let a = R_shft InsB in
         if a = 1 then Inr ssnop
         else if a = 3 then Inr nop
         else Inr [])
      else Inr (shift_R InsB))"

definition OP0_0to5bits_2 :: emulate where
  "OP0_0to5bits_2 InsB slot blockEndPC = Inr (shift_R InsB)"

definition OP0_0to5bits_3 :: emulate where
  "OP0_0to5bits_3 InsB slot blockEndPC = Inr (shift_R InsB)"

definition OP0_0to5bits_4 :: emulate where
  "OP0_0to5bits_4 InsB slot blockEndPC = Inr (unprev_R InsB)"

definition OP0_0to5bits_6 :: emulate where
  "OP0_0to5bits_6 InsB slot blockEndPC = Inr (unprev_R InsB)"

definition OP0_0to5bits_7 :: emulate where
  "OP0_0to5bits_7 InsB slot blockEndPC = Inr (unprev_R InsB)"

definition OP0_0to5bits_8 :: emulate where
  "OP0_0to5bits_8 InsB slot blockEndPC = bind_result slot (\<lambda>ds. Inr (jr InsB ds))"

definition OP0_0to5bits_9 :: emulate where
  "OP0_0to5bits_9 InsB slot blockEndPC = bind_result slot (\<lambda>ds. Inr (jalr InsB ds))"

definition OP0_0to5bits_10 :: emulate where
  "OP0_0to5bits_10 InsB slot blockEndPC = Inr (unprev_R InsB)"

definition OP0_0to5bits_11 :: emulate where
  "OP0_0to5bits_11 InsB slot blockEndPC = Inr (unprev_R InsB)"

definition OP0_0to5bits_12 :: emulate where
  "OP0_0to5bits_12 InsB slot blockEndPC = Inr syscall"

definition OP0_0to5bits_13 :: emulate where
  "OP0_0to5bits_13 InsB slot blockEndPC = Inr br"

definition OP0_0to5bits_14 :: emulate where
  "OP0_0to5bits_14 InsB slot blockEndPC = Inr nop"

definition OP0_0to5bits_15 :: emulate where
  "OP0_0to5bits_15 InsB slot blockEndPC =
     (let a = R_shft InsB in
      if a = 0 then Inr sync
      else if a = 2 then Inr nop
      else Inr nop)"

definition OP0_0to5bits_16 :: emulate where
  "OP0_0to5bits_16 InsB slot blockEndPC = Inr (moveFromLoHi_R InsB)"

definition OP0_0to5bits_17 :: emulate where
  "OP0_0to5bits_17 InsB slot blockEndPC = Inr (moveToLoHi_R InsB)"

definition OP0_0to5bits_18 :: emulate where
  "OP0_0to5bits_18 InsB slot blockEndPC = Inr (moveFromLoHi_R InsB)"

definition OP0_0to5bits_19 :: emulate where
  "OP0_0to5bits_19 InsB slot blockEndPC = Inr (moveToLoHi_R InsB)"

definition OP0_0to5bits_20 :: emulate where
  "OP0_0to5bits_20 InsB slot blockEndPC = Inr (unprev_R InsB)"

definition OP0_0to5bits_22 :: emulate where
  "OP0_0to5bits_22 InsB slot blockEndPC = Inr (unprev_R InsB)"

definition OP0_0to5bits_23 :: emulate where
  "OP0_0to5bits_23 InsB slot blockEndPC = Inr (unprev_R InsB)"

definition OP0_0to5bits_24 :: emulate where
  "OP0_0to5bits_24 InsB slot blockEndPC = Inr (mulDiv_R InsB)"

definition OP0_0to5bits_25 :: emulate where
  "OP0_0to5bits_25 InsB slot blockEndPC = Inr (mulDiv_R InsB)"

definition OP0_0to5bits_26 :: emulate where
  "OP0_0to5bits_26 InsB slot blockEndPC = Inr (mulDiv_R InsB)"

definition OP0_0to5bits_27 :: emulate where
  "OP0_0to5bits_27 InsB slot blockEndPC = Inr (mulDiv_R InsB)"

definition OP0_0to5bits_28 :: emulate where
  "OP0_0to5bits_28 InsB slot blockEndPC = Inr (mulDiv_R InsB)"

definition OP0_0to5bits_29 :: emulate where
  "OP0_0to5bits_29 InsB slot blockEndPC = Inr (mulDiv_R InsB)"

definition OP0_0to5bits_30 :: emulate where
  "OP0_0to5bits_30 InsB slot blockEndPC = Inr (mulDiv_R InsB)"

definition OP0_0to5bits_31 :: emulate where
  "OP0_0to5bits_31 InsB slot blockEndPC = Inr (mulDiv_R InsB)"

definition OP0_0to5bits_32 :: emulate where
  "OP0_0to5bits_32 InsB slot blockEndPC = Inr (unprev_R InsB)"

definition OP0_0to5bits_33 :: emulate where
  "OP0_0to5bits_33 InsB slot blockEndPC = Inr (unprev_R InsB)"

definition OP0_0to5bits_34 :: emulate where
  "OP0_0to5bits_34 InsB slot blockEndPC = Inr (unprev_R InsB)"

definition OP0_0to5bits_35 :: emulate where
  "OP0_0to5bits_35 InsB slot blockEndPC = Inr (unprev_R InsB)"

definition OP0_0to5bits_36 :: emulate where
  "OP0_0to5bits_36 InsB slot blockEndPC = Inr (unprev_R InsB)"

definition OP0_0to5bits_37 :: emulate where
  "OP0_0to5bits_37 InsB slot blockEndPC = Inr (unprev_R InsB)"

definition OP0_0to5bits_38 :: emulate where
  "OP0_0to5bits_38 InsB slot blockEndPC = Inr (unprev_R InsB)"

definition OP0_0to5bits_39 :: emulate where
  "OP0_0to5bits_39 InsB slot blockEndPC = Inr (unprev_R InsB)"

definition OP0_0to5bits_42 :: emulate where
  "OP0_0to5bits_42 InsB slot blockEndPC = Inr (unprev_R InsB)"

definition OP0_0to5bits_43 :: emulate where
  "OP0_0to5bits_43 InsB slot blockEndPC = Inr (unprev_R InsB)"

definition OP0_0to5bits_44 :: emulate where
  "OP0_0to5bits_44 InsB slot blockEndPC = Inr (unprev_R InsB)"

definition OP0_0to5bits_45 :: emulate where
  "OP0_0to5bits_45 InsB slot blockEndPC = Inr (unprev_R InsB)"

definition OP0_0to5bits_46 :: emulate where
  "OP0_0to5bits_46 InsB slot blockEndPC = Inr (unprev_R InsB)"

definition OP0_0to5bits_47 :: emulate where
  "OP0_0to5bits_47 InsB slot blockEndPC = Inr (unprev_R InsB)"

definition OP0_0to5bits_48 :: emulate where
  "OP0_0to5bits_48 InsB slot blockEndPC = Inr (tge_tgeu_tlt_tltu_R InsB)"

definition OP0_0to5bits_49 :: emulate where
  "OP0_0to5bits_49 InsB slot blockEndPC = Inr (tge_tgeu_tlt_tltu_R InsB)"

definition OP0_0to5bits_50 :: emulate where
  "OP0_0to5bits_50 InsB slot blockEndPC = Inr (tge_tgeu_tlt_tltu_R InsB)"

definition OP0_0to5bits_51 :: emulate where
  "OP0_0to5bits_51 InsB slot blockEndPC = Inr (tge_tgeu_tlt_tltu_R InsB)"

definition OP0_0to5bits_52 :: emulate where
  "OP0_0to5bits_52 InsB slot blockEndPC = Inr (teq_tne_R InsB)"

definition OP0_0to5bits_54 :: emulate where
  "OP0_0to5bits_54 InsB slot blockEndPC = Inr (teq_tne_R InsB)"

definition OP0_0to5bits_56 :: emulate where
  "OP0_0to5bits_56 InsB slot blockEndPC = Inr (shift_R InsB)"

definition OP0_0to5bits_58 :: emulate where
  "OP0_0to5bits_58 InsB slot blockEndPC = Inr (shift_R InsB)"

definition OP0_0to5bits_59 :: emulate where
  "OP0_0to5bits_59 InsB slot blockEndPC = Inr (shift_R InsB)"

definition OP0_0to5bits_60 :: emulate where
  "OP0_0to5bits_60 InsB slot blockEndPC = Inr (shift_R InsB)"

definition OP0_0to5bits_62 :: emulate where
  "OP0_0to5bits_62 InsB slot blockEndPC = Inr (shift_R InsB)"

definition OP0_0to5bits_63 :: emulate where
  "OP0_0to5bits_63 InsB slot blockEndPC = Inr (shift_R InsB)"

definition OP1_16to20bits_0 :: emulate where
  "OP1_16to20bits_0 InsB slot blockEndPC = bind_result slot (\<lambda>ds. Inr (branch InsB ds))"

definition OP1_16to20bits_1 :: emulate where
  "OP1_16to20bits_1 InsB slot blockEndPC = bind_result slot (\<lambda>ds. Inr (branch InsB ds))"

definition OP1_16to20bits_2 :: emulate where
  "OP1_16to20bits_2 InsB slot blockEndPC = bind_result slot (\<lambda>ds. Inr (branch_likely InsB ds))"

definition OP1_16to20bits_3 :: emulate where
  "OP1_16to20bits_3 InsB slot blockEndPC = bind_result slot (\<lambda>ds. Inr (branch_likely InsB ds))"

definition OP1_16to20bits_8 :: emulate where
  "OP1_16to20bits_8 InsB slot blockEndPC = Inr (tgei_tgeiu_tlti_tltiu_I InsB)"

definition OP1_16to20bits_9 :: emulate where
  "OP1_16to20bits_9 InsB slot blockEndPC = Inr (tgei_tgeiu_tlti_tltiu_I InsB)"

definition OP1_16to20bits_10 :: emulate where
  "OP1_16to20bits_10 InsB slot blockEndPC = Inr (tgei_tgeiu_tlti_tltiu_I InsB)"

definition OP1_16to20bits_11 :: emulate where
  "OP1_16to20bits_11 InsB slot blockEndPC = Inr (tgei_tgeiu_tlti_tltiu_I InsB)"

definition OP1_16to20bits_12 :: emulate where
  "OP1_16to20bits_12 InsB slot blockEndPC = Inr (teqi_tnei_I InsB)"

definition OP1_16to20bits_14 :: emulate where
  "OP1_16to20bits_14 InsB slot blockEndPC = Inr (teqi_tnei_I InsB)"

definition OP1_16to20bits_16 :: emulate where
  "OP1_16to20bits_16 InsB slot blockEndPC = bind_result slot (\<lambda>ds. Inr (branch InsB ds))"

definition OP1_16to20bits_17 :: emulate where
  "OP1_16to20bits_17 InsB slot blockEndPC = bind_result slot (\<lambda>ds. Inr (branch InsB ds))"

definition OP1_16to20bits_18 :: emulate where
  "OP1_16to20bits_18 InsB slot blockEndPC = bind_result slot (\<lambda>ds. Inr (branch_likely InsB ds))"

definition OP1_16to20bits_19 :: emulate where
  "OP1_16to20bits_19 InsB slot blockEndPC = bind_result slot (\<lambda>ds. Inr (branch_likely InsB ds))"

definition OP1_16to20bits_31 :: emulate where
  "OP1_16to20bits_31 InsB slot blockEndPC = Inr nop"

definition OP16_0to5bits_1 :: emulate where
  "OP16_0to5bits_1 InsB slot blockEndPC = Inr tlbr"

definition OP16_0to5bits_2 :: emulate where
  "OP16_0to5bits_2 InsB slot blockEndPC = Inr tlbwi"

definition OP16_0to5bits_6 :: emulate where
  "OP16_0to5bits_6 InsB slot blockEndPC = Inr tlbwr"

definition OP16_0to5bits_8 :: emulate where
  "OP16_0to5bits_8 InsB slot blockEndPC = Inr tlbp"

definition OP16_0to5bits_24 :: emulate where
  "OP16_0to5bits_24 InsB slot blockEndPC = Inr eret"

definition OP16_0to5bits_31 :: emulate where
  "OP16_0to5bits_31 InsB slot blockEndPC = Inr deret"

definition OP16_21to25bits_0 :: emulate where
  "OP16_21to25bits_0 InsB slot blockEndPC = Inr (mfc0 InsB)"

definition OP16_21to25bits_1 :: emulate where
  "OP16_21to25bits_1 InsB slot blockEndPC = Inr (mfc0 InsB)"

definition OP16_21to25bits_4 :: emulate where
  "OP16_21to25bits_4 InsB slot blockEndPC = Inr (mtc0 InsB)"

definition OP16_21to25bits_5 :: emulate where
  "OP16_21to25bits_5 InsB slot blockEndPC = Inr (mtc0 InsB)"

definition OP16_21to25bits_10 :: emulate where
  "OP16_21to25bits_10 InsB slot blockEndPC = Inr nop"

definition OP16_21to25bits_11 :: emulate where
  "OP16_21to25bits_11 InsB slot blockEndPC =
     (let a = R_func InsB in
      if a = 0 then Inr (di InsB)
      else if a = 32 then Inr (ei InsB)
      else Inr [])"

definition OP16_21to25bits_14 :: emulate where
  "OP16_21to25bits_14 InsB slot blockEndPC = Inr nop"

definition OP16_0to5bits_32 :: emulate where
  "OP16_0to5bits_32 InsB slot blockEndPC = Inr wait"

definition OP28_0to5bits_0 :: emulate where
  "OP28_0to5bits_0 InsB slot blockEndPC = Inr (madd InsB)"

definition OP28_0to5bits_1 :: emulate where
  "OP28_0to5bits_1 InsB slot blockEndPC = Inr (madd InsB)"

definition OP28_0to5bits_2 :: emulate where
  "OP28_0to5bits_2 InsB slot blockEndPC = Inr (unprev_R InsB)"

definition OP28_0to5bits_3 :: emulate where
  "OP28_0to5bits_3 InsB slot blockEndPC = Inr (unprev_R InsB)"

definition OP28_0to5bits_4 :: emulate where
  "OP28_0to5bits_4 InsB slot blockEndPC = Inr (madd InsB)"

definition OP28_0to5bits_5 :: emulate where
  "OP28_0to5bits_5 InsB slot blockEndPC = Inr (madd InsB)"

definition OP28_0to5bits_8 :: emulate where
  "OP28_0to5bits_8 InsB slot blockEndPC = Inr (mtm0 InsB)"

definition OP28_0to5bits_9 :: emulate where
  "OP28_0to5bits_9 InsB slot blockEndPC = Inr (mtp0 InsB)"

definition OP28_0to5bits_10 :: emulate where
  "OP28_0to5bits_10 InsB slot blockEndPC = Inr (mtp1 InsB)"

definition OP28_0to5bits_11 :: emulate where
  "OP28_0to5bits_11 InsB slot blockEndPC = Inr (mtp2 InsB)"

definition OP28_0to5bits_12 :: emulate where
  "OP28_0to5bits_12 InsB slot blockEndPC = Inr (mtm1 InsB)"

definition OP28_0to5bits_13 :: emulate where
  "OP28_0to5bits_13 InsB slot blockEndPC = Inr (mtm2 InsB)"

definition OP28_0to5bits_15 :: emulate where
  "OP28_0to5bits_15 InsB slot blockEndPC = Inr []"

definition OP28_0to5bits_16 :: emulate where
  "OP28_0to5bits_16 InsB slot blockEndPC = Inr []"

definition OP28_0to5bits_17 :: emulate where
  "OP28_0to5bits_17 InsB slot blockEndPC = Inr (v3mulu InsB)"

definition OP28_0to5bits_24 :: emulate where
  "OP28_0to5bits_24 InsB slot blockEndPC = Inr (saa InsB)"

definition OP28_0to5bits_25 :: emulate where
  "OP28_0to5bits_25 InsB slot blockEndPC = Inr (saad InsB)"

definition OP28_0to5bits_32 :: emulate where
  "OP28_0to5bits_32 InsB slot blockEndPC = Inr (unprev_R InsB)"

definition OP28_0to5bits_33 :: emulate where
  "OP28_0to5bits_33 InsB slot blockEndPC = Inr (unprev_R InsB)"

definition OP28_0to5bits_36 :: emulate where
  "OP28_0to5bits_36 InsB slot blockEndPC = Inr (unprev_R InsB)"

definition OP28_0to5bits_37 :: emulate where
  "OP28_0to5bits_37 InsB slot blockEndPC = Inr (unprev_R InsB)"

definition OP28_0to5bits_40 :: emulate where
  "OP28_0to5bits_40 InsB slot blockEndPC = Inr (unprev_R InsB)"

definition OP28_0to5bits_42 :: emulate where
  "OP28_0to5bits_42 InsB slot blockEndPC = Inr (unprev_R InsB)"

definition OP28_0to5bits_43 :: emulate where
  "OP28_0to5bits_43 InsB slot blockEndPC = Inr (unprev_R InsB)"

definition OP28_0to5bits_44 :: emulate where
  "OP28_0to5bits_44 InsB slot blockEndPC = Inr (unprev_R InsB)"

definition OP28_0to5bits_45 :: emulate where
  "OP28_0to5bits_45 InsB slot blockEndPC = Inr (unprev_R InsB)"

definition OP28_0to5bits_46 :: emulate where
  "OP28_0to5bits_46 InsB slot blockEndPC = Inr (seqi_snei InsB)"

definition OP28_0to5bits_47 :: emulate where
  "OP28_0to5bits_47 InsB slot blockEndPC = Inr (seqi_snei InsB)"

definition OP28_0to5bits_50 :: emulate where
  "OP28_0to5bits_50 InsB slot blockEndPC = Inr (ins_R InsB)"

definition OP28_0to5bits_51 :: emulate where
  "OP28_0to5bits_51 InsB slot blockEndPC = Inr (ins_R InsB)"

definition OP28_0to5bits_58 :: emulate where
  "OP28_0to5bits_58 InsB slot blockEndPC = Inr (ext_R InsB)"

definition OP28_0to5bits_59 :: emulate where
  "OP28_0to5bits_59 InsB slot blockEndPC = Inr (ext_R InsB)"

definition OP28_0to5bits_63 :: emulate where
  "OP28_0to5bits_63 InsB slot blockEndPC = Inr nop"

definition OP31_0to5bits_0 :: emulate where
  "OP31_0to5bits_0 InsB slot blockEndPC = Inr (ext_R InsB)"

definition OP31_0to5bits_1 :: emulate where
  "OP31_0to5bits_1 InsB slot blockEndPC = Inr (ext_R InsB)"

definition OP31_0to5bits_2 :: emulate where
  "OP31_0to5bits_2 InsB slot blockEndPC = Inr (ext_R InsB)"

definition OP31_0to5bits_3 :: emulate where
  "OP31_0to5bits_3 InsB slot blockEndPC = Inr (ext_R InsB)"

definition OP31_0to5bits_4 :: emulate where
  "OP31_0to5bits_4 InsB slot blockEndPC = Inr (ins_R InsB)"

definition OP31_0to5bits_5 :: emulate where
  "OP31_0to5bits_5 InsB slot blockEndPC = Inr (ins_R InsB)"

definition OP31_0to5bits_6 :: emulate where
  "OP31_0to5bits_6 InsB slot blockEndPC = Inr (ins_R InsB)"

definition OP31_0to5bits_7 :: emulate where
  "OP31_0to5bits_7 InsB slot blockEndPC = Inr (ins_R InsB)"

definition OP31_0to5bits_32 :: emulate where
  "OP31_0to5bits_32 InsB slot blockEndPC = Inr (unprev_R InsB)"

definition OP31_0to5bits_36 :: emulate where
  "OP31_0to5bits_36 InsB slot blockEndPC = Inr (unprev_R InsB)"

definition OP31_0to5bits_59 :: emulate where
  "OP31_0to5bits_59 InsB slot blockEndPC = Inr (rdhwr InsB)"

section \<open>Tables of the second level\<close>

definition opcode0_0to5_bits :: "emulate list" where
  "opcode0_0to5_bits = [
     OP0_0to5bits_0, not_an_Ins, OP0_0to5bits_2, OP0_0to5bits_3,
     OP0_0to5bits_4, not_an_Ins, OP0_0to5bits_6, OP0_0to5bits_7,
     OP0_0to5bits_8, OP0_0to5bits_9, OP0_0to5bits_10, OP0_0to5bits_11,
     OP0_0to5bits_12, OP0_0to5bits_13, OP0_0to5bits_14, OP0_0to5bits_15,
     OP0_0to5bits_16, OP0_0to5bits_17, OP0_0to5bits_18, OP0_0to5bits_19,
     OP0_0to5bits_20, not_an_Ins, OP0_0to5bits_22, OP0_0to5bits_23,
     OP0_0to5bits_24, OP0_0to5bits_25, OP0_0to5bits_26, OP0_0to5bits_27,
     OP0_0to5bits_28, OP0_0to5bits_29, OP0_0to5bits_30, OP0_0to5bits_31,
     OP0_0to5bits_32, OP0_0to5bits_33, OP0_0to5bits_34, OP0_0to5bits_35,
     OP0_0to5bits_36, OP0_0to5bits_37, OP0_0to5bits_38, OP0_0to5bits_39,
     not_an_Ins, not_an_Ins, OP0_0to5bits_42, OP0_0to5bits_43,
     OP0_0to5bits_44, OP0_0to5bits_45, OP0_0to5bits_46, OP0_0to5bits_47,
     OP0_0to5bits_48, OP0_0to5bits_49, OP0_0to5bits_50, OP0_0to5bits_51,
     OP0_0to5bits_52, not_an_Ins, OP0_0to5bits_54, not_an_Ins,
     OP0_0to5bits_56, not_an_Ins, OP0_0to5bits_58, OP0_0to5bits_59,
     OP0_0to5bits_60, not_an_Ins, OP0_0to5bits_62, OP0_0to5bits_63]"

definition opcode1_16to20_bits :: "emulate list" where
  "opcode1_16to20_bits = [
     OP1_16to20bits_0, OP1_16to20bits_1, OP1_16to20bits_2, OP1_16to20bits_3,
     not_an_Ins, not_an_Ins, not_an_Ins, not_an_Ins,
     OP1_16to20bits_8, OP1_16to20bits_9, OP1_16to20bits_10, OP1_16to20bits_11,
     OP1_16to20bits_12, not_an_Ins, OP1_16to20bits_14, not_an_Ins,
     OP1_16to20bits_16, OP1_16to20bits_17, OP1_16to20bits_18, OP1_16to20bits_19,
     not_an_Ins, not_an_Ins, not_an_Ins, not_an_Ins,
     not_an_Ins, not_an_Ins, not_an_Ins, not_an_Ins,
     not_an_Ins, not_an_Ins, not_an_Ins, OP1_16to20bits_31]"

definition opcode16_21to25_bits :: "emulate list" where
  "opcode16_21to25_bits = [
     OP16_21to25bits_0, OP16_21to25bits_1, not_an_Ins, not_an_Ins,
     OP16_21to25bits_4, OP16_21to25bits_5, not_an_Ins, not_an_Ins,
     not_an_Ins, not_an_Ins, OP16_21to25bits_10, OP16_21to25bits_11,
     not_an_Ins, not_an_Ins, OP16_21to25bits_14, not_an_Ins,
     not_an_Ins, not_an_Ins, not_an_Ins, not_an_Ins,
     not_an_Ins, not_an_Ins, not_an_Ins, not_an_Ins,
     not_an_Ins, not_an_Ins, not_an_Ins, not_an_Ins,
     not_an_Ins, not_an_Ins, not_an_Ins, not_an_Ins]"

definition opcode16_0to5_bits :: "emulate list" where
  "opcode16_0to5_bits = [
     not_an_Ins, OP16_0to5bits_1, OP16_0to5bits_2, not_an_Ins,
     not_an_Ins, not_an_Ins, OP16_0to5bits_6, not_an_Ins,
     OP16_0to5bits_8, not_an_Ins, not_an_Ins, not_an_Ins,
     not_an_Ins, not_an_Ins, not_an_Ins, not_an_Ins,
     not_an_Ins, not_an_Ins, not_an_Ins, not_an_Ins,
     not_an_Ins, not_an_Ins, not_an_Ins, not_an_Ins,
     OP16_0to5bits_24, not_an_Ins, not_an_Ins, not_an_Ins,
     not_an_Ins, not_an_Ins, not_an_Ins, OP16_0to5bits_31,
     OP16_0to5bits_32]"

definition opcode28_0to5_bits :: "emulate list" where
  "opcode28_0to5_bits = [
     OP28_0to5bits_0, OP28_0to5bits_1, OP28_0to5bits_2, OP28_0to5bits_3,
     OP28_0to5bits_4, OP28_0to5bits_5, not_an_Ins, not_an_Ins,
     OP28_0to5bits_8, OP28_0to5bits_9, OP28_0to5bits_10, OP28_0to5bits_11,
     OP28_0to5bits_12, OP28_0to5bits_13, not_an_Ins, OP28_0to5bits_15,
     OP28_0to5bits_16, OP28_0to5bits_17, not_an_Ins, not_an_Ins,
     not_an_Ins, not_an_Ins, not_an_Ins, not_an_Ins,
     OP28_0to5bits_24, OP28_0to5bits_25, not_an_Ins, not_an_Ins,
     not_an_Ins, not_an_Ins, not_an_Ins, not_an_Ins,
     OP28_0to5bits_32, OP28_0to5bits_33, not_an_Ins, not_an_Ins,
     OP28_0to5bits_36, OP28_0to5bits_37, not_an_Ins, not_an_Ins,
     OP28_0to5bits_40, not_an_Ins, OP28_0to5bits_42, OP28_0to5bits_43,
     OP28_0to5bits_44, OP28_0to5bits_45, OP28_0to5bits_46, OP28_0to5bits_47,
     not_an_Ins, not_an_Ins, OP28_0to5bits_50, OP28_0to5bits_51,
     not_an_Ins, not_an_Ins, not_an_Ins, not_an_Ins,
     not_an_Ins, not_an_Ins, OP28_0to5bits_58, OP28_0to5bits_59,
     not_an_Ins, not_an_Ins, not_an_Ins, OP28_0to5bits_63]"

definition opcode31_0to5_bits :: "emulate list" where
  "opcode31_0to5_bits = [
     OP31_0to5bits_0, OP31_0to5bits_1, OP31_0to5bits_2, OP31_0to5bits_3,
     OP31_0to5bits_4, OP31_0to5bits_5, OP31_0to5bits_6, OP31_0to5bits_7,
     not_an_Ins, not_an_Ins, not_an_Ins, not_an_Ins,
     not_an_Ins, not_an_Ins, not_an_Ins, not_an_Ins,
     not_an_Ins, not_an_Ins, not_an_Ins, not_an_Ins,
     not_an_Ins, not_an_Ins, not_an_Ins, not_an_Ins,
     not_an_Ins, not_an_Ins, not_an_Ins, not_an_Ins,
     not_an_Ins, not_an_Ins, not_an_Ins, not_an_Ins,
     OP31_0to5bits_32, not_an_Ins, not_an_Ins, not_an_Ins,
     OP31_0to5bits_36, not_an_Ins, not_an_Ins, not_an_Ins,
     not_an_Ins, not_an_Ins, not_an_Ins, not_an_Ins,
     not_an_Ins, not_an_Ins, not_an_Ins, not_an_Ins,
     not_an_Ins, not_an_Ins, not_an_Ins, not_an_Ins,
     not_an_Ins, not_an_Ins, not_an_Ins, not_an_Ins,
     not_an_Ins, not_an_Ins, not_an_Ins, OP31_0to5bits_59]"

section \<open>Handlers of the opcodes\<close>

definition Opcode_0 :: emulate where
  "Opcode_0 InsB slot blockEndPC = table_call opcode0_0to5_bits (unat (R_func InsB)) InsB slot blockEndPC"

definition Opcode_1 :: emulate where
  "Opcode_1 InsB slot blockEndPC =
     (let b = EXTBITS (encoding InsB) 0 5; c = I_rs InsB in
      if b = 58 \<and> c = 0
      then (let InsB = InsB\<lparr>I_imm := 0, I_rs := 0, I_rt := 0, ins_type := RTYPE, R_func := ucast b,
              R_rs := ucast (EXTBITS (encoding InsB) 21 25), R_rt := ucast (EXTBITS (encoding InsB) 16 20),
              R_rd := ucast (EXTBITS (encoding InsB) 11 15), R_shft := ucast (EXTBITS (encoding InsB) 6 10)\<rparr> in
            Inr (shift_R InsB))
      else table_call opcode1_16to20_bits (unat (I_rt InsB)) InsB slot blockEndPC)"

definition Opcode_2 :: emulate where
  "Opcode_2 InsB slot blockEndPC = bind_result slot (\<lambda>ds. Inr (j_ins InsB blockEndPC ds))"

definition Opcode_3 :: emulate where
  "Opcode_3 InsB slot blockEndPC = bind_result slot (\<lambda>ds. Inr (jal InsB blockEndPC ds))"

definition Opcode_4 :: emulate where
  "Opcode_4 InsB slot blockEndPC = bind_result slot (\<lambda>ds. Inr (bne_beq InsB ds))"

definition Opcode_5 :: emulate where
  "Opcode_5 InsB slot blockEndPC = bind_result slot (\<lambda>ds. Inr (bne_beq InsB ds))"

definition Opcode_6 :: emulate where
  "Opcode_6 InsB slot blockEndPC = bind_result slot (\<lambda>ds. Inr (branch InsB ds))"

definition Opcode_7 :: emulate where
  "Opcode_7 InsB slot blockEndPC = bind_result slot (\<lambda>ds. Inr (branch InsB ds))"

definition Opcode_8 :: emulate where
  "Opcode_8 InsB slot blockEndPC = Inr (unprev_I InsB)"

definition Opcode_9 :: emulate where
  "Opcode_9 InsB slot blockEndPC = Inr (unprev_I InsB)"

definition Opcode_10 :: emulate where
  "Opcode_10 InsB slot blockEndPC = Inr (unprev_I InsB)"

definition Opcode_11 :: emulate where
  "Opcode_11 InsB slot blockEndPC = Inr (unprev_I InsB)"

definition Opcode_12 :: emulate where
  "Opcode_12 InsB slot blockEndPC = Inr (unprev_I InsB)"

definition Opcode_13 :: emulate where
  "Opcode_13 InsB slot blockEndPC = Inr (unprev_I InsB)"

definition Opcode_14 :: emulate where
  "Opcode_14 InsB slot blockEndPC = Inr (unprev_I InsB)"

definition Opcode_15 :: emulate where
  "Opcode_15 InsB slot blockEndPC = Inr (unprev_I InsB)"

definition Opcode_16 :: emulate where
  "Opcode_16 InsB slot blockEndPC =
     (let a = R_rs InsB in
      if a = 16 then table_call opcode16_0to5_bits (unat (R_func InsB)) InsB slot blockEndPC
      else table_call opcode16_21to25_bits (unat a) InsB slot blockEndPC)"

definition Opcode_18 :: emulate where
  "Opcode_18 InsB slot blockEndPC =
     (let a = R_rs InsB in
      if a = 1 then Inr nop
      else if a = 5 then Inr nop
      else Inr [])"

definition Opcode_20 :: emulate where
  "Opcode_20 InsB slot blockEndPC = bind_result slot (\<lambda>ds. Inr (bne_beq_likely InsB ds))"

definition Opcode_21 :: emulate where
  "Opcode_21 InsB slot blockEndPC = bind_result slot (\<lambda>ds. Inr (bne_beq_likely InsB ds))"

definition Opcode_22 :: emulate where
  "Opcode_22 InsB slot blockEndPC = bind_result slot (\<lambda>ds. Inr (branch_likely InsB ds))"

definition Opcode_23 :: emulate where
  "Opcode_23 InsB slot blockEndPC = bind_result slot (\<lambda>ds. Inr (branch_likely InsB ds))"

definition Opcode_24 :: emulate where
  "Opcode_24 InsB slot blockEndPC = Inr (unprev_I InsB)"

definition Opcode_25 :: emulate where
  "Opcode_25 InsB slot blockEndPC = Inr (unprev_I InsB)"

definition Opcode_26 :: emulate where
  "Opcode_26 InsB slot blockEndPC = Inr (unprev_I_Load InsB)"

definition Opcode_27 :: emulate where
  "Opcode_27 InsB slot blockEndPC = Inr (unprev_I_Load InsB)"

definition Opcode_28 :: emulate where
  "Opcode_28 InsB slot blockEndPC = table_call opcode28_0to5_bits (unat (R_func InsB)) InsB slot blockEndPC"

definition Opcode_31 :: emulate where
  "Opcode_31 InsB slot blockEndPC = table_call opcode31_0to5_bits (unat (R_func InsB)) InsB slot blockEndPC"

definition Opcode_32 :: emulate where
  "Opcode_32 InsB slot blockEndPC = Inr (unprev_I_Load InsB)"

definition Opcode_33 :: emulate where
  "Opcode_33 InsB slot blockEndPC = Inr (unprev_I_Load InsB)"

definition Opcode_34 :: emulate where
  "Opcode_34 InsB slot blockEndPC = Inr (unprev_I_Load InsB)"

definition Opcode_35 :: emulate where
  "Opcode_35 InsB slot blockEndPC = Inr (unprev_I_Load InsB)"

definition Opcode_36 :: emulate where
  "Opcode_36 InsB slot blockEndPC = Inr (unprev_I_Load InsB)"

definition Opcode_37 :: emulate where
  "Opcode_37 InsB slot blockEndPC = Inr (unprev_I_Load InsB)"

definition Opcode_38 :: emulate where
  "Opcode_38 InsB slot blockEndPC = Inr (unprev_I_Load InsB)"

definition Opcode_39 :: emulate where
  "Opcode_39 InsB slot blockEndPC = Inr (unprev_I_Load InsB)"

definition Opcode_40 :: emulate where
  "Opcode_40 InsB slot blockEndPC = Inr (unprev_I_Store InsB)"

definition Opcode_41 :: emulate where
  "Opcode_41 InsB slot blockEndPC = Inr (unprev_I_Store InsB)"

definition Opcode_42 :: emulate where
  "Opcode_42 InsB slot blockEndPC = Inr (unprev_I_Store InsB)"

definition Opcode_43 :: emulate where
  "Opcode_43 InsB slot blockEndPC = Inr (unprev_I_Store InsB)"

definition Opcode_44 :: emulate where
  "Opcode_44 InsB slot blockEndPC = Inr (unprev_I_Store InsB)"

definition Opcode_45 :: emulate where
  "Opcode_45 InsB slot blockEndPC = Inr (unprev_I_Store InsB)"

definition Opcode_46 :: emulate where
  "Opcode_46 InsB slot blockEndPC = Inr (unprev_I_Store InsB)"

definition Opcode_47 :: emulate where
  "Opcode_47 InsB slot blockEndPC = Inr cache"

definition Opcode_48 :: emulate where
  "Opcode_48 InsB slot blockEndPC = Inr (ll InsB)"

definition Opcode_50 :: emulate where
  "Opcode_50 InsB slot blockEndPC = bind_result slot (\<lambda>ds. Inr (bbit InsB ds))"

definition Opcode_51 :: emulate where
  "Opcode_51 InsB slot blockEndPC = Inr pref"

definition Opcode_52 :: emulate where
  "Opcode_52 InsB slot blockEndPC = Inr (lld InsB)"

definition Opcode_54 :: emulate where
  "Opcode_54 InsB slot blockEndPC = bind_result slot (\<lambda>ds. Inr (bbit InsB ds))"

definition Opcode_55 :: emulate where
  "Opcode_55 InsB slot blockEndPC = Inr (unprev_I_Load InsB)"

definition Opcode_56 :: emulate where
  "Opcode_56 InsB slot blockEndPC = Inr (sc InsB)"

definition Opcode_58 :: emulate where
  "Opcode_58 InsB slot blockEndPC = bind_result slot (\<lambda>ds. Inr (bbit InsB ds))"

definition Opcode_59 :: emulate where
  "Opcode_59 InsB slot blockEndPC = Inr TerminateBlock"

definition Opcode_60 :: emulate where
  "Opcode_60 InsB slot blockEndPC = Inr (scd InsB)"

definition Opcode_62 :: emulate where
  "Opcode_62 InsB slot blockEndPC = bind_result slot (\<lambda>ds. Inr (bbit InsB ds))"

definition Opcode_63 :: emulate where
  "Opcode_63 InsB slot blockEndPC = Inr (unprev_I_Store InsB)"

definition opcode_funs_array :: "emulate list" where
  "opcode_funs_array = [
     Opcode_0, Opcode_1, Opcode_2, Opcode_3,
     Opcode_4, Opcode_5, Opcode_6, Opcode_7,
     Opcode_8, Opcode_9, Opcode_10, Opcode_11,
     Opcode_12, Opcode_13, Opcode_14, Opcode_15,
     Opcode_16, not_an_Ins, Opcode_18, not_an_Ins,
     Opcode_20, Opcode_21, Opcode_22, Opcode_23,
     Opcode_24, Opcode_25, Opcode_26, Opcode_27,
     Opcode_28, not_an_Ins, not_an_Ins, Opcode_31,
     Opcode_32, Opcode_33, Opcode_34, Opcode_35,
     Opcode_36, Opcode_37, Opcode_38, Opcode_39,
     Opcode_40, Opcode_41, Opcode_42, Opcode_43,
     Opcode_44, Opcode_45, Opcode_46, Opcode_47,
     Opcode_48, not_an_Ins, Opcode_50, Opcode_51,
     Opcode_52, not_an_Ins, Opcode_54, Opcode_55,
     Opcode_56, not_an_Ins, Opcode_58, Opcode_59,
     Opcode_60, not_an_Ins, Opcode_62, Opcode_63]"

section \<open>Dispatch\<close>

definition dispatch :: emulate where
  "dispatch InsB slot blockEndPC = table_call opcode_funs_array (unat (opcode InsB)) InsB slot blockEndPC"

definition findInstrCase :: "IInfo \<Rightarrow> IInfo option \<Rightarrow> u64 \<Rightarrow> u32 list result" where
  "findInstrCase InsB InsD blockEndPC =
     dispatch InsB (case InsD of None \<Rightarrow> Inl NullDeref | Some d \<Rightarrow> dispatch d (Inl NullDeref) 0) blockEndPC"

section \<open>Translation of a block\<close>

abbreviation (input) MIN_TRANS_INSTR_SIZE :: nat where "MIN_TRANS_INSTR_SIZE \<equiv> 2"

text \<open>The loop over the instructions before the last two.\<close>

fun translate_each :: "IInfo list \<Rightarrow> u64 \<Rightarrow> u32 list result" where
  "translate_each [] blockEndPC = Inr []"
| "translate_each (ins # rest) blockEndPC =
     bind_result (findInstrCase ins None blockEndPC) (\<lambda>ws.
     bind_result (translate_each rest blockEndPC) (\<lambda>tail. Inr (ws @ update_pc @ tail)))"

definition doBlockTranslation :: "IInfo list \<Rightarrow> u64 \<Rightarrow> u32 list result" where
  "doBlockTranslation vec blockEndPC =
     (if length vec < MIN_TRANS_INSTR_SIZE then Inl ExitError
      else
        (let i = length vec - MIN_TRANS_INSTR_SIZE in
         bind_result (translate_each (take i vec) blockEndPC) (\<lambda>ws.
         bind_result (findInstrCase (vec ! i) (Some (vec ! (i + 1))) blockEndPC) (\<lambda>last. Inr (ws @ last)))))"


section \<open>How handlers use the delay slot\<close>

text \<open>
  A handler either needs the translation of the delay slot, and fails as the slot fails, or never
  looks at it. \<open>slot_table\<close> says which entries of a table need it and that no entry of a table is
  the source of an out-of-bounds access.
\<close>

definition needs_slot :: "emulate \<Rightarrow> bool" where
  "needs_slot h \<longleftrightarrow> (\<forall>B e pc. h B (Inl e) pc = Inl e)"

definition ignores_slot :: "emulate \<Rightarrow> bool" where
  "ignores_slot h \<longleftrightarrow> (\<forall>B s pc. h B s pc = h B (Inl NullDeref) pc \<and> h B s pc \<noteq> Inl NullDeref)"

definition in_bounds :: "emulate \<Rightarrow> bool" where
  "in_bounds h \<longleftrightarrow> (\<forall>B s pc. s \<noteq> Inl OutOfBounds \<longrightarrow> h B s pc \<noteq> Inl OutOfBounds)"

definition slot_table :: "(nat \<Rightarrow> bool) \<Rightarrow> emulate list \<Rightarrow> bool" where
  "slot_table need tab \<longleftrightarrow>
     (\<forall>i<length tab. in_bounds (tab ! i) \<and> (if need i then needs_slot (tab ! i) else ignores_slot (tab ! i)))"

lemma slot_table_Cons:
  "slot_table need (h # tab) \<longleftrightarrow>
     in_bounds h \<and> (if need 0 then needs_slot h else ignores_slot h) \<and> slot_table (\<lambda>i. need (Suc i)) tab"
  unfolding slot_table_def by (auto simp: less_Suc_eq_0_disj)

lemma slot_table_Nil: "slot_table need []"
  by (simp add: slot_table_def)

lemma bind_Inr_eq_Inl [simp]: "(bind_result r (\<lambda>x. Inr (f x)) = Inl e) = (r = Inl e)"
  by (cases r) simp_all

lemmas slot_use = needs_slot_def ignores_slot_def in_bounds_def slot_table_Cons slot_table_Nil

lemmas special_defs =
  not_an_Ins_def OP0_0to5bits_0_def OP0_0to5bits_2_def OP0_0to5bits_3_def
  OP0_0to5bits_4_def OP0_0to5bits_6_def OP0_0to5bits_7_def OP0_0to5bits_8_def
  OP0_0to5bits_9_def OP0_0to5bits_10_def OP0_0to5bits_11_def OP0_0to5bits_12_def
  OP0_0to5bits_13_def OP0_0to5bits_14_def OP0_0to5bits_15_def OP0_0to5bits_16_def
  OP0_0to5bits_17_def OP0_0to5bits_18_def OP0_0to5bits_19_def OP0_0to5bits_20_def
  OP0_0to5bits_22_def OP0_0to5bits_23_def OP0_0to5bits_24_def OP0_0to5bits_25_def
  OP0_0to5bits_26_def OP0_0to5bits_27_def OP0_0to5bits_28_def OP0_0to5bits_29_def
  OP0_0to5bits_30_def OP0_0to5bits_31_def OP0_0to5bits_32_def OP0_0to5bits_33_def
  OP0_0to5bits_34_def OP0_0to5bits_35_def OP0_0to5bits_36_def OP0_0to5bits_37_def
  OP0_0to5bits_38_def OP0_0to5bits_39_def OP0_0to5bits_42_def OP0_0to5bits_43_def
  OP0_0to5bits_44_def OP0_0to5bits_45_def OP0_0to5bits_46_def OP0_0to5bits_47_def
  OP0_0to5bits_48_def OP0_0to5bits_49_def OP0_0to5bits_50_def OP0_0to5bits_51_def
  OP0_0to5bits_52_def OP0_0to5bits_54_def OP0_0to5bits_56_def OP0_0to5bits_58_def
  OP0_0to5bits_59_def OP0_0to5bits_60_def OP0_0to5bits_62_def OP0_0to5bits_63_def

lemmas regimm_defs =
  not_an_Ins_def OP1_16to20bits_0_def OP1_16to20bits_1_def OP1_16to20bits_2_def
  OP1_16to20bits_3_def OP1_16to20bits_8_def OP1_16to20bits_9_def OP1_16to20bits_10_def
  OP1_16to20bits_11_def OP1_16to20bits_12_def OP1_16to20bits_14_def OP1_16to20bits_16_def
  OP1_16to20bits_17_def OP1_16to20bits_18_def OP1_16to20bits_19_def OP1_16to20bits_31_def

lemmas cop0_defs =
  not_an_Ins_def OP16_0to5bits_1_def OP16_0to5bits_2_def OP16_0to5bits_6_def
  OP16_0to5bits_8_def OP16_0to5bits_24_def OP16_0to5bits_31_def OP16_21to25bits_0_def
  OP16_21to25bits_1_def OP16_21to25bits_4_def OP16_21to25bits_5_def OP16_21to25bits_10_def
  OP16_21to25bits_11_def OP16_21to25bits_14_def OP16_0to5bits_32_def

lemmas special2_defs =
  not_an_Ins_def OP28_0to5bits_0_def OP28_0to5bits_1_def OP28_0to5bits_2_def
  OP28_0to5bits_3_def OP28_0to5bits_4_def OP28_0to5bits_5_def OP28_0to5bits_8_def
  OP28_0to5bits_9_def OP28_0to5bits_10_def OP28_0to5bits_11_def OP28_0to5bits_12_def
  OP28_0to5bits_13_def OP28_0to5bits_15_def OP28_0to5bits_16_def OP28_0to5bits_17_def
  OP28_0to5bits_24_def OP28_0to5bits_25_def OP28_0to5bits_32_def OP28_0to5bits_33_def
  OP28_0to5bits_36_def OP28_0to5bits_37_def OP28_0to5bits_40_def OP28_0to5bits_42_def
  OP28_0to5bits_43_def OP28_0to5bits_44_def OP28_0to5bits_45_def OP28_0to5bits_46_def
  OP28_0to5bits_47_def OP28_0to5bits_50_def OP28_0to5bits_51_def OP28_0to5bits_58_def
  OP28_0to5bits_59_def OP28_0to5bits_63_def

lemmas special3_defs =
  not_an_Ins_def OP31_0to5bits_0_def OP31_0to5bits_1_def OP31_0to5bits_2_def
  OP31_0to5bits_3_def OP31_0to5bits_4_def OP31_0to5bits_5_def OP31_0to5bits_6_def
  OP31_0to5bits_7_def OP31_0to5bits_32_def OP31_0to5bits_36_def OP31_0to5bits_59_def

lemmas opcode_defs =
  not_an_Ins_def Opcode_0_def Opcode_1_def Opcode_2_def
  Opcode_3_def Opcode_4_def Opcode_5_def Opcode_6_def
  Opcode_7_def Opcode_8_def Opcode_9_def Opcode_10_def
  Opcode_11_def Opcode_12_def Opcode_13_def Opcode_14_def
  Opcode_15_def Opcode_16_def Opcode_18_def Opcode_20_def
  Opcode_21_def Opcode_22_def Opcode_23_def Opcode_24_def
  Opcode_25_def Opcode_26_def Opcode_27_def Opcode_28_def
  Opcode_31_def Opcode_32_def Opcode_33_def Opcode_34_def
  Opcode_35_def Opcode_36_def Opcode_37_def Opcode_38_def
  Opcode_39_def Opcode_40_def Opcode_41_def Opcode_42_def
  Opcode_43_def Opcode_44_def Opcode_45_def Opcode_46_def
  Opcode_47_def Opcode_48_def Opcode_50_def Opcode_51_def
  Opcode_52_def Opcode_54_def Opcode_55_def Opcode_56_def
  Opcode_58_def Opcode_59_def Opcode_60_def Opcode_62_def
  Opcode_63_def


lemma slot_table_opcode0: "slot_table (\<lambda>i. i \<in> {8, 9}) opcode0_0to5_bits"
  unfolding opcode0_0to5_bits_def by (simp add: slot_use special_defs Let_def)

lemma slot_table_opcode1: "slot_table (\<lambda>i. i \<in> {0, 1, 2, 3, 16, 17, 18, 19}) opcode1_16to20_bits"
  unfolding opcode1_16to20_bits_def by (simp add: slot_use regimm_defs)

lemma slot_table_opcode16: "slot_table (\<lambda>i. False) opcode16_21to25_bits" "slot_table (\<lambda>i. False) opcode16_0to5_bits"
  unfolding opcode16_21to25_bits_def opcode16_0to5_bits_def by (simp_all add: slot_use cop0_defs Let_def)

lemma slot_table_opcode28: "slot_table (\<lambda>i. False) opcode28_0to5_bits"
  unfolding opcode28_0to5_bits_def by (simp add: slot_use special2_defs)

lemma slot_table_opcode31: "slot_table (\<lambda>i. False) opcode31_0to5_bits"
  unfolding opcode31_0to5_bits_def by (simp add: slot_use special3_defs)

lemma length_tables:
  "length opcode_funs_array = 64" "length opcode0_0to5_bits = 64" "length opcode1_16to20_bits = 32"
  "length opcode16_21to25_bits = 32" "length opcode16_0to5_bits = 33" "length opcode28_0to5_bits = 64"
  "length opcode31_0to5_bits = 60"
  by (simp_all add: opcode_funs_array_def opcode0_0to5_bits_def opcode1_16to20_bits_def
      opcode16_21to25_bits_def opcode16_0to5_bits_def opcode28_0to5_bits_def opcode31_0to5_bits_def)

text \<open>The entries of the first table other than those that go on to a second table.\<close>

abbreviation (input) branch_opcodes :: "nat set" where
  "branch_opcodes \<equiv> {2, 3, 4, 5, 6, 7, 20, 21, 22, 23, 50, 54, 58, 62}"

lemma slot_table_funs:
  assumes "i < 64" "i \<notin> {0, 1, 16, 28, 31}"
  shows "in_bounds (opcode_funs_array ! i) \<and>
     (if i \<in> branch_opcodes then needs_slot (opcode_funs_array ! i) else ignores_slot (opcode_funs_array ! i))"
proof -
  let ?t = "opcode_funs_array[0 := not_an_Ins, 1 := not_an_Ins, 16 := not_an_Ins, 28 := not_an_Ins, 31 := not_an_Ins]"
  have "slot_table (\<lambda>i. i \<in> branch_opcodes) ?t"
    unfolding opcode_funs_array_def by (simp add: slot_use opcode_defs Let_def)
  moreover have "i < length ?t" using assms(1) by (simp add: length_tables)
  ultimately have entry: "in_bounds (?t ! i) \<and> (if i \<in> branch_opcodes then needs_slot (?t ! i) else ignores_slot (?t ! i))"
    unfolding slot_table_def by blast
  have same: "?t ! i = opcode_funs_array ! i" using assms(2) by simp
  show ?thesis using entry unfolding same .
qed

lemma slot_tableD:
  assumes "slot_table need tab" "i < length tab"
  shows "s \<noteq> Inl OutOfBounds \<Longrightarrow> (tab ! i) B s pc \<noteq> Inl OutOfBounds"
    and "(tab ! i) B (Inl NullDeref) pc = Inl NullDeref \<longleftrightarrow> need i"
  using assms unfolding slot_table_def in_bounds_def needs_slot_def ignores_slot_def by (auto split: if_splits)

lemma opcode_entry:
  "opcode_funs_array ! 0 = Opcode_0" "opcode_funs_array ! 1 = Opcode_1" "opcode_funs_array ! 16 = Opcode_16"
  "opcode_funs_array ! 28 = Opcode_28" "opcode_funs_array ! 31 = Opcode_31"
  by (simp_all add: opcode_funs_array_def)

section \<open>Fields as numbers\<close>

lemma unat_EXTBITS_less: "start \<le> end \<Longrightarrow> end < 32 \<Longrightarrow> unat (EXTBITS w start end) < 2 ^ (end - start + 1)"
proof -
  assume "start \<le> end" "end < 32"
  have "EXTBITS w start end = take_bit (end - start + 1) (drop_bit start w)"
    by (rule bit_word_eqI) (use \<open>start \<le> end\<close> \<open>end < 32\<close> in \<open>auto simp: EXTBITS_bit bit_simps\<close>)
  then show ?thesis by (simp add: unsigned_take_bit_eq take_bit_nat_less_exp del: power_Suc)
qed

lemma unat_field [simp]:
  "unat (ucast (EXTBITS w 26 31) :: 6 word) = unat (EXTBITS w 26 31)"
  "unat (ucast (EXTBITS w 0 5) :: 6 word) = unat (EXTBITS w 0 5)"
  "unat (ucast (EXTBITS w 21 25) :: 5 word) = unat (EXTBITS w 21 25)"
  "unat (ucast (EXTBITS w 16 20) :: 5 word) = unat (EXTBITS w 16 20)"
  using unat_EXTBITS_less [of 26 31 w] unat_EXTBITS_less [of 0 5 w] unat_EXTBITS_less [of 21 25 w]
    unat_EXTBITS_less [of 16 20 w] by (simp_all add: unsigned_ucast_eq take_bit_nat_eq_self)

lemma find_entry:
  "findInstrCase (IInfo_of w) D pc =
     (opcode_funs_array ! unat (EXTBITS w 26 31)) (IInfo_of w)
       (case D of None \<Rightarrow> Inl NullDeref | Some d \<Rightarrow> dispatch d (Inl NullDeref) 0) pc"
  using unat_EXTBITS_less [of 26 31 w]
  by (simp add: findInstrCase_def dispatch_def table_call_def length_tables)

text \<open>The control test of each format, over the numbers of the fields.\<close>

lemma control_format:
  "getType (ucast (EXTBITS w 26 31)) = RTYPE \<Longrightarrow>
     isControlInst (IInfo_of w) = isCntrlInstR (ucast (EXTBITS w 26 31)) (ucast (EXTBITS w 21 25)) (ucast (EXTBITS w 0 5))"
  "getType (ucast (EXTBITS w 26 31)) = ITYPE \<Longrightarrow>
     isControlInst (IInfo_of w) = isCntrlInstI (ucast (EXTBITS w 26 31)) (ucast (EXTBITS w 16 20))"
  "getType (ucast (EXTBITS w 26 31)) = JTYPE \<Longrightarrow> isControlInst (IInfo_of w) = isCntrlInstJ (ucast (EXTBITS w 26 31))"
  by (simp_all add: IInfo_of_def Let_def)

lemma six_bits:
  assumes "\<forall>i<64. P (of_nat i :: 6 word)"
  shows "P x"
proof -
  have "unat x < 2 ^ LENGTH(6)" by (rule unsigned_less)
  then have "unat x < 64" by simp
  moreover have "x = of_nat (unat x)" by simp
  ultimately show ?thesis using assms by metis
qed

lemma control_opcodes:
  "unat x \<notin> {0, 1, 16, 17, 18, 28, 31} \<Longrightarrow>
     (case getType x of RTYPE \<Rightarrow> isCntrlInstR x rs func | ITYPE \<Rightarrow> isCntrlInstI x rt | JTYPE \<Rightarrow> isCntrlInstJ x | ILLEGAL \<Rightarrow> False)
     \<longleftrightarrow> unat x \<in> branch_opcodes"
  by (induction x rule: six_bits)
    (simp add: bitblast getType_def isCntrlInstR_def isCntrlInstI_def isCntrlInstJ_def)

text \<open>The two groups of words for which no delay slot is ever asked for.\<close>

lemma slotless_coprocessor:
  fixes w :: u32
  assumes "EXTBITS w 26 31 \<in> {16, 17, 18}"
  shows "findInstrCase (IInfo_of w) None pc \<noteq> Inl NullDeref"
proof -
  have o: "unat (EXTBITS w 26 31) < 64" using unat_EXTBITS_less [of 26 31 w] by simp
  have rs: "unat (EXTBITS w 21 25) < 32" using unat_EXTBITS_less [of 21 25 w] by simp
  consider "EXTBITS w 26 31 = 16" | "unat (EXTBITS w 26 31) \<in> {17, 18}" using assms by auto
  then show ?thesis
  proof cases
    case 1
    then have t: "getType (ucast (EXTBITS w 26 31)) = RTYPE" by (simp add: getType_def)
    show ?thesis
      using 1 rs slot_tableD(2) [OF slot_table_opcode16(1)] slot_tableD(2) [OF slot_table_opcode16(2)]
      by (auto simp: find_entry opcode_entry Opcode_16_def table_call_def length_tables R_fields [OF t] Let_def)
  next
    case 2
    then show ?thesis
      using slot_table_funs [OF o] by (auto simp: find_entry ignores_slot_def)
  qed
qed

lemma slotless_rotation:
  fixes w :: u32
  assumes "EXTBITS w 26 31 = 1 \<and> EXTBITS w 21 25 = 0 \<and> EXTBITS w 0 5 = 58"
  shows "findInstrCase (IInfo_of w) None pc \<noteq> Inl NullDeref"
proof -
  have t: "getType (ucast (EXTBITS w 26 31)) = ITYPE" using assms by (simp add: getType_def)
  show ?thesis
    using assms by (simp add: find_entry opcode_entry(2) [simplified] Opcode_1_def I_fields [OF t] Let_def)
qed

text \<open>Everywhere else the two tests agree.\<close>

lemma slot_iff_control_regular:
  fixes w :: u32
  assumes "EXTBITS w 26 31 \<notin> {16, 17, 18}"
    and "\<not> (EXTBITS w 26 31 = 1 \<and> EXTBITS w 21 25 = 0 \<and> EXTBITS w 0 5 = 58)"
  shows "findInstrCase (IInfo_of w) None pc = Inl NullDeref \<longleftrightarrow> isControlInst (IInfo_of w)"
proof -
  let ?o = "unat (EXTBITS w 26 31)"
  have o: "?o < 64" using unat_EXTBITS_less [of 26 31 w] by simp
  consider "?o = 0" | "?o = 1" | "?o \<in> {28, 31}" | "?o \<notin> {0, 1, 16, 28, 31}"
    using assms(1) by (auto simp: word_unat_eq_iff)
  then show ?thesis
  proof cases
    case 1
    then have op: "EXTBITS w 26 31 = 0" by (simp add: word_unat_eq_iff)
    have "findInstrCase (IInfo_of w) None pc = Inl NullDeref \<longleftrightarrow> unat (EXTBITS w 0 5) \<in> {8, 9}"
      using unat_EXTBITS_less [of 0 5 w] slot_tableD(2) [OF slot_table_opcode0]
      by (simp add: find_entry 1 opcode_entry Opcode_0_def table_call_def length_tables R_fields op getType_def)
    then show ?thesis
      by (simp add: control_format(1) op getType_def isCntrlInstR_def word_unat_eq_iff)
  next
    case 2
    then have op: "EXTBITS w 26 31 = 1" by (simp add: word_unat_eq_iff)
    have t: "getType (ucast (EXTBITS w 26 31)) = ITYPE" by (simp add: op getType_def)
    have "\<not> (EXTBITS w 0 5 = 58 \<and> (ucast (EXTBITS w 21 25) :: 5 word) = 0)"
      using assms(2) op by (auto simp: word_unat_eq_iff)
    then have "findInstrCase (IInfo_of w) None pc = Inl NullDeref \<longleftrightarrow> unat (EXTBITS w 16 20) \<in> {0, 1, 2, 3, 16, 17, 18, 19}"
      using unat_EXTBITS_less [of 16 20 w] slot_tableD(2) [OF slot_table_opcode1]
      by (simp add: find_entry 2 opcode_entry(2) [simplified] Opcode_1_def table_call_def length_tables I_fields [OF t] Let_def) auto
    moreover have "isControlInst (IInfo_of w) \<longleftrightarrow> unat (EXTBITS w 16 20) \<le> 3 \<or> 16 \<le> unat (EXTBITS w 16 20) \<and> unat (EXTBITS w 16 20) \<le> 19"
      by (simp add: control_format(2) [OF t] isCntrlInstI_def op word_le_nat_alt)
    ultimately show ?thesis by auto
  next
    case 3
    then have op: "EXTBITS w 26 31 \<in> {28, 31}" by (auto simp: word_unat_eq_iff)
    have t: "getType (ucast (EXTBITS w 26 31)) = RTYPE" using op by (auto simp: getType_def)
    then have "\<not> isControlInst (IInfo_of w)"
      using op by (auto simp: control_format(1) [OF t] isCntrlInstR_def)
    moreover have "findInstrCase (IInfo_of w) None pc \<noteq> Inl NullDeref"
      using op 3 unat_EXTBITS_less [of 0 5 w] slot_tableD(2) [OF slot_table_opcode28] slot_tableD(2) [OF slot_table_opcode31]
      by (auto simp: find_entry opcode_entry Opcode_28_def Opcode_31_def table_call_def length_tables R_fields [OF t]
          split: if_splits)
    ultimately show ?thesis by simp
  next
    case 4
    have "isControlInst (IInfo_of w) \<longleftrightarrow> ?o \<in> branch_opcodes"
      using control_opcodes [of "ucast (EXTBITS w 26 31)" "ucast (EXTBITS w 21 25)" "ucast (EXTBITS w 0 5)" "ucast (EXTBITS w 16 20)"]
        4 assms(1) getType_legal [of "ucast (EXTBITS w 26 31)"]
      by (auto simp: control_format word_unat_eq_iff)
    moreover have "findInstrCase (IInfo_of w) None pc = Inl NullDeref \<longleftrightarrow> ?o \<in> branch_opcodes"
      using slot_table_funs [OF o] 4 by (auto simp: find_entry needs_slot_def ignores_slot_def split: if_splits)
    ultimately show ?thesis by simp
  qed
qed

section \<open>Properties\<close>

text \<open>
  Property C4. For every 32-bit word, the decoder asks for a delay slot if and only if the block
  builder ends a block at that word, apart from two groups that the statement names: the
  coprocessor opcodes 16 to 18, where the builder ends a block at a coprocessor branch and the
  decoder never asks for a slot, and the words of opcode 1 whose bits 21 to 25 are 0 and whose
  bits 0 to 5 are 58, which the decoder takes for a rotation whether or not they are a branch. In
  both groups no slot is ever translated, so the slot of a branch there is lost.
\<close>

theorem delay_slot_iff_control:
  fixes w :: u32
  shows "findInstrCase (IInfo_of w) None pc = Inl NullDeref \<longleftrightarrow>
    isControlInst (IInfo_of w) \<and> EXTBITS w 26 31 \<notin> {16, 17, 18}
    \<and> \<not> (EXTBITS w 26 31 = 1 \<and> EXTBITS w 21 25 = 0 \<and> EXTBITS w 0 5 = 58)"
proof (cases "EXTBITS w 26 31 \<in> {16, 17, 18} \<or> EXTBITS w 26 31 = 1 \<and> EXTBITS w 21 25 = 0 \<and> EXTBITS w 0 5 = 58")
  case True
  then show ?thesis using slotless_coprocessor [of w pc] slotless_rotation [of w pc] by blast
next
  case False
  then show ?thesis using slot_iff_control_regular [of w pc] by blast
qed

theorem delay_slot_iff_control_witness:
  "findInstrCase (IInfo_of 0x1022fffe) None 0 = Inl NullDeref \<and> isControlInst (IInfo_of 0x1022fffe)"
proof -
  have "isControlInst (IInfo_of 0x1022fffe)"
    by (simp add: IInfo_of_def EXTBITS_def getType_def isCntrlInstI_def Let_def)
  with delay_slot_iff_control [of "0x1022fffe" 0] show ?thesis by (simp add: EXTBITS_def)
qed

text \<open>
  Property C33. Decoding never indexes a table out of bounds, with two exceptions: the functions
  above 32 of the coprocessor-0 table, which has 33 entries, and those above 59 of the SPECIAL3 table, which
  has 60. Both are indexed with a 6-bit field.
\<close>

theorem decode_bounds:
  fixes w :: u32
  shows "findInstrCase (IInfo_of w) None pc = Inl OutOfBounds \<longleftrightarrow>
    (EXTBITS w 26 31 = 16 \<and> EXTBITS w 21 25 = 16 \<and> 33 \<le> EXTBITS w 0 5)
    \<or> (EXTBITS w 26 31 = 31 \<and> 60 \<le> EXTBITS w 0 5)"
proof -
  let ?o = "unat (EXTBITS w 26 31)"
  have o: "?o < 64" using unat_EXTBITS_less [of 26 31 w] by simp
  have f: "unat (EXTBITS w 0 5) < 64" using unat_EXTBITS_less [of 0 5 w] by simp
  have in5: "unat (EXTBITS w 16 20) < 32" "unat (EXTBITS w 21 25) < 32"
    using unat_EXTBITS_less [of 16 20 w] unat_EXTBITS_less [of 21 25 w] by simp_all
  consider "?o \<in> {0, 28}" | "?o = 1" | "?o = 16" | "?o = 31" | "?o \<notin> {0, 1, 16, 28, 31}" by blast
  then show ?thesis
  proof cases
    case 1
    then have t1: "EXTBITS w 26 31 \<in> {0, 28}" by (auto simp: word_unat_eq_iff)
    then have t2: "getType (ucast (EXTBITS w 26 31)) = RTYPE" by (auto simp: getType_def)
    note t = t1 t2
    show ?thesis
      using 1 f t slot_tableD(1) [OF slot_table_opcode0] slot_tableD(1) [OF slot_table_opcode28]
      by (auto simp: find_entry opcode_entry Opcode_0_def Opcode_28_def table_call_def length_tables R_fields [OF t(2)])
  next
    case 2
    then have t1: "EXTBITS w 26 31 = 1" by (simp add: word_unat_eq_iff)
    then have t2: "getType (ucast (EXTBITS w 26 31)) = ITYPE" by (simp add: getType_def)
    note t = t1 t2
    show ?thesis
      using 2 in5 t slot_tableD(1) [OF slot_table_opcode1]
      by (auto simp: find_entry opcode_entry(2) [simplified] Opcode_1_def table_call_def length_tables I_fields [OF t(2)] Let_def)
  next
    case 3
    then have t1: "EXTBITS w 26 31 = 16" by (simp add: word_unat_eq_iff)
    then have t2: "getType (ucast (EXTBITS w 26 31)) = RTYPE" by (simp add: getType_def)
    note t = t1 t2
    have rs: "(ucast (EXTBITS w 21 25) :: 5 word) = 16 \<longleftrightarrow> EXTBITS w 21 25 = 16"
      by (simp add: word_unat_eq_iff)
    show ?thesis
      using 3 f in5 t(1) slot_tableD(1) [OF slot_table_opcode16(1)] slot_tableD(1) [OF slot_table_opcode16(2)]
      by (auto simp: find_entry opcode_entry Opcode_16_def table_call_def length_tables R_fields [OF t(2)] Let_def
          rs word_le_nat_alt)
  next
    case 4
    then have t1: "EXTBITS w 26 31 = 31" by (simp add: word_unat_eq_iff)
    then have t2: "getType (ucast (EXTBITS w 26 31)) = RTYPE" by (simp add: getType_def)
    note t = t1 t2
    show ?thesis
      using 4 f t slot_tableD(1) [OF slot_table_opcode31]
      by (auto simp: find_entry opcode_entry Opcode_31_def table_call_def length_tables R_fields [OF t(2)] word_le_nat_alt)
  next
    case 5
    then have "EXTBITS w 26 31 \<noteq> 16" "EXTBITS w 26 31 \<noteq> 31" by auto
    then show ?thesis
      using slot_table_funs [OF o 5] by (auto simp: find_entry in_bounds_def)
  qed
qed

text \<open>
  Instructions the translator loses. \<^verbatim>\<open>mthi\<close> and \<^verbatim>\<open>mtlo\<close> reach an emitter that tests for
  the function codes of \<^verbatim>\<open>mfhi\<close> and \<^verbatim>\<open>mflo\<close>, and translate to no host code at all.
\<close>

lemma mthi_mtlo_lost:
  fixes w :: u32
  assumes "EXTBITS w 26 31 = 0" "EXTBITS w 0 5 \<in> {17, 19}"
  shows "findInstrCase (IInfo_of w) D pc = Inr []"
proof -
  have t: "getType (ucast (EXTBITS w 26 31)) = RTYPE" using assms(1) by (simp add: getType_def)
  show ?thesis
    using assms(2)
    by (auto simp: find_entry assms(1) opcode_entry Opcode_0_def table_call_def length_tables R_fields [OF t]
        opcode0_0to5_bits_def OP0_0to5bits_17_def OP0_0to5bits_19_def moveToLoHi_R_def Let_def)
qed

text \<open>
  A linking branch on register zero (\<^verbatim>\<open>bal\<close>) whose offset ends in the bits of 58 is taken for a
  rotation: it becomes a register shift that keeps opcode 1, no jump is emitted and the return
  address is not saved.
\<close>

lemma bal_taken_for_rotation:
  fixes w :: u32
  assumes "EXTBITS w 26 31 = 1" "EXTBITS w 21 25 = 0" "EXTBITS w 16 20 = 17" "EXTBITS w 0 5 = 58"
  shows "isControlInst (IInfo_of w)
    \<and> findInstrCase (IInfo_of w) D pc =
        Inr [encodeI OPCODE_LD BASE_REG TEMP1 (BaseGP + 8 * 17),
             encodeR 1 0 TEMP1 TEMP2 (EXTBITS w 6 10) 58,
             encodeI OPCODE_SD BASE_REG TEMP2 (BaseGP + 8 * EXTBITS w 11 15)]"
proof -
  have t: "getType (ucast (EXTBITS w 26 31)) = ITYPE" using assms(1) by (simp add: getType_def)
  have c: "ucast (ucast (EXTBITS w 11 15) :: 5 word) = EXTBITS w 11 15" "ucast (ucast (EXTBITS w 6 10) :: 5 word) = EXTBITS w 6 10"
    by (rule word32_eqI; simp add: bitblast bit_simps EXTBITS_bit)+
  show ?thesis
    by (simp add: find_entry assms opcode_entry(2) [simplified] Opcode_1_def I_fields [OF t] Let_def shift_R_def c
        control_format(2) [OF t] isCntrlInstI_def)
qed

end
