(* ===== verification/HostMips.thy ===== *)
theory HostMips
  imports Decode
begin

text \<open>
  What the emitted words do on the host. The host processor is not part of the sources, so its
  arithmetic is a parameter: a record of functions that give, for an instruction's fields and operand
  values, the value it computes or the outcome of its test. The locale \<open>mips_isa\<close> names the part of the
  MIPS64 manual the emitters rely on (immediates, masks, double shifts, equality branches), and is
  interpreted on a reference implementation.

  The state has the host's registers and the cells of the guest's register image, addressed by byte
  offset from register 12. \<open>step\<close> executes one word that is not a control transfer; it is \<open>None\<close>
  for the words outside the model, among them accesses through an address other than register 12 and
  the multiplier. Octeon's \<^verbatim>\<open>saad\<close> adds a register to the doubleword at an address, here to cell 0. \<open>exec\<close> runs a list of words with MIPS delay slots until a jump leaves it: \<^verbatim>\<open>jr\<close>
  ends the block, \<^verbatim>\<open>jalr\<close> hands control to the hypervisor and names the word to continue at.

  The overflow traps of \<^verbatim>\<open>add\<close>, \<^verbatim>\<open>addi\<close>, \<^verbatim>\<open>sub\<close>, \<^verbatim>\<open>dadd\<close> and \<^verbatim>\<open>daddi\<close> are not represented, on the host's side or the guest's: \<open>addi\<close> and
  \<open>daddi\<close> below add without them, and the arithmetic of the others is whatever the parameter says. On the host an overflow is a \<^verbatim>\<open>SIGFPE\<close>, which
  the program turns into an overflow exception of the guest (\<open>handleSigFPE\<close> in \<open>Processor\<close>, \<open>sigHandler\<close> in \<open>Board\<close>). What is
  proved here is about runs without an overflow.
\<close>

section \<open>Instruction set\<close>

record Host_ISA =
  isa_R :: "u32 \<Rightarrow> u32 \<Rightarrow> u32 \<Rightarrow> u64 \<Rightarrow> u64 \<Rightarrow> u64 \<Rightarrow> u64"  \<comment> \<open>opcode, shift field, function; rs, rt, old rd\<close>
  isa_S :: "u32 \<Rightarrow> u32 \<Rightarrow> u32 \<Rightarrow> u64 \<Rightarrow> u64"  \<comment> \<open>rs field, shift field, function; rt\<close>
  isa_X :: "u32 \<Rightarrow> u32 \<Rightarrow> u32 \<Rightarrow> u32 \<Rightarrow> u64 \<Rightarrow> u64"  \<comment> \<open>opcode, rd, shift field, function; rs\<close>
  isa_B :: "u32 \<Rightarrow> u32 \<Rightarrow> u32 \<Rightarrow> u32 \<Rightarrow> u64 \<Rightarrow> u64 \<Rightarrow> u64"  \<comment> \<open>opcode, rd, shift field, function; rs, old rt\<close>
  isa_I :: "u32 \<Rightarrow> u32 \<Rightarrow> u64 \<Rightarrow> u64"  \<comment> \<open>opcode, immediate; rs\<close>
  isa_T :: "u32 \<Rightarrow> u32 \<Rightarrow> u64 \<Rightarrow> bool"  \<comment> \<open>the test of a branch on one register: opcode, rt field; rs\<close>
  isa_RA :: "nat \<Rightarrow> u64"  \<comment> \<open>the address of a word of the code, for a branch that links\<close>

definition sext16 :: "u32 \<Rightarrow> u64" where
  "sext16 imm = scast (ucast imm :: u16)"

locale mips_isa =
  fixes M :: Host_ISA
  assumes lui: "isa_I M 15 imm v = sext32 (push_bit 16 (ucast imm))"
    and addi: "isa_I M 8 imm v = sext32 (v + sext16 imm)"
    and addiu: "isa_I M 9 imm v = sext32 (v + sext16 imm)"
    and daddi: "isa_I M 24 imm v = v + sext16 imm"
    and daddiu: "isa_I M 25 imm v = v + sext16 imm"
    and andi: "isa_I M 12 imm v = v AND ucast imm"
    and ori: "isa_I M 13 imm v = v OR ucast imm"
    and xori: "isa_I M 14 imm v = v XOR ucast imm"
    and and_R: "isa_R M 0 0 36 a b c = a AND b"
    and or_R: "isa_R M 0 0 37 a b c = a OR b"
    and dsll32: "isa_S M 0 0 60 b = push_bit 32 b"
    and dsrl32: "isa_S M 0 0 62 b = drop_bit 32 b"
    and dsra32: "isa_S M 0 0 63 b = sext32 (drop_bit 32 b)"

text \<open>
  The register instructions of the model, by where their operands are: three registers, a shift by
  the shift field, a field extracted from a register and a field inserted into one. Instructions
  whose unused fields the manual fixes (\<^verbatim>\<open>seb\<close>, \<^verbatim>\<open>clz\<close> and their kin) are outside.
\<close>

definition three_op :: "u32 \<Rightarrow> u32 \<Rightarrow> bool" where
  "three_op op func \<longleftrightarrow>
     (op = 0 \<and> func \<in> {4, 6, 7, 10, 11, 20, 22, 23, 32, 33, 34, 35, 36, 37, 38, 39, 42, 43, 44, 45, 46, 47})
     \<or> (op = 28 \<and> func \<in> {2, 3, 40, 42, 43})"

definition shift_op :: "u32 \<Rightarrow> u32 \<Rightarrow> bool" where
  "shift_op op func \<longleftrightarrow> op = 0 \<and> func \<in> {0, 2, 3, 56, 58, 59, 60, 62, 63}"

definition extract_op :: "u32 \<Rightarrow> u32 \<Rightarrow> bool" where
  "extract_op op func \<longleftrightarrow> (op = 31 \<and> func \<in> {0, 1, 2, 3}) \<or> (op = 28 \<and> func \<in> {46, 47, 58, 59})"

definition insert_op :: "u32 \<Rightarrow> u32 \<Rightarrow> bool" where
  "insert_op op func \<longleftrightarrow> (op = 31 \<and> func \<in> {4, 5, 6, 7}) \<or> (op = 28 \<and> func \<in> {50, 51})"

lemmas op_classes = three_op_def shift_op_def extract_op_def insert_op_def

definition immediate_op :: "u32 \<Rightarrow> bool" where
  "immediate_op op \<longleftrightarrow> op \<in> {8, 9, 10, 11, 12, 13, 14, 15, 24, 25}"

section \<open>Host state and execution\<close>

record Host =
  hreg :: "nat \<Rightarrow> u64"
  cell :: "nat \<Rightarrow> u64"

definition get_hreg :: "Host \<Rightarrow> nat \<Rightarrow> u64" where
  "get_hreg h r = (if r = 0 then 0 else hreg h r)"

definition set_hreg :: "nat \<Rightarrow> u64 \<Rightarrow> Host \<Rightarrow> Host" where
  "set_hreg r v h = (if r = 0 then h else h\<lparr>hreg := (hreg h)(r := v)\<rparr>)"

definition set_cell :: "nat \<Rightarrow> u64 \<Rightarrow> Host \<Rightarrow> Host" where
  "set_cell k v h = h\<lparr>cell := (cell h)(k := v)\<rparr>"

definition step :: "Host_ISA \<Rightarrow> u32 \<Rightarrow> Host \<Rightarrow> Host option" where
  "step M w h =
     (let op = EXTBITS w 26 31; rs = unat (EXTBITS w 21 25); rt = unat (EXTBITS w 16 20);
          rd = unat (EXTBITS w 11 15); sa = EXTBITS w 6 10; func = EXTBITS w 0 5; imm = EXTBITS w 0 15 in
      if op = 55 \<and> rs = 12 then Some (set_hreg rt (cell h (unat imm)) h)
      else if op = 63 \<and> rs = 12 then Some (set_cell (unat imm) (get_hreg h rt) h)
      else if immediate_op op then Some (set_hreg rt (isa_I M op imm (get_hreg h rs)) h)
      else if three_op op func
      then Some (set_hreg rd (isa_R M op sa func (get_hreg h rs) (get_hreg h rt) (get_hreg h rd)) h)
      else if shift_op op func
      then Some (set_hreg rd (isa_S M (EXTBITS w 21 25) sa func (get_hreg h rt)) h)
      else if extract_op op func
      then Some (set_hreg rt (isa_X M op (EXTBITS w 11 15) sa func (get_hreg h rs)) h)
      else if insert_op op func
      then Some (set_hreg rt (isa_B M op (EXTBITS w 11 15) sa func (get_hreg h rs) (get_hreg h rt)) h)
      else if op = 28 \<and> func = 25 \<and> rs = 12 then Some (set_cell 0 (cell h 0 + get_hreg h rt) h)
      else None)"

fun run :: "Host_ISA \<Rightarrow> u32 list \<Rightarrow> Host \<Rightarrow> Host option" where
  "run M [] h = Some h"
| "run M (w # ws) h = (case step M w h of None \<Rightarrow> None | Some h' \<Rightarrow> run M ws h')"

text \<open>
  The branches: on two registers, on the sign of one and on a bit of one. A likely branch
  annuls its delay slot when it is not taken; a linking branch stores the address after the slot in register 31.
\<close>

definition branch_op :: "u32 \<Rightarrow> bool" where
  "branch_op w \<longleftrightarrow> EXTBITS w 26 31 \<in> {1, 4, 5, 6, 7, 20, 21, 22, 23, 50, 54, 58, 62}"

definition likely_op :: "u32 \<Rightarrow> bool" where
  "likely_op w \<longleftrightarrow> EXTBITS w 26 31 \<in> {20, 21, 22, 23} \<or> EXTBITS w 26 31 = 1 \<and> EXTBITS w 16 20 \<in> {2, 3, 18, 19}"

definition link_op :: "u32 \<Rightarrow> bool" where
  "link_op w \<longleftrightarrow> EXTBITS w 26 31 = 1 \<and> EXTBITS w 16 20 \<in> {16, 17, 18, 19}"

definition branch_test :: "Host_ISA \<Rightarrow> u32 \<Rightarrow> u64 \<Rightarrow> u64 \<Rightarrow> bool" where
  "branch_test M w a b =
     (let op = EXTBITS w 26 31 in
      if op = 4 \<or> op = 20 then a = b
      else if op = 5 \<or> op = 21 then a \<noteq> b
      else isa_T M op (EXTBITS w 16 20) a)"

datatype outcome = End | Exit | Call nat

fun exec :: "Host_ISA \<Rightarrow> nat \<Rightarrow> u32 list \<Rightarrow> nat \<Rightarrow> Host \<Rightarrow> (outcome \<times> Host) option" where
  "exec M 0 ws i h = None"
| "exec M (Suc n) ws i h =
     (if length ws \<le> i then Some (End, h)
      else
        (let w = ws ! i; func = EXTBITS w 0 5;
             t = branch_test M w (get_hreg h (unat (EXTBITS w 21 25))) (get_hreg h (unat (EXTBITS w 16 20))) in
         if EXTBITS w 26 31 = 0 \<and> func \<in> {8, 9} then
           (if length ws \<le> i + 1 then None
            else case step M (ws ! (i + 1)) h of None \<Rightarrow> None
              | Some h' \<Rightarrow> Some (if func = 8 then Exit else Call (i + 2), h'))
         else if branch_op w then
           (let h = (if link_op w then set_hreg 31 (isa_RA M (i + 2)) h else h) in
            if length ws \<le> i + 1 then None
            else if likely_op w \<and> \<not> t then exec M n ws (i + 2) h
            else case step M (ws ! (i + 1)) h of None \<Rightarrow> None
              | Some h' \<Rightarrow> exec M n ws (if t then i + 1 + unat (EXTBITS w 0 15) else i + 2) h')
         else case step M w h of None \<Rightarrow> None | Some h' \<Rightarrow> exec M n ws (i + 1) h'))"

section \<open>The guest's registers in the image\<close>

definition gpr_cell :: "nat \<Rightarrow> nat" where
  "gpr_cell r = 200 + 8 * r"

definition cp0_cell :: "nat \<Rightarrow> nat \<Rightarrow> nat" where
  "cp0_cell r sel = 520 + 64 * r + 8 * sel"

section \<open>Fields of an emitted word\<close>

lemma encodeI_fields [simp]:
  "EXTBITS (encodeI op rs rt imm) 26 31 = op AND 0x3f" "EXTBITS (encodeI op rs rt imm) 21 25 = rs AND 0x1f"
  "EXTBITS (encodeI op rs rt imm) 16 20 = rt AND 0x1f" "EXTBITS (encodeI op rs rt imm) 0 15 = imm AND 0xffff"
  by (rule word32_eqI; simp add: encodeI_def bitblast bit_simps EXTBITS_bit)+

lemma encodeR_fields [simp]:
  "EXTBITS (encodeR op rs rt rd sa func) 26 31 = op AND 0x3f" "EXTBITS (encodeR op rs rt rd sa func) 21 25 = rs AND 0x1f"
  "EXTBITS (encodeR op rs rt rd sa func) 16 20 = rt AND 0x1f" "EXTBITS (encodeR op rs rt rd sa func) 11 15 = rd AND 0x1f"
  "EXTBITS (encodeR op rs rt rd sa func) 6 10 = sa AND 0x1f" "EXTBITS (encodeR op rs rt rd sa func) 0 5 = func AND 0x3f"
  by (rule word32_eqI; simp add: encodeR_def bitblast bit_simps EXTBITS_bit)+

lemma field_masks [simp]:
  "(ucast (x :: 6 word) :: u32) AND 0x3f = ucast x" "(ucast (y :: 5 word) :: u32) AND 0x1f = ucast y"
  "(ucast (z :: u16) :: u32) AND 0xffff = ucast z"
  by (rule word32_eqI; simp add: bitblast bit_simps)+

lemma field_less: "unat (y :: 5 word) < 32" "unat (x :: 6 word) < 64"
proof -
  have "unat y < 2 ^ LENGTH(5)" "unat x < 2 ^ LENGTH(6)" by (rule unsigned_less)+
  then show "unat y < 32" "unat x < 64" by simp_all
qed

lemma unat_field_up [simp]: "unat (ucast (y :: 5 word) :: u32) = unat y" "unat (ucast (x :: 6 word) :: u32) = unat x"
  using field_less(1) [of y] field_less(2) [of x] by (simp_all add: unsigned_ucast_eq take_bit_nat_eq_self)

lemma unat_cell: "k + 8 * n < 65536 \<Longrightarrow> unat (y :: 5 word) = n \<Longrightarrow>
    unat ((of_nat k + 8 * (ucast y :: u32)) AND 0xffff) = k + 8 * n"
proof -
  assume *: "k + 8 * n < 65536" "unat y = n"
  have y: "(ucast y :: u32) = of_nat n" using *(2) unat_field_up(1) [of y] by (metis of_nat_unat ucast_id)
  have "(of_nat k + 8 * (ucast y :: u32)) = of_nat (k + 8 * n)" by (simp add: y)
  moreover have "(of_nat (k + 8 * n) :: u32) AND 0xffff = of_nat (k + 8 * n)"
  proof -
    have "(of_nat (k + 8 * n) :: u32) AND 0xffff = take_bit 16 (of_nat (k + 8 * n))"
      by (rule word32_eqI) (simp add: bitblast bit_simps)
    then show ?thesis using *(1) by (simp add: take_bit_of_nat take_bit_nat_eq_self del: of_nat_add of_nat_mult)
  qed
  ultimately show ?thesis using *(1) by (simp add: unat_of_nat take_bit_nat_eq_self del: of_nat_add of_nat_mult)
qed

lemma gpr_offset [simp]: "unat ((200 + 8 * (ucast (y :: 5 word) :: u32)) AND 0xffff) = gpr_cell (unat y)"
  using unat_cell [of 200 "unat y" y] field_less(1) [of y] by (simp add: gpr_cell_def)

section \<open>Executing emitted words\<close>

lemma step_ld: "step M (encodeI 55 12 t k) h = Some (set_hreg (unat (t AND 0x1f)) (cell h (unat (k AND 0xffff))) h)"
  by (simp add: step_def Let_def)

lemma step_sd: "step M (encodeI 63 12 t k) h = Some (set_cell (unat (k AND 0xffff)) (get_hreg h (unat (t AND 0x1f))) h)"
  by (simp add: step_def Let_def)

lemma step_imm:
  "immediate_op (op AND 0x3f) \<Longrightarrow> step M (encodeI op s t k) h =
     Some (set_hreg (unat (t AND 0x1f)) (isa_I M (op AND 0x3f) (k AND 0xffff) (get_hreg h (unat (s AND 0x1f)))) h)"
  by (auto simp: step_def Let_def immediate_op_def)

lemma op_class_other:
  "three_op op func \<or> shift_op op func \<or> extract_op op func \<or> insert_op op func \<Longrightarrow>
     op \<noteq> 55 \<and> op \<noteq> 63 \<and> \<not> immediate_op op"
  by (auto simp: op_classes immediate_op_def)

lemma step_three:
  "three_op (op AND 0x3f) (func AND 0x3f) \<Longrightarrow>
     step M (encodeR op s t d sa func) h =
     Some (set_hreg (unat (d AND 0x1f)) (isa_R M (op AND 0x3f) (sa AND 0x1f) (func AND 0x3f)
        (get_hreg h (unat (s AND 0x1f))) (get_hreg h (unat (t AND 0x1f))) (get_hreg h (unat (d AND 0x1f)))) h)"
  using op_class_other [of "op AND 0x3f" "func AND 0x3f"] by (auto simp: step_def Let_def)

lemma class_disjoint:
  "shift_op op func \<Longrightarrow> \<not> three_op op func" "extract_op op func \<Longrightarrow> \<not> three_op op func \<and> \<not> shift_op op func"
  "insert_op op func \<Longrightarrow> \<not> three_op op func \<and> \<not> shift_op op func \<and> \<not> extract_op op func"
  by (auto simp: op_classes)

lemma step_shift:
  "shift_op (op AND 0x3f) (func AND 0x3f) \<Longrightarrow>
     step M (encodeR op s t d sa func) h =
     Some (set_hreg (unat (d AND 0x1f)) (isa_S M (s AND 0x1f) (sa AND 0x1f) (func AND 0x3f)
        (get_hreg h (unat (t AND 0x1f)))) h)"
  using op_class_other [of "op AND 0x3f" "func AND 0x3f"] class_disjoint(1)
  by (auto simp: step_def Let_def)

lemma step_extract:
  "extract_op (op AND 0x3f) (func AND 0x3f) \<Longrightarrow>
     step M (encodeR op s t d sa func) h =
     Some (set_hreg (unat (t AND 0x1f)) (isa_X M (op AND 0x3f) (d AND 0x1f) (sa AND 0x1f) (func AND 0x3f)
        (get_hreg h (unat (s AND 0x1f)))) h)"
  using op_class_other [of "op AND 0x3f" "func AND 0x3f"] class_disjoint(2)
  by (auto simp: step_def Let_def)

lemma step_insert:
  "insert_op (op AND 0x3f) (func AND 0x3f) \<Longrightarrow>
     step M (encodeR op s t d sa func) h =
     Some (set_hreg (unat (t AND 0x1f)) (isa_B M (op AND 0x3f) (d AND 0x1f) (sa AND 0x1f) (func AND 0x3f)
        (get_hreg h (unat (s AND 0x1f))) (get_hreg h (unat (t AND 0x1f)))) h)"
  using op_class_other [of "op AND 0x3f" "func AND 0x3f"] class_disjoint(3)
  by (auto simp: step_def Let_def)

lemma step_saad: "step M (encodeR 28 12 t 0 0 25) h = Some (set_cell 0 (cell h 0 + get_hreg h (unat (t AND 0x1f))) h)"
  by (simp add: step_def Let_def immediate_op_def op_classes)

lemma step_nop [simp]: "step M 0 h = Some h"
  by (simp add: step_def Let_def EXTBITS_def immediate_op_def op_classes set_hreg_def)

lemma get_set_hreg [simp]: "get_hreg (set_hreg r v h) s = (if s = r \<and> r \<noteq> 0 then v else get_hreg h s)"
  by (simp add: get_hreg_def set_hreg_def)

lemma cell_set_hreg [simp]: "cell (set_hreg r v h) = cell h"
  by (simp add: set_hreg_def)

lemma hreg_set_cell [simp]: "get_hreg (set_cell k v h) r = get_hreg h r" "cell (set_cell k v h) = (cell h)(k := v)"
  by (simp_all add: get_hreg_def set_cell_def)

lemma get_hreg_0 [simp]: "get_hreg h 0 = 0"
  by (simp add: get_hreg_def)

lemmas emitted = step_ld step_sd step_imm step_three step_shift step_extract step_insert step_saad

lemma run_append: "run M (ws @ vs) h = (case run M ws h of None \<Rightarrow> None | Some h' \<Rightarrow> run M vs h')"
  by (induction ws arbitrary: h) (simp_all split: option.splits)

text \<open>A stretch of words that \<open>run\<close> executes contains no jump, so \<open>exec\<close> passes over it.\<close>

lemma step_jump: "EXTBITS w 26 31 = 0 \<Longrightarrow> EXTBITS w 0 5 \<in> {8, 9} \<Longrightarrow> step M w h = None"
  by (auto simp: step_def Let_def immediate_op_def op_classes)

lemma step_branch: "branch_op w \<Longrightarrow> step M w h = None"
  unfolding branch_op_def by (elim insertE emptyE) (simp_all add: step_def Let_def immediate_op_def op_classes)

lemma step_no_jump:
  assumes "step M w h = Some h'"
  shows "\<not> (EXTBITS w 26 31 = 0 \<and> EXTBITS w 0 5 \<in> {8, 9})" "\<not> branch_op w"
  using assms step_jump [of w M h] step_branch [of w M h] by auto

lemma exec_step:
  assumes "step M w h = Some h'" "i < length ws" "ws ! i = w"
  shows "exec M (Suc n) ws i h = exec M n ws (i + 1) h'"
proof -
  have "\<not> length ws \<le> i" using assms(2) by simp
  then show ?thesis
    unfolding exec.simps Let_def assms(3) using step_no_jump [OF assms(1)] assms(1) by auto
qed

lemma exec_run:
  assumes "run M ws h = Some h'"
  shows "exec M (length ws + n) (pre @ ws @ post) (length pre) h
    = exec M n (pre @ ws @ post) (length pre + length ws) h'"
  using assms
proof (induction ws arbitrary: pre h)
  case Nil
  then show ?case by simp
next
  case (Cons w ws)
  then obtain h1 where h1: "step M w h = Some h1" "run M ws h1 = Some h'" by (auto split: option.splits)
  have "exec M (length (w # ws) + n) (pre @ (w # ws) @ post) (length pre) h
      = exec M (length ws + n) (pre @ (w # ws) @ post) (length pre + 1) h1"
    using exec_step [OF h1(1), of "length pre" "pre @ (w # ws) @ post" "length ws + n"] by simp
  also have "\<dots> = exec M (length ws + n) ((pre @ [w]) @ ws @ post) (length (pre @ [w])) h1" by simp
  also have "\<dots> = exec M n ((pre @ [w]) @ ws @ post) (length (pre @ [w]) + length ws) h'"
    by (rule Cons.IH [OF h1(2)])
  finally show ?case by simp
qed

end
