(* ===== verification/CP0.thy ===== *)
theory CP0
  imports Prelude
begin

text \<open>
  The system control coprocessor of a guest core, \<^verbatim>\<open>CP0_IPE.h\<close> and \<^verbatim>\<open>CP0_IPE.cpp\<close>: a bank of
  32 registers with 8 selects each, kept in one array whose slot of register \<open>r\<close>, select \<open>s\<close>
  is \<open>8 * r + s\<close>; the reset values; the write path, which clears the reserved bits; and the
  decoded views (operating mode, pending interrupt, core number) the other components use.

  The locale \<open>register_bank\<close> is the interface under which the exception handler, the TLB and the
  interrupt unit use these registers: what a read returns after a write.
\<close>

section \<open>Register numbers and bit masks\<close>

abbreviation (input) H2_CP0_INDEX :: nat where "H2_CP0_INDEX \<equiv> 0"
abbreviation (input) H2_CP0_RANDOM :: nat where "H2_CP0_RANDOM \<equiv> 1"
abbreviation (input) H2_CP0_ENTRYLO0 :: nat where "H2_CP0_ENTRYLO0 \<equiv> 2"
abbreviation (input) H2_CP0_ENTRYLO1 :: nat where "H2_CP0_ENTRYLO1 \<equiv> 3"
abbreviation (input) H2_CP0_CONTEXT :: nat where "H2_CP0_CONTEXT \<equiv> 4"
abbreviation (input) H2_CP0_PAGEGRAIN_1 :: nat where "H2_CP0_PAGEGRAIN_1 \<equiv> 5"
abbreviation (input) H2_CP0_PAGEMASK :: nat where "H2_CP0_PAGEMASK \<equiv> 5"
abbreviation (input) H2_CP0_WIRED :: nat where "H2_CP0_WIRED \<equiv> 6"
abbreviation (input) H2_CP0_HWRENA :: nat where "H2_CP0_HWRENA \<equiv> 7"
abbreviation (input) H2_CP0_BADVADDR :: nat where "H2_CP0_BADVADDR \<equiv> 8"
abbreviation (input) H2_CP0_COUNT :: nat where "H2_CP0_COUNT \<equiv> 9"
abbreviation (input) H2_CP0_CVMCOUNT_6 :: nat where "H2_CP0_CVMCOUNT_6 \<equiv> 9"
abbreviation (input) H2_CP0_CVMCTL_7 :: nat where "H2_CP0_CVMCTL_7 \<equiv> 9"
abbreviation (input) H2_CP0_ENTRYHI :: nat where "H2_CP0_ENTRYHI \<equiv> 10"
abbreviation (input) H2_CP0_COMPARE :: nat where "H2_CP0_COMPARE \<equiv> 11"
abbreviation (input) H2_CP0_CVMMEMCTL_7 :: nat where "H2_CP0_CVMMEMCTL_7 \<equiv> 11"
abbreviation (input) H2_CP0_INTCTL_1 :: nat where "H2_CP0_INTCTL_1 \<equiv> 12"
abbreviation (input) H2_CP0_SRSCTL_2 :: nat where "H2_CP0_SRSCTL_2 \<equiv> 12"
abbreviation (input) H2_CP0_STATUS :: nat where "H2_CP0_STATUS \<equiv> 12"
abbreviation (input) H2_CP0_CAUSE :: nat where "H2_CP0_CAUSE \<equiv> 13"
abbreviation (input) H2_CP0_EPC :: nat where "H2_CP0_EPC \<equiv> 14"
abbreviation (input) H2_CP0_EBASE_1 :: nat where "H2_CP0_EBASE_1 \<equiv> 15"
abbreviation (input) H2_CP0_PRID :: nat where "H2_CP0_PRID \<equiv> 15"
abbreviation (input) H2_CP0_CONFIG :: nat where "H2_CP0_CONFIG \<equiv> 16"
abbreviation (input) H2_CP0_CONFIG_1 :: nat where "H2_CP0_CONFIG_1 \<equiv> 16"
abbreviation (input) H2_CP0_CONFIG_2 :: nat where "H2_CP0_CONFIG_2 \<equiv> 16"
abbreviation (input) H2_CP0_CONFIG_3 :: nat where "H2_CP0_CONFIG_3 \<equiv> 16"
abbreviation (input) H2_CP0_CONFIG_4 :: nat where "H2_CP0_CONFIG_4 \<equiv> 16"
abbreviation (input) H2_CP0_DWATCHLO_1 :: nat where "H2_CP0_DWATCHLO_1 \<equiv> 18"
abbreviation (input) H2_CP0_IWATCHLO :: nat where "H2_CP0_IWATCHLO \<equiv> 18"
abbreviation (input) H2_CP0_DWATCHHI_1 :: nat where "H2_CP0_DWATCHHI_1 \<equiv> 19"
abbreviation (input) H2_CP0_IWATCHHI :: nat where "H2_CP0_IWATCHHI \<equiv> 19"
abbreviation (input) H2_CP0_XCONTEXT :: nat where "H2_CP0_XCONTEXT \<equiv> 20"
abbreviation (input) H2_CP0_MULTICORE_DEBUG :: nat where "H2_CP0_MULTICORE_DEBUG \<equiv> 22"
abbreviation (input) H2_CP0_DEBUG :: nat where "H2_CP0_DEBUG \<equiv> 23"
abbreviation (input) H2_CP0_DEBUG_EPC :: nat where "H2_CP0_DEBUG_EPC \<equiv> 24"
abbreviation (input) H2_CP0_PERFCNTCNT_1 :: nat where "H2_CP0_PERFCNTCNT_1 \<equiv> 25"
abbreviation (input) H2_CP0_PERFCNTCNT_3 :: nat where "H2_CP0_PERFCNTCNT_3 \<equiv> 25"
abbreviation (input) H2_CP0_PERFCNTCTL :: nat where "H2_CP0_PERFCNTCTL \<equiv> 25"
abbreviation (input) H2_CP0_PERFCNTCTL_2 :: nat where "H2_CP0_PERFCNTCTL_2 \<equiv> 25"
abbreviation (input) H2_CP0_DCACHEERR_1 :: nat where "H2_CP0_DCACHEERR_1 \<equiv> 27"
abbreviation (input) H2_CP0_ICACHEERR :: nat where "H2_CP0_ICACHEERR \<equiv> 27"
abbreviation (input) H2_CP0_DCACHEDATALO_3 :: nat where "H2_CP0_DCACHEDATALO_3 \<equiv> 28"
abbreviation (input) H2_CP0_DCACHETAGLO_2 :: nat where "H2_CP0_DCACHETAGLO_2 \<equiv> 28"
abbreviation (input) H2_CP0_ICACHEDATALO_1 :: nat where "H2_CP0_ICACHEDATALO_1 \<equiv> 28"
abbreviation (input) H2_CP0_ICACHETAGLO :: nat where "H2_CP0_ICACHETAGLO \<equiv> 28"
abbreviation (input) H2_CP0_DCACHEDATAHI_3 :: nat where "H2_CP0_DCACHEDATAHI_3 \<equiv> 29"
abbreviation (input) H2_CP0_DCACHETAGHI_2 :: nat where "H2_CP0_DCACHETAGHI_2 \<equiv> 29"
abbreviation (input) H2_CP0_ICACHEDATAHI_1 :: nat where "H2_CP0_ICACHEDATAHI_1 \<equiv> 29"
abbreviation (input) H2_CP0_ERROREPC :: nat where "H2_CP0_ERROREPC \<equiv> 30"
abbreviation (input) H2_CP0_DESAVE :: nat where "H2_CP0_DESAVE \<equiv> 31"

abbreviation (input) SEL_ZERO :: nat where "SEL_ZERO \<equiv> 0"
abbreviation (input) SEL_ONE :: nat where "SEL_ONE \<equiv> 1"
abbreviation (input) SEL_SIX :: nat where "SEL_SIX \<equiv> 6"

abbreviation (input) KERNEL_MODE :: u32 where "KERNEL_MODE \<equiv> 0"
abbreviation (input) SUPERVISOR_MODE :: u32 where "SUPERVISOR_MODE \<equiv> 1"
abbreviation (input) USER_MODE :: u32 where "USER_MODE \<equiv> 2"

abbreviation (input) STATUS_BEV :: u64 where "STATUS_BEV \<equiv> 0x00400000"
abbreviation (input) STATUS_UX :: u64 where "STATUS_UX \<equiv> 0x00000020"
abbreviation (input) STATUS_KSU_MASK :: u64 where "STATUS_KSU_MASK \<equiv> 0x00000018"
abbreviation (input) STATUS_KSU :: nat where "STATUS_KSU \<equiv> 3"
abbreviation (input) STATUS_ERL :: u64 where "STATUS_ERL \<equiv> 0x00000004"
abbreviation (input) STATUS_EXL :: u64 where "STATUS_EXL \<equiv> 0x00000002"
abbreviation (input) STATUS_IE :: u64 where "STATUS_IE \<equiv> 0x00000001"
abbreviation (input) STATUS_IMASK :: u64 where "STATUS_IMASK \<equiv> 0x0000FF00"

abbreviation (input) CAUSE_EXEC_OFFSET :: nat where "CAUSE_EXEC_OFFSET \<equiv> 2"
abbreviation (input) CAUSE_EXEC_MASK :: u64 where "CAUSE_EXEC_MASK \<equiv> 0x0000007C"
abbreviation (input) CAUSE_IP2 :: u64 where "CAUSE_IP2 \<equiv> 0x00000400"
abbreviation (input) CAUSE_IP3 :: u64 where "CAUSE_IP3 \<equiv> 0x00000800"
abbreviation (input) CAUSE_IP4 :: u64 where "CAUSE_IP4 \<equiv> 0x00001000"
abbreviation (input) CAUSE_IP7 :: u64 where "CAUSE_IP7 \<equiv> 0x00008000"
abbreviation (input) CAUSE_IV :: u64 where "CAUSE_IV \<equiv> 0x00800000"
abbreviation (input) CAUSE_DC :: u64 where "CAUSE_DC \<equiv> 0x08000000"
abbreviation (input) CAUSE_TI :: u64 where "CAUSE_TI \<equiv> 0x40000000"

abbreviation (input) INDEX_MASK :: u64 where "INDEX_MASK \<equiv> 0x3F"
abbreviation (input) INDEX_PROBE_MASK :: u64 where "INDEX_PROBE_MASK \<equiv> 0xFFFFFFFF80000000"
abbreviation (input) RANDOM_MASK :: u64 where "RANDOM_MASK \<equiv> 0x3F"
abbreviation (input) WIRED_MASK :: u64 where "WIRED_MASK \<equiv> 0x3F"
abbreviation (input) MIN_PAGE_MASK :: u64 where "MIN_PAGE_MASK \<equiv> 0x1FFF"
abbreviation (input) MIN_PAGE_BITS :: nat where "MIN_PAGE_BITS \<equiv> 12"
abbreviation (input) ENTRYHI_ASID_MASK :: u64 where "ENTRYHI_ASID_MASK \<equiv> 0xFF"
abbreviation (input) ENTRYLO_GLOBAL_MASK :: u64 where "ENTRYLO_GLOBAL_MASK \<equiv> 0x01"
abbreviation (input) ENTRYLO_VALID_MASK :: u64 where "ENTRYLO_VALID_MASK \<equiv> 0x02"
abbreviation (input) ENTRYLO_DIRTY_MASK :: u64 where "ENTRYLO_DIRTY_MASK \<equiv> 0x04"
abbreviation (input) ENTRYLO_COHERENCY_MASK :: u64 where "ENTRYLO_COHERENCY_MASK \<equiv> 0x07"
abbreviation (input) ENTRYLO_COHERENCY :: nat where "ENTRYLO_COHERENCY \<equiv> 3"
abbreviation (input) ENTRYLO_PFN :: nat where "ENTRYLO_PFN \<equiv> 6"
abbreviation (input) EBASE_CORENUM_MASK :: u64 where "EBASE_CORENUM_MASK \<equiv> 0x3FF"
abbreviation (input) XCONTEXT_PTEBASE_MASK :: u64 where "XCONTEXT_PTEBASE_MASK \<equiv> 0xFFFFFC0000000000"
abbreviation (input) CONTEXT_PTEBASE_MASK :: u64 where "CONTEXT_PTEBASE_MASK \<equiv> 0xFFFFFFFFFF800000"
abbreviation (input) CONTEXT_VPN_MASK :: u64 where "CONTEXT_VPN_MASK \<equiv> 0x007FFFF0"
abbreviation (input) MIN_COUNT_STEP :: u64 where "MIN_COUNT_STEP \<equiv> 1"

section \<open>The register file\<close>

record CP0_IPE =
  reg :: "nat \<Rightarrow> u64"

definition slot :: "nat \<Rightarrow> nat \<Rightarrow> nat" where
  "slot r sel = r * 8 + sel"

text \<open>
  \<^verbatim>\<open>ReservedBits\<close>. The step \<open>(a << 32) >> 32\<close>, which the source calls giving sign extension,
  shifts an unsigned value and so clears the upper half.
\<close>

definition ReservedBits :: "nat \<Rightarrow> nat \<Rightarrow> u64 \<Rightarrow> u64" where
  "ReservedBits r sel contents =
     (let ext = (\<lambda>a :: u64. drop_bit 32 (push_bit 32 a)); a = contents in
      if r = 1 then (if sel = 0 then ext (a AND 0x0000003f) else a)
      else if r = 4 then (if sel = 0 then a AND 0xfffffffffffffff0 else a)
      else if r = 5 then (if sel = 1 then ext (a AND 0xe0000000) else a)
      else if r = 6 then (if sel = 0 then ext (a AND 0x0000003f) else a)
      else if r = 7 then (if sel = 0 then ext (a AND 0xc000000f) else a)
      else if r = 9 then (if sel = 0 then a AND 0xffffffff else a)
      else if r = 11 then (if sel = 0 then a AND 0xffffffff else a)
      else if r = 12 then
        (if sel = 0 then ext (a AND 0x50f8ffff)
         else if sel = 1 then ext (a AND 0xfc000000)
         else if sel = 2 then a AND 0x0 else a)
      else if r = 13 then (if sel = 0 then ext (a AND 0xfcc0ff7c) else a)
      else if r = 15 then
        (if sel = 0 then a
         else if sel = 1 then ext ((a AND 0xbffff3ff) OR 0x80000000) else a)
      else if r = 16 then (if sel = 0 then ext ((a AND 0x8000c48f) OR 0x80004488) else a)
      else if r = 20 then (if sel = 0 then a AND 0xfffffffffffffff0 else a)
      else a)"

definition cp0_read :: "CP0_IPE \<Rightarrow> nat \<Rightarrow> nat \<Rightarrow> u64" where
  "cp0_read c r sel = reg c (slot r sel)"

definition cp0_write :: "u64 \<Rightarrow> nat \<Rightarrow> nat \<Rightarrow> CP0_IPE \<Rightarrow> CP0_IPE" where
  "cp0_write val r sel c = c\<lparr>reg := (reg c)(slot r sel := ReservedBits r sel val)\<rparr>"

definition set_raw :: "nat \<Rightarrow> nat \<Rightarrow> u64 \<Rightarrow> CP0_IPE \<Rightarrow> CP0_IPE" where
  "set_raw r sel v c = c\<lparr>reg := (reg c)(slot r sel := v)\<rparr>"

text \<open>The reset values, in the order of \<^verbatim>\<open>initCP0\<close>, written to the array directly.\<close>

definition reset_values :: "(nat \<times> nat \<times> u64) list" where
  "reset_values = [
    (H2_CP0_INDEX, 0, 0x0),
    (H2_CP0_RANDOM, 0, 0x000000000000003f),
    (H2_CP0_ENTRYLO0, 0, 0x0),
    (H2_CP0_ENTRYLO1, 0, 0x000000000012ebc6),
    (H2_CP0_CONTEXT, 0, 0x0),
    (H2_CP0_PAGEMASK, 0, 0x0),
    (H2_CP0_PAGEGRAIN_1, 1, 0x0),
    (H2_CP0_WIRED, 0, 0x0),
    (H2_CP0_HWRENA, 0, 0x0),
    (H2_CP0_BADVADDR, 0, 0x0),
    (H2_CP0_COUNT, 0, 0x0),
    (H2_CP0_ENTRYHI, 0, 0xc001ffffffffe000),
    (H2_CP0_COMPARE, 0, 0x0),
    (H2_CP0_STATUS, 0, 0x0000000000400004),
    (H2_CP0_INTCTL_1, 1, 0x0),
    (H2_CP0_SRSCTL_2, 2, 0x0),
    (H2_CP0_CAUSE, 0, 0x0),
    (H2_CP0_EPC, 0, 0x0),
    (H2_CP0_PRID, 0, 0x00000000000d0408),
    (H2_CP0_EBASE_1, 1, 0xffffffff80000000),
    (H2_CP0_CONFIG, 0, 0xffffffff8000c48a),
    (H2_CP0_CONFIG_1, 1, 0xfffffffffe3303da),
    (H2_CP0_CONFIG_2, 2, 0xffffffff80000467),
    (H2_CP0_CONFIG_3, 3, 0x0000000000001080),
    (H2_CP0_CONFIG_4, 4, 0x0000000000000080),
    (H2_CP0_IWATCHLO, 0, 0x0),
    (H2_CP0_DWATCHLO_1, 1, 0x0),
    (H2_CP0_IWATCHHI, 0, 0xffffffff80000ff8),
    (H2_CP0_DWATCHHI_1, 1, 0x0),
    (H2_CP0_XCONTEXT, 0, 0x0),
    (H2_CP0_DEBUG, 0, 0x000000004011fc01),
    (H2_CP0_DEBUG_EPC, 0, 0x0),
    (H2_CP0_PERFCNTCTL, 0, 0xffffffffc0000000),
    (H2_CP0_PERFCNTCTL_2, 2, 0x0000000040000000),
    (H2_CP0_PERFCNTCNT_1, 1, 0x0),
    (H2_CP0_PERFCNTCNT_3, 3, 0x0),
    (H2_CP0_ERROREPC, 0, 0x0000000120003a5c),
    (H2_CP0_DESAVE, 0, 0x0),
    (H2_CP0_ICACHEERR, 0, 0x0),
    (H2_CP0_DCACHEERR_1, 1, 0x0),
    (H2_CP0_ICACHETAGLO, 0, 0x0),
    (H2_CP0_DCACHETAGLO_2, 2, 0xffffffffffffffff),
    (H2_CP0_ICACHEDATALO_1, 1, 0xfe677ecfdeff0ff0),
    (H2_CP0_DCACHEDATALO_3, 3, 0xffffffffffffffff),
    (H2_CP0_DCACHETAGHI_2, 2, 0x0),
    (H2_CP0_ICACHEDATAHI_1, 1, 0x0),
    (H2_CP0_DCACHEDATAHI_3, 3, 0x0),
    (H2_CP0_CVMCTL_7, 7, 0x00000000b80003F0),
    (H2_CP0_CVMMEMCTL_7, 7, 0x0000000000046000),
    (H2_CP0_CVMCOUNT_6, 6, 0x0),
    (H2_CP0_MULTICORE_DEBUG, 0, 0x0)]"

definition initCP0 :: "CP0_IPE \<Rightarrow> CP0_IPE" where
  "initCP0 c = fold (\<lambda>(r, sel, v). set_raw r sel v) reset_values c"

section \<open>Decoded views\<close>

definition get_KSU :: "CP0_IPE \<Rightarrow> u32" where
  "get_KSU c =
     (let status = (ucast (reg c (slot H2_CP0_STATUS SEL_ZERO)) :: u32);
          mode = drop_bit STATUS_KSU (status AND ucast STATUS_KSU_MASK) in
      if mode \<noteq> KERNEL_MODE
      then (if status AND ucast (STATUS_ERL OR STATUS_EXL) \<noteq> 0 then KERNEL_MODE else mode)
      else mode)"

definition isInterruptPending :: "CP0_IPE \<Rightarrow> bool" where
  "isInterruptPending c =
     (let status = reg c (slot H2_CP0_STATUS SEL_ZERO);
          cause = reg c (slot H2_CP0_CAUSE SEL_ZERO) AND (status AND STATUS_IMASK);
          IE = (status AND (STATUS_IE OR STATUS_EXL OR STATUS_ERL) = STATUS_IE) in
      cause > 0 \<and> IE)"

definition inc_CVMCount :: "CP0_IPE \<Rightarrow> CP0_IPE" where
  "inc_CVMCount c =
     c\<lparr>reg := (reg c)(slot H2_CP0_CVMCOUNT_6 SEL_SIX :=
                 reg c (slot H2_CP0_CVMCOUNT_6 SEL_SIX) + MIN_COUNT_STEP)\<rparr>"

definition inc_and_get_count :: "CP0_IPE \<Rightarrow> u64 \<times> CP0_IPE" where
  "inc_and_get_count c =
     (let count = reg c (slot H2_CP0_COUNT SEL_ZERO) in
      if reg c (slot H2_CP0_CAUSE SEL_ZERO) AND CAUSE_DC = 0
      then (let count = (count + MIN_COUNT_STEP) AND 0xFFFFFFFF in
            (count, c\<lparr>reg := (reg c)(slot H2_CP0_COUNT SEL_ZERO := count)\<rparr>))
      else (count, c))"

definition corenum :: "CP0_IPE \<Rightarrow> u32" where
  "corenum c = ucast (reg c (slot H2_CP0_EBASE_1 SEL_ONE) AND EBASE_CORENUM_MASK)"


section \<open>The interface of a register bank\<close>

text \<open>
  \<open>rd\<close> and \<open>wr\<close> are the accessors, \<open>res\<close> what the write path makes of a value (the reserved
  bits), \<open>ok\<close> the register numbers that have a slot of their own.
\<close>

locale register_bank =
  fixes rd :: "'s \<Rightarrow> nat \<Rightarrow> nat \<Rightarrow> u64"
    and wr :: "u64 \<Rightarrow> nat \<Rightarrow> nat \<Rightarrow> 's \<Rightarrow> 's"
    and res :: "nat \<Rightarrow> nat \<Rightarrow> u64 \<Rightarrow> u64"
    and ok :: "nat \<Rightarrow> nat \<Rightarrow> bool"
  assumes rd_wr_same: "ok r s \<Longrightarrow> rd (wr v r s c) r s = res r s v"
    and rd_wr_other: "ok r s \<Longrightarrow> ok r' s' \<Longrightarrow> (r, s) \<noteq> (r', s') \<Longrightarrow> rd (wr v r s c) r' s' = rd c r' s'"
    and res_idem: "res r s (res r s v) = res r s v"
begin

lemma rd_wr:
  "ok r s \<Longrightarrow> ok r' s' \<Longrightarrow>
   rd (wr v r s c) r' s' = (if r = r' \<and> s = s' then res r s v else rd c r' s')"
  using rd_wr_same rd_wr_other by auto

lemma wr_wr_same:
  "ok r s \<Longrightarrow> ok r' s' \<Longrightarrow> rd (wr v r s (wr w r s c)) r' s' = rd (wr v r s c) r' s'"
  by (simp add: rd_wr)

lemma wr_swap:
  "ok r s \<Longrightarrow> ok r' s' \<Longrightarrow> ok q t \<Longrightarrow> (r, s) \<noteq> (r', s') \<Longrightarrow>
   rd (wr v r s (wr w r' s' c)) q t = rd (wr w r' s' (wr v r s c)) q t"
  by (auto simp: rd_wr)

text \<open>Writing back what was read after a write changes nothing: the read-modify-write cycle.\<close>

lemma write_back:
  "ok r s \<Longrightarrow> rd (wr (rd (wr v r s c) r s) r s d) r s = rd (wr v r s c) r s"
  by (simp add: rd_wr res_idem)

lemma rd_fold_other:
  assumes "ok r s" and "\<forall>(v, r', s') \<in> set ws. ok r' s' \<and> (r', s') \<noteq> (r, s)"
  shows "rd (fold (\<lambda>(v, r', s'). wr v r' s') ws c) r s = rd c r s"
  using assms by (induction ws arbitrary: c) (auto simp: rd_wr)

lemma settled_wr:
  "ok r s \<Longrightarrow> ok r' s' \<Longrightarrow> res r' s' (rd c r' s') = rd c r' s' \<Longrightarrow>
   res r' s' (rd (wr v r s c) r' s') = rd (wr v r s c) r' s'"
  by (simp add: rd_wr res_idem)

end

section \<open>The register file provides the interface\<close>

definition sel_ok :: "nat \<Rightarrow> nat \<Rightarrow> bool" where
  "sel_ok r sel \<longleftrightarrow> r < 32 \<and> sel < 8"

lemma sel_ok_simp [simp]: "sel_ok r sel = (r < 32 \<and> sel < 8)"
  by (simp add: sel_ok_def)

lemma slot_eq_iff: "s < 8 \<Longrightarrow> s' < 8 \<Longrightarrow> slot r s = slot r' s' \<longleftrightarrow> r = r' \<and> s = s'"
  unfolding slot_def by (metis add.commute mod_less mod_mult_self2 mult.commute div_mult_self3 div_less add.right_neutral zero_neq_numeral)

lemma slot_less: "r < 32 \<Longrightarrow> s < 8 \<Longrightarrow> slot r s < 256"
  by (simp add: slot_def)

lemma shift_out: "drop_bit 32 (push_bit 32 x) = x AND (0xffffffff :: u64)"
  by (rule word64_eqI) (simp add: bitblast bit_simps)

lemma masked_cases:
  obtains "r = 1" | "r = 4" | "r = 5" | "r = 6" | "r = 7" | "r = 9" | "r = 11" | "r = 12"
    | "r = 13" | "r = 15" | "r = 16" | "r = (20::nat)"
    | "r \<noteq> 1" "r \<noteq> 4" "r \<noteq> 5" "r \<noteq> 6" "r \<noteq> 7" "r \<noteq> 9" "r \<noteq> 11" "r \<noteq> 12" "r \<noteq> 13" "r \<noteq> 15" "r \<noteq> 16" "r \<noteq> 20"
  by blast

lemma ReservedBits_idem: "ReservedBits r s (ReservedBits r s v) = ReservedBits r s v"
  by (rule masked_cases [of r])
     (simp_all add: ReservedBits_def shift_out and.assoc bit.conj_disj_distrib2)

interpretation cp0: register_bank cp0_read cp0_write ReservedBits sel_ok
proof unfold_locales
  fix r s v c
  assume "sel_ok r s"
  show "cp0_read (cp0_write v r s c) r s = ReservedBits r s v"
    by (simp add: cp0_read_def cp0_write_def)
next
  fix r s r' s' v c
  assume "sel_ok r s" "sel_ok r' s'" "(r, s) \<noteq> (r', s')"
  then show "cp0_read (cp0_write v r s c) r' s' = cp0_read c r' s'"
    by (auto simp: cp0_read_def cp0_write_def slot_eq_iff)
next
  fix r s v
  show "ReservedBits r s (ReservedBits r s v) = ReservedBits r s v"
    by (rule ReservedBits_idem)
qed

lemma cp0_rd_wr [simp]:
  "r < 32 \<Longrightarrow> s < 8 \<Longrightarrow> r' < 32 \<Longrightarrow> s' < 8 \<Longrightarrow>
   cp0_read (cp0_write v r s c) r' s' =
     (if r = r' \<and> s = s' then ReservedBits r s v else cp0_read c r' s')"
  by (simp add: cp0.rd_wr)

text \<open>The write path, register by register.\<close>

lemma ReservedBits_simps [simp]:
  "ReservedBits 0 0 v = v" "ReservedBits 2 0 v = v" "ReservedBits 3 0 v = v"
  "ReservedBits 5 0 v = v" "ReservedBits 8 0 v = v" "ReservedBits 10 0 v = v"
  "ReservedBits 14 0 v = v" "ReservedBits 30 0 v = v" "ReservedBits 9 6 v = v"
  "ReservedBits 4 0 v = v AND 0xfffffffffffffff0"
  "ReservedBits 20 0 v = v AND 0xfffffffffffffff0"
  "ReservedBits 9 0 v = v AND 0xffffffff"
  "ReservedBits 11 0 v = v AND 0xffffffff"
  by (simp_all add: ReservedBits_def)

lemma ReservedBits_masks [simp]:
  "ReservedBits (Suc 0) 0 v = v AND 0x3f" "ReservedBits 6 0 v = v AND 0x3f"
  "ReservedBits 12 0 v = v AND 0x50f8ffff" "ReservedBits 13 0 v = v AND 0xfcc0ff7c"
  "ReservedBits 15 (Suc 0) v = (v AND 0xbffff3ff) OR 0x80000000"
  by (simp_all add: ReservedBits_def shift_out and.assoc bit.conj_disj_distrib2)

section \<open>Register file properties\<close>

text \<open>
  The registers whose reserved bits stay clear from reset on. EBase and Config are not among
  them: their reset values are sign-extended, which the write path would not produce.
\<close>

definition masked_registers :: "(nat \<times> nat) list" where
  "masked_registers = [(1,0), (4,0), (5,1), (6,0), (7,0), (9,0), (11,0), (12,0), (12,1), (12,2), (13,0), (20,0)]"

definition cp0_wf :: "CP0_IPE \<Rightarrow> bool" where
  "cp0_wf c \<longleftrightarrow>
     list_all (\<lambda>(r, s). ReservedBits r s (cp0_read c r s) = cp0_read c r s) masked_registers"

lemma cp0_wfD: "cp0_wf c \<Longrightarrow> (r, s) \<in> set masked_registers \<Longrightarrow> ReservedBits r s (cp0_read c r s) = cp0_read c r s"
  by (auto simp: cp0_wf_def list_all_iff)

lemma masked_registers_ok: "(r, s) \<in> set masked_registers \<Longrightarrow> sel_ok r s"
  by (auto simp: masked_registers_def)

lemma cp0_wf_write: "cp0_wf c \<Longrightarrow> r < 32 \<Longrightarrow> s < 8 \<Longrightarrow> cp0_wf (cp0_write v r s c)"
  unfolding cp0_wf_def list_all_iff
  using cp0.settled_wr [of r s _ _ c v] masked_registers_ok by fastforce

text \<open>A tick of either counter is a write in the sense of the interface.\<close>

lemma inc_CVMCount_write:
  "inc_CVMCount c = cp0_write (cp0_read c 9 6 + 1) 9 6 c"
  by (simp add: inc_CVMCount_def cp0_write_def cp0_read_def)

lemma inc_and_get_count_write:
  "snd (inc_and_get_count c) =
     (if cp0_read c 13 0 AND CAUSE_DC = 0 then cp0_write (cp0_read c 9 0 + 1) 9 0 c else c)"
  by (simp add: inc_and_get_count_def cp0_write_def cp0_read_def Let_def)

lemma reg_set_raw [simp]: "reg (set_raw r s v c) = (reg c)(slot r s := v)"
  by (simp add: set_raw_def)

text \<open>What a register holds after a sequence of raw writes: the last value written to its slot.\<close>

lemma reg_fold_set_raw:
  "reg (fold (\<lambda>(r, sel, v). set_raw r sel v) ws c) k =
     (case map_of (rev (map (\<lambda>(r, sel, v). (slot r sel, v)) ws)) k of None \<Rightarrow> reg c k | Some v \<Rightarrow> v)"
proof (induction ws arbitrary: c)
  case (Cons w ws)
  then show ?case by (cases w) (auto simp: map_add_def split: option.splits)
qed simp

lemma reset_slots:
  "map (\<lambda>(r, s). map_of (rev (map (\<lambda>(r, sel, v). (slot r sel, v)) reset_values)) (slot r s)) masked_registers =
   [Some 0x3f, Some 0, Some 0, Some 0, Some 0, Some 0, Some 0, Some 0x400004, Some 0, Some 0, Some 0, Some 0]"
  by code_simp

lemma cp0_wf_reset: "cp0_wf (initCP0 c)"
  using reset_slots unfolding cp0_wf_def masked_registers_def
  by (simp add: initCP0_def cp0_read_def reg_fold_set_raw ReservedBits_def)

text \<open>The steps the hypervisor makes on the register file, and the states they reach from reset.\<close>

inductive cp0_step :: "CP0_IPE \<Rightarrow> CP0_IPE \<Rightarrow> bool" where
  reg_write: "r < 32 \<Longrightarrow> s < 8 \<Longrightarrow> cp0_step c (cp0_write v r s c)"
| tick: "cp0_step c (snd (inc_and_get_count c))"
| cvm_tick: "cp0_step c (inc_CVMCount c)"

inductive cp0_reachable :: "CP0_IPE \<Rightarrow> bool" where
  reset: "cp0_reachable (initCP0 c)"
| step: "cp0_reachable c \<Longrightarrow> cp0_step c d \<Longrightarrow> cp0_reachable d"

lemma cp0_step_wf: "cp0_step c d \<Longrightarrow> cp0_wf c \<Longrightarrow> cp0_wf d"
  by (induction rule: cp0_step.induct)
     (simp_all add: cp0_wf_write inc_CVMCount_write inc_and_get_count_write)

lemma cp0_reachable_wf: "cp0_reachable c \<Longrightarrow> cp0_wf c"
  by (induction rule: cp0_reachable.induct) (auto intro: cp0_wf_reset cp0_step_wf)

section \<open>Properties\<close>

text \<open>
  Property C23. In every state the register file reaches from reset by writes through \<^verbatim>\<open>CP0_IPE::write\<close> and by ticks of
  its counters, each of the twelve registers whose mask only clears bits has its reserved bits clear; EBase and Config,
  whose masks also set bits, start with values outside them. In particular the Random and Wired
  registers index the TLB (they are below 64) and Count and Compare fit in 32 bits. The stores that translated
  guest code makes to the registers, for \<^verbatim>\<open>mtc0\<close> and \<^verbatim>\<open>eret\<close>, go to the image directly and are no steps here; those of
  \<^verbatim>\<open>mtc0\<close> do not respect the masks (\<open>mtc0_masks\<close>).
\<close>

theorem cp0_reachable_masks:
  assumes "cp0_reachable c"
  shows "(\<forall>(r, s) \<in> set [(1,0), (4,0), (5,1), (6,0), (7,0), (9,0), (11,0), (12,0), (12,1), (12,2), (13,0), (20,0)].
       ReservedBits r s (cp0_read c r s) = cp0_read c r s)
     \<and> unat (cp0_read c H2_CP0_RANDOM 0) < 64 \<and> unat (cp0_read c H2_CP0_WIRED 0) < 64
     \<and> unat (cp0_read c H2_CP0_COUNT 0) < 2 ^ 32 \<and> unat (cp0_read c H2_CP0_COMPARE 0) < 2 ^ 32
     \<and> cp0_read c H2_CP0_STATUS 0 AND 0x50f8ffff = cp0_read c H2_CP0_STATUS 0
     \<and> cp0_read c H2_CP0_CAUSE 0 AND 0xfcc0ff7c = cp0_read c H2_CP0_CAUSE 0"
proof -
  note wf = cp0_wfD [OF cp0_reachable_wf [OF assms]]
  have all: "\<forall>(r, s) \<in> set [(1,0), (4,0), (5,1), (6,0), (7,0), (9,0), (11,0), (12,0), (12,1), (12,2), (13,0), (20,0)].
       ReservedBits r s (cp0_read c r s) = cp0_read c r s"
    using wf unfolding masked_registers_def by blast
  have in_list: "(1,0) \<in> set masked_registers" "(6,0) \<in> set masked_registers"
    "(9,0) \<in> set masked_registers" "(11,0) \<in> set masked_registers"
    "(12,0) \<in> set masked_registers" "(13,0) \<in> set masked_registers"
    by (simp_all add: masked_registers_def)
  have bound: "x AND m = x \<Longrightarrow> unat m < k \<Longrightarrow> unat x < k" for x m :: u64 and k
    using unat_and_less [of m k x] by simp
  have "unat (cp0_read c H2_CP0_RANDOM 0) < 64 \<and> unat (cp0_read c H2_CP0_WIRED 0) < 64
     \<and> unat (cp0_read c H2_CP0_COUNT 0) < 2 ^ 32 \<and> unat (cp0_read c H2_CP0_COMPARE 0) < 2 ^ 32
     \<and> cp0_read c H2_CP0_STATUS 0 AND 0x50f8ffff = cp0_read c H2_CP0_STATUS 0
     \<and> cp0_read c H2_CP0_CAUSE 0 AND 0xfcc0ff7c = cp0_read c H2_CP0_CAUSE 0"
    using in_list [THEN wf] by (auto intro: bound)
  then show ?thesis using all by (intro conjI) blast+
qed

theorem cp0_reachable_masks_witness:
  "unat (cp0_read (cp0_write 0xffffffff 1 0 (initCP0 \<lparr>reg = (\<lambda>_. 0)\<rparr>)) H2_CP0_RANDOM 0) < 64"
proof -
  have "cp0_reachable (cp0_write 0xffffffff 1 0 (initCP0 \<lparr>reg = (\<lambda>_. 0)\<rparr>))"
    by (rule cp0_reachable.step [OF cp0_reachable.reset]) (rule cp0_step.reg_write; simp)
  then show ?thesis using cp0_reachable_masks by blast
qed

text \<open>
  The operating mode is the KSU field of Status, except that a pending error level
  or exception level forces kernel mode.
\<close>

lemma get_KSU_kernel_iff:
  "get_KSU c = KERNEL_MODE \<longleftrightarrow>
     cp0_read c H2_CP0_STATUS 0 AND STATUS_KSU_MASK = 0
     \<or> bit (cp0_read c H2_CP0_STATUS 0) 1 \<or> bit (cp0_read c H2_CP0_STATUS 0) 2"
proof -
  define x where "x = cp0_read c 12 0"
  have x: "reg c (slot 12 0) = x" by (simp add: x_def cp0_read_def)
  have ksu: "drop_bit 3 ((ucast x :: u32) AND 24) = 0 \<longleftrightarrow> x AND 24 = 0"
    by (simp add: word32_eq_iff word64_eq_iff bitblast bit_simps)
  have lvl: "(ucast x :: u32) AND 6 = 0 \<longleftrightarrow> \<not> bit x 1 \<and> \<not> bit x 2"
    by (simp add: word32_eq_iff bitblast bit_simps) blast
  show ?thesis
    unfolding get_KSU_def x x_def [symmetric] Let_def using ksu lvl by auto
qed

text \<open>
  \<^verbatim>\<open>isInterruptPending\<close> is the architectural condition: some interrupt line (bits 8
  to 15) is both pending in Cause and enabled in Status, interrupts are enabled globally, and
  the core is at neither exception nor error level.
\<close>

lemma isInterruptPending_iff:
  "isInterruptPending c \<longleftrightarrow>
     (\<exists>i\<in>{8..15}. bit (cp0_read c H2_CP0_CAUSE 0) i \<and> bit (cp0_read c H2_CP0_STATUS 0) i)
     \<and> bit (cp0_read c H2_CP0_STATUS 0) 0
     \<and> \<not> bit (cp0_read c H2_CP0_STATUS 0) 1 \<and> \<not> bit (cp0_read c H2_CP0_STATUS 0) 2"
proof -
  define x where "x = cp0_read c 12 0"
  define y where "y = cp0_read c 13 0"
  have xy: "reg c (slot 12 0) = x" "reg c (slot 13 0) = y" by (simp_all add: x_def y_def cp0_read_def)
  have lines: "0 < y AND (x AND 0xff00) \<longleftrightarrow> (\<exists>i\<in>{8..15}. bit y i \<and> bit x i)"
  proof -
    have "0 < y AND (x AND 0xff00) \<longleftrightarrow> y AND (x AND 0xff00) \<noteq> 0"
      by (simp add: word_gt_0)
    also have "\<dots> \<longleftrightarrow> (\<exists>i\<in>set [8..<16]. bit y i \<and> bit x i)"
      by (simp add: word64_eq_iff bitblast bit_simps upt_rec_numeral del: set_upt) blast
    also have "set [8..<16] = {8..15::nat}" by auto
    finally show ?thesis .
  qed
  have ie: "x AND 7 = 1 \<longleftrightarrow> bit x 0 \<and> \<not> bit x 1 \<and> \<not> bit x 2"
    by (simp add: word64_eq_iff bitblast bit_simps) blast
  show ?thesis
    unfolding isInterruptPending_def xy x_def [symmetric] y_def [symmetric] Let_def
    using lines ie by simp
qed

lemma inc_count_value:
  assumes "cp0_read c 13 0 AND CAUSE_DC = 0" and "unat (cp0_read c 9 0) < 2 ^ 32"
  shows "unat (cp0_read (snd (inc_and_get_count c)) 9 0) = (unat (cp0_read c 9 0) + 1) mod 2 ^ 32"
proof -
  have "(cp0_read c 9 0 + 1) AND 0xffffffff = take_bit 32 (cp0_read c 9 0 + 1)"
    by (simp add: take_bit_eq_mask mask_numeral)
  then show ?thesis using assms
    by (simp add: inc_and_get_count_write unat_word_ariths take_bit_eq_mod unsigned_take_bit_eq)
qed

lemma inc_count_cause [frame]: "cp0_read (snd (inc_and_get_count c)) 13 0 = cp0_read c 13 0"
  by (simp add: inc_and_get_count_write)

text \<open>
  While the disable bit of Cause is clear, the Count register counts modulo two to
  the 32: after \<open>n\<close> ticks it has advanced by \<open>n\<close>, with wrap-around.
\<close>

lemma count_after_ticks:
  assumes "cp0_read c H2_CP0_CAUSE 0 AND CAUSE_DC = 0" and "unat (cp0_read c H2_CP0_COUNT 0) < 2 ^ 32"
  shows "unat (cp0_read (((\<lambda>a. snd (inc_and_get_count a)) ^^ n) c) H2_CP0_COUNT 0) =
           (unat (cp0_read c H2_CP0_COUNT 0) + n) mod 2 ^ 32"
proof (induction n)
  case 0
  then show ?case using assms by simp
next
  case (Suc n)
  define d where "d = ((\<lambda>a. snd (inc_and_get_count a)) ^^ n) c"
  have "cp0_read d 13 0 = cp0_read c 13 0"
    unfolding d_def by (induction n) (simp_all add: frame)
  moreover have "unat (cp0_read d 9 0) = (unat (cp0_read c 9 0) + n) mod 2 ^ 32"
    unfolding d_def by (rule Suc.IH)
  ultimately have "unat (cp0_read (snd (inc_and_get_count d)) 9 0) =
      ((unat (cp0_read c 9 0) + n) mod 2 ^ 32 + 1) mod 2 ^ 32"
    using assms inc_count_value [of d] by simp
  then show ?case by (simp add: d_def mod_Suc_eq)
qed

text \<open>
  The registers for which the source speaks of giving sign extension are zero
  extended instead: whatever is written, the upper half of the stored value is clear.
\<close>

lemma write_zero_extends:
  assumes "(r, s) \<in> {(H2_CP0_RANDOM, 0), (H2_CP0_PAGEGRAIN_1, 1), (H2_CP0_WIRED, 0), (H2_CP0_HWRENA, 0),
      (H2_CP0_STATUS, 0), (H2_CP0_INTCTL_1, 1), (H2_CP0_CAUSE, 0), (H2_CP0_EBASE_1, 1), (H2_CP0_CONFIG, 0)}"
  shows "drop_bit 32 (cp0_read (cp0_write v r s c) r s) = 0"
proof -
  have "drop_bit 32 (x AND m) = 0" if "drop_bit 32 m = 0" for x m :: u64
    using that by (simp add: drop_bit_and)
  moreover have "drop_bit 32 ((x AND m) OR k) = 0" if "drop_bit 32 m = 0" "drop_bit 32 k = 0" for x m k :: u64
    using that by (simp add: drop_bit_and drop_bit_or)
  ultimately show ?thesis
    using assms by (auto simp: ReservedBits_def shift_out)
qed

end
