(* ===== verification/Exceptions.thy ===== *)
theory Exceptions
  imports CP0
begin

text \<open>
  Exception delivery: \<^verbatim>\<open>Context_IPE.h\<close> and \<^verbatim>\<open>ExceptionHandler_IPE.cpp\<close>. The context is the
  translator's window on the current instruction: whether it loads or stores, its address and
  the word it stores. Its constructor makes \<^verbatim>\<open>prot\<close> an alias of \<^verbatim>\<open>loadstore\<close>, so the model has
  one cell for both: \<open>setProt\<close> overwrites the load/store indicator.

  The lemmas read every register after a delivery through the register bank's interface and
  give, per register, the value it holds.
\<close>

section \<open>The context of an instruction\<close>

abbreviation (input) LD_READ :: u64 where "LD_READ \<equiv> 0"
abbreviation (input) ST_WRITE :: u64 where "ST_WRITE \<equiv> 1"

record Context_IPE =
  loadstore :: u64
  PC :: u64
  writeData :: u64

definition getLDST :: "Context_IPE \<Rightarrow> u64" where
  "getLDST ctx = loadstore ctx"

definition getPc :: "Context_IPE \<Rightarrow> u64" where
  "getPc ctx = PC ctx"

definition getProt :: "Context_IPE \<Rightarrow> u64" where
  "getProt ctx = loadstore ctx"

definition getWriteData :: "Context_IPE \<Rightarrow> u64" where
  "getWriteData ctx = writeData ctx"

definition setProt :: "u64 \<Rightarrow> Context_IPE \<Rightarrow> Context_IPE" where
  "setProt p ctx = ctx\<lparr>loadstore := p\<rparr>"

section \<open>Exception types and vectors\<close>

abbreviation (input) EXC_INT :: u32 where "EXC_INT \<equiv> 0"
abbreviation (input) TLB_MOD :: u32 where "TLB_MOD \<equiv> 1"
abbreviation (input) TLBL :: u32 where "TLBL \<equiv> 2"
abbreviation (input) TLBS :: u32 where "TLBS \<equiv> 3"
abbreviation (input) ADEL :: u32 where "ADEL \<equiv> 4"
abbreviation (input) ADES :: u32 where "ADES \<equiv> 5"
abbreviation (input) SCALL :: u32 where "SCALL \<equiv> 8"
abbreviation (input) BRK :: u32 where "BRK \<equiv> 9"
abbreviation (input) EXC_RI :: u32 where "EXC_RI \<equiv> 10"
abbreviation (input) EXC_CPU :: u32 where "EXC_CPU \<equiv> 11"
abbreviation (input) EXC_OV :: u32 where "EXC_OV \<equiv> 12"
abbreviation (input) TRAP :: u32 where "TRAP \<equiv> 13"
abbreviation (input) TLB_INV :: u32 where "TLB_INV \<equiv> 14"

abbreviation (input) REGION_MASK :: u64 where "REGION_MASK \<equiv> 0x03"
abbreviation (input) REGION_OFFSET :: nat where "REGION_OFFSET \<equiv> 62"
abbreviation (input) SEG_MASK :: u64 where "SEG_MASK \<equiv> 0x1FFFFFFFFFFFF"

abbreviation (input) EXCEPTION_VETOR :: u64 where "EXCEPTION_VETOR \<equiv> 0xBFC00200"
abbreviation (input) XTLB_REFILL_OFFSET :: u64 where "XTLB_REFILL_OFFSET \<equiv> 0x80"
abbreviation (input) GENERAL_EXECPTION_OFFSET :: u64 where "GENERAL_EXECPTION_OFFSET \<equiv> 0x180"
abbreviation (input) INTERRUPT_OFFSET :: u64 where "INTERRUPT_OFFSET \<equiv> 0x200"

text \<open>The \<^verbatim>\<open>switch\<close> that turns an exception type into the code of the Cause register.\<close>

definition cause_ExcCode :: "u32 \<Rightarrow> Context_IPE \<Rightarrow> u32 option" where
  "cause_ExcCode exp_type ctx =
     (if exp_type \<in> {EXC_INT, TLB_MOD, TLBL, TLBS, ADEL, ADES, SCALL, BRK, EXC_RI, EXC_CPU, EXC_OV, TRAP}
      then Some exp_type
      else if exp_type = TLB_INV then Some (ucast ((2::u64) + getLDST ctx))
      else None)"

text \<open>The entry point, from the Status and Cause values the code holds in its local variables.\<close>

definition exception_vector :: "u32 \<Rightarrow> u64 \<Rightarrow> u64 \<Rightarrow> u64 \<Rightarrow> u64" where
  "exception_vector exp_type status cause ebase =
     (if status AND STATUS_BEV \<noteq> 0
      then (if (exp_type = TLBL \<or> exp_type = TLBS) \<and> status AND STATUS_EXL = 0
            then sext32 (EXCEPTION_VETOR + XTLB_REFILL_OFFSET)
            else if exp_type = EXC_INT \<and> cause AND CAUSE_IV \<noteq> 0
            then sext32 (EXCEPTION_VETOR + INTERRUPT_OFFSET)
            else sext32 (EXCEPTION_VETOR + GENERAL_EXECPTION_OFFSET))
      else (if (exp_type = TLBL \<or> exp_type = TLBS) \<and> status AND STATUS_EXL = 0
            then sext32 ((ebase AND NOT EBASE_CORENUM_MASK) + XTLB_REFILL_OFFSET)
            else if exp_type = EXC_INT \<and> cause AND CAUSE_IV \<noteq> 0
            then sext32 ((ebase AND NOT EBASE_CORENUM_MASK) + INTERRUPT_OFFSET)
            else sext32 ((ebase AND NOT EBASE_CORENUM_MASK) + GENERAL_EXECPTION_OFFSET)))"

definition Perform_Exception ::
    "CP0_IPE \<Rightarrow> u64 \<Rightarrow> u32 \<Rightarrow> Context_IPE \<Rightarrow> (u64 \<times> CP0_IPE) result" where
  "Perform_Exception cp0 GVA exp_type ctx =
     (let cause = cp0_read cp0 H2_CP0_CAUSE SEL_ZERO;
          status = cp0_read cp0 H2_CP0_STATUS SEL_ZERO;
          ebase = cp0_read cp0 H2_CP0_EBASE_1 SEL_ONE in
      case cause_ExcCode exp_type ctx of
        None \<Rightarrow> Inl ExitError
      | Some code \<Rightarrow>
          (let cp0 = cp0_write GVA H2_CP0_BADVADDR SEL_ZERO cp0;
               cause = (cause AND NOT CAUSE_EXEC_MASK) OR scast (push_bit CAUSE_EXEC_OFFSET code);
               cp0 = cp0_write cause H2_CP0_CAUSE SEL_ZERO cp0;
               new_pc = exception_vector exp_type status cause ebase in
           if status AND STATUS_EXL = 0
           then (let cp0 = cp0_write (getPc ctx) H2_CP0_EPC SEL_ZERO cp0;
                     status = status OR STATUS_EXL in
                 Inr (new_pc, cp0_write status H2_CP0_STATUS SEL_ZERO cp0))
           else (let status = status OR STATUS_ERL;
                     cp0 = cp0_write (getPc ctx) H2_CP0_ERROREPC SEL_ZERO cp0 in
                 Inr (new_pc, cp0_write status H2_CP0_STATUS SEL_ZERO cp0))))"

text \<open>
  The registers a TLB refill handler reads. \<open>TLB_fill\<close> is the part of \<^verbatim>\<open>TLB_Excep\<close> before its
  call of \<^verbatim>\<open>Perform_Exception\<close>.
\<close>

definition TLB_fill :: "CP0_IPE \<Rightarrow> u64 \<Rightarrow> CP0_IPE" where
  "TLB_fill cp0 GVA =
     (let XContext = cp0_read cp0 H2_CP0_XCONTEXT SEL_ZERO AND XCONTEXT_PTEBASE_MASK;
          Context = cp0_read cp0 H2_CP0_CONTEXT SEL_ZERO AND CONTEXT_PTEBASE_MASK;
          entryHi = cp0_read cp0 H2_CP0_ENTRYHI SEL_ZERO AND ENTRYHI_ASID_MASK;
          region = GVA AND push_bit REGION_OFFSET REGION_MASK;
          VPN = (GVA AND NOT MIN_PAGE_MASK) AND SEG_MASK;
          entryHi = entryHi OR (VPN OR region);
          cp0 = cp0_write entryHi H2_CP0_ENTRYHI SEL_ZERO cp0;
          XContext = XContext OR (drop_bit (62 - 40) region OR drop_bit (13 - 4) VPN);
          cp0 = cp0_write XContext H2_CP0_XCONTEXT SEL_ZERO cp0;
          Context = Context OR (drop_bit (13 - 4) VPN AND CONTEXT_VPN_MASK) in
      cp0_write Context H2_CP0_CONTEXT SEL_ZERO cp0)"

definition TLB_Excep ::
    "CP0_IPE \<Rightarrow> u64 \<Rightarrow> u32 \<Rightarrow> Context_IPE \<Rightarrow> (u64 \<times> CP0_IPE) result" where
  "TLB_Excep cp0 GVA exp_type ctx = Perform_Exception (TLB_fill cp0 GVA) GVA exp_type ctx"

section \<open>Reading the registers after a delivery\<close>

text \<open>The register file after a delivery, as a chain of writes.\<close>

lemma Perform_Exception_writes:
  assumes "Perform_Exception c gva t ctx = Inr (pc, d)"
  obtains code where "cause_ExcCode t ctx = Some code"
    and "pc = exception_vector t (cp0_read c 12 0)
               ((cp0_read c 13 0 AND NOT CAUSE_EXEC_MASK) OR scast (push_bit 2 code)) (cp0_read c 15 1)"
    and "d = cp0_write
           (cp0_read c 12 0 OR (if cp0_read c 12 0 AND STATUS_EXL = 0 then STATUS_EXL else STATUS_ERL)) 12 0
           (cp0_write (PC ctx) (if cp0_read c 12 0 AND STATUS_EXL = 0 then 14 else 30) 0
             (cp0_write ((cp0_read c 13 0 AND NOT CAUSE_EXEC_MASK) OR scast (push_bit 2 code)) 13 0
               (cp0_write gva 8 0 c)))"
proof -
  from assms obtain code where code: "cause_ExcCode t ctx = Some code"
    by (cases "cause_ExcCode t ctx") (simp_all add: Perform_Exception_def Let_def)
  show thesis
    by (rule that [OF code])
       (use assms code in \<open>auto simp: Perform_Exception_def Let_def getPc_def split: if_splits\<close>)
qed

lemma Perform_Exception_regs:
  assumes "Perform_Exception c gva t ctx = Inr (pc, d)"
  shows "cp0_read d 8 0 = gva"
    and "cp0_read d 12 0 =
           (cp0_read c 12 0 OR (if cp0_read c 12 0 AND STATUS_EXL = 0 then STATUS_EXL else STATUS_ERL))
           AND 0x50f8ffff"
    and "cp0_read d 13 0 =
           ((cp0_read c 13 0 AND NOT CAUSE_EXEC_MASK) OR scast (push_bit 2 (the (cause_ExcCode t ctx))))
           AND 0xfcc0ff7c"
    and "cp0_read d 14 0 = (if cp0_read c 12 0 AND STATUS_EXL = 0 then PC ctx else cp0_read c 14 0)"
    and "cp0_read d 30 0 = (if cp0_read c 12 0 AND STATUS_EXL = 0 then cp0_read c 30 0 else PC ctx)"
  using assms by (auto elim!: Perform_Exception_writes)

lemma Perform_Exception_other [frame]:
  assumes "Perform_Exception c gva t ctx = Inr (pc, d)"
    and "r < 32" "s < 8" "(r, s) \<notin> {(8,0), (12,0), (13,0), (14,0), (30,0)}"
  shows "cp0_read d r s = cp0_read c r s"
  using assms(2-4) by (rule_tac Perform_Exception_writes [OF assms(1)]) auto

lemma Perform_Exception_total:
  "(\<exists>pc d. Perform_Exception c gva t ctx = Inr (pc, d)) \<longleftrightarrow> cause_ExcCode t ctx \<noteq> None"
  unfolding Perform_Exception_def Let_def by (auto split: option.splits)

lemma Perform_Exception_wf:
  "cp0_wf c \<Longrightarrow> Perform_Exception c gva t ctx = Inr (pc, d) \<Longrightarrow> cp0_wf d"
  unfolding Perform_Exception_def Let_def
  by (auto simp: cp0_wf_write split: option.splits if_splits)

lemma TLB_fill_wf: "cp0_wf c \<Longrightarrow> cp0_wf (TLB_fill c gva)"
  by (simp add: TLB_fill_def Let_def cp0_wf_write)

lemma TLB_fill_other [frame]:
  "r < 32 \<Longrightarrow> s < 8 \<Longrightarrow> (r, s) \<notin> {(4,0), (10,0), (20,0)} \<Longrightarrow>
   cp0_read (TLB_fill c gva) r s = cp0_read c r s"
  by (auto simp: TLB_fill_def Let_def)

lemma exception_level_kept:
  "bit (((x :: u64) OR 2) AND 0x50f8ffff) 1" "bit ((x OR 4) AND 0x50f8ffff) 2"
  by (simp_all add: bit_simps)

text \<open>The exception codes fit the five bits of the Cause field.\<close>

lemma cause_ExcCode_Some:
  assumes "cause_ExcCode t ctx = Some code" and "loadstore ctx \<in> {0, 1}"
  shows "code \<in> {0, 1, 2, 3, 4, 5, 8, 9, 10, 11, 12, 13}"
  using assms by (auto simp: cause_ExcCode_def getLDST_def split: if_splits)

lemma cause_field:
  assumes "code \<in> {0, 1, 2, 3, 4, 5, 8, 9, 10, 11, 12, 13 :: u32}"
  shows "drop_bit 2 (((((x :: u64) AND NOT 0x7c) OR scast (push_bit 2 code)) AND 0xfcc0ff7c) AND 0x7c) = ucast code"
    and "(((x AND NOT 0x7c) OR scast (push_bit 2 code)) AND 0xfcc0ff7c) AND NOT 0x7c = x AND 0xfcc0ff00"
proof -
  have *: "((((x AND NOT 0x7c) OR k) AND 0xfcc0ff7c) AND 0x7c) = k" if "k AND 0x7c = k" for k :: u64
    using that by (simp add: bit.conj_disj_distrib2 and.assoc)
  have **: "((((x AND NOT 0x7c) OR k) AND 0xfcc0ff7c) AND NOT 0x7c) = x AND 0xfcc0ff00" if "k AND 0xfcc0ff00 = 0" for k :: u64
    using that by (simp add: bit.conj_disj_distrib2 and.assoc)
  show "drop_bit 2 ((((x AND NOT 0x7c) OR scast (push_bit 2 code)) AND 0xfcc0ff7c) AND 0x7c) = ucast code"
    using assms by (subst *) auto
  show "(((x AND NOT 0x7c) OR scast (push_bit 2 code)) AND 0xfcc0ff7c) AND NOT 0x7c = x AND 0xfcc0ff00"
    using assms by (subst **) auto
qed

text \<open>At exception or error level the core is in the kernel and takes no interrupt.\<close>

lemma raised_level_kernel:
  assumes "bit (cp0_read d 12 0) 1 \<or> bit (cp0_read d 12 0) 2"
  shows "get_KSU d = 0 \<and> \<not> isInterruptPending d"
proof -
  have "get_KSU d = 0"
    using assms by (auto simp: get_KSU_def cp0_read_def word32_eq_iff bitblast bit_simps Let_def)
  then show ?thesis
    using assms by (auto simp: isInterruptPending_def cp0_read_def word64_eq_iff bitblast bit_simps Let_def)
qed

section \<open>Properties\<close>

text \<open>
  Delivering an exception puts the core in kernel mode with interrupts off: until
  the handler changes Status, no further interrupt is taken.
\<close>

lemma exception_enters_kernel:
  assumes "Perform_Exception c gva t ctx = Inr (pc, d)"
  shows "get_KSU d = KERNEL_MODE \<and> \<not> isInterruptPending d"
  using Perform_Exception_regs(2) [OF assms] exception_level_kept by (intro raised_level_kernel) auto

lemma ReservedBits_status: "ReservedBits H2_CP0_STATUS 0 x = x AND 0x50f8ffff"
  by (simp add: ReservedBits_def Let_def, rule word64_eqI, simp add: bitblast bit_simps)

text \<open>
  Property C5. What a delivery records. From exception level zero the interrupted address goes
  to EPC and Status is the old Status with EXL set; at exception level the address goes to
  ErrorEPC, EPC keeps the address of the first exception, and Status is the old Status with ERL
  set (in both cases under the mask of Status). The core is then in kernel mode and takes no
  interrupt. The faulting address is in BadVAddr, the Cause field holds the exception code and
  the rest of Cause is kept. Every register other than BadVAddr, Status, Cause, EPC and
  ErrorEPC keeps its value.
\<close>

theorem exception_saves_state:
  assumes "Perform_Exception c gva t ctx = Inr (pc, d)" and "loadstore ctx \<in> {0, 1}"
  shows "cp0_read d H2_CP0_BADVADDR 0 = gva
    \<and> (if bit (cp0_read c H2_CP0_STATUS 0) 1
       then cp0_read d H2_CP0_EPC 0 = cp0_read c H2_CP0_EPC 0 \<and> cp0_read d H2_CP0_ERROREPC 0 = PC ctx
         \<and> cp0_read d H2_CP0_STATUS 0 = ReservedBits H2_CP0_STATUS 0 (cp0_read c H2_CP0_STATUS 0 OR STATUS_ERL)
       else cp0_read d H2_CP0_EPC 0 = PC ctx \<and> cp0_read d H2_CP0_ERROREPC 0 = cp0_read c H2_CP0_ERROREPC 0
         \<and> cp0_read d H2_CP0_STATUS 0 = ReservedBits H2_CP0_STATUS 0 (cp0_read c H2_CP0_STATUS 0 OR STATUS_EXL))
    \<and> get_KSU d = KERNEL_MODE \<and> \<not> isInterruptPending d
    \<and> Some (ucast (drop_bit 2 (cp0_read d H2_CP0_CAUSE 0 AND CAUSE_EXEC_MASK))) = cause_ExcCode t ctx
    \<and> cp0_read d H2_CP0_CAUSE 0 AND NOT CAUSE_EXEC_MASK = cp0_read c H2_CP0_CAUSE 0 AND 0xfcc0ff00
    \<and> (\<forall>r s. r < 32 \<and> s < 8 \<and> (r, s) \<notin> {(8,0), (12,0), (13,0), (14,0), (30,0)}
         \<longrightarrow> cp0_read d r s = cp0_read c r s)"
proof -
  note regs = Perform_Exception_regs [OF assms(1)]
  obtain code where code: "cause_ExcCode t ctx = Some code"
    using Perform_Exception_writes [OF assms(1)] by blast
  note small = cause_ExcCode_Some [OF code assms(2)]
  have exl: "bit (cp0_read c 12 0) 1 \<longleftrightarrow> cp0_read c 12 0 AND 2 \<noteq> 0"
    by (simp add: word64_eq_iff bitblast bit_simps)
  have cast_back: "ucast (ucast code :: u64) = code"
    by (rule word32_eqI) (simp add: bitblast bit_simps)
  show ?thesis
    using regs(1,2,4,5) code cause_field [OF small, of "cp0_read c 13 0"]
      Perform_Exception_other [OF assms(1)] exception_enters_kernel [OF assms(1)]
    unfolding exl regs(3) by (simp add: cast_back ReservedBits_status)
qed

theorem exception_saves_state_witness:
  "\<exists>pc d. Perform_Exception \<lparr>reg = (\<lambda>_. 0)\<rparr> 0x40 TLB_MOD \<lparr>loadstore = 1, PC = 0x100, writeData = 0\<rparr> = Inr (pc, d)
     \<and> cp0_read d H2_CP0_EPC 0 = 0x100 \<and> cp0_read d H2_CP0_BADVADDR 0 = 0x40"
proof -
  obtain pc d where ok: "Perform_Exception \<lparr>reg = (\<lambda>_. 0)\<rparr> 0x40 TLB_MOD \<lparr>loadstore = 1, PC = 0x100, writeData = 0\<rparr> = Inr (pc, d)"
    using Perform_Exception_total [of "\<lparr>reg = (\<lambda>_. 0)\<rparr>" "0x40" TLB_MOD "\<lparr>loadstore = 1, PC = 0x100, writeData = 0\<rparr>"]
    by (auto simp: cause_ExcCode_def)
  with exception_saves_state [OF this] show ?thesis by (auto simp: cp0_read_def)
qed

text \<open>
  The entry points, for a core out of boot (BEV clear): TLB misses from exception
  level zero go to the extended refill vector, interrupts with the special vector enabled to
  offset 0x200 and everything else to the general vector at offset 0x180; the base is EBase
  without the core number, sign-extended from 32 bits.
\<close>

lemma exception_entry_after_boot:
  assumes "Perform_Exception c gva t ctx = Inr (pc, d)"
    and "cp0_read c H2_CP0_STATUS 0 AND STATUS_BEV = 0"
  shows "pc = sext32 ((cp0_read c H2_CP0_EBASE_1 1 AND NOT 0x3ff) +
     (if t \<in> {TLBL, TLBS} \<and> \<not> bit (cp0_read c H2_CP0_STATUS 0) 1 then 0x80
      else if t = EXC_INT \<and> bit (cp0_read c H2_CP0_CAUSE 0) 23 then 0x200 else 0x180))"
proof -
  obtain code where code: "cause_ExcCode t ctx = Some code" and
    pc: "pc = exception_vector t (cp0_read c 12 0)
           ((cp0_read c 13 0 AND NOT 0x7c) OR scast (push_bit 2 code)) (cp0_read c 15 1)"
    using Perform_Exception_writes [OF assms(1)] by blast
  have exl: "cp0_read c 12 0 AND 2 = 0 \<longleftrightarrow> \<not> bit (cp0_read c 12 0) 1"
    by (simp add: word64_eq_iff bitblast bit_simps)
  have iv: "t = 0 \<Longrightarrow> ((cp0_read c 13 0 AND NOT 0x7c) OR scast (push_bit 2 code)) AND 0x800000 \<noteq> 0
     \<longleftrightarrow> bit (cp0_read c 13 0) 23"
    using code by (simp add: cause_ExcCode_def word64_eq_iff bitblast bit_simps)
  show ?thesis
    using pc assms(2) iv exl unfolding exception_vector_def by auto
qed

text \<open>
  The registers prepared for the TLB refill handler: EntryHi holds the faulting
  page pair, its region and the current address space; Context and XContext keep the page table
  base set by the guest and receive the page number, shifted to index 16-byte entry pairs.
\<close>

lemma TLB_fill_registers:
  shows "cp0_read (TLB_fill c gva) H2_CP0_ENTRYHI 0 AND 0xff = cp0_read c H2_CP0_ENTRYHI 0 AND 0xff
    \<and> cp0_read (TLB_fill c gva) H2_CP0_ENTRYHI 0 AND NOT 0xff = gva AND 0xC001FFFFFFFFE000
    \<and> cp0_read (TLB_fill c gva) H2_CP0_CONTEXT 0 =
        (cp0_read c H2_CP0_CONTEXT 0 AND 0xFFFFFFFFFF800000) OR (push_bit 4 (drop_bit 13 gva AND 0x7ffff))
    \<and> cp0_read (TLB_fill c gva) H2_CP0_XCONTEXT 0 =
        (cp0_read c H2_CP0_XCONTEXT 0 AND 0xFFFFFC0000000000)
        OR push_bit 40 (drop_bit 62 gva) OR push_bit 4 (drop_bit 13 gva AND 0xfffffffff)"
proof (intro conjI)
  show "cp0_read (TLB_fill c gva) 10 0 AND 0xff = cp0_read c 10 0 AND 0xff"
    by (rule word64_eqI) (simp add: TLB_fill_def Let_def bitblast bit_simps)
  show "cp0_read (TLB_fill c gva) 10 0 AND NOT 0xff = gva AND 0xC001FFFFFFFFE000"
    by (rule word64_eqI) (simp add: TLB_fill_def Let_def bitblast bit_simps)
  show "cp0_read (TLB_fill c gva) 4 0 =
      (cp0_read c 4 0 AND 0xFFFFFFFFFF800000) OR (push_bit 4 (drop_bit 13 gva AND 0x7ffff))"
    by (rule word64_eqI) (simp add: TLB_fill_def Let_def bitblast bit_simps)
  show "cp0_read (TLB_fill c gva) 20 0 =
      (cp0_read c 20 0 AND 0xFFFFFC0000000000)
      OR push_bit 40 (drop_bit 62 gva) OR push_bit 4 (drop_bit 13 gva AND 0xfffffffff)"
    by (rule word64_eqI) (simp add: TLB_fill_def Let_def bitblast bit_simps)
qed

end
