(* ===== verification/TLB.thy ===== *)
theory TLB
  imports Exceptions
begin

text \<open>
  The software-managed translation buffer of a guest core, \<^verbatim>\<open>TLB_IPE.h\<close> and \<^verbatim>\<open>TLB_IPE.cpp\<close>:
  64 entries, each a pair of pages, and the four TLB instructions. The TLB object holds a
  pointer to the coprocessor registers; the model passes the register file beside the entries
  and returns it updated.

  \<^verbatim>\<open>reset_Entry\<close> leaves the region, the global bit and the cache, valid and dirty bits as they
  are, so the model updates an entry instead of building a fresh one. \<^verbatim>\<open>rand()\<close> is a parameter.
\<close>

section \<open>Entries\<close>

abbreviation (input) TLB_MAX_ENTERIES :: nat where "TLB_MAX_ENTERIES \<equiv> 64"
abbreviation (input) TLB_MATCH :: u32 where "TLB_MATCH \<equiv> - 1"
abbreviation (input) ENTRY_GLOBAL :: "1 word" where "ENTRY_GLOBAL \<equiv> 1"
abbreviation (input) ENTRY_INVALID :: "1 word" where "ENTRY_INVALID \<equiv> 1"
abbreviation (input) ENTRY_VALID :: "1 word" where "ENTRY_VALID \<equiv> 0"

record TLB_Entry_IPE =
  te_pagemask :: u64
  te_entryHi :: u64
  te_entryLo0 :: u64
  te_entryLo1 :: u64
  te_VPN :: u64
  te_ASID :: u8
  te_R :: u8
  te_G :: "1 word"
  te_Validity :: "1 word"
  te_C0 :: "3 word"
  te_C1 :: "3 word"
  te_V0 :: "1 word"
  te_V1 :: "1 word"
  te_D0 :: "1 word"
  te_D1 :: "1 word"
  te_PFN0 :: u64
  te_PFN1 :: u64

definition entry_get_entryHi :: "TLB_Entry_IPE \<Rightarrow> u64" where
  "entry_get_entryHi e = te_VPN e OR ucast (te_ASID e)"

definition frame_number :: "u64 \<Rightarrow> u64 \<Rightarrow> u64" where
  "frame_number lo pm = push_bit MIN_PAGE_BITS (drop_bit ENTRYLO_PFN lo) AND NOT (drop_bit 1 pm)"

definition set_Entry :: "CP0_IPE \<Rightarrow> TLB_Entry_IPE \<Rightarrow> TLB_Entry_IPE" where
  "set_Entry c e =
     (let pmask = cp0_read c H2_CP0_PAGEMASK 0; hi = cp0_read c H2_CP0_ENTRYHI 0;
          lo0 = cp0_read c H2_CP0_ENTRYLO0 0; lo1 = cp0_read c H2_CP0_ENTRYLO1 0 in
      e\<lparr>te_pagemask := pmask, te_entryHi := hi, te_entryLo0 := lo0, te_entryLo1 := lo1,
        te_ASID := ucast (hi AND ENTRYHI_ASID_MASK),
        te_G := ucast (lo0 AND lo1 AND ENTRYLO_GLOBAL_MASK),
        te_VPN := (hi AND NOT MIN_PAGE_MASK) AND SEG_MASK,
        te_R := ucast (drop_bit REGION_OFFSET hi AND REGION_MASK),
        te_Validity := ENTRY_VALID,
        te_V0 := of_bool (lo0 AND ENTRYLO_VALID_MASK \<noteq> 0),
        te_D0 := of_bool (lo0 AND ENTRYLO_DIRTY_MASK \<noteq> 0),
        te_C0 := ucast (drop_bit ENTRYLO_COHERENCY lo0 AND ENTRYLO_COHERENCY_MASK),
        te_PFN0 := frame_number lo0 pmask,
        te_V1 := of_bool (lo1 AND ENTRYLO_VALID_MASK \<noteq> 0),
        te_D1 := of_bool (lo1 AND ENTRYLO_DIRTY_MASK \<noteq> 0),
        te_C1 := ucast (drop_bit ENTRYLO_COHERENCY lo1 AND ENTRYLO_COHERENCY_MASK),
        te_PFN1 := frame_number lo1 pmask\<rparr>)"

definition reset_Entry :: "TLB_Entry_IPE \<Rightarrow> TLB_Entry_IPE" where
  "reset_Entry e =
     e\<lparr>te_pagemask := 0, te_entryHi := 0, te_entryLo0 := 0, te_entryLo1 := 0,
       te_VPN := 0, te_ASID := 0, te_Validity := ENTRY_INVALID, te_PFN0 := 0, te_PFN1 := 0\<rparr>"

type_synonym TLB_IPE = "TLB_Entry_IPE list"

section \<open>Register accessors of the TLB\<close>

definition get_random :: "CP0_IPE \<Rightarrow> u32" where
  "get_random c = ucast (cp0_read c H2_CP0_RANDOM SEL_ZERO AND RANDOM_MASK)"

definition set_random :: "u64 \<Rightarrow> CP0_IPE \<Rightarrow> CP0_IPE" where
  "set_random value c = cp0_write (value AND RANDOM_MASK) H2_CP0_RANDOM SEL_ZERO c"

definition get_wired :: "CP0_IPE \<Rightarrow> u32" where
  "get_wired c = ucast (cp0_read c H2_CP0_WIRED SEL_ZERO AND WIRED_MASK)"

definition inc_random :: "CP0_IPE \<Rightarrow> CP0_IPE" where
  "inc_random c =
     (let random = get_random c + 1;
          random = (if random \<ge> 64 then get_wired c else random) in
      cp0_write (ucast random) H2_CP0_RANDOM SEL_ZERO c)"

definition set_index :: "u32 \<Rightarrow> CP0_IPE \<Rightarrow> CP0_IPE" where
  "set_index index_val c = cp0_write (INDEX_MASK AND ucast index_val) H2_CP0_INDEX SEL_ZERO c"

definition get_index :: "CP0_IPE \<Rightarrow> u64" where
  "get_index c = INDEX_MASK AND cp0_read c H2_CP0_INDEX SEL_ZERO"

definition set_probe :: "CP0_IPE \<Rightarrow> CP0_IPE" where
  "set_probe c = cp0_write (cp0_read c H2_CP0_INDEX SEL_ZERO OR INDEX_PROBE_MASK) H2_CP0_INDEX SEL_ZERO c"

definition check_region :: "CP0_IPE \<Rightarrow> u8" where
  "check_region c = ucast (REGION_MASK AND drop_bit 62 (cp0_read c H2_CP0_ENTRYHI SEL_ZERO))"

definition get_ASID :: "CP0_IPE \<Rightarrow> u8" where
  "get_ASID c = ucast (cp0_read c H2_CP0_ENTRYHI SEL_ZERO AND ENTRYHI_ASID_MASK)"

definition get_TLBEntry :: "TLB_Entry_IPE \<Rightarrow> CP0_IPE \<Rightarrow> CP0_IPE" where
  "get_TLBEntry e c =
     cp0_write (te_entryLo1 e) H2_CP0_ENTRYLO1 SEL_ZERO
       (cp0_write (te_entryLo0 e) H2_CP0_ENTRYLO0 SEL_ZERO
         (cp0_write (entry_get_entryHi e) H2_CP0_ENTRYHI SEL_ZERO
           (cp0_write (te_pagemask e) H2_CP0_PAGEMASK SEL_ZERO c)))"

definition clear_TLB :: "TLB_IPE \<Rightarrow> TLB_IPE" where
  "clear_TLB tlb = map reset_Entry tlb"

section \<open>Translation\<close>

definition page_mask :: "TLB_Entry_IPE \<Rightarrow> u64" where
  "page_mask e = te_pagemask e OR MIN_PAGE_MASK"

definition entry_matches :: "u8 \<Rightarrow> u8 \<Rightarrow> u64 \<Rightarrow> TLB_Entry_IPE \<Rightarrow> bool" where
  "entry_matches asid r GVA e =
     (let pmask = page_mask e; tag = (GVA AND NOT pmask) AND SEG_MASK; VPN = te_VPN e AND NOT pmask in
      (te_G e = ENTRY_GLOBAL \<or> te_ASID e = asid) \<and> te_R e = r \<and> VPN = tag \<and> te_Validity e = ENTRY_VALID)"

text \<open>Whether the address lies in the odd page of the pair.\<close>

definition odd_page :: "u64 \<Rightarrow> TLB_Entry_IPE \<Rightarrow> bool" where
  "odd_page GVA e = bit GVA (popcount32 (drop_bit 1 (page_mask e)))"

definition page_valid :: "u64 \<Rightarrow> TLB_Entry_IPE \<Rightarrow> bool" where
  "page_valid GVA e = ((if odd_page GVA e then te_V1 e else te_V0 e) \<noteq> 0)"

definition page_dirty :: "u64 \<Rightarrow> TLB_Entry_IPE \<Rightarrow> 1 word" where
  "page_dirty GVA e = (if odd_page GVA e then te_D1 e else te_D0 e)"

definition page_frame :: "u64 \<Rightarrow> TLB_Entry_IPE \<Rightarrow> u64" where
  "page_frame GVA e = (if odd_page GVA e then te_PFN1 e else te_PFN0 e)"

text \<open>
  \<^verbatim>\<open>TLB_IPE::GVAtoGPA\<close>. The result is the boolean it returns and the final content of \<^verbatim>\<open>*GPA\<close>,
  which on a failure is the address of the exception handler.
\<close>

definition tlb_GVAtoGPA ::
    "TLB_IPE \<Rightarrow> CP0_IPE \<Rightarrow> u64 \<Rightarrow> u64 \<Rightarrow> Context_IPE \<Rightarrow> (bool \<times> u64 \<times> CP0_IPE \<times> Context_IPE) result" where
  "tlb_GVAtoGPA tlb c GVA GPA ctx =
     (let asid = get_ASID c; r = ucast (drop_bit REGION_OFFSET GVA AND REGION_MASK);
          idx = first_index (entry_matches asid r GVA) tlb;
          (result, GPA, ctx) =
            (if idx < length tlb
             then (let e = tlb ! idx; pmask = drop_bit 1 (page_mask e);
                       result = (if \<not> page_valid GVA e then TLB_INV
                                 else if getLDST ctx = ST_WRITE \<and> page_dirty GVA e = 0 then TLB_MOD
                                 else TLB_MATCH) in
                   (result, page_frame GVA e OR (GVA AND pmask), setProt (ucast (page_dirty GVA e)) ctx))
             else (ucast ((2 :: u64) + getLDST ctx), GPA, ctx)) in
      if result \<noteq> TLB_MATCH
      then bind_result (TLB_Excep c GVA result ctx) (\<lambda>(pc, c). Inr (False, pc, c, ctx))
      else Inr (True, GPA, c, ctx))"

section \<open>The TLB instructions\<close>

definition probe_matches :: "CP0_IPE \<Rightarrow> TLB_Entry_IPE \<Rightarrow> bool" where
  "probe_matches c e =
     (let pmask = page_mask e; tag = (cp0_read c H2_CP0_ENTRYHI SEL_ZERO AND NOT pmask) AND SEG_MASK;
          VPN = te_VPN e AND NOT pmask in
      (te_G e = ENTRY_GLOBAL \<or> te_ASID e = get_ASID c) \<and> VPN = tag)"

text \<open>
  The probe compares neither the region nor the validity of an entry; its second loop, from the
  entry after the one found, marks the next valid duplicate invalid.
\<close>

definition tlb_probe :: "TLB_IPE \<Rightarrow> CP0_IPE \<Rightarrow> TLB_IPE \<times> CP0_IPE" where
  "tlb_probe tlb c =
     (let idx = first_index (probe_matches c) tlb;
          c' = (if idx < length tlb then set_index (of_nat idx) c else set_probe c);
          dup = Suc idx + first_index (\<lambda>e. probe_matches c e \<and> te_Validity e = ENTRY_VALID) (drop (Suc idx) tlb) in
      (if dup < length tlb then tlb[dup := (tlb ! dup)\<lparr>te_Validity := ENTRY_INVALID\<rparr>] else tlb, c'))"

definition tlb_random :: "nat \<Rightarrow> TLB_IPE \<Rightarrow> CP0_IPE \<Rightarrow> (TLB_IPE \<times> CP0_IPE) result" where
  "tlb_random rand tlb c =
     (let idx = (of_nat (rand mod TLB_MAX_ENTERIES) :: u64); wired = (ucast (get_wired c) :: u64);
          idx = (if idx < wired then idx + wired else idx) in
      if unat idx < length tlb
      then Inr (tlb[unat idx := set_Entry c (tlb ! unat idx)], set_random idx c)
      else Inl OutOfBounds)"

definition tlb_write_index :: "TLB_IPE \<Rightarrow> CP0_IPE \<Rightarrow> TLB_IPE result" where
  "tlb_write_index tlb c =
     (let idx = unat (get_index c) in
      if idx < length tlb then Inr (tlb[idx := set_Entry c (tlb ! idx)]) else Inl OutOfBounds)"

definition tlb_read :: "TLB_IPE \<Rightarrow> CP0_IPE \<Rightarrow> CP0_IPE result" where
  "tlb_read tlb c =
     (let idx = unat (get_index c) in
      if idx < length tlb then Inr (get_TLBEntry (tlb ! idx) c) else Inl OutOfBounds)"

section \<open>Well-formed entries\<close>

text \<open>
  A frame number has no bit under the page's offset mask. Entries written by the TLB
  instructions have this property, and so have entries that were never written.
\<close>

definition entry_wf :: "TLB_Entry_IPE \<Rightarrow> bool" where
  "entry_wf e \<longleftrightarrow> te_PFN0 e AND drop_bit 1 (page_mask e) = 0 \<and> te_PFN1 e AND drop_bit 1 (page_mask e) = 0"

definition tlb_wf :: "TLB_IPE \<Rightarrow> bool" where
  "tlb_wf tlb \<longleftrightarrow> length tlb = TLB_MAX_ENTERIES \<and> list_all entry_wf tlb"

lemma frame_number_offset: "frame_number lo pm AND drop_bit 1 (pm OR MIN_PAGE_MASK) = 0"
  unfolding frame_number_def
  by (simp add: word64_eq_iff bitblast bit_simps)

lemma frame_number_offset_simp [simp]: "frame_number lo pm AND (drop_bit (Suc 0) pm OR 4095) = 0"
  using frame_number_offset [of lo pm] by (simp add: drop_bit_or)

lemma set_Entry_fields [simp]:
  "te_pagemask (set_Entry c e) = cp0_read c H2_CP0_PAGEMASK 0"
  "te_entryLo0 (set_Entry c e) = cp0_read c H2_CP0_ENTRYLO0 0"
  "te_entryLo1 (set_Entry c e) = cp0_read c H2_CP0_ENTRYLO1 0"
  "te_VPN (set_Entry c e) = (cp0_read c H2_CP0_ENTRYHI 0 AND NOT MIN_PAGE_MASK) AND SEG_MASK"
  "te_ASID (set_Entry c e) = get_ASID c"
  "te_R (set_Entry c e) = check_region c"
  "te_G (set_Entry c e) = ucast (cp0_read c H2_CP0_ENTRYLO0 0 AND cp0_read c H2_CP0_ENTRYLO1 0 AND ENTRYLO_GLOBAL_MASK)"
  "te_Validity (set_Entry c e) = ENTRY_VALID"
  "te_V0 (set_Entry c e) = of_bool (cp0_read c H2_CP0_ENTRYLO0 0 AND ENTRYLO_VALID_MASK \<noteq> 0)"
  "te_V1 (set_Entry c e) = of_bool (cp0_read c H2_CP0_ENTRYLO1 0 AND ENTRYLO_VALID_MASK \<noteq> 0)"
  "te_D0 (set_Entry c e) = of_bool (cp0_read c H2_CP0_ENTRYLO0 0 AND ENTRYLO_DIRTY_MASK \<noteq> 0)"
  "te_D1 (set_Entry c e) = of_bool (cp0_read c H2_CP0_ENTRYLO1 0 AND ENTRYLO_DIRTY_MASK \<noteq> 0)"
  "te_PFN0 (set_Entry c e) = frame_number (cp0_read c H2_CP0_ENTRYLO0 0) (cp0_read c H2_CP0_PAGEMASK 0)"
  "te_PFN1 (set_Entry c e) = frame_number (cp0_read c H2_CP0_ENTRYLO1 0) (cp0_read c H2_CP0_PAGEMASK 0)"
  by (simp_all add: set_Entry_def Let_def get_ASID_def check_region_def and.commute)

lemma page_mask_set_Entry [simp]: "page_mask (set_Entry c e) = cp0_read c H2_CP0_PAGEMASK 0 OR MIN_PAGE_MASK"
  by (simp add: page_mask_def)

lemma entry_wf_set_Entry [simp]: "entry_wf (set_Entry c e)"
  by (simp add: entry_wf_def drop_bit_or)

lemma entry_wf_reset_Entry [simp]: "entry_wf (reset_Entry e)"
  by (simp add: entry_wf_def reset_Entry_def)

lemma entry_wf_Validity [simp]: "entry_wf (e\<lparr>te_Validity := v\<rparr>) = entry_wf e"
  by (simp add: entry_wf_def page_mask_def)

lemma list_all_update: "list_all p xs \<Longrightarrow> p x \<Longrightarrow> list_all p (xs[i := x])"
  by (auto simp: list_all_iff dest: set_update_subset_insert [THEN subsetD])

lemma list_all_at: "list_all p xs \<Longrightarrow> i < length xs \<Longrightarrow> p (xs ! i)"
  by (simp add: list_all_length)

lemma tlb_wf_clear: "length tlb = TLB_MAX_ENTERIES \<Longrightarrow> tlb_wf (clear_TLB tlb)"
  by (simp add: tlb_wf_def clear_TLB_def list_all_iff)

lemma tlb_wf_probe: "tlb_wf tlb \<Longrightarrow> tlb_wf (fst (tlb_probe tlb c))"
  by (simp add: tlb_wf_def tlb_probe_def Let_def list_all_update list_all_at)

lemma tlb_wf_random: "tlb_wf tlb \<Longrightarrow> tlb_random rnd tlb c = Inr (tlb', c') \<Longrightarrow> tlb_wf tlb'"
  by (auto simp: tlb_wf_def tlb_random_def Let_def list_all_update split: if_splits)

lemma tlb_wf_write_index: "tlb_wf tlb \<Longrightarrow> tlb_write_index tlb c = Inr tlb' \<Longrightarrow> tlb_wf tlb'"
  by (auto simp: tlb_wf_def tlb_write_index_def Let_def list_all_update split: if_splits)

lemma get_index_less: "unat (get_index c) < 64"
  unfolding get_index_def by (subst and.commute) (rule unat_and_less, simp)

lemma get_wired_less: "unat (get_wired c) < 64"
proof -
  have "unat (get_wired c) \<le> unat (cp0_read c 6 0 AND 0x3f)"
    unfolding get_wired_def by (simp add: unsigned_ucast_eq unsigned_take_bit_eq take_bit_nat_less_eq_self)
  also have "\<dots> < 64" by (rule unat_and_less) simp
  finally show ?thesis .
qed

section \<open>Lookup\<close>

text \<open>
  The three outcomes of a lookup: the first entry that matches decides, and no match is a miss.
\<close>

abbreviation (input) tlb_first :: "TLB_IPE \<Rightarrow> CP0_IPE \<Rightarrow> u64 \<Rightarrow> nat" where
  "tlb_first tlb c GVA \<equiv>
     first_index (entry_matches (get_ASID c) (ucast (drop_bit REGION_OFFSET GVA AND REGION_MASK)) GVA) tlb"

abbreviation (input) access_allowed :: "u64 \<Rightarrow> Context_IPE \<Rightarrow> TLB_Entry_IPE \<Rightarrow> bool" where
  "access_allowed GVA ctx e \<equiv> page_valid GVA e \<and> (getLDST ctx = ST_WRITE \<longrightarrow> page_dirty GVA e \<noteq> 0)"

lemma tlb_lookup_hit:
  assumes "idx = tlb_first tlb c GVA" "idx < length tlb" "access_allowed GVA ctx (tlb ! idx)"
  shows "tlb_GVAtoGPA tlb c GVA GPA ctx =
    Inr (True, page_frame GVA (tlb ! idx) OR (GVA AND drop_bit 1 (page_mask (tlb ! idx))), c,
         setProt (ucast (page_dirty GVA (tlb ! idx))) ctx)"
  using assms unfolding tlb_GVAtoGPA_def Let_def by auto

lemma tlb_lookup_fault:
  assumes "idx = tlb_first tlb c GVA" "idx < length tlb" "\<not> access_allowed GVA ctx (tlb ! idx)"
  shows "tlb_GVAtoGPA tlb c GVA GPA ctx =
    (let ctx' = setProt (ucast (page_dirty GVA (tlb ! idx))) ctx in
     bind_result (TLB_Excep c GVA (if page_valid GVA (tlb ! idx) then TLB_MOD else TLB_INV) ctx')
       (\<lambda>(pc, c). Inr (False, pc, c, ctx')))"
  using assms unfolding tlb_GVAtoGPA_def Let_def by auto

lemma tlb_lookup_miss:
  assumes "tlb_first tlb c GVA = length tlb" "loadstore ctx \<in> {0, 1}"
  shows "tlb_GVAtoGPA tlb c GVA GPA ctx =
    bind_result (TLB_Excep c GVA (if getLDST ctx = ST_WRITE then TLBS else TLBL) ctx)
      (\<lambda>(pc, c). Inr (False, pc, c, ctx))"
  using assms unfolding tlb_GVAtoGPA_def Let_def getLDST_def by auto

lemma fault_no_hit [simp]:
  "bind_result r (\<lambda>(pc, d). Inr (False, pc, d, x)) \<noteq> Inr (True, y)"
  "Inr (True, y) \<noteq> bind_result r (\<lambda>(pc, d). Inr (False, pc, d, x))"
  by (cases r; auto)+

lemma first_index_update:
  assumes "first_index p xs = length xs" "i < length xs" "p x"
  shows "first_index p (xs[i := x]) = i"
proof (rule first_index_eqI)
  show "i < length (xs[i := x])" "p (xs[i := x] ! i)" using assms by simp_all
  show "\<not> p (xs[i := x] ! j)" if "j < i" for j
    using assms that first_index_before [of j p xs] by simp
qed

text \<open>When a freshly written entry matches: the address is in the page pair of EntryHi.\<close>

lemma entry_matches_set_Entry:
  assumes "(gva AND 0xC001FFFFFFFFE000) AND NOT (cp0_read c H2_CP0_PAGEMASK 0)
      = (cp0_read c H2_CP0_ENTRYHI 0 AND 0xC001FFFFFFFFE000) AND NOT (cp0_read c H2_CP0_PAGEMASK 0)"
    and "cp0_read c H2_CP0_PAGEMASK 0 AND 0xC000000000000000 = 0"
  shows "entry_matches (get_ASID c) (ucast (drop_bit REGION_OFFSET gva AND REGION_MASK)) gva (set_Entry c e)"
proof -
  let ?m = "cp0_read c H2_CP0_PAGEMASK 0" and ?h = "cp0_read c H2_CP0_ENTRYHI 0"
  have bits: "\<forall>n<64. bit ((gva AND 0xC001FFFFFFFFE000) AND NOT ?m) n = bit ((?h AND 0xC001FFFFFFFFE000) AND NOT ?m) n"
    using assms(1) by simp
  have top: "\<not> bit ?m 62" "\<not> bit ?m 63"
    using assms(2) by (simp_all add: word64_eq_iff bitblast bit_simps)
  have r: "(ucast (drop_bit 62 ?h AND 3) :: u8) = ucast (drop_bit 62 gva AND 3)"
    by (rule word8_eqI) (use bits top in \<open>simp add: bitblast bit_simps\<close>)
  have t: "((?h AND NOT 0x1fff) AND SEG_MASK) AND NOT (?m OR 0x1fff) = (gva AND NOT (?m OR 0x1fff)) AND SEG_MASK"
    by (rule word64_eqI) (use bits in \<open>simp add: bitblast bit_simps; blast\<close>)
  show ?thesis
    using t unfolding entry_matches_def Let_def
    by (simp add: check_region_def r and.commute [of 3])
qed

text \<open>What an address covered by the last written entry translates to.\<close>

lemma written_fields:
  fixes c :: CP0_IPE and gva :: u64
  defines "od \<equiv> bit gva (popcount32 (drop_bit 1 (cp0_read c H2_CP0_PAGEMASK 0 OR MIN_PAGE_MASK)))"
  defines "lo \<equiv> cp0_read c (if od then H2_CP0_ENTRYLO1 else H2_CP0_ENTRYLO0) 0"
  shows "page_valid gva (set_Entry c e) = bit lo 1"
    and "page_dirty gva (set_Entry c e) = of_bool (bit lo 2)"
    and "page_frame gva (set_Entry c e) = frame_number lo (cp0_read c H2_CP0_PAGEMASK 0)"
proof -
  have b: "(x AND 2 \<noteq> 0) = bit x 1" "(x AND 4 \<noteq> 0) = bit x 2" for x :: u64
    by (simp_all add: word64_eq_iff bitblast bit_simps)
  have o: "odd_page gva (set_Entry c e) = od"
    by (simp only: odd_page_def page_mask_set_Entry od_def)
  show "page_valid gva (set_Entry c e) = bit lo 1" "page_dirty gva (set_Entry c e) = of_bool (bit lo 2)"
    "page_frame gva (set_Entry c e) = frame_number lo (cp0_read c H2_CP0_PAGEMASK 0)"
    by (simp_all add: page_valid_def page_dirty_def page_frame_def o lo_def b)
qed

lemma lookup_written:
  fixes c :: CP0_IPE and gva :: u64
  defines "pm \<equiv> cp0_read c H2_CP0_PAGEMASK 0"
  defines "lo \<equiv> cp0_read c (if bit gva (popcount32 (drop_bit 1 (pm OR MIN_PAGE_MASK)))
                           then H2_CP0_ENTRYLO1 else H2_CP0_ENTRYLO0) 0"
  assumes "i < length tlb" "get_ASID d = get_ASID c"
    and "\<forall>j<i. \<not> entry_matches (get_ASID c) (ucast (drop_bit REGION_OFFSET gva AND REGION_MASK)) gva (tlb ! j)"
    and "(gva AND 0xC001FFFFFFFFE000) AND NOT pm = (cp0_read c H2_CP0_ENTRYHI 0 AND 0xC001FFFFFFFFE000) AND NOT pm"
    and "pm AND 0xC000000000000000 = 0"
    and "bit lo 1" "getLDST ctx = ST_WRITE \<Longrightarrow> bit lo 2"
  shows "tlb_GVAtoGPA (tlb[i := set_Entry c (tlb ! i)]) d gva g ctx =
    Inr (True, frame_number lo pm OR (gva AND drop_bit 1 (pm OR MIN_PAGE_MASK)), d,
         setProt (of_bool (bit lo 2)) ctx)"
proof -
  let ?t = "tlb[i := set_Entry c (tlb ! i)]"
  have idx: "i = tlb_first ?t d gva"
  proof (rule first_index_eqI [symmetric])
    show "i < length ?t" using assms(3) by simp
    show "entry_matches (get_ASID d) (ucast (drop_bit 62 gva AND 3)) gva (?t ! i)"
      using assms(3,4) entry_matches_set_Entry [OF assms(6,7) [unfolded pm_def]] by simp
    show "\<not> entry_matches (get_ASID d) (ucast (drop_bit 62 gva AND 3)) gva (?t ! j)" if "j < i" for j
      using assms(4,5) that by simp
  qed
  have e: "?t ! i = set_Entry c (tlb ! i)" using assms(3) by simp
  note w = written_fields [of gva c "tlb ! i", folded pm_def, folded lo_def]
  have ok: "access_allowed gva ctx (?t ! i)"
    using assms(8,9) by (simp only: e w) simp
  show ?thesis
    using tlb_lookup_hit [OF idx _ ok, of g] assms(3)
    unfolding e w page_mask_set_Entry by (simp add: pm_def)
qed

text \<open>The slot \<^verbatim>\<open>tlbwr\<close> picks, and when it lies in the array.\<close>

definition random_slot :: "nat \<Rightarrow> nat \<Rightarrow> nat" where
  "random_slot rand wired = (let idx = rand mod TLB_MAX_ENTERIES in if idx < wired then idx + wired else idx)"

lemma tlb_random_slot:
  "tlb_random rnd tlb c =
     (let i = random_slot rnd (unat (get_wired c)) in
      if i < length tlb then Inr (tlb[i := set_Entry c (tlb ! i)], set_random (of_nat i) c) else Inl OutOfBounds)"
proof -
  let ?w = "get_wired c" and ?r = "rnd mod 64"
  have w: "unat ?w < 64" by (rule get_wired_less)
  have r: "unat (of_nat ?r :: u64) = ?r" by (simp add: unat_of_nat take_bit_nat_eq_self)
  have cw: "unat (ucast ?w :: u64) = unat ?w"
    using w by (simp add: unsigned_ucast_eq take_bit_nat_eq_self)
  have lt: "((of_nat ?r :: u64) < ucast ?w) = (?r < unat ?w)" by (simp only: word_less_nat_alt r cw)
  have s: "unat ((of_nat ?r :: u64) + ucast ?w) = ?r + unat ?w"
    using w by (subst unat_add_lem [THEN iffD1]) (simp_all add: r cw)
  have i: "unat (if (of_nat ?r :: u64) < ucast ?w then of_nat ?r + ucast ?w else of_nat ?r :: u64) = random_slot rnd (unat ?w)"
    by (cases "?r < unat ?w") (simp_all only: lt s r random_slot_def Let_def if_True if_False simp_thms)
  have conv: "x = of_nat (unat x)" for x :: u64 by simp
  have "(if (of_nat ?r :: u64) < ucast ?w then of_nat ?r + ucast ?w else of_nat ?r :: u64) = of_nat (random_slot rnd (unat ?w))"
    by (rule trans [OF conv]) (simp only: i)
  then show ?thesis
    unfolding tlb_random_def Let_def using i by simp
qed

lemma random_slot_ge: "wired \<le> random_slot rnd wired"
  by (simp add: random_slot_def Let_def)

lemma random_slot_less: "wired \<le> 32 \<Longrightarrow> random_slot rnd wired < 64"
  using mod_less_divisor [of 64 rnd] by (simp add: random_slot_def Let_def)

section \<open>Properties\<close>

text \<open>A buffer on which nothing was written yet, and registers that are all zero.\<close>

definition zero_regs :: CP0_IPE where
  "zero_regs = \<lparr>reg = (\<lambda>_. 0)\<rparr>"

definition blank_entry :: TLB_Entry_IPE where
  "blank_entry = \<lparr>te_pagemask = 0, te_entryHi = 0, te_entryLo0 = 0, te_entryLo1 = 0, te_VPN = 0, te_ASID = 0,
     te_R = 0, te_G = 0, te_Validity = ENTRY_INVALID, te_C0 = 0, te_C1 = 0, te_V0 = 0, te_V1 = 0, te_D0 = 0,
     te_D1 = 0, te_PFN0 = 0, te_PFN1 = 0\<rparr>"

definition blank_tlb :: TLB_IPE where
  "blank_tlb = replicate TLB_MAX_ENTERIES blank_entry"

lemma blank_tlb_simps [simp]:
  "length blank_tlb = TLB_MAX_ENTERIES" "i < 64 \<Longrightarrow> blank_tlb ! i = blank_entry"
  "first_index (entry_matches a r gva) blank_tlb = 64" "cp0_read zero_regs n s = 0" "tlb_wf blank_tlb"
proof -
  show "first_index (entry_matches a r gva) blank_tlb = 64"
    using first_index_none [of "entry_matches a r gva" blank_tlb]
    by (simp add: blank_tlb_def blank_entry_def entry_matches_def)
qed (simp_all add: blank_tlb_def zero_regs_def cp0_read_def tlb_wf_def list_all_iff entry_wf_def blank_entry_def)

text \<open>
  Property C3. The refill protocol works. After a miss on \<open>gva\<close>, a handler that loads a pair of
  EntryLo values for the page of the address and executes \<^verbatim>\<open>tlbwr\<close> makes the retried access hit,
  provided the half it concerns is valid and, for a store, dirty; the address it gets is the
  frame of that half with the offset of the access. No other entry can shadow the new one.
\<close>

theorem refill_then_hit:
  fixes c :: CP0_IPE and gva :: u64
  defines "pm \<equiv> cp0_read c H2_CP0_PAGEMASK 0"
  assumes "tlb_first tlb c gva = length tlb" "TLB_Excep c gva t ctx = Inr (pc, c1)"
    and "c2 = cp0_write lo1 H2_CP0_ENTRYLO1 0 (cp0_write lo0 H2_CP0_ENTRYLO0 0 c1)"
    and "tlb_random rnd tlb c2 = Inr (tlb', c3)"
    and "pm AND 0xC000000000000000 = 0"
    and "lo = (if bit gva (popcount32 (drop_bit 1 (pm OR MIN_PAGE_MASK))) then lo1 else lo0)"
    and "bit lo 1" "getLDST ctx' = ST_WRITE \<longrightarrow> bit lo 2"
  shows "tlb_GVAtoGPA tlb' c3 gva g ctx' =
    Inr (True, frame_number lo pm OR (gva AND drop_bit 1 (pm OR MIN_PAGE_MASK)), c3,
         setProt (of_bool (bit lo 2)) ctx')"
proof -
  have c1: "cp0_read c1 5 0 = pm" "cp0_read c1 10 0 = cp0_read (TLB_fill c gva) 10 0"
    using assms(3) Perform_Exception_other [of "TLB_fill c gva" gva t ctx pc c1] TLB_fill_other [of 5 0 c gva]
    by (simp_all add: TLB_Excep_def pm_def)
  have c2: "cp0_read c2 5 0 = pm" "cp0_read c2 10 0 = cp0_read (TLB_fill c gva) 10 0"
    "cp0_read c2 2 0 = lo0" "cp0_read c2 3 0 = lo1"
    by (simp_all add: assms(4) c1)
  let ?i = "random_slot rnd (unat (get_wired c2))"
  have r: "?i < length tlb" "tlb' = tlb[?i := set_Entry c2 (tlb ! ?i)]" "c3 = set_random (of_nat ?i) c2"
    using assms(5) by (simp_all add: tlb_random_slot Let_def split: if_splits)
  have page: "(gva AND 0xC001FFFFFFFFE000) AND NOT pm = (cp0_read c2 10 0 AND 0xC001FFFFFFFFE000) AND NOT pm"
    by (rule word64_eqI) (simp add: c2 TLB_fill_def Let_def bitblast bit_simps)
  have asid: "get_ASID c2 = get_ASID c"
    by (simp add: get_ASID_def c2, rule word8_eqI) (simp add: TLB_fill_def Let_def bitblast bit_simps)
  have "\<forall>j<?i. \<not> entry_matches (get_ASID c2) (ucast (drop_bit 62 gva AND 3)) gva (tlb ! j)"
    using assms(2) r(1) first_index_before by (metis asid less_trans)
  moreover have "get_ASID c3 = get_ASID c2"
    by (simp add: r(3) get_ASID_def set_random_def)
  ultimately show ?thesis
    using lookup_written [where i = ?i and tlb = tlb and d = c3 and c = c2 and gva = gva and ctx = ctx' and g = g] r(1,2) page assms(6-9) by (simp add: c2 split: if_splits)
qed

theorem refill_then_hit_witness:
  "\<exists>tlb' c3. tlb_GVAtoGPA tlb' c3 0x3010 0 \<lparr>loadstore = 1, PC = 0, writeData = 0\<rparr> =
     Inr (True, 0x5010, c3, \<lparr>loadstore = 1, PC = 0, writeData = 0\<rparr>)"
proof -
  let ?ctx = "\<lparr>loadstore = 1, PC = 0, writeData = 0\<rparr>"
  obtain pc c1 where ex: "TLB_Excep zero_regs 0x3010 TLBS ?ctx = Inr (pc, c1)"
    using Perform_Exception_total [of "TLB_fill zero_regs 0x3010" "0x3010" TLBS ?ctx]
    by (auto simp: TLB_Excep_def cause_ExcCode_def)
  let ?c2 = "cp0_write 0x146 3 0 (cp0_write 0 2 0 c1)"
  have w: "get_wired ?c2 = 0"
    using Perform_Exception_other [of "TLB_fill zero_regs 0x3010" "0x3010" TLBS ?ctx pc c1 6 0]
      TLB_fill_other [of 6 0 zero_regs "0x3010"] ex by (simp add: TLB_Excep_def get_wired_def)
  obtain tlb' c3 where wr: "tlb_random 0 blank_tlb ?c2 = Inr (tlb', c3)"
    by (simp add: tlb_random_slot Let_def w random_slot_def)
  show ?thesis
    using refill_then_hit [OF _ ex refl wr, of "0x146" ?ctx 0]
    by (auto simp: popcount32_def bit_simps upt_rec frame_number_def setProt_def)
qed

text \<open>
  A successful translation keeps the offset within the page and takes the frame
  from the first entry that matches the address in the current address space; it leaves the
  registers alone and reports the page's dirty bit as its protection.
\<close>

lemma hit_keeps_offset:
  assumes "tlb_wf tlb" "tlb_GVAtoGPA tlb c gva g ctx = Inr (True, gpa, c', ctx')" "loadstore ctx \<in> {0, 1}"
  shows "\<exists>i<64. entry_matches (get_ASID c) (ucast (drop_bit 62 gva AND 3)) gva (tlb ! i)
    \<and> (\<forall>j<i. \<not> entry_matches (get_ASID c) (ucast (drop_bit 62 gva AND 3)) gva (tlb ! j))
    \<and> gpa AND drop_bit 1 (page_mask (tlb ! i)) = gva AND drop_bit 1 (page_mask (tlb ! i))
    \<and> gpa AND NOT (drop_bit 1 (page_mask (tlb ! i))) = page_frame gva (tlb ! i)
    \<and> page_valid gva (tlb ! i) \<and> (loadstore ctx = 1 \<longrightarrow> page_dirty gva (tlb ! i) \<noteq> 0)
    \<and> c' = c \<and> getProt ctx' = ucast (page_dirty gva (tlb ! i))"
proof -
  let ?i = "tlb_first tlb c gva" and ?k = "drop_bit 1 (page_mask (tlb ! tlb_first tlb c gva))"
  have i: "?i < length tlb"
  proof (rule ccontr)
    assume "\<not> ?i < length tlb"
    then have "?i = length tlb" using first_index_le by (metis le_less)
    from tlb_lookup_miss [OF this assms(3), of g] assms(2) show False by simp
  qed
  have ok: "access_allowed gva ctx (tlb ! ?i)"
  proof (rule ccontr)
    assume "\<not> access_allowed gva ctx (tlb ! ?i)"
    from tlb_lookup_fault [OF refl i this, of g] assms(2) show False by (simp add: Let_def)
  qed
  have res: "gpa = page_frame gva (tlb ! ?i) OR (gva AND ?k)" "c' = c"
    "ctx' = setProt (ucast (page_dirty gva (tlb ! ?i))) ctx"
    using tlb_lookup_hit [OF refl i ok, of g] assms(2) by simp_all
  have "entry_wf (tlb ! ?i)" using assms(1) i by (simp add: tlb_wf_def list_all_at)
  then have fr: "page_frame gva (tlb ! ?i) AND ?k = 0" by (simp add: entry_wf_def page_frame_def)
  then have "page_frame gva (tlb ! ?i) AND NOT ?k = page_frame gva (tlb ! ?i)"
    by (metis and_mask_split or.left_neutral)
  moreover have "(gva AND ?k) AND NOT ?k = 0" by (simp add: and.assoc)
  ultimately have "gpa AND ?k = gva AND ?k" "gpa AND NOT ?k = page_frame gva (tlb ! ?i)"
    using fr by (simp_all only: res bit.conj_disj_distrib2 and.assoc and.idem or.left_neutral or.right_neutral)
  moreover have "?i < 64" using i assms(1) by (simp add: tlb_wf_def)
  moreover have "\<forall>j<?i. \<not> entry_matches (get_ASID c) (ucast (drop_bit 62 gva AND 3)) gva (tlb ! j)"
    using first_index_before by blast
  ultimately show ?thesis
    using first_index_hit [OF i] ok res
    by (intro exI [of _ ?i]) (simp add: getLDST_def getProt_def setProt_def)
qed

text \<open>
  Property C34. With at most 32 wired entries, \<^verbatim>\<open>tlbwr\<close> always writes inside the array, leaves
  every wired entry alone and changes one entry only, which then holds the four registers.
\<close>

theorem tlbwr_keeps_wired:
  assumes "length tlb = TLB_MAX_ENTERIES" "unat (get_wired c) \<le> 32"
  shows "\<exists>i<64. unat (get_wired c) \<le> i
    \<and> tlb_random rnd tlb c = Inr (tlb[i := set_Entry c (tlb ! i)], set_random (of_nat i) c)"
proof -
  let ?i = "random_slot rnd (unat (get_wired c))"
  have "?i < 64" using random_slot_less [OF assms(2)] .
  then show ?thesis
    using assms(1) random_slot_ge by (intro exI [of _ ?i]) (simp add: tlb_random_slot Let_def)
qed

theorem tlbwr_keeps_wired_witness:
  "\<exists>i<64. tlb_random 7 blank_tlb zero_regs =
     Inr (blank_tlb[i := set_Entry zero_regs (blank_tlb ! i)], set_random (of_nat i) zero_regs)"
  using tlbwr_keeps_wired [of blank_tlb zero_regs 7] by (auto simp: get_wired_def)

text \<open>
  With more than 32 wired entries \<^verbatim>\<open>tlbwr\<close> can leave the array: the random value just
  below the wired bound is moved to twice the bound less one, beyond the last of the 64 entries.
\<close>

lemma tlbwr_overruns:
  assumes "length tlb = TLB_MAX_ENTERIES" "32 < unat (get_wired c)"
  shows "tlb_random (unat (get_wired c) - 1) tlb c = Inl OutOfBounds"
proof -
  have "random_slot (unat (get_wired c) - 1) (unat (get_wired c)) = 2 * unat (get_wired c) - 1"
    using get_wired_less [of c] assms(2) by (simp add: random_slot_def Let_def)
  then show ?thesis using assms by (simp add: tlb_random_slot Let_def)
qed

text \<open>
  \<^verbatim>\<open>tlbr\<close> after \<^verbatim>\<open>tlbwi\<close> gives back the page mask, both EntryLo values, the address
  space and the page number, but never the region: the two top bits of EntryHi read as zero.
\<close>

lemma tlbr_after_tlbwi:
  assumes "tlb_write_index tlb c = Inr tlb'"
  shows "\<exists>d. tlb_read tlb' c = Inr d
    \<and> cp0_read d H2_CP0_PAGEMASK 0 = cp0_read c H2_CP0_PAGEMASK 0
    \<and> cp0_read d H2_CP0_ENTRYLO0 0 = cp0_read c H2_CP0_ENTRYLO0 0
    \<and> cp0_read d H2_CP0_ENTRYLO1 0 = cp0_read c H2_CP0_ENTRYLO1 0
    \<and> cp0_read d H2_CP0_ENTRYHI 0 = cp0_read c H2_CP0_ENTRYHI 0 AND 0x1FFFFFFFFE0FF"
proof -
  let ?i = "unat (get_index c)"
  have i: "?i < length tlb" "tlb' = tlb[?i := set_Entry c (tlb ! ?i)]"
    using assms(1) by (simp_all add: tlb_write_index_def Let_def split: if_splits)
  have hi: "entry_get_entryHi (set_Entry c (tlb ! ?i)) = cp0_read c 10 0 AND 0x1FFFFFFFFE0FF"
    by (rule word64_eqI) (simp add: entry_get_entryHi_def get_ASID_def bitblast bit_simps)
  show ?thesis
    using i by (simp add: tlb_read_def Let_def get_TLBEntry_def hi)
qed

text \<open>
  An access through a matching but invalid half raises a TLB exception whose code
  is chosen by the page's dirty bit and not by the access: the dirty bit is stored in the cell of
  the load/store indicator before the exception code is read from there.
\<close>

lemma invalid_page_code:
  assumes "idx = tlb_first tlb c gva" "idx < length tlb" "\<not> page_valid gva (tlb ! idx)"
  shows "\<exists>pc d. tlb_GVAtoGPA tlb c gva g ctx = Inr (False, pc, d, setProt (ucast (page_dirty gva (tlb ! idx))) ctx)
    \<and> drop_bit 2 (cp0_read d H2_CP0_CAUSE 0 AND CAUSE_EXEC_MASK)
        = (if page_dirty gva (tlb ! idx) = 0 then ucast TLBL else ucast TLBS)"
proof -
  let ?ctx = "setProt (ucast (page_dirty gva (tlb ! idx))) ctx"
  have d: "page_dirty gva (tlb ! idx) = 0 \<or> page_dirty gva (tlb ! idx) = 1" by (rule bit1_cases)
  have code: "cause_ExcCode TLB_INV ?ctx = Some (if page_dirty gva (tlb ! idx) = 0 then TLBL else TLBS)"
    using d by (auto simp: cause_ExcCode_def getLDST_def setProt_def)
  obtain pc e where ex: "Perform_Exception (TLB_fill c gva) gva TLB_INV ?ctx = Inr (pc, e)"
    using Perform_Exception_total [of "TLB_fill c gva" gva TLB_INV ?ctx] code by auto
  have "tlb_GVAtoGPA tlb c gva g ctx = Inr (False, pc, e, ?ctx)"
    using tlb_lookup_fault [OF assms(1,2), of ctx g] assms(3) ex by (simp add: Let_def TLB_Excep_def)
  moreover have "drop_bit 2 (cp0_read e 13 0 AND 0x7c) = ucast (if page_dirty gva (tlb ! idx) = 0 then TLBL else TLBS)"
    unfolding Perform_Exception_regs(3) [OF ex] code option.sel by (rule cause_field(1)) simp
  then have "drop_bit 2 (cp0_read e 13 0 AND 0x7c) = (if page_dirty gva (tlb ! idx) = 0 then ucast TLBL else ucast TLBS)"
    by (simp split: if_splits)
  ultimately show ?thesis by blast
qed

text \<open>
  \<^verbatim>\<open>tlbp\<close> leaves in Index the number of the first entry for the page in EntryHi, or
  sets the probe-failure bit; of the entries it changes at most the validity of one, a later
  duplicate of the one found.
\<close>

lemma tlb_probe_result:
  assumes "length tlb = TLB_MAX_ENTERIES" "tlb_probe tlb c = (tlb', d)"
  shows "(if \<exists>e\<in>set tlb. probe_matches c e
          then cp0_read d H2_CP0_INDEX 0 = of_nat (first_index (probe_matches c) tlb)
          else bit (cp0_read d H2_CP0_INDEX 0) 31)
    \<and> (\<forall>i<64. tlb' ! i = tlb ! i \<or> (probe_matches c (tlb ! i) \<and> first_index (probe_matches c) tlb < i
          \<and> tlb' ! i = (tlb ! i)\<lparr>te_Validity := ENTRY_INVALID\<rparr>))"
proof -
  let ?p = "probe_matches c" and ?q = "\<lambda>e. probe_matches c e \<and> te_Validity e = ENTRY_VALID"
  let ?i = "first_index ?p tlb"
  let ?k = "first_index ?q (drop (Suc ?i) tlb)"
  have tlb': "tlb' = (if Suc ?i + ?k < length tlb then tlb[Suc ?i + ?k := (tlb ! (Suc ?i + ?k))\<lparr>te_Validity := ENTRY_INVALID\<rparr>] else tlb)"
    and d: "d = (if ?i < length tlb then set_index (of_nat ?i) c else set_probe c)"
    using assms(2) unfolding tlb_probe_def Let_def by (simp_all only: prod.inject)
  have hit: "?p (tlb ! (Suc ?i + ?k))" if "Suc ?i + ?k < length tlb"
    using first_index_hit [of ?q "drop (Suc ?i) tlb"] that by simp
  have some: "(\<exists>e\<in>set tlb. ?p e) \<longleftrightarrow> ?i < length tlb"
    using first_index_none [of ?p tlb] first_index_le [of ?p tlb] by (metis le_less nat_less_le)
  have idx: "cp0_read (set_index (of_nat ?i) c) 0 0 = of_nat ?i" if "?i < 64"
    using that low_bits_of_nat [OF that] by (simp add: set_index_def unat_ucast_small)
  show ?thesis
    using idx hit assms(1) by (auto simp: tlb' d some nth_list_update set_probe_def bit_simps)
qed

end
