(* ===== verification/TransCorrect.thy ===== *)
theory TransCorrect
  imports HostMips TLB
begin

text \<open>
  Correctness of the emitters against \<open>HostMips\<close>: running the words of an emitter on the register
  image has the effect of the guest instruction on the guest's registers. \<open>guest_step\<close> is that effect,
  stated with the same functions that interpret the host's words; so the theorems say that the
  translated code computes on the image what the instruction computes on registers, whatever the
  instruction computes. Where an emitter builds a mask from immediates, the theorem assumes
  the laws of \<open>mips_isa\<close>. Overflow traps are not represented on either side.
\<close>

section \<open>The interface of the host, on a reference implementation\<close>

definition ref_isa :: Host_ISA where
  "ref_isa = \<lparr>isa_R = (\<lambda>op sa func a b c.
       if op = 0 \<and> sa = 0 \<and> func = 36 then a AND b
       else if op = 0 \<and> sa = 0 \<and> func = 37 then a OR b
       else if op = 0 \<and> sa = 0 \<and> func = 45 then a + b
       else if op = 0 \<and> sa = 0 \<and> func = 47 then a - b
       else 0),
     isa_S = (\<lambda>rs sa func b.
       if rs = 0 \<and> func = 60 then push_bit (unat sa + 32) b
       else if rs = 0 \<and> func = 62 then drop_bit (unat sa + 32) b
       else if rs = 0 \<and> sa = 0 \<and> func = 63 then sext32 (drop_bit 32 b)
       else if rs = 0 \<and> func = 56 then push_bit (unat sa) b
       else if rs = 0 \<and> func = 58 then drop_bit (unat sa) b
       else 0),
     isa_X = (\<lambda>op rd sa func a.
       if op = 31 \<and> func = 3 then take_bit (unat rd + 1) (drop_bit (unat sa) a) else 0),
     isa_B = (\<lambda>op rd sa func a b. b),
     isa_I = (\<lambda>op imm v.
       if op = 15 then sext32 (push_bit 16 (ucast imm))
       else if op = 8 \<or> op = 9 then sext32 (v + sext16 imm)
       else if op = 24 \<or> op = 25 then v + sext16 imm
       else if op = 12 then v AND ucast imm
       else if op = 13 then v OR ucast imm
       else if op = 14 then v XOR ucast imm
       else 0),
     isa_T = (\<lambda>op rt a.
       if op = 1 then bit a 63 = even rt
       else if op = 6 \<or> op = 22 then a = 0 \<or> bit a 63
       else if op = 7 \<or> op = 23 then a \<noteq> 0 \<and> \<not> bit a 63
       else if op = 50 then \<not> bit a (unat rt)
       else if op = 54 then \<not> bit a (unat rt + 32)
       else if op = 58 then bit a (unat rt)
       else bit a (unat rt + 32)),
     isa_RA = (\<lambda>i. of_nat (4 * i))\<rparr>"

interpretation ref: mips_isa ref_isa
  by unfold_locales (simp_all add: ref_isa_def)

section \<open>The effect of an instruction on the guest's registers\<close>

definition guest :: "Host \<Rightarrow> nat \<Rightarrow> u64" where
  "guest h r = cell h (gpr_cell r)"

definition dest_reg :: "IInfo \<Rightarrow> nat" where
  "dest_reg p =
     (let op = ucast (opcode p); func = ucast (R_func p) in
      if immediate_op op then unat (I_rt p)
      else if three_op op func \<or> shift_op op func then unat (R_rd p)
      else unat (R_rt p))"

definition guest_value :: "Host_ISA \<Rightarrow> IInfo \<Rightarrow> (nat \<Rightarrow> u64) \<Rightarrow> u64" where
  "guest_value M p g =
     (let op = ucast (opcode p); rs = ucast (R_rs p); rd = ucast (R_rd p); sa = ucast (R_shft p); func = ucast (R_func p) in
      if immediate_op op then isa_I M op (ucast (I_imm p)) (g (unat (I_rs p)))
      else if three_op op func
      then isa_R M op sa func (g (unat (R_rs p))) (g (unat (R_rt p))) (g (unat (R_rd p)))
      else if shift_op op func then isa_S M rs sa func (g (unat (R_rt p)))
      else if extract_op op func then isa_X M op rd sa func (g (unat (R_rs p)))
      else isa_B M op rd sa func (g (unat (R_rs p))) (g (unat (R_rt p))))"

text \<open>The instructions the simulation covers.\<close>

definition arith_ins :: "u32 \<Rightarrow> bool" where
  "arith_ins w \<longleftrightarrow>
     (let op = EXTBITS w 26 31; func = EXTBITS w 0 5 in
      immediate_op op \<or> three_op op func \<or> shift_op op func \<or> extract_op op func \<or> insert_op op func)"

lemma gpr_cell_eq [simp]: "gpr_cell r = gpr_cell s \<longleftrightarrow> r = s"
  by (simp add: gpr_cell_def)

lemma field_up [simp]:
  "(ucast (ucast (EXTBITS w 26 31) :: 6 word) :: u32) = EXTBITS w 26 31"
  "(ucast (ucast (EXTBITS w 0 5) :: 6 word) :: u32) = EXTBITS w 0 5"
  "(ucast (ucast (EXTBITS w 21 25) :: 5 word) :: u32) = EXTBITS w 21 25"
  "(ucast (ucast (EXTBITS w 16 20) :: 5 word) :: u32) = EXTBITS w 16 20"
  "(ucast (ucast (EXTBITS w 11 15) :: 5 word) :: u32) = EXTBITS w 11 15"
  "(ucast (ucast (EXTBITS w 6 10) :: 5 word) :: u32) = EXTBITS w 6 10"
  "(ucast (ucast (EXTBITS w 0 15) :: u16) :: u32) = EXTBITS w 0 15"
  by (rule word32_eqI; simp add: bitblast bit_simps EXTBITS_bit)+

section \<open>Which emitter an instruction reaches\<close>

lemma find_three:
  "three_op (EXTBITS w 26 31) (EXTBITS w 0 5) \<Longrightarrow> findInstrCase (IInfo_of w) D pc = Inr (unprev_R (IInfo_of w))"
proof -
  assume cl: "three_op (EXTBITS w 26 31) (EXTBITS w 0 5)"
  then have t: "getType (ucast (EXTBITS w 26 31)) = RTYPE" by (auto simp: three_op_def getType_def)
  show ?thesis using cl
    by (auto simp: three_op_def find_entry opcode_entry Opcode_0_def Opcode_28_def table_call_def length_tables
        R_fields [OF t] opcode0_0to5_bits_def opcode28_0to5_bits_def special_defs special2_defs)
qed

lemma find_shift:
  "shift_op (EXTBITS w 26 31) (EXTBITS w 0 5) \<Longrightarrow> EXTBITS w 11 15 \<noteq> 0 \<Longrightarrow>
    findInstrCase (IInfo_of w) D pc = Inr (shift_R (IInfo_of w))"
proof -
  assume cl: "shift_op (EXTBITS w 26 31) (EXTBITS w 0 5)" and rd: "EXTBITS w 11 15 \<noteq> 0"
  then have t: "getType (ucast (EXTBITS w 26 31)) = RTYPE" by (auto simp: shift_op_def getType_def)
  have "w \<noteq> 0" "(ucast (EXTBITS w 11 15) :: 5 word) \<noteq> 0"
    using rd field_up(5) [of w] by (auto simp: EXTBITS_def)
  then show ?thesis using cl
    by (auto simp: shift_op_def find_entry opcode_entry Opcode_0_def table_call_def length_tables
        R_fields [OF t] opcode0_0to5_bits_def special_defs)
qed

lemma find_extract:
  "extract_op (EXTBITS w 26 31) (EXTBITS w 0 5) \<Longrightarrow>
    findInstrCase (IInfo_of w) D pc = Inr (ext_R (IInfo_of w))"
proof -
  assume cl: "extract_op (EXTBITS w 26 31) (EXTBITS w 0 5)"
  then have t: "getType (ucast (EXTBITS w 26 31)) = RTYPE" by (auto simp: extract_op_def getType_def)
  have "seqi_snei = ext_R" by (rule ext) (simp add: seqi_snei_def ext_R_def)
  then show ?thesis using cl
    by (auto simp: extract_op_def find_entry opcode_entry Opcode_28_def Opcode_31_def table_call_def length_tables
        R_fields [OF t] opcode28_0to5_bits_def opcode31_0to5_bits_def special2_defs special3_defs)
qed

lemma find_insert:
  "insert_op (EXTBITS w 26 31) (EXTBITS w 0 5) \<Longrightarrow>
    findInstrCase (IInfo_of w) D pc = Inr (ins_R (IInfo_of w))"
proof -
  assume cl: "insert_op (EXTBITS w 26 31) (EXTBITS w 0 5)"
  then have t: "getType (ucast (EXTBITS w 26 31)) = RTYPE" by (auto simp: insert_op_def getType_def)
  show ?thesis using cl
    by (auto simp: insert_op_def find_entry opcode_entry Opcode_28_def Opcode_31_def table_call_def length_tables
        R_fields [OF t] opcode28_0to5_bits_def opcode31_0to5_bits_def special2_defs special3_defs)
qed

lemma find_immediate:
  "immediate_op (EXTBITS w 26 31) \<Longrightarrow> findInstrCase (IInfo_of w) D pc = Inr (unprev_I (IInfo_of w))"
  by (auto simp: immediate_op_def find_entry opcode_funs_array_def opcode_defs)

section \<open>Running the emitters\<close>

lemma run_unprev_R:
  "three_op (ucast (opcode p)) (ucast (R_func p)) \<Longrightarrow> R_rd p \<noteq> 0 \<Longrightarrow> \<exists>h'. run M (unprev_R p) h = Some h' \<and>
     cell h' = (cell h)(gpr_cell (unat (R_rd p)) := isa_R M (ucast (opcode p)) (ucast (R_shft p)) (ucast (R_func p))
        (guest h (unat (R_rs p))) (guest h (unat (R_rt p))) (guest h (unat (R_rd p))))"
  by (simp add: unprev_R_def Let_def emitted guest_def word_unat_eq_iff)

lemma run_shift_R:
  "shift_op (ucast (opcode p)) (ucast (R_func p)) \<Longrightarrow> \<exists>h'. run M (shift_R p) h = Some h' \<and>
     cell h' = (cell h)(gpr_cell (unat (R_rd p)) := isa_S M (ucast (R_rs p)) (ucast (R_shft p)) (ucast (R_func p))
        (guest h (unat (R_rt p))))"
  by (simp add: shift_R_def Let_def emitted guest_def)

lemma run_ext_R:
  "extract_op (ucast (opcode p)) (ucast (R_func p)) \<Longrightarrow> \<exists>h'. run M (ext_R p) h = Some h' \<and>
     cell h' = (cell h)(gpr_cell (unat (R_rt p)) := isa_X M (ucast (opcode p)) (ucast (R_rd p)) (ucast (R_shft p)) (ucast (R_func p))
        (guest h (unat (R_rs p))))"
  by (simp add: ext_R_def Let_def emitted guest_def)

lemma run_ins_R:
  "insert_op (ucast (opcode p)) (ucast (R_func p)) \<Longrightarrow> \<exists>h'. run M (ins_R p) h = Some h' \<and>
     cell h' = (cell h)(gpr_cell (unat (R_rt p)) := isa_B M (ucast (opcode p)) (ucast (R_rd p)) (ucast (R_shft p)) (ucast (R_func p))
        (guest h (unat (R_rs p))) (guest h (unat (R_rt p))))"
  by (simp add: ins_R_def Let_def emitted guest_def)

lemma run_unprev_I:
  assumes "mips_isa M" "immediate_op (ucast (opcode p))"
  shows "\<exists>h'. run M (unprev_I p) h = Some h' \<and>
     cell h' = (cell h)(gpr_cell (unat (I_rt p)) := isa_I M (ucast (opcode p)) (ucast (I_imm p)) (guest h (unat (I_rs p))))"
proof (cases "opcode p = 15")
  case True
  then show ?thesis
    using assms(2) by (simp add: unprev_I_def Let_def emitted guest_def mips_isa.lui [OF assms(1)])
next
  case False
  then show ?thesis
    using assms(2) by (simp add: unprev_I_def Let_def emitted guest_def)
qed

text \<open>
  \<open>guest_step\<close> is the effect on the guest's registers of an instruction of the covered kinds. The
  all-zero word is the no-operation; any other instruction with destination zero is left out, because
  the emitters do not protect register zero.
\<close>

definition covered :: "u32 \<Rightarrow> bool" where
  "covered w \<longleftrightarrow> arith_ins w \<and> (w = 0 \<or> dest_reg (IInfo_of w) \<noteq> 0)"

definition guest_step :: "Host_ISA \<Rightarrow> u32 \<Rightarrow> (nat \<Rightarrow> u64) \<Rightarrow> nat \<Rightarrow> u64" where
  "guest_step M w g =
     (if w = 0 then g else g(dest_reg (IInfo_of w) := guest_value M (IInfo_of w) g))"

lemma run_arith:
  fixes w :: u32
  assumes "mips_isa M" "arith_ins w" "dest_reg (IInfo_of w) \<noteq> 0"
  shows "\<exists>ws h'. findInstrCase (IInfo_of w) None pc = Inr ws \<and> run M ws h = Some h'
    \<and> cell h' = (cell h)(gpr_cell (dest_reg (IInfo_of w)) := guest_value M (IInfo_of w) (guest h))"
proof -
  let ?op = "EXTBITS w 26 31" and ?f = "EXTBITS w 0 5"
  have R: "getType (ucast ?op) = RTYPE" if "three_op ?op ?f \<or> shift_op ?op ?f \<or> extract_op ?op ?f \<or> insert_op ?op ?f"
    using that by (auto simp: op_classes getType_def)
  have notI: "\<not> immediate_op ?op" if "three_op ?op ?f \<or> shift_op ?op ?f \<or> extract_op ?op ?f \<or> insert_op ?op ?f"
    using op_class_other [OF that] by simp
  consider "immediate_op ?op" | "three_op ?op ?f" | "shift_op ?op ?f" | "extract_op ?op ?f" | "insert_op ?op ?f"
    using assms(2) by (auto simp: arith_ins_def Let_def)
  then show ?thesis
  proof cases
    case 1
    then show ?thesis
      using run_unprev_I [OF assms(1), of "IInfo_of w" h] find_immediate [OF 1]
      by (simp add: dest_reg_def guest_value_def Let_def)
  next
    case 2
    have t: "getType (ucast ?op) = RTYPE" "\<not> immediate_op ?op" using R notI 2 by auto
    have "R_rd (IInfo_of w) \<noteq> 0"
      using assms(3) 2 t by (simp add: dest_reg_def Let_def R_fields [OF t(1)] word_unat_eq_iff)
    then show ?thesis
      using run_unprev_R [of "IInfo_of w" M h] find_three [OF 2] 2 t
      by (simp add: dest_reg_def guest_value_def Let_def R_fields [OF t(1)])
  next
    case 3
    have t: "getType (ucast ?op) = RTYPE" "\<not> immediate_op ?op" using R notI 3 by auto
    have "EXTBITS w 11 15 \<noteq> 0"
      using assms(3) 3 t by (auto simp: dest_reg_def Let_def R_fields [OF t(1)])
    then show ?thesis
      using run_shift_R [of "IInfo_of w" M h] find_shift [OF 3] 3 t class_disjoint(1) [OF 3]
      by (simp add: dest_reg_def guest_value_def Let_def R_fields [OF t(1)])
  next
    case 4
    have t: "getType (ucast ?op) = RTYPE" "\<not> immediate_op ?op" using R notI 4 by auto
    then show ?thesis
      using run_ext_R [of "IInfo_of w" M h] find_extract [OF 4] 4 class_disjoint(2) [OF 4]
      by (simp add: dest_reg_def guest_value_def Let_def R_fields [OF t(1)])
  next
    case 5
    have t: "getType (ucast ?op) = RTYPE" "\<not> immediate_op ?op" using R notI 5 by auto
    then show ?thesis
      using run_ins_R [of "IInfo_of w" M h] find_insert [OF 5] 5 class_disjoint(3) [OF 5]
      by (simp add: dest_reg_def guest_value_def Let_def R_fields [OF t(1)])
  qed
qed

lemma dest_reg_less: "dest_reg p < 32"
  by (simp add: dest_reg_def Let_def field_less)

lemma find_nop: "findInstrCase (IInfo_of 0) None pc = Inr [0]"
proof -
  have f: "EXTBITS (0 :: u32) 26 31 = 0" "EXTBITS (0 :: u32) 0 5 = 0" by (simp_all add: EXTBITS_def)
  have t: "getType (ucast (EXTBITS (0 :: u32) 26 31)) = RTYPE" by (simp add: f getType_def)
  show ?thesis
    by (simp add: find_entry f opcode_entry Opcode_0_def table_call_def length_tables R_fields [OF t]
        opcode0_0to5_bits_def special_defs nop_def)
qed

lemma run_covered:
  assumes "mips_isa M" "covered w"
  shows "\<exists>ws h'. findInstrCase (IInfo_of w) None pc = Inr ws \<and> run M ws h = Some h'
    \<and> guest h' = guest_step M w (guest h) \<and> (\<forall>k. (\<forall>r < 32. k \<noteq> gpr_cell r) \<longrightarrow> cell h' k = cell h k)"
proof (cases "w = 0")
  case True
  then show ?thesis by (simp add: find_nop guest_step_def)
next
  case False
  obtain ws h' where "findInstrCase (IInfo_of w) None pc = Inr ws" "run M ws h = Some h'"
    and c: "cell h' = (cell h)(gpr_cell (dest_reg (IInfo_of w)) := guest_value M (IInfo_of w) (guest h))"
    using run_arith [OF assms(1), of w pc h] assms(2) False by (auto simp: covered_def)
  moreover have "guest h' = guest_step M w (guest h)"
    using False by (intro ext) (simp add: c guest_def guest_step_def)
  moreover have "\<forall>k. (\<forall>r < 32. k \<noteq> gpr_cell r) \<longrightarrow> cell h' k = cell h k"
    using dest_reg_less [of "IInfo_of w"] by (simp add: c)
  ultimately show ?thesis by blast
qed

text \<open>An instruction to evaluate the properties at, \<^verbatim>\<open>daddu\<close> of registers 3 and 2 into register 2.\<close>

lemma daddu_word:
  shows "covered 0x0062102d" "guest_step ref_isa 0x0062102d g = g(2 := g 3 + g 2)"
proof -
  let ?w = "0x0062102d :: u32"
  have f: "EXTBITS ?w 26 31 = 0" "EXTBITS ?w 0 5 = 45" "EXTBITS ?w 21 25 = 3" "EXTBITS ?w 16 20 = 2"
    "EXTBITS ?w 11 15 = 2" "EXTBITS ?w 6 10 = 0"
    by (simp_all add: EXTBITS_def)
  have t: "getType (ucast (EXTBITS ?w 26 31)) = RTYPE" by (simp add: f getType_def)
  have cl: "arith_ins ?w" "\<not> immediate_op 0" "three_op 0 45" by (simp_all add: arith_ins_def f op_classes immediate_op_def)
  have d: "dest_reg (IInfo_of ?w) = 2" "guest_value ref_isa (IInfo_of ?w) g = g 3 + g 2"
    by (simp_all add: dest_reg_def guest_value_def f cl R_fields [OF t] ref_isa_def)
  show "covered ?w" using cl(1) d(1) by (simp add: covered_def)
  show "guest_step ref_isa ?w g = g(2 := g 3 + g 2)" by (simp add: guest_step_def d)
qed

section \<open>Properties\<close>

text \<open>
  Property C12. The translator simulates the guest's arithmetic. For a no-operation and for an immediate,
  three-register, shift, extract or insert instruction with a destination other than register zero, decoding
  produces host words that run to completion, leave in the image the registers the instruction
  computes from the guest's registers, and change no other cell of the image.
\<close>

theorem arithmetic_simulation:
  assumes "mips_isa M" "covered w"
  shows "\<exists>ws h'. findInstrCase (IInfo_of w) None pc = Inr ws \<and> run M ws h = Some h'
    \<and> guest h' = guest_step M w (guest h) \<and> (\<forall>k. (\<forall>r < 32. k \<noteq> gpr_cell r) \<longrightarrow> cell h' k = cell h k)"
  by (rule run_covered [OF assms])

theorem arithmetic_simulation_witness:
  "\<exists>ws h'. findInstrCase (IInfo_of 0x0062102d) None 0 = Inr ws
     \<and> run ref_isa ws \<lparr>hreg = (\<lambda>_. 0), cell = (\<lambda>k. if k = 224 then 5 else if k = 216 then 7 else 0)\<rparr> = Some h'
     \<and> guest h' 2 = 12"
proof -
  let ?h = "\<lparr>hreg = (\<lambda>_. 0), cell = (\<lambda>k. if k = 224 then 5 else if k = 216 then 7 else (0::u64))\<rparr>"
  have "guest_step ref_isa 0x0062102d (guest ?h) 2 = 12" by (simp add: daddu_word(2) guest_def gpr_cell_def)
  then show ?thesis
    using arithmetic_simulation [OF ref.mips_isa_axioms daddu_word(1), of 0 ?h] by fastforce
qed

text \<open>
  Register zero is not protected. An immediate instruction whose destination is
  register zero, which has no effect on the processor, is translated to code that stores its
  result in the cell of register zero, from where later instructions read it.
\<close>

lemma zero_register_overwritten:
  fixes w :: u32
  assumes "mips_isa M" "immediate_op (EXTBITS w 26 31)" "EXTBITS w 16 20 = 0"
  shows "\<exists>ws h'. findInstrCase (IInfo_of w) None pc = Inr ws \<and> run M ws h = Some h'
    \<and> guest h' 0 = isa_I M (EXTBITS w 26 31) (EXTBITS w 0 15) (guest h (unat (EXTBITS w 21 25)))"
proof -
  have t: "getType (ucast (EXTBITS w 26 31)) = ITYPE" using assms(2) by (auto simp: immediate_op_def getType_def)
  show ?thesis
    using run_unprev_I [OF assms(1), of "IInfo_of w" h] find_immediate [OF assms(2)] assms(2,3)
    by (auto simp: I_fields [OF t] guest_def)
qed

text \<open>
  The third product register of the multiplier and the Index register of the
  coprocessor share a cell: \<^verbatim>\<open>mtp2\<close> puts its operand in Index and \<^verbatim>\<open>mtm0\<close>, \<^verbatim>\<open>mtm1\<close> and \<^verbatim>\<open>mtm2\<close> clear it.
\<close>

lemma product_register_is_index:
  "(\<exists>h'. run M (mtp2 p) h = Some h' \<and> cell h' (cp0_cell H2_CP0_INDEX 0) = guest h (unat (R_rs p)))
   \<and> (\<forall>emit \<in> {mtm0, mtm1, mtm2}. \<exists>h'. run M (emit p) h = Some h' \<and> cell h' (cp0_cell H2_CP0_INDEX 0) = 0)"
  by (simp add: mtp2_def mtm0_def mtm1_def mtm2_def Let_def emitted guest_def cp0_cell_def)

end
