(* ===== verification/TransControl.thy ===== *)
theory TransControl
  imports TransCorrect
begin

text \<open>
  Control transfers, privilege checks and masked coprocessor writes of the emitted code: where a
  branch and a jump leave the program counter, when a privileged instruction hands over to the
  hypervisor, what a load asks it for, and which bits a coprocessor register receives.
\<close>

section \<open>Executing branches and jumps\<close>

declare exec.simps(2) [simp del]

lemma sext32_bit [bit_simps]: "bit (sext32 x) n \<longleftrightarrow> n < 64 \<and> bit x (if n < 32 then n else 31)"
  by (auto simp: sext32_def bit_simps)

text \<open>A branch with an empty delay slot. Only a linking branch changes the registers.\<close>

lemma exec_branch:
  assumes "branch_op w"
  shows "exec M (Suc n) (pre @ w # 0 # post) (length pre) h = exec M n (pre @ w # 0 # post)
    (length pre + (if branch_test M w (get_hreg h (unat (EXTBITS w 21 25))) (get_hreg h (unat (EXTBITS w 16 20)))
       then 1 + unat (EXTBITS w 0 15) else 2))
    (if link_op w then set_hreg 31 (isa_RA M (length pre + 2)) h else h)"
proof -
  have n: "(pre @ w # 0 # post) ! length pre = w" "(pre @ w # 0 # post) ! (length pre + 1) = 0"
    by (simp_all add: nth_append)
  have "EXTBITS w 26 31 \<noteq> 0" using assms by (auto simp: branch_op_def)
  then show ?thesis
    unfolding exec.simps Let_def n using assms by simp
qed

lemma equality_branch [simp]:
  "EXTBITS w 26 31 \<in> {4, 5} \<Longrightarrow> branch_op w \<and> \<not> link_op w \<and> (branch_test M w a b \<longleftrightarrow> (a = b) = (EXTBITS w 26 31 = 4))"
  by (auto simp: branch_op_def link_op_def branch_test_def)

lemma exec_jump:
  assumes "EXTBITS w 26 31 = 0" "EXTBITS w 0 5 = 8 \<or> EXTBITS w 0 5 = 9" "step M s h = Some h'"
  shows "exec M (Suc n) (pre @ w # s # post) (length pre) h
    = Some (if EXTBITS w 0 5 = 8 then Exit else Call (length pre + 2), h')"
proof -
  have n: "(pre @ w # s # post) ! length pre = w" "(pre @ w # s # post) ! (length pre + 1) = s"
    by (simp_all add: nth_append)
  show ?thesis
    unfolding exec.simps Let_def n using assms by auto
qed

text \<open>The end of a translated block: straight-line words, a jump through a register, its empty delay slot.\<close>

lemma exec_leave:
  assumes "run M ws h = Some h'" "length ws < n"
  shows "exec M n (pre @ ws @ encodeR 0 24 0 0 0 8 # 0 # post) (length pre) h = Some (Exit, h')"
proof -
  obtain k where n: "n = length ws + Suc k" using assms(2) less_iff_Suc_add by auto
  have "exec M n (pre @ ws @ encodeR 0 24 0 0 0 8 # 0 # post) (length pre) h
    = exec M (Suc k) ((pre @ ws) @ encodeR 0 24 0 0 0 8 # 0 # post) (length (pre @ ws)) h'"
    using exec_run [OF assms(1), of "Suc k" pre "encodeR 0 24 0 0 0 8 # 0 # post"] by (simp add: n)
  also have "\<dots> = Some (Exit, h')"
    by (subst exec_jump [where h' = h']) simp_all
  finally show ?thesis .
qed

section \<open>Branches\<close>

text \<open>The displacement the emitted code adds, and the one of the architecture.\<close>

definition path_offset :: "u16 \<Rightarrow> u64" where
  "path_offset imm = sext16 (0xffff AND (ucast imm * 4 + 4))"

lemma exec_BranchPath:
  assumes "mips_isa M" "4 < n"
  shows "\<exists>h'. exec M n (pre @ BranchPath (ucast imm)) (length pre + (if taken then 6 else 0)) h = Some (Exit, h')
    \<and> cell h' = (cell h)(0 := cell h 184 + (if taken then path_offset imm else 8))"
proof (cases taken)
  case True
  have mask_twice: "(0xffff AND x) AND 0xffff = 0xffff AND x" for x :: u32
    by (rule word32_eqI) (simp add: bitblast bit_simps)
  let ?pre = "pre @ take 6 (BranchPath (ucast imm))" and ?ws = "take 4 (drop 6 (BranchPath (ucast imm)))"
  have split: "pre @ BranchPath (ucast imm) = ?pre @ ?ws @ encodeR 0 24 0 0 0 8 # 0 # []"
    "length pre + 6 = length ?pre" "length ?ws = 4"
    by (simp_all add: BranchPath_def Let_def)
  have "\<exists>h'. run M ?ws h = Some h' \<and> cell h' = (cell h)(0 := cell h 184 + path_offset imm)"
    by (simp add: BranchPath_def Let_def emitted immediate_op_def mips_isa.daddi [OF assms(1)] path_offset_def mask_twice)
  then obtain h' where h': "run M ?ws h = Some h'" "cell h' = (cell h)(0 := cell h 184 + path_offset imm)"
    by blast
  have "exec M n (pre @ BranchPath (ucast imm)) (length pre + 6) h = Some (Exit, h')"
    unfolding split(1,2) by (rule exec_leave [OF h'(1)]) (use assms(2) split(3) in simp)
  then show ?thesis using True h'(2) by simp
next
  case False
  let ?ws = "take 4 (BranchPath (ucast imm))"
  have split: "pre @ BranchPath (ucast imm) = pre @ ?ws @ encodeR 0 24 0 0 0 8 # 0 # drop 6 (BranchPath (ucast imm))"
    "length ?ws = 4"
    by (simp_all add: BranchPath_def Let_def)
  have "\<exists>h'. run M ?ws h = Some h' \<and> cell h' = (cell h)(0 := cell h 184 + 8)"
    by (simp add: BranchPath_def Let_def emitted immediate_op_def mips_isa.daddi [OF assms(1)] sext16_def)
  then obtain h' where h': "run M ?ws h = Some h'" "cell h' = (cell h)(0 := cell h 184 + 8)"
    by blast
  have "exec M n (pre @ BranchPath (ucast imm)) (length pre + 0) h = Some (Exit, h')"
    unfolding split(1) add_0_right by (rule exec_leave [OF h'(1)]) (use assms(2) split(2) in simp)
  then show ?thesis using False h'(2) by simp
qed

definition taken :: "u32 \<Rightarrow> (nat \<Rightarrow> u64) \<Rightarrow> bool" where
  "taken w g \<longleftrightarrow>
     (g (unat (EXTBITS w 21 25)) = g (unat (EXTBITS w 16 20))) = (EXTBITS w 26 31 = 4)"

lemma field_cell [simp]:
  "unat ((200 + 8 * EXTBITS w 21 25) AND 0xffff) = gpr_cell (unat (EXTBITS w 21 25))"
  "unat ((200 + 8 * EXTBITS w 16 20) AND 0xffff) = gpr_cell (unat (EXTBITS w 16 20))"
  using gpr_offset [of "ucast (EXTBITS w 21 25)"] gpr_offset [of "ucast (EXTBITS w 16 20)"]
    unat_field_up(1) [of "ucast (EXTBITS w 21 25)"] unat_field_up(1) [of "ucast (EXTBITS w 16 20)"]
  by simp_all

text \<open>
  \<open>leaves M cs h g t\<close>: the words \<open>cs\<close>, wherever they are in a block, run to the block's exit from \<open>h\<close>, with the
  registers \<open>g\<close>, the program counter \<open>t\<close> and the request for the next block set.
\<close>

definition leaves :: "Host_ISA \<Rightarrow> u32 list \<Rightarrow> Host \<Rightarrow> (nat \<Rightarrow> u64) \<Rightarrow> u64 \<Rightarrow> bool" where
  "leaves M cs h g t \<longleftrightarrow> (\<forall>pre. \<exists>h'. exec M (length cs) (pre @ cs) (length pre) h = Some (Exit, h')
     \<and> guest h' = g \<and> cell h' 104 = 1 \<and> cell h' 0 = t)"

lemma leaves_prefix:
  assumes "run M ws h = Some h1" "leaves M cs h1 g t"
  shows "leaves M (ws @ cs) h g t"
  unfolding leaves_def
proof
  fix pre :: "u32 list"
  obtain h' where "exec M (length cs) ((pre @ ws) @ cs) (length (pre @ ws)) h1 = Some (Exit, h')"
      "guest h' = g" "cell h' 104 = 1" "cell h' 0 = t"
    using assms(2) unfolding leaves_def by blast
  then show "\<exists>h'. exec M (length (ws @ cs)) (pre @ ws @ cs) (length pre) h = Some (Exit, h')
      \<and> guest h' = g \<and> cell h' 104 = 1 \<and> cell h' 0 = t"
    using exec_run [OF assms(1), of "length cs" pre cs] by simp
qed

lemma leaves_exit:
  assumes "run M ws h = Some h'" "guest h' = g" "cell h' 104 = 1" "cell h' 0 = t"
  shows "leaves M (ws @ [encodeR 0 24 0 0 0 8, 0]) h g t"
  unfolding leaves_def
proof
  fix pre :: "u32 list"
  have "exec M (length (ws @ [encodeR 0 24 0 0 0 8, 0])) (pre @ ws @ [encodeR 0 24 0 0 0 8, 0]) (length pre) h
      = Some (Exit, h')"
    by (rule exec_leave [OF assms(1)]) simp
  then show "\<exists>h'. exec M (length (ws @ [encodeR 0 24 0 0 0 8, 0])) (pre @ ws @ [encodeR 0 24 0 0 0 8, 0]) (length pre) h
      = Some (Exit, h') \<and> guest h' = g \<and> cell h' 104 = 1 \<and> cell h' 0 = t"
    using assms(2,3,4) by blast
qed

lemma guest_low: "(\<And>k. 200 \<le> k \<Longrightarrow> cell h' k = cell h k) \<Longrightarrow> guest h' = guest h"
  by (intro ext) (simp add: guest_def gpr_cell_def)

text \<open>A test of the registers in \<open>h\<close>, its empty delay slot and the words after it, \<open>k\<close> of which a taken branch skips.\<close>

lemma leaves_test:
  assumes w: "branch_op w" "unat (EXTBITS w 0 15) = Suc k"
    and test: "branch_test M w (get_hreg h (unat (EXTBITS w 21 25))) (get_hreg h (unat (EXTBITS w 16 20))) = yes"
    and post: "\<And>pre h1. cell h1 = cell h \<Longrightarrow>
      \<exists>h'. exec M (Suc (length post)) (pre @ post) (length pre + (if yes then k else 0)) h1 = Some (Exit, h')
        \<and> guest h' = g \<and> cell h' 104 = 1 \<and> cell h' 0 = t"
  shows "leaves M (w # 0 # post) h g t"
  unfolding leaves_def
proof
  fix pre :: "u32 list"
  let ?h = "if link_op w then set_hreg 31 (isa_RA M (length pre + 2)) h else h"
  have pos: "length pre + (if yes then 1 + unat (EXTBITS w 0 15) else 2) = length (pre @ [w, 0]) + (if yes then k else 0)"
    using w(2) by simp
  have "exec M (length (w # 0 # post)) (pre @ w # 0 # post) (length pre) h
      = exec M (Suc (Suc (length post))) (pre @ w # 0 # post) (length pre) h" by simp
  also have "\<dots> = exec M (Suc (length post)) (pre @ w # 0 # post) (length (pre @ [w, 0]) + (if yes then k else 0)) ?h"
    unfolding exec_branch [OF w(1)] test pos ..
  also have "\<dots> = exec M (Suc (length post)) ((pre @ [w, 0]) @ post) (length (pre @ [w, 0]) + (if yes then k else 0)) ?h"
    by (simp only: append_assoc append_Cons append_Nil)
  finally show "\<exists>h'. exec M (length (w # 0 # post)) (pre @ w # 0 # post) (length pre) h = Some (Exit, h')
      \<and> guest h' = g \<and> cell h' 104 = 1 \<and> cell h' 0 = t"
    using post [of ?h "pre @ [w, 0]"] by (simp only: cell_set_hreg if_distrib [of cell] if_cancel simp_thms)
qed

lemma leaves_BranchPath:
  assumes M: "mips_isa M" and w: "branch_op w" "EXTBITS w 0 15 = 7"
    and test: "branch_test M w (get_hreg h (unat (EXTBITS w 21 25))) (get_hreg h (unat (EXTBITS w 16 20))) = yes"
    and mark: "cell h 104 = 1"
  shows "leaves M (w # 0 # BranchPath (ucast imm)) h (guest h) (cell h 184 + (if yes then path_offset imm else 8))"
proof (rule leaves_test [where k = 6, OF w(1) _ test])
  show "unat (EXTBITS w 0 15) = Suc 6" by (simp add: w(2))
  fix pre and h1 :: Host
  let ?B = "BranchPath (ucast imm)"
  assume c: "cell h1 = cell h"
  have n: "length ?B = 12" by (simp add: BranchPath_def Let_def)
  obtain h' where h': "exec M (Suc (length ?B)) (pre @ ?B) (length pre + (if yes then 6 else 0)) h1 = Some (Exit, h')"
      "cell h' = (cell h)(0 := cell h 184 + (if yes then path_offset imm else 8))"
    using exec_BranchPath [OF M, of "Suc (length ?B)" pre imm yes h1] n c by auto
  moreover have "guest h' = guest h" by (rule guest_low) (simp add: h'(2))
  ultimately show "\<exists>h'. exec M (Suc (length ?B)) (pre @ ?B) (length pre + (if yes then 6 else 0)) h1 = Some (Exit, h')
      \<and> guest h' = guest h \<and> cell h' 104 = 1 \<and> cell h' 0 = cell h 184 + (if yes then path_offset imm else 8)"
    using mark by auto
qed

definition slot_code :: "Host_ISA \<Rightarrow> u32 list \<Rightarrow> ((nat \<Rightarrow> u64) \<Rightarrow> nat \<Rightarrow> u64) \<Rightarrow> bool" where
  "slot_code M ds G \<longleftrightarrow> (\<forall>h. \<exists>h'. run M ds h = Some h' \<and> guest h' = G (guest h) \<and> (\<forall>k < 200. cell h' k = cell h k))"

lemma leaves_bne_beq:
  assumes M: "mips_isa M" and op: "EXTBITS b 26 31 = 4 \<or> EXTBITS b 26 31 = 5" and ds: "slot_code M ds G"
  shows "leaves M (bne_beq (IInfo_of b) ds) h (G (guest h))
    (cell h 184 + (if taken b (guest h) then path_offset (ucast (EXTBITS b 0 15)) else 8))"
proof -
  have t: "getType (ucast (EXTBITS b 26 31)) = ITYPE" using op by (auto simp: getType_def)
  let ?s1 = "ucast (EXTBITS b 21 25) :: 5 word" and ?s2 = "ucast (EXTBITS b 16 20) :: 5 word"
  let ?w = "encodeI (EXTBITS b 26 31) 15 14 7" and ?imm = "ucast (EXTBITS b 0 15) :: u16"
  let ?A = "[encodeI 55 12 15 (200 + 8 * ucast ?s1), encodeI 55 12 14 (200 + 8 * ucast ?s2), encodeI 63 12 15 72, encodeI 63 12 14 80]"
  let ?B = "[encodeI 9 0 13 1, encodeI 63 12 13 104, encodeI 55 12 15 72, encodeI 55 12 14 80]"
  have all: "bne_beq (IInfo_of b) ds = (?A @ ds @ ?B) @ ?w # 0 # BranchPath (ucast ?imm)"
    by (simp add: bne_beq_def Let_def I_fields [OF t])
  have opm: "EXTBITS b 26 31 AND 0x3f = EXTBITS b 26 31" using op by auto
  obtain h1 where h1: "run M ?A h = Some h1" "\<forall>k. k \<noteq> 72 \<and> k \<noteq> 80 \<longrightarrow> cell h1 k = cell h k"
      "cell h1 72 = guest h (unat ?s1)" "cell h1 80 = guest h (unat ?s2)"
    by (simp add: emitted guest_def)
  then have g1: "guest h1 = guest h" by (intro guest_low) simp
  obtain h2 where h2: "run M ds h1 = Some h2" "guest h2 = G (guest h)" "\<And>k. k < 200 \<Longrightarrow> cell h2 k = cell h1 k"
    using ds g1 unfolding slot_code_def by metis
  obtain h3 where h3: "run M ?B h2 = Some h3" "cell h3 = (cell h2)(104 := 1)"
      "get_hreg h3 15 = guest h (unat ?s1)" "get_hreg h3 14 = guest h (unat ?s2)"
    using h2(3) h1(3,4) by (simp add: emitted immediate_op_def mips_isa.addiu [OF M] sext16_def sext32_def)
  have r: "run M (?A @ ds @ ?B) h = Some h3" by (simp only: run_append h1(1) h2(1) h3(1) option.case)
  have "guest h3 = G (guest h)" "cell h3 184 = cell h 184"
    using h2(2,3) h1(2) guest_low [of h3 h2] by (simp_all add: h3(2))
  moreover have "leaves M (?w # 0 # BranchPath (ucast ?imm)) h3 (guest h3)
      (cell h3 184 + (if taken b (guest h) then path_offset ?imm else 8))"
    by (rule leaves_BranchPath [OF M]) (use op opm h3 in \<open>auto simp: taken_def\<close>)
  ultimately show ?thesis unfolding all using leaves_prefix [OF r] by simp
qed

lemma find_bne_beq:
  assumes "EXTBITS b 26 31 = 4 \<or> EXTBITS b 26 31 = 5" "findInstrCase (IInfo_of d) None 0 = Inr ds"
  shows "findInstrCase (IInfo_of b) (Some (IInfo_of d)) pc = Inr (bne_beq (IInfo_of b) ds)"
proof -
  have "dispatch (IInfo_of d) (Inl NullDeref) 0 = Inr ds"
    using assms(2) by (simp add: findInstrCase_def)
  then show ?thesis
    using assms(1) by (auto simp: find_entry opcode_funs_array_def Opcode_4_def Opcode_5_def)
qed

lemma slot_covered:
  assumes "mips_isa M" "covered d"
  shows "\<exists>ds. findInstrCase (IInfo_of d) None 0 = Inr ds \<and> slot_code M ds (guest_step M d)"
proof -
  obtain ds where ds: "findInstrCase (IInfo_of d) None 0 = Inr ds"
    using run_covered [OF assms] by blast
  have "\<exists>h'. run M ds h = Some h' \<and> guest h' = guest_step M d (guest h) \<and> (\<forall>k < 200. cell h' k = cell h k)" for h
    using run_covered [OF assms, of 0 h] ds by (fastforce simp: gpr_cell_def)
  then show ?thesis using ds unfolding slot_code_def by blast
qed

text \<open>
  The translation of a conditional branch. For \<^verbatim>\<open>beq\<close> and \<^verbatim>\<open>bne\<close> with a delay slot of the
  covered kinds, decoding produces words that leave the block with the request for the next block
  set, the delay slot's effect on the registers done in either case, and the program counter at the
  branch target when the condition holds of the registers before the delay slot, and after the
  delay slot otherwise.
\<close>

lemma branch_simulation:
  assumes "mips_isa M" "EXTBITS b 26 31 = 4 \<or> EXTBITS b 26 31 = 5" "covered d"
  shows "\<exists>ws h'. findInstrCase (IInfo_of b) (Some (IInfo_of d)) pc = Inr ws
    \<and> exec M (length ws) ws 0 h = Some (Exit, h')
    \<and> guest h' = guest_step M d (guest h) \<and> cell h' 104 = 1
    \<and> cell h' 0 = cell h 184 + (if taken b (guest h) then path_offset (ucast (EXTBITS b 0 15)) else 8)"
proof -
  obtain ds where ds: "findInstrCase (IInfo_of d) None 0 = Inr ds" "slot_code M ds (guest_step M d)"
    using slot_covered [OF assms(1,3)] by blast
  show ?thesis
    using leaves_bne_beq [OF assms(1,2) ds(2), of h, unfolded leaves_def, THEN spec [of _ "[]"]]
      find_bne_beq [OF assms(2) ds(1)] by auto
qed

lemma path_offset_exact:
  "path_offset imm = 4 * scast imm + 4 \<longleftrightarrow> - 8193 \<le> sint imm \<and> sint imm \<le> 8190"
proof -
  let ?k = "sint imm"
  have k: "- 32768 \<le> ?k" "?k < 32768" using sint_greater_eq [of imm] sint_less [of imm] by simp_all
  have "(ucast (0xffff AND (ucast imm * 4 + 4) :: u32) :: u16) = ucast (ucast imm * 4 + 4 :: u32)"
    by (rule word16_eqI) (simp add: bitblast bit_simps)
  also have "\<dots> = imm * 4 + 4"
    by transfer (simp add: take_bit_eq_mod mod_mod_cancel, metis mod_add_left_eq mod_mult_left_eq)
  also have "\<dots> = word_of_int (4 * ?k + 4)" by simp
  finally have imm: "(ucast (0xffff AND (ucast imm * 4 + 4) :: u32) :: u16) = word_of_int (4 * ?k + 4)" .
  have p: "path_offset imm = word_of_int (signed_take_bit 15 (4 * ?k + 4))"
    unfolding path_offset_def sext16_def imm scast_eq sint_sbintrunc' by simp
  have q: "4 * scast imm + 4 = (word_of_int (4 * ?k + 4) :: u64)"
    unfolding scast_eq by simp
  have eq: "(word_of_int x :: u64) = word_of_int y \<longleftrightarrow> x = y"
    if "- (2 ^ 20) \<le> x" "x < 2 ^ 20" "- (2 ^ 20) \<le> y" "y < 2 ^ 20" for x y :: int
  proof -
    have "sint (word_of_int x :: u64) = x" "sint (word_of_int y :: u64) = y"
      using that by (simp_all add: sint_sbintrunc' signed_take_bit_int_eq_self)
    then show ?thesis by metis
  qed
  have b: "- (2 ^ 20) \<le> signed_take_bit 15 (4 * ?k + 4)" "signed_take_bit 15 (4 * ?k + 4) < 2 ^ 20"
    using signed_take_bit_int_greater_eq_minus_exp [of 15 "4 * ?k + 4"] signed_take_bit_int_less_exp [of 15 "4 * ?k + 4"]
    by simp_all
  have "path_offset imm = 4 * scast imm + 4 \<longleftrightarrow> signed_take_bit 15 (4 * ?k + 4) = 4 * ?k + 4"
    unfolding p q by (rule eq) (use k b in simp_all)
  also have "\<dots> \<longleftrightarrow> - 8193 \<le> ?k \<and> ?k \<le> 8190"
    by (auto simp: signed_take_bit_int_eq_self_iff)
  finally show ?thesis .
qed

text \<open>
  Where a taken branch goes. The path for a taken branch leaves the block with a program
  counter; it is the architecture's target, four times the signed offset beyond the delay slot, exactly
  for offsets from -8193 to 8190. A longer offset wraps in 16 bits.
\<close>

lemma branch_range:
  assumes "mips_isa M"
  shows "\<exists>h'. exec M 12 (BranchPath (ucast (imm :: u16))) 6 h = Some (Exit, h')
    \<and> (cell h' 0 = cell h 184 + (4 * scast imm + 4) \<longleftrightarrow> - 8193 \<le> sint imm \<and> sint imm \<le> 8190)"
proof -
  obtain h' where "exec M 12 ([] @ BranchPath (ucast imm)) (length ([] :: u32 list) + 6) h = Some (Exit, h')"
    "cell h' 0 = cell h 184 + path_offset imm"
    using exec_BranchPath [OF assms, of 12 "[]" imm True h] by auto
  then show ?thesis using path_offset_exact [of imm] by simp
qed

section \<open>Jumps\<close>

lemma find_j:
  assumes "EXTBITS b 26 31 = 2" "findInstrCase (IInfo_of d) None 0 = Inr ds"
  shows "findInstrCase (IInfo_of b) (Some (IInfo_of d)) pc = Inr (j_ins (IInfo_of b) pc ds)"
proof -
  have "dispatch (IInfo_of d) (Inl NullDeref) 0 = Inr ds"
    using assms(2) by (simp add: findInstrCase_def)
  then show ?thesis
    using assms(1) by (auto simp: find_entry opcode_funs_array_def Opcode_2_def)
qed

lemma j_field_up: "(ucast (ucast (EXTBITS b 0 25) :: 26 word) :: u64) = ucast (EXTBITS b 0 25)"
  by (rule word64_eqI) (simp add: bitblast bit_simps EXTBITS_bit)

lemma lui_ori:
  "sext32 (push_bit 16 (ucast ((ucast (drop_bit 16 a) :: u32) AND 0xffff))) OR
     ucast ((ucast (a AND 0xffff) :: u32) AND 0xffff) = sext32 a"
  by (rule word64_eqI) (simp add: bitblast bit_simps)

lemma region_target:
  "sext32 ((scast (u :: u32) AND 0xf0000000) OR push_bit 2 (ucast (EXTBITS b 0 25)))
    = (scast u AND NOT 0x0fffffff) OR push_bit 2 (ucast (EXTBITS b 0 25))"
  by (rule word64_eqI) (simp add: bitblast bit_simps EXTBITS_bit)

lemma run_goto:
  assumes "mips_isa M"
  shows "\<exists>h'. run M [encodeI 15 0 13 (ucast (drop_bit 16 a)), encodeI 13 13 13 (ucast (a AND 0xffff)), encodeI 63 12 13 0,
      encodeI 9 0 13 1, encodeI 63 12 13 104, encodeI 55 12 24 88] h = Some h'
    \<and> cell h' = (cell h)(0 := sext32 a, 104 := 1)"
proof -
  have "sext32 (sext16 1) = 1" by (simp add: sext16_def sext32_def)
  then show ?thesis
    by (simp add: emitted immediate_op_def mips_isa.lui [OF assms] mips_isa.ori [OF assms] lui_ori mips_isa.addiu [OF assms])
qed

lemma leaves_j:
  assumes "mips_isa M" "EXTBITS b 26 31 = 2 \<or> EXTBITS b 26 31 = 3" "slot_code M ds G"
  shows "leaves M (j_ins (IInfo_of b) pc ds) h (G (guest h))
    (sext32 ((pc AND 0xf0000000) OR push_bit 2 (ucast (EXTBITS b 0 25))))"
proof -
  have t: "getType (ucast (EXTBITS b 26 31)) = JTYPE" using assms(2) by (auto simp: getType_def)
  let ?a = "(pc AND 0xf0000000) OR push_bit 2 (ucast (EXTBITS b 0 25))"
  let ?B = "[encodeI 15 0 13 (ucast (drop_bit 16 ?a)), encodeI 13 13 13 (ucast (?a AND 0xffff)), encodeI 63 12 13 0,
      encodeI 9 0 13 1, encodeI 63 12 13 104, encodeI 55 12 24 88]"
  have all: "j_ins (IInfo_of b) pc ds = (ds @ ?B) @ [encodeR 0 24 0 0 0 8, 0]"
    by (simp add: j_ins_def Let_def J_fields [OF t] j_field_up)
  obtain h1 where h1: "run M ds h = Some h1" "guest h1 = G (guest h)"
    using assms(3) unfolding slot_code_def by blast
  obtain h2 where h2: "run M ?B h1 = Some h2" "cell h2 = (cell h1)(0 := sext32 ?a, 104 := 1)"
    using run_goto [OF assms(1), of ?a h1] by blast
  have "run M (ds @ ?B) h = Some h2" by (simp only: run_append h1(1) h2(1) option.case)
  moreover have "guest h2 = G (guest h)" "cell h2 104 = 1" "cell h2 0 = sext32 ?a"
    using h1(2) guest_low [of h2 h1] by (simp_all add: h2(2))
  ultimately show ?thesis unfolding all by (rule leaves_exit)
qed

text \<open>
  The translation of a jump. With a delay slot of the covered kinds, decoding \<^verbatim>\<open>j\<close> produces words
  that do the delay slot's effect and leave the block for the 256 MB region of the block's end, taken
  from its low 32 bits only. So the target is the architecture's when the block's address is a
  sign-extended 32-bit address.
\<close>

lemma jump_simulation:
  assumes "mips_isa M" "EXTBITS b 26 31 = 2" "covered d"
  shows "\<exists>ws h'. findInstrCase (IInfo_of b) (Some (IInfo_of d)) pc = Inr ws
    \<and> exec M (length ws) ws 0 h = Some (Exit, h')
    \<and> guest h' = guest_step M d (guest h) \<and> cell h' 104 = 1
    \<and> cell h' 0 = sext32 ((pc AND 0xf0000000) OR push_bit 2 (ucast (EXTBITS b 0 25)))
    \<and> (pc = sext32 pc \<longrightarrow> cell h' 0 = (pc AND NOT 0x0fffffff) OR push_bit 2 (ucast (EXTBITS b 0 25)))"
proof -
  obtain ds where ds: "findInstrCase (IInfo_of d) None 0 = Inr ds" "slot_code M ds (guest_step M d)"
    using slot_covered [OF assms(1,3)] by blast
  have "sext32 ((pc AND 0xf0000000) OR push_bit 2 (ucast (EXTBITS b 0 25)))
      = (pc AND NOT 0x0fffffff) OR push_bit 2 (ucast (EXTBITS b 0 25))" if "pc = sext32 pc"
    using region_target [of "ucast pc" b] that by (simp add: sext32_def)
  then show ?thesis
    using leaves_j [OF assms(1) disjI1 [OF assms(2)] ds(2), of pc h, unfolded leaves_def, THEN spec [of _ "[]"]]
      find_j [OF assms(2) ds(1), of pc] by auto
qed

section \<open>Requests to the hypervisor\<close>

text \<open>The coprocessor's registers lie in the image, eight cells to a register number.\<close>

definition cp0_image :: "CP0_IPE \<Rightarrow> Host \<Rightarrow> bool" where
  "cp0_image c h \<longleftrightarrow> (\<forall>r < 32. \<forall>sel < 8. cell h (cp0_cell r sel) = cp0_read c r sel)"

lemma exec_call:
  assumes "run M ws h = Some h'" "length ws < n"
  shows "exec M n (pre @ ws @ encodeR 0 24 0 25 0 9 # 0 # post) (length pre) h
    = Some (Call (length pre + length ws + 2), h')"
proof -
  obtain k where n: "n = length ws + Suc k" using assms(2) less_iff_Suc_add by auto
  have "exec M n (pre @ ws @ encodeR 0 24 0 25 0 9 # 0 # post) (length pre) h
    = exec M (Suc k) ((pre @ ws) @ encodeR 0 24 0 25 0 9 # 0 # post) (length (pre @ ws)) h'"
    using exec_run [OF assms(1), of "Suc k" pre "encodeR 0 24 0 25 0 9 # 0 # post"] by (simp add: n)
  also have "\<dots> = Some (Call (length (pre @ ws) + 2), h')"
    by (subst exec_jump [where h' = h']) simp_all
  finally show ?thesis by simp
qed

lemma xor_zero: "(x :: u64) XOR y = 0 \<longleftrightarrow> x = y"
  by (simp add: bit_eq_iff bit_xor_iff)

lemma exec_privilege:
  assumes "mips_isa M"
  shows "\<exists>h'. exec M (Suc (9 + n)) (checking_previlige @ rest) 0 h =
      (if cell h (cp0_cell 12 0) AND 0x1e = 0x10 then Some (Call 10, h') else exec M (6 + n) (checking_previlige @ rest) 10 h')
    \<and> cell h' = (if cell h (cp0_cell 12 0) AND 0x1e = 0x10 then (cell h)(104 := 14) else cell h)"
proof -
  let ?A = "take 3 checking_previlige" and ?w = "encodeI 5 0 14 6" and ?B = "take 3 (drop 5 checking_previlige)"
  let ?user = "cell h (cp0_cell 12 0) AND 0x1e = 0x10"
  have split: "checking_previlige @ rest = ?A @ ?w # 0 # (?B @ encodeR 0 24 0 25 0 9 # 0 # rest)"
    "checking_previlige @ rest = (?A @ [?w, 0]) @ ?B @ encodeR 0 24 0 25 0 9 # 0 # rest"
    "length ?A = 3" "length ?B = 3"
    by (simp_all add: checking_previlige_def)
  obtain h1 where h1: "run M ?A h = Some h1" "cell h1 = cell h"
      "get_hreg h1 14 = (cell h (cp0_cell 12 0) AND 0x1e) XOR 0x10"
    by (simp add: checking_previlige_def emitted immediate_op_def mips_isa.andi [OF assms] mips_isa.xori [OF assms] cp0_cell_def)
  then have z: "get_hreg h1 14 = 0 \<longleftrightarrow> ?user" by (simp add: xor_zero)
  have "exec M (Suc (9 + n)) (checking_previlige @ rest) 0 h
      = exec M (Suc (6 + n)) (checking_previlige @ rest) (length ?A) h1"
    using exec_run [OF h1(1), of "Suc (6 + n)" "[]" "drop 3 checking_previlige @ rest"] split(3)
    by (simp add: checking_previlige_def)
  also have "\<dots> = exec M (6 + n) (checking_previlige @ rest) (length ?A + (if ?user then 2 else 7)) h1"
    unfolding split(1) by (subst exec_branch) (use z in auto)
  finally have e: "exec M (Suc (9 + n)) (checking_previlige @ rest) 0 h
      = exec M (6 + n) (checking_previlige @ rest) (if ?user then 5 else 10) h1"
    using split(3) by simp
  show ?thesis
  proof (cases ?user)
    case True
    obtain h2 where h2: "run M ?B h1 = Some h2" "cell h2 = (cell h)(104 := 14)"
      using h1(2) by (simp add: checking_previlige_def emitted immediate_op_def mips_isa.addiu [OF assms] sext16_def sext32_def)
    have "exec M (6 + n) (checking_previlige @ rest) (length (?A @ [?w, 0])) h1
        = Some (Call (length (?A @ [?w, 0]) + length ?B + 2), h2)"
      unfolding split(2) by (rule exec_call [OF h2(1)]) (use split(4) in simp)
    then show ?thesis using e True h2(2) split(3,4) by simp
  next
    case False
    then show ?thesis using e h1(2) by auto
  qed
qed

lemma user_mode_bits: "get_KSU c = USER_MODE \<longleftrightarrow> cp0_read c H2_CP0_STATUS 0 AND 0x1e = 0x10"
proof -
  define x where "x = cp0_read c 12 0"
  have x: "reg c (slot 12 0) = x" by (simp add: x_def cp0_read_def)
  have ksu: "drop_bit 3 ((ucast x :: u32) AND 24) = 2 \<longleftrightarrow> bit x 4 \<and> \<not> bit x 3"
    by (simp add: word32_eq_iff bitblast bit_simps)
  have lvl: "(ucast x :: u32) AND 6 = 0 \<longleftrightarrow> \<not> bit x 1 \<and> \<not> bit x 2"
    by (simp add: word32_eq_iff bitblast bit_simps) blast
  have all: "x AND 0x1e = 0x10 \<longleftrightarrow> bit x 4 \<and> \<not> bit x 3 \<and> \<not> bit x 1 \<and> \<not> bit x 2"
    by (simp add: word64_eq_iff bitblast bit_simps) blast
  show ?thesis
    unfolding get_KSU_def x x_def [symmetric] Let_def all using ksu lvl by auto
qed

section \<open>Return from exception\<close>

lemma exec_eret:
  assumes "mips_isa M"
  shows "\<exists>h'. exec M 26 eret 0 h = Some (Exit, h')
    \<and> cell h' 0 = cell h (cp0_cell (if bit (cell h (cp0_cell 12 0)) 2 then 30 else 14) 0)
    \<and> cell h' (cp0_cell 12 0) = cell h (cp0_cell 12 0) AND NOT (if bit (cell h (cp0_cell 12 0)) 2 then 0x10004 else 0x10002)"
proof -
  let ?s = "cell h (cp0_cell 12 0)"
  let ?A = "take 2 eret" and ?w = "encodeI 4 14 0 12" and ?B = "take 9 (drop 4 eret)" and ?C = "take 9 (drop 15 eret)"
  have split: "eret = ?A @ ?w # 0 # drop 4 eret" "eret = (?A @ [?w, 0]) @ ?B @ encodeR 0 24 0 0 0 8 # 0 # drop 15 eret"
    "eret = take 15 eret @ ?C @ encodeR 0 24 0 0 0 8 # 0 # []"
    "length ?A = 2" "length ?B = 9" "length ?C = 9" "length (take 15 eret) = 15"
    by (simp_all add: eret_def)
  have flag: "?s AND 4 = 0 \<longleftrightarrow> \<not> bit ?s 2" by (simp add: word64_eq_iff bitblast bit_simps)
  obtain h1 where h1: "run M ?A h = Some h1" "cell h1 = cell h" "get_hreg h1 14 = ?s AND 4" "get_hreg h1 13 = ?s"
    by (simp add: eret_def emitted immediate_op_def mips_isa.andi [OF assms] cp0_cell_def)
  have "exec M 26 eret 0 h = exec M (Suc 23) (?A @ ?w # 0 # drop 4 eret) (length ?A) h1"
    using exec_run [OF h1(1), of 24 "[]" "?w # 0 # drop 4 eret"] split(1,4) by simp
  also have "\<dots> = exec M 23 eret (if bit ?s 2 then 4 else 15) h1"
    by (subst exec_branch) (use split(1) [symmetric] split(4) h1(3) flag in auto)
  finally have e: "exec M 26 eret 0 h = exec M 23 eret (if bit ?s 2 then 4 else 15) h1" .
  show ?thesis
  proof (cases "bit ?s 2")
    case True
    obtain h2 where h2: "run M ?B h1 = Some h2" "cell h2 0 = cell h (cp0_cell 30 0)" "cell h2 (cp0_cell 12 0) = ?s AND NOT 0x10004"
      using h1 and.commute [of "- 65541" ?s] by (simp add: eret_def emitted immediate_op_def op_classes mips_isa.lui [OF assms] mips_isa.addi [OF assms]
        mips_isa.and_R [OF assms] mips_isa.addiu [OF assms] cp0_cell_def sext16_def sext32_def)
    have "exec M 23 eret (length (?A @ [?w, 0])) h1 = Some (Exit, h2)"
      by (subst split(2)) (rule exec_leave [OF h2(1)], use split(5) in simp)
    then show ?thesis using e True h2 split(4) by simp
  next
    case False
    obtain h2 where h2: "run M ?C h1 = Some h2" "cell h2 0 = cell h (cp0_cell 14 0)" "cell h2 (cp0_cell 12 0) = ?s AND NOT 0x10002"
      using h1 and.commute [of "- 65539" ?s] by (simp add: eret_def emitted immediate_op_def op_classes mips_isa.lui [OF assms] mips_isa.addi [OF assms]
        mips_isa.and_R [OF assms] mips_isa.addiu [OF assms] cp0_cell_def sext16_def sext32_def)
    have "exec M 23 eret (length (take 15 eret)) h1 = Some (Exit, h2)"
      by (subst split(3)) (rule exec_leave [OF h2(1)], use split(6) in simp)
    then show ?thesis using e False h2 split(7) by simp
  qed
qed

text \<open>Instructions without a check: the wait is handed over and the cache operation does nothing, in every mode.\<close>

lemma exec_wait:
  assumes "mips_isa M"
  shows "\<exists>h'. exec M 4 wait 0 h = Some (Call 5, h') \<and> cell h' = (cell h)(104 := 8)"
proof -
  have split: "wait = [] @ take 3 wait @ encodeR 0 24 0 25 0 9 # 0 # []" by (simp add: wait_def)
  obtain h1 where h1: "run M (take 3 wait) h = Some h1" "cell h1 = (cell h)(104 := 8)"
    by (simp add: wait_def emitted immediate_op_def mips_isa.addiu [OF assms] sext16_def sext32_def)
  have "exec M 4 wait (length ([] :: u32 list)) h = Some (Call (length ([] :: u32 list) + length (take 3 wait) + 2), h1)"
    by (subst split) (rule exec_call [OF h1(1)], simp add: wait_def)
  then show ?thesis using h1(2) by (simp add: wait_def)
qed

lemma exec_cache: "exec M 2 cache 0 h = Some (End, h)"
  unfolding numeral_2_eq_2 by (simp add: cache_def exec.simps branch_op_def Let_def EXTBITS_def)

text \<open>
  Property C35. Which instructions are privileged. The code for \<^verbatim>\<open>mfc0\<close>, \<^verbatim>\<open>mtc0\<close>, the TLB instructions, \<^verbatim>\<open>di\<close> and \<^verbatim>\<open>ei\<close>
  first hands over to the hypervisor with a reserved-instruction request when the core runs in user
  mode; in kernel mode, and in supervisor mode too, it goes on to the instruction's own words with the image
  unchanged. The code for \<^verbatim>\<open>eret\<close>, \<^verbatim>\<open>wait\<close> and \<^verbatim>\<open>cache\<close> makes no check: in every mode, user mode included, the first leaves the block
  with the return done, the second hands over with the request of a wait, and the third is done.
\<close>

theorem privilege_check:
  assumes "mips_isa M" "cp0_image c h" "ws \<in> {mfc0 p, mtc0 p, tlbr, tlbwi, tlbwr, tlbp, di p, ei p}"
  shows "(\<exists>h'. exec M (Suc (9 + n)) ws 0 h =
      (if get_KSU c = USER_MODE then Some (Call 10, h') else exec M (6 + n) ws 10 h')
    \<and> cell h' = (if get_KSU c = USER_MODE then (cell h)(104 := 14) else cell h))
    \<and> (\<exists>h'. exec M 26 eret 0 h = Some (Exit, h')
        \<and> cell h' 0 = cp0_read c (if bit (cp0_read c H2_CP0_STATUS 0) 2 then H2_CP0_ERROREPC else H2_CP0_EPC) 0)
    \<and> (\<exists>h'. exec M 4 wait 0 h = Some (Call 5, h') \<and> cell h' = (cell h)(104 := 8))
    \<and> exec M 2 cache 0 h = Some (End, h)"
proof -
  have "\<exists>rest. ws = checking_previlige @ rest"
    using assms(3) by (auto simp: mfc0_def mtc0_def tlbr_def tlbwi_def tlbwr_def tlbp_def di_def ei_def Let_def)
  then obtain rest where rest: "ws = checking_previlige @ rest" by blast
  have cells: "cell h (cp0_cell 12 0) = cp0_read c 12 0" "cell h (cp0_cell 30 0) = cp0_read c 30 0" "cell h (cp0_cell 14 0) = cp0_read c 14 0"
    using assms(2) by (simp_all add: cp0_image_def)
  have check: "\<exists>h'. exec M (Suc (9 + n)) ws 0 h =
      (if get_KSU c = USER_MODE then Some (Call 10, h') else exec M (6 + n) ws 10 h')
    \<and> cell h' = (if get_KSU c = USER_MODE then (cell h)(104 := 14) else cell h)"
    using exec_privilege [OF assms(1), of n rest h] cells(1) rest by (auto simp: user_mode_bits)
  have ret: "\<exists>h'. exec M 26 eret 0 h = Some (Exit, h') \<and> cell h' 0 = cp0_read c (if bit (cp0_read c 12 0) 2 then 30 else 14) 0"
    using exec_eret [OF assms(1), of h] cells by (cases "bit (cp0_read c 12 0) 2") auto
  show ?thesis using check ret exec_wait [OF assms(1), of h] exec_cache [of M h] by (intro conjI)
qed

theorem privilege_check_witness:
  "\<exists>h'. exec ref_isa 10 tlbwi 0 \<lparr>hreg = (\<lambda>_. 0), cell = (\<lambda>_. 0x10)\<rparr> = Some (Call 10, h') \<and> cell h' 104 = 14"
proof -
  have "cp0_image \<lparr>reg = (\<lambda>_. 0x10)\<rparr> \<lparr>hreg = (\<lambda>_. 0), cell = (\<lambda>_. 0x10)\<rparr>"
    by (simp add: cp0_image_def cp0_read_def)
  moreover have "get_KSU \<lparr>reg = (\<lambda>_. 0x10)\<rparr> = 2" by (simp add: user_mode_bits cp0_read_def)
  ultimately show ?thesis
    using privilege_check [OF ref.mips_isa_axioms, of "\<lparr>reg = (\<lambda>_. 0x10)\<rparr>" _ tlbwi undefined 0, THEN conjunct1] by fastforce
qed

text \<open>
  Property C21. A delivery and the return from it. When the code of \<^verbatim>\<open>eret\<close> runs on the registers an exception
  left, with the core outside exception and error level before, execution resumes at the interrupted
  address and Status has its value of before the exception, without its reserved bits and, whatever
  the guest had put there, without bit 16.
\<close>

theorem exception_eret_roundtrip:
  assumes "mips_isa M" "Perform_Exception c gva t ctx = Inr (pc, d)" "cp0_image d h"
    and "cp0_read c H2_CP0_STATUS 0 AND 6 = 0"
  shows "\<exists>h'. exec M 26 eret 0 h = Some (Exit, h') \<and> cell h' 0 = PC ctx
    \<and> cell h' (cp0_cell H2_CP0_STATUS 0) = cp0_read c H2_CP0_STATUS 0 AND 0x50f8ffff AND NOT 0x10000"
proof -
  define x where "x = cp0_read c 12 0"
  have b: "\<not> bit x 1" "\<not> bit x 2"
    using assms(4) by (simp_all add: x_def word64_eq_iff bitblast bit_simps)
  have exl: "x AND 2 = 0" using b by (simp add: word64_eq_iff bitblast bit_simps)
  have s: "cp0_read d 12 0 = (x OR 2) AND 0x50f8ffff" "cp0_read d 14 0 = PC ctx"
    using Perform_Exception_regs(2,4) [OF assms(2)] exl by (simp_all add: x_def)
  have erl: "\<not> bit (cp0_read d 12 0) 2" using b by (simp add: s bit_simps)
  have "((x OR 2) AND 0x50f8ffff) AND NOT 0x10002 = x AND 0x50f8ffff AND NOT 0x10000"
    using b by (intro word64_eqI) (simp add: bitblast bit_simps)
  then show ?thesis
    using exec_eret [OF assms(1), of h] erl s assms(3) by (simp add: cp0_image_def x_def)
qed

theorem exception_eret_roundtrip_witness:
  "\<exists>d h' h. cp0_image d h \<and> cp0_read d H2_CP0_EPC 0 = 0x100
     \<and> exec ref_isa 26 eret 0 h = Some (Exit, h') \<and> cell h' 0 = 0x100"
proof -
  let ?ctx = "\<lparr>loadstore = 0, PC = 0x100, writeData = 0\<rparr>"
  obtain pc d where ok: "Perform_Exception \<lparr>reg = (\<lambda>_. 0)\<rparr> 0 SCALL ?ctx = Inr (pc, d)"
    using Perform_Exception_total [of "\<lparr>reg = (\<lambda>_. 0)\<rparr>" 0 SCALL ?ctx] by (auto simp: cause_ExcCode_def)
  let ?h = "\<lparr>hreg = (\<lambda>_. 0), cell = (\<lambda>k. reg d ((k - 520) div 8))\<rparr>"
  have im: "cp0_image d ?h"
    by (simp add: cp0_image_def cp0_cell_def cp0_read_def slot_def mult.commute)
  have "cp0_read d 14 0 = 0x100" using Perform_Exception_regs(4) [OF ok] by (simp add: cp0_read_def)
  then show ?thesis
    using exception_eret_roundtrip [OF ref.mips_isa_axioms ok im] im by (auto simp: cp0_read_def)
qed

section \<open>Loads and stores\<close>

text \<open>The cells a hand-over for a memory access leaves; \<open>st\<close> tells a store from a load.\<close>

definition request_cells :: "bool \<Rightarrow> IInfo \<Rightarrow> Host \<Rightarrow> nat \<Rightarrow> u64" where
  "request_cells st p h =
     (let f = (cell h)(168 := (if st then 1 else 0), 104 := 0,
                       56 := guest h (unat (I_rs p)) + sext16 (ucast (I_imm p))) in
      if st then f(64 := guest h (unat (I_rt p))) else f)"

lemma sext16_small [simp]: "sext16 0 = 0" "sext16 1 = 1" "sext32 0 = 0" "sext32 1 = 1"
  by (simp_all add: sext16_def sext32_def)

text \<open>
  What a load or store asks of the hypervisor: its code hands over with the virtual address, base register plus sign-extended
  offset, the kind of access and, for a store, the data.
\<close>

lemma run_request:
  assumes "mips_isa M"
  shows "\<exists>h'. run M (take (if st then 10 else 8) (common_in_LS p (if st then 1 else 0))) h = Some h' \<and> cell h' = request_cells st p h"
  by (simp add: common_in_LS_def Let_def emitted immediate_op_def guest_def request_cells_def fun_upd_twist
      mips_isa.addiu [OF assms] mips_isa.daddiu [OF assms] gpr_cell_def)

section \<open>Masked writes\<close>

text \<open>A mask built from two immediates, the second of which the host sign-extends.\<close>

text \<open>
  What \<^verbatim>\<open>mtc0\<close> stores. The emitters load a mask with \<^verbatim>\<open>lui\<close> and \<^verbatim>\<open>addi\<close>, and the second
  immediate is negative in all but one of them, so every upper half is one less than written: Status loses
  bit 19 and admits the reserved bits 16 to 18, and Context and XContext lose bit 16, a bit of the
  page table index.
\<close>

lemma mtc0_masks:
  assumes "mips_isa M"
  shows "(\<exists>h'. run M (mtc0_status (ucast r) 12 0) h = Some h'
        \<and> cell h' (cp0_cell H2_CP0_STATUS 0) = guest h (unat (r :: 5 word)) AND 0x50f7ffff)
    \<and> (\<exists>h'. run M (mtc0_cause (ucast r) 13 0) h = Some h'
        \<and> cell h' (cp0_cell H2_CP0_CAUSE 0) = sext32 (guest h (unat r) AND 0xfcbfff7c))
    \<and> (\<exists>h'. run M (mtc0_context (ucast r) 4 0) h = Some h'
        \<and> cell h' (cp0_cell H2_CP0_CONTEXT 0) = guest h (unat r) AND 0xfffffffffffefff0)
    \<and> (\<exists>h'. run M (mtc0_xcontext (ucast r) 20 0) h = Some h'
        \<and> cell h' (cp0_cell H2_CP0_XCONTEXT 0) = guest h (unat r) AND 0xfffffffffffefff0)
    \<and> (\<exists>h'. run M (mtc0_hwrena (ucast r) 7 0) h = Some h'
        \<and> cell h' (cp0_cell H2_CP0_HWRENA 0) = guest h (unat r) AND 0x3f)"
proof -
  note laws = mips_isa.lui [OF assms] mips_isa.addi [OF assms] mips_isa.and_R [OF assms]
    mips_isa.dsll32 [OF assms] mips_isa.dsra32 [OF assms]
  have a: "sext32 (0x50f7ffff AND drop_bit 32 (push_bit 32 x)) = x AND 0x50f7ffff" for x
    by (rule word64_eqI) (simp add: bitblast bit_simps)
  have b: "sext32 (0xfcbfff7c AND drop_bit 32 (push_bit 32 x)) = sext32 (x AND 0xfcbfff7c)" for x
    by (rule word64_eqI) (simp add: bitblast bit_simps)
  have c: "- 65552 AND x = x AND (0xfffffffffffefff0 :: u64)" for x
    by (rule word64_eqI) (simp add: bitblast bit_simps)
  have d: "sext32 (0x3f AND drop_bit 32 (push_bit 32 x)) = x AND 0x3f" for x
    by (rule word64_eqI) (simp add: bitblast bit_simps)
  note defs = mtc0_status_def mtc0_cause_def mtc0_context_def mtc0_xcontext_def mtc0_hwrena_def
  show ?thesis
    by (intro conjI)
      (simp_all add: defs emitted laws guest_def cp0_cell_def immediate_op_def op_classes sext32_def sext16_def
        a [unfolded sext32_def] b [unfolded sext32_def] c d [unfolded sext32_def])
qed

end
