(* ===== verification/BlockSim.thy ===== *)
theory BlockSim
  imports TransControl
begin

text \<open>
  A whole block against the architecture. The guest is a machine with delayed branches: an address
  of the instruction and one of the next, memory that holds the code, and the registers. The words
  that \<open>doBlockTranslation\<close> emits for a block, run on the image, do what the machine does from the block's
  first instruction to the delay slot of its branch. The control transfers are all those the
  decoder translates: \<^verbatim>\<open>j\<close>, \<^verbatim>\<open>jal\<close>, \<^verbatim>\<open>jr\<close>, \<^verbatim>\<open>jalr\<close>, the branches on two registers, on the sign of one and
  on a bit of one, the likely branches and those that link; the theorems are about the \<open>regular\<close> ones, those
  the emitted code does not translate wrongly. Like \<open>HostMips\<close>, the machine does not trap on overflow.
\<close>

section \<open>The guest's machine\<close>

text \<open>\<open>annul\<close> says that the instruction at \<open>pc_now\<close> is the delay slot of a likely branch not taken.\<close>

record Guest =
  greg :: "nat \<Rightarrow> u64"
  pc_now :: u64
  pc_next :: u64
  annul :: bool

abbreviation (input) at_pc :: "(nat \<Rightarrow> u64) \<Rightarrow> u64 \<Rightarrow> Guest" where
  "at_pc g pc \<equiv> \<lparr>greg = g, pc_now = pc, pc_next = pc + 4, annul = False\<rparr>"

definition jumps :: "u32 \<Rightarrow> bool" where
  "jumps w \<longleftrightarrow> EXTBITS w 26 31 = 2 \<or> EXTBITS w 26 31 = 3"

definition jumps_register :: "u32 \<Rightarrow> bool" where
  "jumps_register w \<longleftrightarrow> EXTBITS w 26 31 = 0 \<and> EXTBITS w 0 5 \<in> {8, 9}"

definition branches :: "u32 \<Rightarrow> bool" where
  "branches w \<longleftrightarrow> branch_op w \<and> (EXTBITS w 26 31 = 1 \<longrightarrow> EXTBITS w 16 20 \<in> {0, 1, 2, 3, 16, 17, 18, 19})"

definition control :: "u32 \<Rightarrow> bool" where
  "control w \<longleftrightarrow> jumps w \<or> jumps_register w \<or> branches w"

lemmas control_kinds = control_def jumps_def jumps_register_def branches_def branch_op_def

definition holds :: "Host_ISA \<Rightarrow> u32 \<Rightarrow> (nat \<Rightarrow> u64) \<Rightarrow> bool" where
  "holds M w g \<longleftrightarrow> branch_test M w (g (unat (EXTBITS w 21 25))) (g (unat (EXTBITS w 16 20)))"

text \<open>The registers after the control transfer, and where execution goes on after its delay slot at \<open>s\<close>.\<close>

definition linked :: "u32 \<Rightarrow> (nat \<Rightarrow> u64) \<Rightarrow> u64 \<Rightarrow> nat \<Rightarrow> u64" where
  "linked w g s =
     (if EXTBITS w 26 31 = 3 \<or> link_op w then g(31 := s + 4)
      else if EXTBITS w 26 31 = 0 \<and> EXTBITS w 0 5 = 9 then g(unat (EXTBITS w 11 15) := s + 4)
      else g)"

definition target :: "Host_ISA \<Rightarrow> u32 \<Rightarrow> (nat \<Rightarrow> u64) \<Rightarrow> u64 \<Rightarrow> u64" where
  "target M w g s =
     (if jumps w then (s AND NOT 0x0fffffff) OR push_bit 2 (ucast (EXTBITS w 0 25))
      else if jumps_register w then g (unat (EXTBITS w 21 25))
      else if holds M w g then s + 4 * scast (ucast (EXTBITS w 0 15) :: u16)
      else s + 4)"

definition guest_tick :: "Host_ISA \<Rightarrow> (u64 \<Rightarrow> u32) \<Rightarrow> Guest \<Rightarrow> Guest" where
  "guest_tick M code s =
     (let w = code (pc_now s) in
      if annul s then s\<lparr>pc_now := pc_next s, pc_next := pc_next s + 4, annul := False\<rparr>
      else if control w
      then s\<lparr>greg := linked w (greg s) (pc_next s), pc_now := pc_next s, pc_next := target M w (greg s) (pc_next s),
             annul := likely_op w \<and> \<not> holds M w (greg s)\<rparr>
      else s\<lparr>greg := guest_step M w (greg s), pc_now := pc_next s, pc_next := pc_next s + 4\<rparr>)"

text \<open>
  What the emitted code needs of a control transfer at \<open>e\<close>. A jump is right from a sign-extended 32-bit
  address whose delay slot is in the same region, a branch for a displacement that fits in 16 bits
  after it has been multiplied by four. The manual forbids an instruction that links the register
  it reads, and fixes the second register field of \<^verbatim>\<open>blez\<close> and \<^verbatim>\<open>bgtz\<close> to zero, where the emitter looks for a link. Code 1 with zero in the field of the register and 58 in the low bits is decoded as a shift, and \<^verbatim>\<open>jalr\<close>
  to register zero overwrites it.
\<close>

definition regular :: "u32 \<Rightarrow> u64 \<Rightarrow> bool" where
  "regular b e \<longleftrightarrow>
     (if jumps b then e = sext32 e \<and> (e + 4) AND NOT 0x0fffffff = e AND NOT 0x0fffffff
      else if jumps_register b
      then EXTBITS b 0 5 = 9 \<longrightarrow> EXTBITS b 11 15 \<noteq> 0 \<and> EXTBITS b 11 15 \<noteq> EXTBITS b 21 25
      else - 8193 \<le> sint (ucast (EXTBITS b 0 15) :: u16) \<and> sint (ucast (EXTBITS b 0 15) :: u16) \<le> 8190
        \<and> (link_op b \<longrightarrow> EXTBITS b 21 25 \<noteq> 31) \<and> (EXTBITS b 26 31 \<in> {6, 7, 22, 23} \<longrightarrow> EXTBITS b 16 20 = 0)
        \<and> \<not> (EXTBITS b 26 31 = 1 \<and> EXTBITS b 0 5 = 58 \<and> EXTBITS b 21 25 = 0))"

section \<open>Straight-line code\<close>

lemma covered_not_control:
  assumes "covered w"
  shows "\<not> control w" "\<not> isControlInst (IInfo_of w)"
proof -
  let ?op = "EXTBITS w 26 31" and ?f = "EXTBITS w 0 5"
  have up: "(ucast ?f :: 6 word) = y \<Longrightarrow> ?f = ucast y" for y
    using field_up(2) [of w] by metis
  consider "immediate_op ?op" | "?op = 0" "?f \<notin> {8, 9}" | "?op = 28 \<or> ?op = 31"
    using assms by (auto simp: covered_def arith_ins_def op_classes Let_def)
  then have "\<not> control w \<and> \<not> isControlInst (IInfo_of w)"
  proof cases
    case 1
    then show ?thesis
      unfolding immediate_op_def
      by (elim insertE emptyE) (simp_all add: control_kinds control_format getType_def isCntrlInstI_def)
  next
    case 2
    then show ?thesis
      using up [of 8] up [of 9] by (auto simp: control_kinds control_format getType_def isCntrlInstR_def)
  next
    case 3
    then show ?thesis
      by (elim disjE) (simp_all add: control_kinds control_format getType_def isCntrlInstR_def)
  qed
  then show "\<not> control w" "\<not> isControlInst (IInfo_of w)" by simp_all
qed

lemma guest_straight:
  assumes "\<forall>j < k. covered (code (pc + of_nat (4 * j)))"
  shows "(guest_tick M code ^^ k) (at_pc g pc) =
    at_pc (fold (guest_step M) (map (\<lambda>j. code (pc + of_nat (4 * j))) [0..<k]) g) (pc + of_nat (4 * k))"
  using assms
proof (induction k)
  case 0
  then show ?case by simp
next
  case (Suc k)
  then have "\<not> control (code (pc + of_nat (4 * k)))" by (simp add: covered_not_control)
  then show ?case
    using Suc by (simp add: guest_tick_def algebra_simps)
qed

lemma run_update_pc:
  assumes "mips_isa M"
  shows "\<exists>h'. run M update_pc h = Some h' \<and> cell h' = (cell h)(0 := cell h 0 + 4)"
  by (simp add: update_pc_def emitted immediate_op_def mips_isa.addi [OF assms] sext16_def sext32_def)

lemma run_each:
  assumes "mips_isa M" "\<forall>w \<in> set ws. covered w"
  shows "\<exists>cs h'. translate_each (map IInfo_of ws) e = Inr cs \<and> run M cs h = Some h'
    \<and> guest h' = fold (guest_step M) ws (guest h) \<and> cell h' 0 = cell h 0 + of_nat (4 * length ws)
    \<and> (\<forall>k. 0 < k \<and> k < 200 \<longrightarrow> cell h' k = cell h k)"
  using assms(2)
proof (induction ws arbitrary: h)
  case Nil
  then show ?case by simp
next
  case (Cons w ws)
  obtain v h1 where v: "findInstrCase (IInfo_of w) None e = Inr v" "run M v h = Some h1" "guest h1 = guest_step M w (guest h)"
    and c1: "\<forall>k < 200. cell h1 k = cell h k"
    using run_covered [OF assms(1), of w e h] Cons.prems by (fastforce simp: gpr_cell_def)
  obtain h2 where h2: "run M update_pc h1 = Some h2" "cell h2 = (cell h1)(0 := cell h1 0 + 4)"
    using run_update_pc [OF assms(1)] by blast
  have g2: "guest h2 = guest h1" by (rule guest_low) (simp add: h2(2))
  obtain cs h3 where cs: "translate_each (map IInfo_of ws) e = Inr cs" "run M cs h2 = Some h3"
      "guest h3 = fold (guest_step M) ws (guest h2)" "cell h3 0 = cell h2 0 + of_nat (4 * length ws)"
      "\<forall>k. 0 < k \<and> k < 200 \<longrightarrow> cell h3 k = cell h2 k"
    using Cons.IH [of h2] Cons.prems by auto
  have "run M (v @ update_pc @ cs) h = Some h3" by (simp only: run_append v(2) h2(1) cs(2) option.case)
  then show ?case
    using v(1,3) c1 h2(2) g2 cs by (simp add: algebra_simps)
qed

section \<open>The emitters of the control transfers\<close>

lemma run_link:
  assumes "mips_isa M"
  shows "\<exists>h1. run M [encodeI 55 12 13 184, encodeI 24 13 13 8, encodeI 63 12 13 (200 + 8 * ucast (d :: 5 word))] h = Some h1
    \<and> guest h1 = (guest h)(unat d := cell h 184 + 8) \<and> (\<forall>k < 200. cell h1 k = cell h k)"
proof -
  obtain h1 where h1: "run M [encodeI 55 12 13 184, encodeI 24 13 13 8, encodeI 63 12 13 (200 + 8 * ucast d)] h = Some h1"
      "cell h1 = (cell h)(gpr_cell (unat d) := cell h 184 + 8)"
    by (simp add: emitted immediate_op_def mips_isa.daddi [OF assms] sext16_def)
  have "guest h1 = (guest h)(unat d := cell h 184 + 8)" by (intro ext) (simp add: guest_def h1(2))
  moreover have "\<forall>k < 200. cell h1 k = cell h k" by (simp add: h1(2) gpr_cell_def)
  ultimately show ?thesis using h1(1) by blast
qed

lemma And_Link_is: "And_Link = [encodeI 55 12 13 184, encodeI 24 13 13 8, encodeI 63 12 13 (200 + 8 * ucast (31 :: 5 word))]"
  by (simp add: And_Link_def)

lemma leaves_jr:
  assumes "mips_isa M" "EXTBITS b 26 31 = 0" "slot_code M ds G"
  shows "leaves M (jr (IInfo_of b) ds) h (G (guest h)) (guest h (unat (EXTBITS b 21 25)))"
proof -
  have t: "getType (ucast (EXTBITS b 26 31)) = RTYPE" using assms(2) by (simp add: getType_def)
  let ?s = "ucast (EXTBITS b 21 25) :: 5 word"
  let ?A = "[encodeI 55 12 13 (200 + 8 * ucast ?s), encodeI 63 12 13 72]"
  let ?B = "[encodeI 55 12 13 72, encodeI 63 12 13 0, encodeI 9 0 13 1, encodeI 63 12 13 104, encodeI 55 12 24 88]"
  have all: "jr (IInfo_of b) ds = (?A @ ds @ ?B) @ [encodeR 0 24 0 0 0 8, 0]"
    by (simp add: jr_def Let_def R_fields [OF t])
  obtain h1 where h1: "run M ?A h = Some h1" "cell h1 = (cell h)(72 := guest h (unat (EXTBITS b 21 25)))"
    by (simp add: emitted guest_def)
  have "guest h1 = guest h" by (rule guest_low) (simp add: h1(2))
  then obtain h2 where h2: "run M ds h1 = Some h2" "guest h2 = G (guest h)" "\<forall>k < 200. cell h2 k = cell h1 k"
    using assms(3) unfolding slot_code_def by metis
  obtain h3 where h3: "run M ?B h2 = Some h3" "cell h3 = (cell h2)(0 := cell h2 72, 104 := 1)"
    by (simp add: emitted immediate_op_def mips_isa.addiu [OF assms(1)] sext16_def sext32_def)
  have "run M (?A @ ds @ ?B) h = Some h3" by (simp only: run_append h1(1) h2(1) h3(1) option.case)
  moreover have "guest h3 = G (guest h)" using h2(2) guest_low [of h3 h2] by (simp add: h3(2))
  moreover have "cell h3 104 = 1" "cell h3 0 = guest h (unat (EXTBITS b 21 25))"
    using h2(3) by (simp_all add: h3(2) h1(2))
  ultimately show ?thesis unfolding all by (rule leaves_exit)
qed

lemma leaves_bbit:
  assumes M: "mips_isa M" and op: "branch_op b" "EXTBITS b 26 31 \<notin> {4, 5, 20, 21}" and ds: "slot_code M ds G"
  shows "leaves M (bbit (IInfo_of b) ds) h (G (guest h))
    (cell h 184 + (if holds M b (guest h) then path_offset (ucast (EXTBITS b 0 15)) else 8))"
proof -
  have t: "getType (ucast (EXTBITS b 26 31)) = ITYPE" using op(1) by (auto simp: branch_op_def getType_def)
  let ?s = "ucast (EXTBITS b 21 25) :: 5 word" and ?imm = "ucast (EXTBITS b 0 15) :: u16"
  let ?w = "encodeI (EXTBITS b 26 31) 15 (EXTBITS b 16 20) 7"
  let ?A = "[encodeI 55 12 15 (200 + 8 * ucast ?s), encodeI 63 12 15 72]"
  let ?B = "[encodeI 9 0 13 1, encodeI 63 12 13 104, encodeI 55 12 15 72]"
  have all: "bbit (IInfo_of b) ds = (?A @ ds @ ?B) @ ?w # 0 # BranchPath (ucast ?imm)"
    by (simp add: bbit_def Let_def I_fields [OF t])
  have opm: "EXTBITS b 26 31 AND 0x3f = EXTBITS b 26 31" "EXTBITS b 16 20 AND 0x1f = EXTBITS b 16 20"
    using op(1) field_masks(2) [of "ucast (EXTBITS b 16 20)"] by (auto simp: branch_op_def)
  obtain h1 where h1: "run M ?A h = Some h1" "cell h1 = (cell h)(72 := guest h (unat (EXTBITS b 21 25)))"
    by (simp add: emitted guest_def)
  have "guest h1 = guest h" by (rule guest_low) (simp add: h1(2))
  then obtain h2 where h2: "run M ds h1 = Some h2" "guest h2 = G (guest h)" "\<forall>k < 200. cell h2 k = cell h1 k"
    using ds unfolding slot_code_def by metis
  obtain h3 where h3: "run M ?B h2 = Some h3" "cell h3 = (cell h2)(104 := 1)" "get_hreg h3 15 = guest h (unat (EXTBITS b 21 25))"
    using h2(3) h1(2) by (simp add: emitted immediate_op_def mips_isa.addiu [OF M] sext16_def sext32_def)
  have r: "run M (?A @ ds @ ?B) h = Some h3" by (simp only: run_append h1(1) h2(1) h3(1) option.case)
  have "branch_op ?w" using op(1) opm by (simp add: branch_op_def)
  moreover have "branch_test M ?w (get_hreg h3 (unat (EXTBITS ?w 21 25))) (get_hreg h3 (unat (EXTBITS ?w 16 20)))
      = holds M b (guest h)"
    using op(2) h3(3) opm by (simp add: holds_def branch_test_def)
  ultimately have "leaves M (?w # 0 # BranchPath (ucast ?imm)) h3 (guest h3)
      (cell h3 184 + (if holds M b (guest h) then path_offset ?imm else 8))"
    by (intro leaves_BranchPath [OF M]) (simp_all add: h3(2))
  moreover have "guest h3 = G (guest h)" "cell h3 184 = cell h 184"
    using h2(2,3) guest_low [of h3 h2] by (simp_all add: h3(2) h1(2))
  ultimately show ?thesis unfolding all using leaves_prefix [OF r] by simp
qed

lemma leaves_BranchPath_likely:
  assumes M: "mips_isa M" and w: "branch_op w" "EXTBITS w 0 15 = 9" and ds: "slot_code M ds G"
    and test: "branch_test M w (get_hreg h (unat (EXTBITS w 21 25))) (get_hreg h (unat (EXTBITS w 16 20))) = yes"
  shows "leaves M (w # 0 # BranchPath_likely (ucast imm) ds) h (if yes then G (guest h) else guest h)
    (cell h 184 + (if yes then path_offset imm else 8))"
proof (rule leaves_test [where k = 8, OF w(1) _ test])
  show "unat (EXTBITS w 0 15) = Suc 8" by (simp add: w(2))
  fix pre and h1 :: Host
  assume c: "cell h1 = cell h"
  have mask_twice: "(0xffff AND x) AND 0xffff = 0xffff AND x" for x :: u32
    by (rule word32_eqI) (simp add: bitblast bit_simps)
  let ?P = "BranchPath_likely (ucast imm) ds"
  let ?Q = "\<lambda>k. [encodeI 9 0 15 1, encodeI 63 12 15 104, encodeI 55 12 15 184, encodeI 24 15 15 k, encodeI 63 12 15 0, encodeI 55 12 24 88]"
  let ?k = "0xffff AND (ucast imm * 4 + 4) :: u32"
  have P: "pre @ ?P = pre @ ?Q 8 @ encodeR 0 24 0 0 0 8 # 0 # (ds @ ?Q ?k @ [encodeR 0 24 0 0 0 8, 0])"
    "pre @ ?P = (pre @ ?Q 8 @ [encodeR 0 24 0 0 0 8, 0]) @ (ds @ ?Q ?k) @ encodeR 0 24 0 0 0 8 # 0 # []"
    "length ?P = length ds + 16"
    by (simp_all add: BranchPath_likely_def Let_def)
  have at: "length (pre @ ?Q 8 @ [encodeR 0 24 0 0 0 8, 0]) = length pre + 8" by simp
  have Q: "\<exists>h'. run M (?Q j) x = Some h' \<and> cell h' = (cell x)(104 := 1, 0 := cell x 184 + sext16 (j AND 0xffff))" for j x
    by (simp add: emitted immediate_op_def mips_isa.daddi [OF M] mips_isa.addiu [OF M] fun_upd_twist)
  have "\<exists>h'. exec M (Suc (length ?P)) (pre @ ?P) (length pre + (if yes then 8 else 0)) h1 = Some (Exit, h')
      \<and> cell h' 104 = 1 \<and> cell h' 0 = cell h 184 + (if yes then path_offset imm else 8)
      \<and> guest h' = (if yes then G (guest h) else guest h)"
  proof (cases yes)
    case True
    have "guest h1 = guest h" by (rule guest_low) (simp add: c)
    then obtain h2 where h2: "run M ds h1 = Some h2" "guest h2 = G (guest h)" "\<forall>k < 200. cell h2 k = cell h1 k"
      using ds unfolding slot_code_def by metis
    obtain h3 where h3: "run M (?Q ?k) h2 = Some h3" "cell h3 = (cell h2)(104 := 1, 0 := cell h2 184 + path_offset imm)"
      using Q [of ?k h2] unfolding mask_twice path_offset_def by blast
    have "run M (ds @ ?Q ?k) h1 = Some h3" by (simp only: run_append h2(1) h3(1) option.case)
    then have "exec M (Suc (length ?P)) (pre @ ?P) (length (pre @ ?Q 8 @ [encodeR 0 24 0 0 0 8, 0])) h1 = Some (Exit, h3)"
      unfolding P(2,3) by (rule exec_leave) simp
    then have "exec M (Suc (length ?P)) (pre @ ?P) (length pre + 8) h1 = Some (Exit, h3)"
      unfolding at .
    moreover have "guest h3 = G (guest h)" using h2(2) guest_low [of h3 h2] by (simp add: h3(2))
    ultimately show ?thesis using True h2(3) by (intro exI [of _ h3]) (simp add: h3(2) c)
  next
    case False
    obtain h3 where h3: "run M (?Q 8) h1 = Some h3" "cell h3 = (cell h1)(104 := 1, 0 := cell h1 184 + 8)"
      using Q [of 8 h1] by (auto simp: sext16_def)
    have "exec M (Suc (length ?P)) (pre @ ?P) (length pre) h1 = Some (Exit, h3)"
      unfolding P(1,3) by (rule exec_leave [OF h3(1)]) simp
    moreover have "guest h3 = guest h" by (rule guest_low) (simp add: h3(2) c)
    ultimately show ?thesis using False by (simp add: h3(2) c)
  qed
  then show "\<exists>h'. exec M (Suc (length ?P)) (pre @ ?P) (length pre + (if yes then 8 else 0)) h1 = Some (Exit, h')
      \<and> guest h' = (if yes then G (guest h) else guest h) \<and> cell h' 104 = 1
      \<and> cell h' 0 = cell h 184 + (if yes then path_offset imm else 8)"
    by blast
qed

text \<open>The likely branches without a link: their operands in registers 13 and 14, or the one in 13.\<close>

definition likely_code :: "u32 \<Rightarrow> u32 list \<Rightarrow> u32 list" where
  "likely_code b ds =
     (if EXTBITS b 26 31 \<in> {20, 21} then bne_beq_likely (IInfo_of b) ds
      else encodeI 55 12 13 (200 + 8 * EXTBITS b 21 25) # encodeI (EXTBITS b 26 31) 13 (EXTBITS b 16 20) 9 # 0 #
        BranchPath_likely (EXTBITS b 0 15) ds)"

lemma leaves_likely:
  assumes M: "mips_isa M" and op: "likely_op b" and ds: "slot_code M ds G"
  shows "leaves M (likely_code b ds) h (if holds M b (guest h) then G (guest h) else guest h)
    (cell h 184 + (if holds M b (guest h) then path_offset (ucast (EXTBITS b 0 15)) else 8))"
proof -
  let ?s1 = "ucast (EXTBITS b 21 25) :: 5 word" and ?s2 = "ucast (EXTBITS b 16 20) :: 5 word"
  let ?two = "EXTBITS b 26 31 \<in> {20, 21}"
  let ?w = "encodeI (EXTBITS b 26 31) 13 (if ?two then 14 else EXTBITS b 16 20) 9" and ?imm = "ucast (EXTBITS b 0 15) :: u16"
  let ?A = "encodeI 55 12 13 (200 + 8 * ucast ?s1) # (if ?two then [encodeI 55 12 14 (200 + 8 * ucast ?s2)] else [])"
  have "getType (ucast (EXTBITS b 26 31)) = ITYPE" using op by (auto simp: likely_op_def getType_def)
  then have all: "likely_code b ds = ?A @ ?w # 0 # BranchPath_likely (ucast ?imm) ds"
    by (simp add: likely_code_def bne_beq_likely_def Let_def I_fields)
  have b: "branch_op b" "EXTBITS b 26 31 \<notin> {4, 5}" using op by (auto simp: likely_op_def branch_op_def)
  have opm: "EXTBITS b 26 31 AND 0x3f = EXTBITS b 26 31" "EXTBITS b 16 20 AND 0x1f = EXTBITS b 16 20"
    using b(1) field_masks(2) [of "ucast (EXTBITS b 16 20)"] by (auto simp: branch_op_def)
  obtain h1 where h1: "run M ?A h = Some h1" "cell h1 = cell h" "get_hreg h1 13 = guest h (unat (EXTBITS b 21 25))"
      "?two \<Longrightarrow> get_hreg h1 14 = guest h (unat (EXTBITS b 16 20))"
    by (cases ?two) (simp_all add: emitted guest_def)
  have g: "guest h1 = guest h" by (rule guest_low) (simp add: h1(2))
  have "branch_op ?w" using b(1) opm by (simp add: branch_op_def)
  moreover have "branch_test M ?w (get_hreg h1 (unat (EXTBITS ?w 21 25))) (get_hreg h1 (unat (EXTBITS ?w 16 20)))
      = holds M b (guest h)"
    using b(2) h1(3,4) opm by (auto simp: holds_def branch_test_def)
  ultimately have l: "leaves M (?w # 0 # BranchPath_likely (ucast ?imm) ds) h1 (if holds M b (guest h) then G (guest h1) else guest h1)
      (cell h1 184 + (if holds M b (guest h) then path_offset ?imm else 8))"
    by (intro leaves_BranchPath_likely [OF M _ _ ds]) simp_all
  show ?thesis unfolding all using leaves_prefix [OF h1(1) l] unfolding g h1(2) .
qed

section \<open>The end of a block\<close>

text \<open>What the decoder emits for a control transfer: the link, if any, and the words that leave the block.\<close>

definition link_code :: "u32 \<Rightarrow> u32 list" where
  "link_code b =
     (if EXTBITS b 26 31 = 3 \<or> link_op b then And_Link
      else if EXTBITS b 26 31 = 0 \<and> EXTBITS b 0 5 = 9
      then [encodeI 55 12 13 184, encodeI 24 13 13 8, encodeI 63 12 13 (200 + 8 * EXTBITS b 11 15)]
      else [])"

definition leave_code :: "u32 \<Rightarrow> u64 \<Rightarrow> u32 list \<Rightarrow> u32 list" where
  "leave_code b e ds =
     (if jumps b then j_ins (IInfo_of b) e ds
      else if jumps_register b then jr (IInfo_of b) ds
      else if EXTBITS b 26 31 \<in> {4, 5} then bne_beq (IInfo_of b) ds
      else if likely_op b then likely_code b ds
      else bbit (IInfo_of b) ds)"

lemma jump_words:
  "jal p e ds = And_Link @ j_ins p e ds"
  "jalr p ds = [encodeI 55 12 13 184, encodeI 24 13 13 8, encodeI 63 12 13 (200 + 8 * ucast (R_rd p))] @ jr p ds"
  by (simp_all add: jal_def j_ins_def jalr_def jr_def Let_def)

lemma branch_words:
  assumes "getType (ucast (EXTBITS b 26 31)) = ITYPE"
  shows "branch (IInfo_of b) ds = (if EXTBITS b 16 20 = 16 \<or> EXTBITS b 16 20 = 17 then And_Link else []) @ bbit (IInfo_of b) ds"
    and "EXTBITS b 26 31 \<notin> {20, 21} \<Longrightarrow>
      branch_likely (IInfo_of b) ds = (if EXTBITS b 16 20 = 18 \<or> EXTBITS b 16 20 = 19 then And_Link else []) @ likely_code b ds"
proof -
  have rt: "(ucast (EXTBITS b 16 20) :: 5 word) = y \<longleftrightarrow> EXTBITS b 16 20 = ucast y" for y
    by (simp add: word_unat_eq_iff)
  show "branch (IInfo_of b) ds = (if EXTBITS b 16 20 = 16 \<or> EXTBITS b 16 20 = 17 then And_Link else []) @ bbit (IInfo_of b) ds"
    by (simp add: branch_def bbit_def Let_def I_fields [OF assms] rt)
  show "branch_likely (IInfo_of b) ds = (if EXTBITS b 16 20 = 18 \<or> EXTBITS b 16 20 = 19 then And_Link else []) @ likely_code b ds"
    if "EXTBITS b 26 31 \<notin> {20, 21}"
    using that by (simp add: branch_likely_def likely_code_def Let_def I_fields [OF assms] rt)
qed

lemma find_control:
  assumes "control b" "regular b e" "findInstrCase (IInfo_of d) None 0 = Inr ds"
  shows "findInstrCase (IInfo_of b) (Some (IInfo_of d)) e = Inr (link_code b @ leave_code b e ds)"
proof -
  let ?op = "EXTBITS b 26 31" and ?f = "EXTBITS b 0 5" and ?rt = "EXTBITS b 16 20"
  note kinds = leave_code_def link_code_def control_kinds likely_op_def link_op_def
  note start = find_entry opcode_entry table_call_def length_tables
  have slot: "dispatch (IInfo_of d) (Inl NullDeref) 0 = Inr ds"
    using assms(3) by (simp add: findInstrCase_def)
  consider "?op = 0" "?f \<in> {8, 9}" | "?op = 1" "?rt \<in> {0, 1, 2, 3, 16, 17, 18, 19}"
    | "?op \<in> {2, 3, 4, 5, 6, 7, 20, 21, 22, 23, 50, 54, 58, 62}"
    using assms(1) unfolding control_kinds by auto
  then show ?thesis
  proof cases
    case 1
    have t: "getType (ucast ?op) = RTYPE" by (simp add: 1 getType_def)
    have rd: "(ucast (ucast (EXTBITS b 11 15) :: 5 word) :: u32) = EXTBITS b 11 15" by simp
    show ?thesis
      using 1 by (auto simp: kinds start slot Opcode_0_def R_fields [OF t] opcode0_0to5_bits_def OP0_0to5bits_8_def
          OP0_0to5bits_9_def jump_words)
  next
    case 2
    have t: "getType (ucast ?op) = ITYPE" by (simp add: 2 getType_def)
    have "\<not> (?f = 58 \<and> (ucast (EXTBITS b 21 25) :: 5 word) = 0)"
      using assms(2) 2(1) by (auto simp: regular_def jumps_def jumps_register_def word_unat_eq_iff)
    then have "findInstrCase (IInfo_of b) (Some (IInfo_of d)) e = (opcode1_16to20_bits ! unat ?rt) (IInfo_of b) (Inr ds) e"
      using 2 by (auto simp: start opcode_entry(2) [simplified] slot Opcode_1_def I_fields [OF t] Let_def)
    then show ?thesis
      using 2 by (auto simp: kinds branch_words [OF t] opcode1_16to20_bits_def regimm_defs)
  next
    case 3
    then have t: "?op \<in> {4, 5, 6, 7, 20, 21, 22, 23, 50, 54, 58, 62} \<Longrightarrow> getType (ucast ?op) = ITYPE"
      by (auto simp: getType_def)
    have "findInstrCase (IInfo_of b) (Some (IInfo_of d)) e = (opcode_funs_array ! unat ?op) (IInfo_of b) (Inr ds) e"
      by (simp add: find_entry slot)
    moreover have "?op \<in> {6, 7, 22, 23} \<longrightarrow> ?rt = 0"
      using assms(2) by (auto simp: regular_def jumps_def jumps_register_def)
    ultimately show ?thesis
      using 3 by (elim insertE emptyE) (simp_all add: kinds opcode_funs_array_def opcode_defs jump_words branch_words getType_def likely_code_def)
  qed
qed

lemma run_link_code:
  assumes "mips_isa M"
  shows "\<exists>h1. run M (link_code b) h = Some h1 \<and> guest h1 = linked b (guest h) (cell h 184 + 4)
    \<and> (\<forall>k < 200. cell h1 k = cell h k)"
proof -
  have "unat (ucast (EXTBITS b 11 15) :: 5 word) = unat (EXTBITS b 11 15)"
    using unat_field_up(1) [of "ucast (EXTBITS b 11 15)"] by simp
  then show ?thesis
    using run_link [OF assms, of 31 h] run_link [OF assms, of "ucast (EXTBITS b 11 15)" h]
    by (auto simp: link_code_def linked_def And_Link_is add.assoc)
qed

lemma leaves_leave_code:
  assumes M: "mips_isa M" and b: "control b" "regular b e" and ds: "slot_code M ds G" and e: "cell h 184 = e"
  shows "leaves M (leave_code b e ds) h (if likely_op b \<and> \<not> holds M b (guest h) then guest h else G (guest h))
    (target M b (guest h) (e + 4))"
proof -
  have off: "path_offset (ucast (EXTBITS b 0 15)) = 4 * scast (ucast (EXTBITS b 0 15) :: u16) + 4" if "branches b"
    using that b(2) by (auto simp: path_offset_exact regular_def jumps_def jumps_register_def branches_def branch_op_def)
  have cls: "\<not> (likely_op b \<and> (jumps b \<or> jumps_register b))" by (auto simp: likely_op_def jumps_def jumps_register_def)
  consider "jumps b" | "jumps_register b" "\<not> jumps b" | "branches b" "\<not> jumps b" "\<not> jumps_register b"
    using b(1) by (auto simp: control_def)
  then show ?thesis
  proof cases
    case 1
    then have "target M b (guest h) (e + 4) = sext32 ((e AND 0xf0000000) OR push_bit 2 (ucast (EXTBITS b 0 25)))"
      using b(2) region_target [of "ucast e" b] by (simp add: target_def regular_def sext32_def)
    then show ?thesis using leaves_j [OF M _ ds, of b e h] 1 cls by (auto simp: leave_code_def jumps_def)
  next
    case 2
    then show ?thesis
      using leaves_jr [OF M _ ds, of b h] cls by (auto simp: leave_code_def target_def jumps_register_def)
  next
    case 3
    then have t: "target M b (guest h) (e + 4) = cell h 184 + (if holds M b (guest h) then path_offset (ucast (EXTBITS b 0 15)) else 8)"
      by (simp add: target_def off e)
    consider "EXTBITS b 26 31 \<in> {4, 5}" | "likely_op b" "EXTBITS b 26 31 \<notin> {4, 5}"
      | "\<not> likely_op b" "EXTBITS b 26 31 \<notin> {4, 5, 20, 21}"
      by (auto simp: likely_op_def)
    then show ?thesis
    proof cases
      case 1
      then have "taken b g = holds M b g" "\<not> likely_op b" for g
        by (auto simp: taken_def holds_def likely_op_def)
      then show ?thesis
        unfolding t using leaves_bne_beq [OF M _ ds, of b h] 1 3 by (auto simp: leave_code_def)
    next
      case 2
      then show ?thesis
        unfolding t using leaves_likely [OF M 2(1) ds, of h] 3
        by (cases "holds M b (guest h)") (simp_all add: leave_code_def)
    next
      case 3
      then show ?thesis
        unfolding t using leaves_bbit [OF M _ _ ds, of b h] \<open>branches b\<close> \<open>\<not> jumps b\<close> \<open>\<not> jumps_register b\<close>
        by (auto simp: leave_code_def branches_def)
    qed
  qed
qed

text \<open>A transfer reads no register it links.\<close>

lemma regular_linked:
  assumes "control b" "regular b e"
  shows "likely_op b \<Longrightarrow> holds M b (linked b g s) = holds M b g" "target M b (linked b g s) s' = target M b g s'"
proof -
  have rs: "linked b g s (unat (EXTBITS b 21 25)) = g (unat (EXTBITS b 21 25))" if "\<not> jumps b"
    using assms(2) that by (auto simp: linked_def regular_def jumps_def jumps_register_def link_op_def word_unat_eq_iff)
  have same: "branches b \<Longrightarrow> \<not> link_op b \<Longrightarrow> linked b g s = g"
    by (auto simp: linked_def branches_def branch_op_def)
  have "link_op b \<Longrightarrow> branch_test M b x y = branch_test M b x z" for x y z
    by (simp add: branch_test_def link_op_def)
  then have h: "holds M b (linked b g s) = holds M b g" if "branches b" "\<not> jumps b"
    using that rs same by (cases "link_op b") (auto simp: holds_def)
  show "holds M b (linked b g s) = holds M b g" if "likely_op b"
    using h assms(1) that by (auto simp: control_def likely_op_def jumps_def jumps_register_def)
  show "target M b (linked b g s) s' = target M b g s'"
    using h rs assms(1) by (auto simp: target_def control_def)
qed

lemma block_end:
  assumes "mips_isa M" "control b" "covered d" "regular b e" "cell h 184 = e"
  shows "\<exists>cs. findInstrCase (IInfo_of b) (Some (IInfo_of d)) e = Inr cs
    \<and> leaves M cs h (let g = linked b (guest h) (e + 4) in if likely_op b \<and> \<not> holds M b (guest h) then g else guest_step M d g)
        (target M b (guest h) (e + 4))"
proof -
  obtain ds where ds: "findInstrCase (IInfo_of d) None 0 = Inr ds" "slot_code M ds (guest_step M d)"
    using slot_covered [OF assms(1,3)] by blast
  obtain h1 where h1: "run M (link_code b) h = Some h1" "guest h1 = linked b (guest h) (e + 4)" "cell h1 184 = e"
    using run_link_code [OF assms(1), of b h] assms(5) by auto
  have "leaves M (leave_code b e ds) h1 (let g = linked b (guest h) (e + 4) in if likely_op b \<and> \<not> holds M b (guest h) then g else guest_step M d g)
      (target M b (guest h) (e + 4))"
    using leaves_leave_code [OF assms(1,2,4) ds(2) h1(3)] regular_linked [OF assms(2,4)]
    by (simp add: h1(2) Let_def cong: conj_cong if_cong)
  then show ?thesis
    using find_control [OF assms(2,4) ds(1)] leaves_prefix [OF h1(1)] by blast
qed

lemma block_translation:
  assumes "mips_isa M" "\<forall>w \<in> set ws. covered w" "control b" "covered d" "regular b e" "cell h 184 = e"
  shows "\<exists>cs h'. doBlockTranslation (map IInfo_of (ws @ [b, d])) e = Inr cs
    \<and> exec M (length cs) cs 0 h = Some (Exit, h') \<and> cell h' 104 = 1
    \<and> (let g = fold (guest_step M) ws (guest h); g' = linked b g (e + 4) in
        guest h' = (if likely_op b \<and> \<not> holds M b g then g' else guest_step M d g') \<and> cell h' 0 = target M b g (e + 4))"
proof -
  obtain cs h1 where cs: "translate_each (map IInfo_of ws) e = Inr cs" "run M cs h = Some h1"
    and h1: "guest h1 = fold (guest_step M) ws (guest h)" "cell h1 184 = e"
    using run_each [OF assms(1,2), of e h] assms(6) by fastforce
  obtain vs where vs: "findInstrCase (IInfo_of b) (Some (IInfo_of d)) e = Inr vs"
    and l: "leaves M vs h1 (let g = linked b (guest h1) (e + 4) in if likely_op b \<and> \<not> holds M b (guest h1) then g else guest_step M d g)
        (target M b (guest h1) (e + 4))"
    using block_end [OF assms(1,3,4,5) h1(2)] by blast
  have "doBlockTranslation (map IInfo_of (ws @ [b, d])) e = Inr (cs @ vs)"
    using cs(1) vs by (simp add: doBlockTranslation_def nth_append Let_def)
  then show ?thesis
    using leaves_prefix [OF cs(2) l, unfolded leaves_def, THEN spec [of _ "[]"]] by (auto simp: h1(1) Let_def)
qed

lemma control_ends:
  assumes "control b"
  shows "isControlInst (IInfo_of b)"
proof -
  consider "EXTBITS b 26 31 = 0" "EXTBITS b 0 5 \<in> {8, 9}" | "EXTBITS b 26 31 = 1" "EXTBITS b 16 20 \<in> {0, 1, 2, 3, 16, 17, 18, 19}"
    | "EXTBITS b 26 31 \<in> {2, 3}" | "EXTBITS b 26 31 \<in> {4, 5, 6, 7, 20, 21, 22, 23, 50, 54, 58, 62}"
    using assms unfolding control_kinds by auto
  then show ?thesis
  proof cases
    case 1
    then show ?thesis by (auto simp: control_format(1) getType_def isCntrlInstR_def)
  next
    case 2
    then show ?thesis by (auto simp: control_format(2) getType_def isCntrlInstI_def)
  next
    case 3
    then show ?thesis by (auto simp: control_format(3) getType_def isCntrlInstJ_def)
  next
    case 4
    then show ?thesis
      by (elim insertE emptyE) (simp_all add: control_format(2) getType_def isCntrlInstI_def)
  qed
qed

section \<open>Properties\<close>

text \<open>
  Property C15. A block with a regular control transfer is simulated from its first instruction to its delay slot. When the guest's code at
  \<open>pc\<close> has \<open>k\<close> instructions of the covered kinds, a regular control transfer and a delay slot of the
  covered kinds, the block builder returns these instructions, their translation succeeds, and the
  emitted words run to the block's exit and leave the registers and the program counter where the
  architecture's machine with delayed branches is after \<open>k + 2\<close> instructions, with the request for
  the next block set. Regular are jumps from a sign-extended 32-bit address with the slot in the same region, \<^verbatim>\<open>jr\<close>, \<^verbatim>\<open>jalr\<close>
  with a link register other than zero and the one it reads, and branches with an offset from -8193 to 8190 words that do not link over the
  register they test and are not of the form decoded as a rotation; other branches the code translates wrongly (\<open>branch_range\<close>,
  \<open>bal_taken_for_rotation\<close>). Overflow traps are not part of either machine.
\<close>

theorem block_simulation:
  assumes "mips_isa M" "\<forall>j < k. covered (code (pc + of_nat (4 * j)))"
    and "control (code e)" "regular (code e) e" "covered (code (e + 4))"
    and "e = pc + of_nat (4 * k)" "cell h 184 = e" "k < fuel"
  shows "\<exists>vec cs h'. getBlock fuel (\<lambda>i. code (pc + of_nat (4 * i))) 0 = Inr vec
    \<and> e = pc + of_nat ((length vec - 2) * 4) \<and> doBlockTranslation vec e = Inr cs
    \<and> exec M (length cs) cs 0 h = Some (Exit, h') \<and> cell h' 104 = 1
    \<and> (guest_tick M code ^^ (k + 2)) (at_pc (guest h) pc) = at_pc (guest h') (cell h' 0)"
proof -
  let ?at = "\<lambda>j. code (pc + of_nat (4 * j))" and ?ws = "map (\<lambda>j. code (pc + of_nat (4 * j))) [0..<k]"
  let ?g = "fold (guest_step M) ?ws (guest h)"
  obtain extra where fuel: "fuel = Suc k + extra" using assms(8) less_iff_Suc_add by auto
  have slot: "code (pc + (4 + of_nat (4 * k))) = code (e + 4)" by (simp add: assms(6) algebra_simps)
  have "getBlock fuel ?at 0 = Inr (map (\<lambda>j. IInfo_of (?at (0 + j))) [0..<k + 2])"
    unfolding fuel using assms(2,6) control_ends [OF assms(3)]
    by (intro getBlock_finds) (simp_all add: covered_not_control)
  then have vec: "getBlock fuel ?at 0 = Inr (map IInfo_of (?ws @ [code e, code (e + 4)]))"
    using slot by (simp add: assms(6) numeral_2_eq_2 comp_def algebra_simps)
  obtain cs h' where tr: "doBlockTranslation (map IInfo_of (?ws @ [code e, code (e + 4)])) e = Inr cs"
      "exec M (length cs) cs 0 h = Some (Exit, h')" "cell h' 104 = 1"
    and g: "guest h' = (if likely_op (code e) \<and> \<not> holds M (code e) ?g then linked (code e) ?g (e + 4)
        else guest_step M (code (e + 4)) (linked (code e) ?g (e + 4)))" "cell h' 0 = target M (code e) ?g (e + 4)"
    using block_translation [OF assms(1) _ assms(3,5,4,7), of ?ws] assms(2) unfolding Let_def by auto
  have "(guest_tick M code ^^ (2 + k)) (at_pc (guest h) pc) = guest_tick M code (guest_tick M code (at_pc ?g e))"
    using guest_straight [OF assms(2), of M "guest h"] by (simp add: assms(6) numeral_2_eq_2 funpow_add)
  also have "\<dots> = at_pc (guest h') (cell h' 0)"
    using assms(3) covered_not_control(1) [OF assms(5)] g by (simp add: guest_tick_def Let_def)
  finally have "(guest_tick M code ^^ (k + 2)) (at_pc (guest h) pc) = at_pc (guest h') (cell h' 0)"
    by (simp add: add.commute)
  moreover have "e = pc + of_nat ((length (map IInfo_of (?ws @ [code e, code (e + 4)])) - 2) * 4)"
    by (simp add: assms(6) mult.commute)
  ultimately show ?thesis using vec tr by blast
qed

theorem block_simulation_witness:
  "\<exists>vec cs h'. let code = (\<lambda>a :: u64. if a = 0x1000 then 0x0062102d else if a = 0x1004 then 0x0c000400 else 0) in
     getBlock 2 (\<lambda>i. code (0x1000 + of_nat (4 * i))) 0 = Inr vec \<and> doBlockTranslation vec 0x1004 = Inr cs
     \<and> exec ref_isa (length cs) cs 0 \<lparr>hreg = (\<lambda>_. 0), cell = (\<lambda>k. if k = 184 then 0x1004 else if k = 224 then 5 else if k = 216 then 7 else 0)\<rparr> = Some (Exit, h')
     \<and> guest h' 2 = 12 \<and> guest h' 31 = 0x100c \<and> cell h' 0 = 0x1000"
proof -
  let ?h = "\<lparr>hreg = (\<lambda>_. 0), cell = (\<lambda>k. if k = 184 then 0x1004 else if k = 224 then 5 else if k = 216 then 7 else (0::u64))\<rparr>"
  let ?code = "\<lambda>a :: u64. if a = 0x1000 then 0x0062102d else if a = 0x1004 then 0x0c000400 else 0 :: u32"
  have w: "EXTBITS (0x0c000400 :: u32) 26 31 = 3" "EXTBITS (0x0c000400 :: u32) 0 25 = 0x400" by (simp_all add: EXTBITS_def)
  have nop: "guest_step ref_isa 0 g = g" for g by (simp add: guest_step_def)
  have z: "covered 0" by (simp add: covered_def arith_ins_def EXTBITS_def op_classes)
  have c: "\<forall>j < 1. covered (?code (0x1000 + of_nat (4 * j)))" "control (?code 0x1004)" "regular (?code 0x1004) 0x1004"
    "covered (?code (0x1004 + 4))"
    using daddu_word(1) z by (simp_all add: control_def jumps_def w regular_def sext32_def)
  have n: "\<not> control 0x0062102d" "control 0x0c000400" "\<not> likely_op 0x0c000400" "\<not> control 0"
    using covered_not_control(1) [OF daddu_word(1)] covered_not_control(1) [OF z] c(2) w by (simp_all add: likely_op_def)
  have "(guest_tick ref_isa ?code ^^ (1 + 2)) (at_pc (guest ?h) 0x1000) = at_pc ((guest ?h)(2 := 12, 31 := 0x100c)) 0x1000"
    using n by (simp add: numeral_3_eq_3 guest_tick_def Let_def daddu_word(2) linked_def target_def jumps_def w nop)
      (simp add: guest_def gpr_cell_def)
  moreover obtain vec cs h' where b: "getBlock 2 (\<lambda>i. ?code (0x1000 + of_nat (4 * i))) 0 = Inr vec"
      "doBlockTranslation vec 0x1004 = Inr cs" "exec ref_isa (length cs) cs 0 ?h = Some (Exit, h')"
      "(guest_tick ref_isa ?code ^^ (1 + 2)) (at_pc (guest ?h) 0x1000) = at_pc (guest h') (cell h' 0)"
    using block_simulation [where code = ?code and fuel = 2 and k = 1 and h = ?h, OF ref.mips_isa_axioms c] by auto
  ultimately have "(guest ?h)(2 := 12, 31 := 0x100c) = guest h'" "0x1000 = cell h' 0" by simp_all
  then have "guest h' 2 = 12" "guest h' 31 = 0x100c" "cell h' 0 = 0x1000" by (auto dest: sym)
  then show ?thesis unfolding Let_def using b(1,2,3) by blast
qed

end
