(* ===== verification/AddrCache.thy ===== *)
theory AddrCache
  imports Exceptions
begin

text \<open>
  The cache of address translations, \<^verbatim>\<open>AddrTranslationCache\<close>: 128 entries, indexed by the low bits of the
  page number, each holding a page, the host address of its start and whether it may be
  written. The constructor leaves the array as it finds it, so a cache is any list of 128 entries.

  The locale \<open>lookup_cache\<close> states what a client may rely on in a cache that forgets: an insertion is
  found again by the keys it serves and with the rights it grants, and it changes no other
  key except by evicting it. Its lemmas give soundness over sequences of insertions. It is interpreted here and,
  for the cache of translated blocks, in \<open>BlockCache\<close>.
\<close>

section \<open>The interface of a cache\<close>

locale lookup_cache =
  fixes look :: "'s \<Rightarrow> u64 \<Rightarrow> 'q \<Rightarrow> 'v option"
    and ins :: "u64 \<Rightarrow> 'v \<Rightarrow> 'q \<Rightarrow> 's \<Rightarrow> 's"
    and wf :: "'s \<Rightarrow> bool"
    and serves :: "u64 \<Rightarrow> u64 \<Rightarrow> bool"
    and move :: "u64 \<Rightarrow> u64 \<Rightarrow> 'v \<Rightarrow> 'v"
    and grants :: "'q \<Rightarrow> 'q \<Rightarrow> bool"
  assumes look_ins_hit: "wf s \<Longrightarrow> serves k k' \<Longrightarrow> grants q q' \<Longrightarrow> look (ins k v q s) k' q' = Some (move k k' v)"
    and look_ins_deny: "wf s \<Longrightarrow> serves k k' \<Longrightarrow> \<not> grants q q' \<Longrightarrow> look (ins k v q s) k' q' = None"
    and look_ins_other: "wf s \<Longrightarrow> \<not> serves k k' \<Longrightarrow>
          look (ins k v q s) k' q' = look s k' q' \<or> look (ins k v q s) k' q' = None"
    and wf_ins: "wf s \<Longrightarrow> wf (ins k v q s)"
begin

lemma look_insD:
  assumes "wf s" "look (ins k v q s) k' q' = Some w"
  shows "serves k k' \<and> grants q q' \<and> w = move k k' v \<or> \<not> serves k k' \<and> look s k' q' = Some w"
  using assms look_ins_hit look_ins_deny look_ins_other [of s k k' v q q']
  by (metis option.distinct(1) option.inject)

text \<open>A relation that holds of what is inserted holds of every hit.\<close>

definition sound :: "(u64 \<Rightarrow> 'q \<Rightarrow> 'v \<Rightarrow> bool) \<Rightarrow> 's \<Rightarrow> bool" where
  "sound R s \<longleftrightarrow> (\<forall>k q v. look s k q = Some v \<longrightarrow> R k q v)"

lemma sound_ins:
  assumes "wf s" "sound R s" "\<And>k' q'. serves k k' \<Longrightarrow> grants q q' \<Longrightarrow> R k' q' (move k k' v)"
  shows "sound R (ins k v q s)"
  using assms(2,3) look_insD [OF assms(1)] unfolding sound_def by blast

lemma wf_fold: "wf s \<Longrightarrow> wf (fold (\<lambda>(k, v, q). ins k v q) ops s)"
  by (induction ops arbitrary: s) (auto simp: wf_ins)

text \<open>
  The last insertion that serves a key decides a hit: a cache that started empty never returns
  anything else.
\<close>

lemma fold_hit:
  assumes "wf s" "\<And>k q. look s k q = None" "look (fold (\<lambda>(k, v, q). ins k v q) ops s) k' q' = Some w"
  shows "\<exists>k v q. (k, v, q) \<in> set ops \<and> serves k k' \<and> grants q q' \<and> w = move k k' v
    \<and> find (\<lambda>(k, v, q). serves k k') (rev ops) = Some (k, v, q)"
  using assms(3)
proof (induction ops rule: rev_induct)
  case Nil
  then show ?case by (simp add: assms(2))
next
  case (snoc op ops)
  obtain k v q where op: "op = (k, v, q)" by (cases op)
  have "look (ins k v q (fold (\<lambda>(k, v, q). ins k v q) ops s)) k' q' = Some w"
    using snoc.prems by (simp add: op)
  from look_insD [OF wf_fold [OF assms(1)] this] snoc.IH show ?case
    by (auto simp: op)
qed

end

section \<open>The address cache\<close>

abbreviation (input) INS_CACHE_SIZE :: nat where "INS_CACHE_SIZE \<equiv> 128"
abbreviation (input) ADDR_INDEX_MASK :: u64 where "ADDR_INDEX_MASK \<equiv> 127"
abbreviation (input) GVA_BASE_MASK :: u64 where "GVA_BASE_MASK \<equiv> 0xFFFFFFFFFFFFF000"

record CacheEntry =
  ce_GVA :: u64
  ce_HVA :: u64
  ce_prot :: u64

type_synonym AddrTranslationCache = "CacheEntry list"

definition getCacheIndex :: "u64 \<Rightarrow> nat" where
  "getCacheIndex GVA = unat (drop_bit 12 GVA AND ADDR_INDEX_MASK)"

definition Update_cache :: "u64 \<Rightarrow> u64 \<Rightarrow> u64 \<Rightarrow> AddrTranslationCache \<Rightarrow> AddrTranslationCache" where
  "Update_cache GVA HVA prot cache =
     (let base = GVA AND GVA_BASE_MASK; offset = GVA - base; index = getCacheIndex base in
      cache[index := \<lparr>ce_GVA = base, ce_HVA = HVA - offset, ce_prot = prot\<rparr>])"

definition Clear_cache :: "AddrTranslationCache \<Rightarrow> AddrTranslationCache" where
  "Clear_cache cache = replicate INS_CACHE_SIZE \<lparr>ce_GVA = 0x1, ce_HVA = 0x0, ce_prot = LD_READ\<rparr>"

text \<open>The value returned and the final content of \<^verbatim>\<open>*HVA\<close>, which is set in any case.\<close>

definition Check_cache :: "AddrTranslationCache \<Rightarrow> u64 \<Rightarrow> Context_IPE \<Rightarrow> bool \<times> u64" where
  "Check_cache cache GVA ctx =
     (let base = GVA AND GVA_BASE_MASK; offset = GVA - base; index = getCacheIndex base;
          e = cache ! index in
      (\<not> (ce_GVA e \<noteq> base \<or> ce_prot e < getLDST ctx), ce_HVA e + offset))"

section \<open>It provides the interface\<close>

definition cache_wf :: "AddrTranslationCache \<Rightarrow> bool" where
  "cache_wf cache \<longleftrightarrow> length cache = INS_CACHE_SIZE"

definition same_page :: "u64 \<Rightarrow> u64 \<Rightarrow> bool" where
  "same_page a b \<longleftrightarrow> a AND GVA_BASE_MASK = b AND GVA_BASE_MASK"

definition ac_look :: "AddrTranslationCache \<Rightarrow> u64 \<Rightarrow> u64 \<Rightarrow> u64 option" where
  "ac_look cache GVA ldst =
     (case Check_cache cache GVA \<lparr>loadstore = ldst, PC = 0, writeData = 0\<rparr> of (hit, HVA) \<Rightarrow> if hit then Some HVA else None)"

lemma ac_look_iff:
  "ac_look cache GVA (getLDST ctx) = Some HVA \<longleftrightarrow> Check_cache cache GVA ctx = (True, HVA)"
  by (auto simp: ac_look_def Check_cache_def getLDST_def Let_def)

lemma index_less: "getCacheIndex a < 128"
proof -
  have "drop_bit 12 a AND 127 \<le> 127" by (rule word_and_le1)
  then show ?thesis by (simp add: getCacheIndex_def word_le_nat_alt)
qed

lemma cache_wf_Update [simp]: "cache_wf (Update_cache a h p c) = cache_wf c"
  by (simp add: cache_wf_def Update_cache_def Let_def)

lemma cache_wf_Clear [simp]: "cache_wf (Clear_cache c)"
  by (simp add: cache_wf_def Clear_cache_def)

lemma odd_no_page: "a AND GVA_BASE_MASK \<noteq> 0x1"
proof
  assume "a AND GVA_BASE_MASK = 0x1"
  then have "bit (a AND GVA_BASE_MASK) 0" by simp
  then show False by (simp add: bit_simps)
qed

lemma look_Clear [simp]: "ac_look (Clear_cache c) a p = None"
  using odd_no_page [of a, symmetric] index_less [of "a AND GVA_BASE_MASK"]
  by (simp add: ac_look_def Check_cache_def Clear_cache_def Let_def)

interpretation ac: lookup_cache ac_look Update_cache cache_wf same_page
  "\<lambda>k k' v. v - (k - (k AND GVA_BASE_MASK)) + (k' - (k' AND GVA_BASE_MASK))" "\<lambda>prot ldst. ldst \<le> prot"
proof unfold_locales
  fix s k k' q q' v
  assume "cache_wf s" "same_page k k'"
  then have *: "getCacheIndex (k' AND GVA_BASE_MASK) < length s" "k AND GVA_BASE_MASK = k' AND GVA_BASE_MASK"
    using index_less by (simp_all add: cache_wf_def same_page_def)
  then show "q' \<le> q \<Longrightarrow> ac_look (Update_cache k v q s) k' q'
      = Some (v - (k - (k AND GVA_BASE_MASK)) + (k' - (k' AND GVA_BASE_MASK)))"
    and "\<not> q' \<le> q \<Longrightarrow> ac_look (Update_cache k v q s) k' q' = None"
    by (auto simp: ac_look_def Check_cache_def Update_cache_def Let_def getLDST_def)
next
  fix s k k' q q' v
  assume "cache_wf s" "\<not> same_page k k'"
  then have "getCacheIndex (k AND GVA_BASE_MASK) < length s" "k AND GVA_BASE_MASK \<noteq> k' AND GVA_BASE_MASK"
    using index_less by (simp_all add: cache_wf_def same_page_def)
  then show "ac_look (Update_cache k v q s) k' q' = ac_look s k' q' \<or> ac_look (Update_cache k v q s) k' q' = None"
    by (cases "getCacheIndex (k AND GVA_BASE_MASK) = getCacheIndex (k' AND GVA_BASE_MASK)")
       (auto simp: ac_look_def Check_cache_def Update_cache_def Let_def)
qed simp

section \<open>Runs against an unbounded map\<close>

text \<open>
  The contract of the cache: a finite map from pages to the host address of the page's start and the
  right to write, which forgets nothing. A run of the cache is compared with the same run of the map.
\<close>

datatype cache_op = Upd u64 u64 u64 | Clr

fun cache_step :: "cache_op \<Rightarrow> AddrTranslationCache \<Rightarrow> AddrTranslationCache" where
  "cache_step (Upd GVA HVA prot) c = Update_cache GVA HVA prot c"
| "cache_step Clr c = Clear_cache c"

fun map_step :: "cache_op \<Rightarrow> (u64 \<rightharpoonup> u64 \<times> u64) \<Rightarrow> (u64 \<rightharpoonup> u64 \<times> u64)" where
  "map_step (Upd GVA HVA prot) m =
     m(GVA AND GVA_BASE_MASK \<mapsto> (HVA - (GVA - (GVA AND GVA_BASE_MASK)), prot))"
| "map_step Clr m = Map.empty"

definition covered_by :: "(u64 \<rightharpoonup> u64 \<times> u64) \<Rightarrow> AddrTranslationCache \<Rightarrow> bool" where
  "covered_by m c \<longleftrightarrow> cache_wf c \<and> (\<forall>k q v. ac_look c k q = Some v \<longrightarrow>
     (\<exists>h p. m (k AND GVA_BASE_MASK) = Some (h, p) \<and> q \<le> p \<and> v = h + (k - (k AND GVA_BASE_MASK))))"

lemma covered_by_step: "covered_by m c \<Longrightarrow> covered_by (map_step op m) (cache_step op c)"
proof (cases op)
  case (Upd a h p)
  assume *: "covered_by m c"
  then have wf: "cache_wf c" by (simp add: covered_by_def)
  have "\<exists>h' p'. map_step op m (k AND GVA_BASE_MASK) = Some (h', p') \<and> q \<le> p' \<and> v = h' + (k - (k AND GVA_BASE_MASK))"
    if hit: "ac_look (cache_step op c) k q = Some v" for k q v
  proof (cases "same_page a k")
    case True
    then have "q \<le> p" "v = h - (a - (a AND GVA_BASE_MASK)) + (k - (k AND GVA_BASE_MASK))"
      using ac.look_insD [OF wf, of a h p k q v] hit by (simp_all add: Upd)
    then show ?thesis using True by (simp add: Upd same_page_def)
  next
    case False
    then have "ac_look c k q = Some v" using ac.look_insD [OF wf, of a h p k q v] hit by (simp add: Upd)
    then show ?thesis using * False by (simp add: covered_by_def Upd same_page_def)
  qed
  then show ?thesis using wf by (simp add: Upd covered_by_def)
next
  case Clr
  assume "covered_by m c"
  then show ?thesis by (simp add: Clr covered_by_def)
qed

lemma covered_by_run: "covered_by m c \<Longrightarrow> covered_by (fold map_step ops m) (fold cache_step ops c)"
  by (induction ops arbitrary: m c) (auto simp: covered_by_step)

section \<open>Properties\<close>

text \<open>
  Property C10. The cache refines a map. In a run that starts with a clearing, a hit is what the unbounded map
  of the same run holds for the page: the address of the last update of the page, moved by the offset, with
  a protection that permits the access. So the cache forgets but never mixes pages or rights up.
\<close>

theorem addr_cache_refines:
  assumes "Check_cache (fold cache_step ops (Clear_cache c)) GVA ctx = (True, HVA)"
  shows "\<exists>h p. fold map_step ops Map.empty (GVA AND GVA_BASE_MASK) = Some (h, p)
    \<and> getLDST ctx \<le> p \<and> HVA = h + (GVA - (GVA AND GVA_BASE_MASK))"
proof -
  have "covered_by Map.empty (Clear_cache c)" by (simp add: covered_by_def)
  from covered_by_run [OF this, of ops] assms show ?thesis
    by (simp add: covered_by_def flip: ac_look_iff)
qed

theorem addr_cache_refines_witness:
  "Check_cache (fold cache_step [Upd 0x2010 0x9010 1] (Clear_cache [])) 0x2020 \<lparr>loadstore = 1, PC = 0, writeData = 0\<rparr> = (True, 0x9020)
   \<and> (\<exists>h p. fold map_step [Upd 0x2010 0x9010 1] Map.empty 0x2000 = Some (h, p) \<and> 0x9020 = h + 0x20)"
proof -
  let ?ctx = "\<lparr>loadstore = 1, PC = 0, writeData = 0\<rparr>"
  have "ac_look (Update_cache 0x2010 0x9010 1 (Clear_cache [])) 0x2020 (getLDST ?ctx) = Some 0x9020"
    using ac.look_ins_hit [of "Clear_cache []" "0x2010" "0x2020" "getLDST ?ctx" 1 "0x9010"]
    by (simp add: same_page_def getLDST_def)
  then have hit: "Check_cache (fold cache_step [Upd 0x2010 0x9010 1] (Clear_cache [])) 0x2020 ?ctx = (True, 0x9020)"
    by (simp add: ac_look_iff)
  from addr_cache_refines [OF hit] hit show ?thesis by auto
qed

end
