(* ===== verification/MMU.thy ===== *)
theory MMU
  imports TLB
begin

text \<open>
  Address translation from guest virtual to guest physical addresses: \<^verbatim>\<open>MMU_IPE.cpp\<close>. An address is
  first classified by its upper half as 32-bit or 64-bit and by its top bits as a segment; the mode
  of the core decides whether it may use the segment; some segments have a fixed translation and
  the others go to the TLB. The core enters the model as its register file and its TLB.

  The functions for segments are only called with the two sizes that \<open>find_address_space_size\<close> returns,
  so the case of another size, where the code returns no value, does not arise in the model.
\<close>

section \<open>Segments\<close>

abbreviation (input) BIT_32 :: u32 where "BIT_32 \<equiv> 0"
abbreviation (input) BIT_64 :: u32 where "BIT_64 \<equiv> 1"

abbreviation (input) useg_32bit :: u32 where "useg_32bit \<equiv> 0"
abbreviation (input) kseg0_32bit :: u32 where "kseg0_32bit \<equiv> 4"
abbreviation (input) kseg1_32bit :: u32 where "kseg1_32bit \<equiv> 5"
abbreviation (input) sseg_32bit :: u32 where "sseg_32bit \<equiv> 6"

abbreviation (input) xuseg_64bit :: u32 where "xuseg_64bit \<equiv> 0"
abbreviation (input) xsseg_64bit :: u32 where "xsseg_64bit \<equiv> 1"
abbreviation (input) xkphys_64bit :: u32 where "xkphys_64bit \<equiv> 2"
abbreviation (input) xkseg_64bit :: u32 where "xkseg_64bit \<equiv> 3"

abbreviation (input) BIT32_ADDRESS_MASK :: u64 where "BIT32_ADDRESS_MASK \<equiv> 0x1FFFFFFF"
abbreviation (input) BIT64_ADDRESS_MASK :: u64 where "BIT64_ADDRESS_MASK \<equiv> 0x1FFFFFFFFFFFF"

abbreviation (input) XUSEG_MAX_VALID_ADDR :: u64 where "XUSEG_MAX_VALID_ADDR \<equiv> 0x000000FFFFFFFFFF"
abbreviation (input) XSSEG_MAX_VALID_ADDR :: u64 where "XSSEG_MAX_VALID_ADDR \<equiv> 0x400000FFFFFFFFFF"
abbreviation (input) XKSEG_MAX_VALID_ADDR :: u64 where "XKSEG_MAX_VALID_ADDR \<equiv> 0xC00000FF7FFFFFFF"

definition find_address_space_size :: "u64 \<Rightarrow> u32" where
  "find_address_space_size addr =
     (let top32 = (ucast (drop_bit 32 addr) :: u32) in
      if top32 = 0xFFFFFFFF \<or> top32 = 0 then BIT_32 else BIT_64)"

definition get_segment_number :: "u64 \<Rightarrow> u32 \<Rightarrow> u32" where
  "get_segment_number addr address_space_size =
     (if address_space_size = BIT_32
      then (let region = ucast (drop_bit 29 addr AND 0x07) in
            if region < kseg0_32bit then useg_32bit else region)
      else ucast (drop_bit 62 addr))"

section \<open>Privileges\<close>

definition verify_priviliges :: "CP0_IPE \<Rightarrow> u64 \<Rightarrow> bool" where
  "verify_priviliges cp0 addr =
     (let mode = get_KSU cp0;
          address_space = find_address_space_size addr;
          segment_number = get_segment_number addr address_space in
      if address_space = BIT_32
      then (if mode = USER_MODE \<and> segment_number \<noteq> useg_32bit then False
            else if mode = SUPERVISOR_MODE \<and> (segment_number \<noteq> sseg_32bit \<or> segment_number \<noteq> useg_32bit) then False
            else True)
      else (if mode = USER_MODE \<and> segment_number \<noteq> xuseg_64bit then False
            else if mode = SUPERVISOR_MODE \<and> (segment_number \<noteq> xsseg_64bit \<or> segment_number \<noteq> xuseg_64bit) then False
            else if segment_number = xuseg_64bit \<and> addr > XUSEG_MAX_VALID_ADDR then False
            else if segment_number = xsseg_64bit \<and> addr > XSSEG_MAX_VALID_ADDR then False
            else if segment_number = xkseg_64bit \<and> addr > XKSEG_MAX_VALID_ADDR then False
            else True))"

section \<open>Fixed translations\<close>

text \<open>\<open>None\<close> is \<^verbatim>\<open>TLB_REQUIRED\<close>, \<open>Some pa\<close> is \<^verbatim>\<open>TLB_NOT_REQUIRED\<close> with \<^verbatim>\<open>*Paddr\<close> set to \<open>pa\<close>.\<close>

definition look_staic_translation_32bit :: "CP0_IPE \<Rightarrow> u64 \<Rightarrow> u64 option" where
  "look_staic_translation_32bit cp0 Vaddr =
     (let segment_number = get_segment_number Vaddr BIT_32 in
      if segment_number = kseg0_32bit \<or> segment_number = kseg1_32bit
      then Some (Vaddr AND BIT32_ADDRESS_MASK)
      else if segment_number = useg_32bit
      then (let status = cp0_read cp0 H2_CP0_STATUS SEL_ZERO in
            if status AND STATUS_ERL = STATUS_ERL then Some (Vaddr AND 0xFFFFFFFF) else None)
      else None)"

definition look_staic_translation_64bit :: "CP0_IPE \<Rightarrow> u64 \<Rightarrow> u64 option" where
  "look_staic_translation_64bit cp0 Vaddr =
     (let segment_number = get_segment_number Vaddr BIT_64 in
      if segment_number = xkphys_64bit
      then Some (Vaddr AND BIT64_ADDRESS_MASK)
      else if segment_number = xuseg_64bit
      then (let status = cp0_read cp0 H2_CP0_STATUS SEL_ZERO in
            if status AND STATUS_ERL = STATUS_ERL then Some (Vaddr AND BIT64_ADDRESS_MASK) else None)
      else None)"

section \<open>Translation\<close>

text \<open>
  The value returned, the final content of \<^verbatim>\<open>*GPA\<close> (the handler's address after an exception), the
  register file and the context. The parameter \<open>GPA\<close> is the content of \<^verbatim>\<open>*GPA\<close> before the call.
\<close>

definition mmu_GVAtoGPA ::
    "CP0_IPE \<Rightarrow> TLB_IPE \<Rightarrow> u64 \<Rightarrow> u64 \<Rightarrow> Context_IPE \<Rightarrow> (bool \<times> u64 \<times> CP0_IPE \<times> Context_IPE) result" where
  "mmu_GVAtoGPA cp0 tlb GVA GPA ctx =
     (if \<not> verify_priviliges cp0 GVA
      then bind_result (Perform_Exception cp0 GVA (ucast (ucast ADEL + getLDST ctx)) ctx)
             (\<lambda>(pc, cp0). Inr (False, pc, cp0, ctx))
      else
        (let address_space = find_address_space_size GVA;
             check_tlb = (if address_space = BIT_32 then look_staic_translation_32bit cp0 GVA
                          else look_staic_translation_64bit cp0 GVA) in
         case check_tlb of
           Some phys_addr \<Rightarrow> Inr (True, phys_addr, cp0, setProt ST_WRITE ctx)
         | None \<Rightarrow> tlb_GVAtoGPA tlb cp0 GVA GPA ctx))"

text \<open>The translation for the loader: the unmapped segments only, whatever the mode. \<open>None\<close> is \<^verbatim>\<open>false\<close>.\<close>

definition GVAtoGPA_for_fileloading :: "u64 \<Rightarrow> u64 option" where
  "GVAtoGPA_for_fileloading GVA =
     (let address_space = find_address_space_size GVA;
          segment_number = get_segment_number GVA address_space in
      if address_space = BIT_32
      then (if segment_number = kseg1_32bit then Some (GVA AND BIT32_ADDRESS_MASK) else None)
      else if address_space = BIT_64
      then (if segment_number = xkphys_64bit then Some (GVA AND BIT64_ADDRESS_MASK) else None)
      else None)"

section \<open>Segments as address ranges\<close>

lemma top_bits:
  "unat (ucast (drop_bit 32 (a :: u64)) :: u32) = unat a div 2 ^ 32"
  "unat (ucast (drop_bit 62 (a :: u64)) :: u32) = unat a div 2 ^ 62"
  "unat (ucast (drop_bit 29 (a :: u64) AND 0x07) :: u32) = unat a div 2 ^ 29 mod 8"
proof -
  have l: "unat a < 2 ^ 64" using unsigned_less [of a] by simp
  have "unat a div 2 ^ 32 < 2 ^ 32" using l by (simp add: div_less_iff_less_mult)
  then show "unat (ucast (drop_bit 32 a) :: u32) = unat a div 2 ^ 32"
    by (simp add: unsigned_ucast_eq unat_div_distrib drop_bit_eq_div take_bit_nat_eq_self)
  have "unat a div 2 ^ 62 < 2 ^ 32" using l by (simp add: div_less_iff_less_mult)
  then show "unat (ucast (drop_bit 62 a) :: u32) = unat a div 2 ^ 62"
    by (simp add: unsigned_ucast_eq unat_div_distrib drop_bit_eq_div take_bit_nat_eq_self)
  have "drop_bit 29 a AND 0x07 = take_bit 3 (drop_bit 29 a)"
    by (rule word64_eqI) (simp add: bitblast bit_simps)
  then show "unat (ucast (drop_bit 29 a AND 0x07) :: u32) = unat a div 2 ^ 29 mod 8"
    by (simp add: unsigned_ucast_eq unat_div_distrib unat_mod_distrib drop_bit_eq_div take_bit_eq_mod)
qed

lemma address_space_range:
  "find_address_space_size a = BIT_32 \<longleftrightarrow> unat a < 2 ^ 32 \<or> 0xFFFFFFFF00000000 \<le> unat a"
proof -
  have "unat a < 2 ^ 64" using unsigned_less [of a] by simp
  then show ?thesis
    by (auto simp: find_address_space_size_def word_unat_eq_iff top_bits div_eq_0_iff)
qed

lemma address_space_cases: "find_address_space_size a = BIT_32 \<or> find_address_space_size a = BIT_64"
  by (simp add: find_address_space_size_def Let_def)

lemma segment_32:
  "unat (get_segment_number a BIT_32) = (let r = unat a div 2 ^ 29 mod 8 in if r < 4 then 0 else r)"
  by (simp add: get_segment_number_def word_less_nat_alt top_bits Let_def)

lemma segment_64: "unat (get_segment_number a BIT_64) = unat a div 2 ^ 62"
  by (simp add: get_segment_number_def top_bits)

lemma not_kernel_no_erl: "get_KSU c \<noteq> KERNEL_MODE \<Longrightarrow> cp0_read c H2_CP0_STATUS 0 AND STATUS_ERL = 0"
proof -
  assume k: "get_KSU c \<noteq> 0"
  define x where "x = cp0_read c 12 0"
  have x: "reg c (slot 12 0) = x" by (simp add: x_def cp0_read_def)
  have "(ucast x :: u32) AND 6 = 0"
    using k unfolding get_KSU_def x Let_def by (auto split: if_splits)
  then have "\<not> bit x 2" by (simp add: word32_eq_iff bitblast bit_simps)
  then show ?thesis unfolding x_def [symmetric] by (simp add: word64_eq_iff bitblast bit_simps)
qed

lemma not_kernel_mapped:
  assumes "get_KSU c \<noteq> KERNEL_MODE"
  shows "look_staic_translation_32bit c a \<noteq> None \<longrightarrow> 4 \<le> unat a div 2 ^ 29 mod 8"
    and "look_staic_translation_64bit c a \<noteq> None \<longrightarrow> unat a div 2 ^ 62 = 2"
  using not_kernel_no_erl [OF assms] segment_32 [of a] segment_64 [of a]
  by (auto simp: look_staic_translation_32bit_def look_staic_translation_64bit_def Let_def word_unat_eq_iff split: if_splits)

text \<open>A successful lookup in the TLB is a hit in the first matching entry, with the access allowed.\<close>

lemma tlb_success:
  assumes "tlb_GVAtoGPA tlb c GVA GPA0 ctx = Inr (True, GPA, c', ctx')" "loadstore ctx \<in> {0, 1}"
  shows "\<exists>e \<in> set tlb. entry_matches (get_ASID c) (ucast (drop_bit REGION_OFFSET GVA AND REGION_MASK)) GVA e
    \<and> page_valid GVA e \<and> (getLDST ctx = ST_WRITE \<longrightarrow> page_dirty GVA e \<noteq> 0)
    \<and> GPA = page_frame GVA e OR (GVA AND drop_bit 1 (page_mask e)) \<and> c' = c"
proof -
  let ?i = "tlb_first tlb c GVA"
  have i: "?i < length tlb" "access_allowed GVA ctx (tlb ! ?i)"
    using assms tlb_lookup_fault [where tlb = tlb and c = c and GVA = GVA and ctx = ctx and GPA = GPA0, OF refl] unfolding tlb_GVAtoGPA_def Let_def
    by (auto split: if_splits simp: getLDST_def)
  have "entry_matches (get_ASID c) (ucast (drop_bit REGION_OFFSET GVA AND REGION_MASK)) GVA (tlb ! ?i)"
    using first_index_hit [OF i(1)] .
  moreover have "(True, GPA, c', ctx') = (True, page_frame GVA (tlb ! ?i) OR (GVA AND drop_bit 1 (page_mask (tlb ! ?i))), c,
      setProt (ucast (page_dirty GVA (tlb ! ?i))) ctx)"
    using trans [OF assms(1) [symmetric] tlb_lookup_hit [OF refl i, where GPA = GPA0]] by (rule sum.inject(2) [THEN iffD1])
  ultimately show ?thesis
    using i by (intro bexI [of _ "tlb ! ?i"]) simp_all
qed

lemma user_ranges:
  fixes n :: nat
  shows "n div 2 ^ 29 mod 8 < 4 \<Longrightarrow> n < 2 ^ 32 \<Longrightarrow> n < 0x80000000"
    "n div 2 ^ 29 mod 8 < 4 \<Longrightarrow> 0xFFFFFFFF00000000 \<le> n \<Longrightarrow> n < 2 ^ 64 \<Longrightarrow> n < 0xFFFFFFFF80000000"
proof -
  show "n < 0x80000000" if "n div 2 ^ 29 mod 8 < 4" "n < 2 ^ 32"
  proof -
    have "n div 2 ^ 29 < 8" using that(2) by (simp add: div_less_iff_less_mult)
    then have "n div 2 ^ 29 < 4" using that(1) by simp
    then show ?thesis by (simp add: div_less_iff_less_mult)
  qed
  show "n < 0xFFFFFFFF80000000" if "n div 2 ^ 29 mod 8 < 4" "0xFFFFFFFF00000000 \<le> n" "n < 2 ^ 64"
  proof -
    define m where "m = n - 0xFFFFFFFF00000000"
    have n: "n = m + 0x7FFFFFFF8 * 2 ^ 29" using that(2) by (simp add: m_def)
    have "n div 2 ^ 29 = m div 2 ^ 29 + 0x7FFFFFFF8" unfolding n by (subst div_mult_self1) simp_all
    moreover have "m div 2 ^ 29 < 8" using that(3) n by (simp add: div_less_iff_less_mult)
    ultimately have "m div 2 ^ 29 < 4" using that(1) by (simp add: mod_add_eq [symmetric, where b = "34359738360"])
    then show ?thesis unfolding n by (simp add: div_less_iff_less_mult)
  qed
qed

section \<open>Properties\<close>

text \<open>
  Property C22. User mode is confined by the memory management unit. A translation by the unit that succeeds in user mode
  is of one of three ranges of addresses: the first 2 GB, the 64-bit user segment from 4 GB to 1 TB, or the 2 GB from
  0xFFFFFFFF00000000, which the architecture reserves and the code wrongly admits; and its
  result comes from a valid TLB entry of the current address space (or a global one) that permits the access. A hit in the
  cache of translations in front of the unit does not look at the mode and is outside the statement.
\<close>

theorem user_confined:
  assumes "mmu_GVAtoGPA c tlb GVA GPA0 ctx = Inr (True, GPA, c', ctx')" "get_KSU c = USER_MODE"
    and "loadstore ctx \<in> {0, 1}"
  shows "(unat GVA < 0x80000000 \<or> 0x100000000 \<le> unat GVA \<and> unat GVA \<le> 0xFFFFFFFFFF
      \<or> 0xFFFFFFFF00000000 \<le> unat GVA \<and> unat GVA < 0xFFFFFFFF80000000)
    \<and> (\<exists>e \<in> set tlb. entry_matches (get_ASID c) (ucast (drop_bit REGION_OFFSET GVA AND REGION_MASK)) GVA e
        \<and> page_valid GVA e \<and> (getLDST ctx = ST_WRITE \<longrightarrow> page_dirty GVA e \<noteq> 0)
        \<and> GPA = page_frame GVA e OR (GVA AND drop_bit 1 (page_mask e)))"
proof -
  have v: "verify_priviliges c GVA"
    using assms(1) by (auto simp: mmu_GVAtoGPA_def split: if_splits)
  have l: "unat GVA < 2 ^ 64" using unsigned_less [of GVA] by simp
  have range: "(find_address_space_size GVA = BIT_32 \<and> unat GVA div 2 ^ 29 mod 8 < 4)
      \<or> (find_address_space_size GVA = BIT_64 \<and> unat GVA div 2 ^ 62 = 0 \<and> unat GVA \<le> 0xFFFFFFFFFF)"
  proof (cases "find_address_space_size GVA = BIT_32")
    case True
    then have "get_segment_number GVA BIT_32 = 0"
      using v assms(2) by (auto simp: verify_priviliges_def Let_def split: if_splits)
    then show ?thesis using True segment_32 [of GVA] by (simp add: Let_def split: if_splits)
  next
    case False
    then have b: "find_address_space_size GVA = BIT_64" using address_space_cases [of GVA] by blast
    then have "get_segment_number GVA BIT_64 = 0" "GVA \<le> XUSEG_MAX_VALID_ADDR"
      using v assms(2) by (auto simp: verify_priviliges_def Let_def split: if_splits)
    then show ?thesis using b segment_64 [of GVA] by (simp add: word_le_nat_alt)
  qed
  have "mmu_GVAtoGPA c tlb GVA GPA0 ctx = tlb_GVAtoGPA tlb c GVA GPA0 ctx"
    using not_kernel_mapped [of c GVA] assms(2) range v
    by (auto simp: mmu_GVAtoGPA_def Let_def)
  then have "tlb_GVAtoGPA tlb c GVA GPA0 ctx = Inr (True, GPA, c', ctx')" using assms(1) by simp
  from tlb_success [OF this assms(3)] range address_space_range [of GVA] user_ranges [of "unat GVA"] l
  show ?thesis by auto
qed

theorem user_confined_witness:
  "\<exists>c tlb GPA c' ctx'. mmu_GVAtoGPA c tlb 0x1000 0 \<lparr>loadstore = 0, PC = 0, writeData = 0\<rparr> = Inr (True, GPA, c', ctx')
     \<and> get_KSU c = USER_MODE \<and> tlb \<noteq> []"
proof -
  let ?c = "\<lparr>reg = (\<lambda>_. 0x10)\<rparr>" and ?ctx = "\<lparr>loadstore = 0, PC = 0, writeData = 0\<rparr>"
  let ?e = "blank_entry\<lparr>te_G := 1, te_Validity := 0, te_V0 := 1, te_V1 := 1\<rparr>"
  have m: "get_KSU ?c = USER_MODE" by (simp add: get_KSU_def)
  have i: "tlb_first [?e] ?c 0x1000 = 0" "access_allowed 0x1000 ?ctx ([?e] ! 0)"
    by (simp_all add: entry_matches_def blank_entry_def page_mask_def page_valid_def getLDST_def odd_page_def get_ASID_def cp0_read_def)
  have "tlb_GVAtoGPA [?e] ?c 0x1000 0 ?ctx = Inr (True, page_frame 0x1000 ?e OR (0x1000 AND drop_bit 1 (page_mask ?e)), ?c,
      setProt (ucast (page_dirty 0x1000 ?e)) ?ctx)"
    using tlb_lookup_hit [where idx = 0 and tlb = "[?e]" and c = ?c and GVA = "0x1000" and ctx = ?ctx and GPA = 0] i by simp
  moreover have "mmu_GVAtoGPA ?c [?e] 0x1000 0 ?ctx = tlb_GVAtoGPA [?e] ?c 0x1000 0 ?ctx"
    by (simp add: mmu_GVAtoGPA_def verify_priviliges_def m find_address_space_size_def get_segment_number_def
        look_staic_translation_32bit_def cp0_read_def)
  ultimately have ok: "mmu_GVAtoGPA ?c [?e] 0x1000 0 ?ctx = Inr (True, page_frame 0x1000 ?e OR (0x1000 AND drop_bit 1 (page_mask ?e)), ?c,
      setProt (ucast (page_dirty 0x1000 ?e)) ?ctx)" by simp
  show ?thesis using user_confined [OF ok m] ok m by blast
qed

text \<open>
  Supervisor mode has no address space. The test of the code asks for a segment that is not
  both the supervisor's and the user's, which every segment satisfies, so each translation in
  supervisor mode raises an address error.
\<close>

lemma supervisor_denied:
  assumes "get_KSU c = SUPERVISOR_MODE" "loadstore ctx \<in> {0, 1}"
  shows "\<exists>pc d. mmu_GVAtoGPA c tlb GVA GPA0 ctx = Inr (False, pc, d, ctx) \<and> cp0_read d H2_CP0_BADVADDR 0 = GVA
    \<and> drop_bit 2 (cp0_read d H2_CP0_CAUSE 0 AND CAUSE_EXEC_MASK) = (if getLDST ctx = ST_WRITE then ucast ADES else ucast ADEL)"
proof -
  let ?code = "ucast (ucast ADEL + getLDST ctx) :: u32"
  have "\<not> verify_priviliges c GVA"
    using assms(1) by (simp add: verify_priviliges_def Let_def)
  moreover have code: "cause_ExcCode ?code ctx = Some (if loadstore ctx = 1 then 5 else 4)"
    using assms(2) by (auto simp: cause_ExcCode_def getLDST_def)
  moreover obtain pc d where ok: "Perform_Exception c GVA ?code ctx = Inr (pc, d)"
    using Perform_Exception_total [of c GVA ?code ctx] code by auto
  ultimately show ?thesis
    using Perform_Exception_regs(1,3) [OF ok] cause_field(1) [of "if loadstore ctx = 1 then 5 else 4" "cp0_read c 13 0"]
    by (auto simp: mmu_GVAtoGPA_def getLDST_def)
qed

lemma kseg_segment:
  assumes "0x80000000 \<le> unat a \<and> unat a < 0xC0000000 \<or> 0xFFFFFFFF80000000 \<le> unat a \<and> unat a < 0xFFFFFFFFC0000000"
  shows "get_segment_number a BIT_32 = kseg0_32bit \<or> get_segment_number a BIT_32 = kseg1_32bit"
proof -
  have r: "unat a div 2 ^ 29 mod 8 = 4 \<or> unat a div 2 ^ 29 mod 8 = 5"
    using assms
  proof
    assume "0x80000000 \<le> unat a \<and> unat a < 0xC0000000"
    then have "unat a div 2 ^ 29 < 6" "4 \<le> unat a div 2 ^ 29"
      by (simp_all add: div_less_iff_less_mult less_eq_div_iff_mult_less_eq)
    then have "unat a div 2 ^ 29 = 4 \<or> unat a div 2 ^ 29 = 5" by linarith
    then show ?thesis by auto
  next
    assume *: "0xFFFFFFFF80000000 \<le> unat a \<and> unat a < 0xFFFFFFFFC0000000"
    define m where "m = unat a - 0xFFFFFFFF80000000"
    have n: "unat a = m + 0x7FFFFFFFC * 2 ^ 29" using * by (simp add: m_def)
    have "unat a div 2 ^ 29 = m div 2 ^ 29 + 0x7FFFFFFFC" unfolding n by (subst div_mult_self1) simp_all
    moreover have "m div 2 ^ 29 < 2" using * n by (simp add: div_less_iff_less_mult)
    then have "m div 2 ^ 29 = 0 \<or> m div 2 ^ 29 = 1" by linarith
    ultimately show ?thesis by auto
  qed
  then have "unat (get_segment_number a BIT_32) = 4 \<or> unat (get_segment_number a BIT_32) = 5"
    using segment_32 [of a] by auto
  then show ?thesis by (simp add: word_unat_eq_iff)
qed

text \<open>
  The unmapped segments. In kernel mode kseg0 and kseg1 translate to their low 29 bits and
  xkphys to its low 49 bits, writable and without the TLB. The same holds of the addresses from
  0x80000000 to 0xBFFFFFFF, which belong to the mapped xuseg of the 64-bit architecture. Where the loader's translation succeeds
  it agrees with the one at run time.
\<close>

lemma kernel_unmapped:
  assumes "get_KSU c = KERNEL_MODE"
  shows "(0xFFFFFFFF80000000 \<le> unat GVA \<and> unat GVA < 0xFFFFFFFFC0000000 \<or> 0x80000000 \<le> unat GVA \<and> unat GVA < 0xC0000000
      \<longrightarrow> mmu_GVAtoGPA c tlb GVA GPA0 ctx = Inr (True, GVA AND 0x1FFFFFFF, c, setProt ST_WRITE ctx))
    \<and> (0x8000000000000000 \<le> unat GVA \<and> unat GVA < 0xC000000000000000
      \<longrightarrow> mmu_GVAtoGPA c tlb GVA GPA0 ctx = Inr (True, GVA AND 0x1FFFFFFFFFFFF, c, setProt ST_WRITE ctx))
    \<and> (\<forall>pa. GVAtoGPA_for_fileloading GVA = Some pa
      \<longrightarrow> mmu_GVAtoGPA c tlb GVA GPA0 ctx = Inr (True, pa, c, setProt ST_WRITE ctx))"
proof (intro conjI impI allI)
  have v32: "verify_priviliges c GVA" if "find_address_space_size GVA = BIT_32"
    using assms that by (simp add: verify_priviliges_def Let_def)
  have v64: "verify_priviliges c GVA" if "find_address_space_size GVA = BIT_64" "get_segment_number GVA BIT_64 = 2"
    using assms that by (simp add: verify_priviliges_def Let_def)
  {
    assume *: "0xFFFFFFFF80000000 \<le> unat GVA \<and> unat GVA < 0xFFFFFFFFC0000000 \<or> 0x80000000 \<le> unat GVA \<and> unat GVA < 0xC0000000"
    then have "find_address_space_size GVA = BIT_32" by (subst address_space_range) auto
    then show "mmu_GVAtoGPA c tlb GVA GPA0 ctx = Inr (True, GVA AND 0x1FFFFFFF, c, setProt ST_WRITE ctx)"
      using v32 kseg_segment [of GVA] *
      by (auto simp: mmu_GVAtoGPA_def Let_def look_staic_translation_32bit_def)
  next
    assume *: "0x8000000000000000 \<le> unat GVA \<and> unat GVA < 0xC000000000000000"
    then have "find_address_space_size GVA = BIT_64"
      using address_space_range [of GVA] address_space_cases [of GVA] by auto
    moreover have "unat GVA div 2 ^ 62 = 2" using * by (intro div_nat_eqI) simp_all
    then have "get_segment_number GVA BIT_64 = 2" using segment_64 [of GVA] by (simp add: word_unat_eq_iff)
    ultimately show "mmu_GVAtoGPA c tlb GVA GPA0 ctx = Inr (True, GVA AND 0x1FFFFFFFFFFFF, c, setProt ST_WRITE ctx)"
      using v64 by (simp add: mmu_GVAtoGPA_def Let_def look_staic_translation_64bit_def)
  next
    fix pa assume *: "GVAtoGPA_for_fileloading GVA = Some pa"
    show "mmu_GVAtoGPA c tlb GVA GPA0 ctx = Inr (True, pa, c, setProt ST_WRITE ctx)"
      using address_space_cases [of GVA] * v32 v64
      by (auto simp: GVAtoGPA_for_fileloading_def mmu_GVAtoGPA_def Let_def look_staic_translation_32bit_def
          look_staic_translation_64bit_def split: if_splits)
  }
qed

end
