(* ===== verification/GPAMap.thy ===== *)
theory GPAMap
  imports Prelude
begin

text \<open>
  Guest physical memory: \<^verbatim>\<open>GPAMap_IPE.h\<close> and \<^verbatim>\<open>GPAtoHVATranslator_IPE.cpp\<close>. A table from section addresses to
  regions of host memory, filled for the RAM and the small I/O sections at the start and on demand later.

  Mapping host memory is the operating system's. \<open>mmap\<close> is a parameter: given the mappings made so far (address
  and length) and a length, it returns an address or nothing. The source keeps section bounds as \<^verbatim>\<open>double\<close>; all
  of them are below \<open>2 ^ 53\<close>, where a double is the integer, and comparing a larger address with one of them
  does not depend on its rounding. So bounds are integers here. The size of section 42 comes out negative, its start having
  one digit too many; converting a negative double to \<^verbatim>\<open>uint64_t\<close> is undefined, and \<open>ub\<close> is what it gives.
\<close>

section \<open>The sections of the address space\<close>

abbreviation (input) ADDRESS_SECTIONS :: nat where "ADDRESS_SECTIONS \<equiv> 51"
abbreviation (input) MAX_SECTION_SIZE :: u64 where "MAX_SECTION_SIZE \<equiv> 256 * 1024 * 1024"
abbreviation (input) MAX_IO_SECTION_SIZE :: u64 where "MAX_IO_SECTION_SIZE \<equiv> 128 * 1024 * 1024"
abbreviation (input) IO_ADDR_BASE_MASK :: u64 where "IO_ADDR_BASE_MASK \<equiv> 0xFFFFFFFFF8000000"
abbreviation (input) IO_ADDR_OFFSET_MASK :: u64 where "IO_ADDR_OFFSET_MASK \<equiv> 0x0000000007FFFFFF"
abbreviation (input) MEM_ADDR_BASE_MASK :: u64 where "MEM_ADDR_BASE_MASK \<equiv> 0xFFFFFFFFF0000000"
abbreviation (input) MEM_ADDR_OFFSET_MASK :: u64 where "MEM_ADDR_OFFSET_MASK \<equiv> 0x000000000FFFFFFF"
abbreviation (input) DR0_DRAM :: nat where "DR0_DRAM \<equiv> 0"
abbreviation (input) BOOT_BUS :: nat where "BOOT_BUS \<equiv> 1"
abbreviation (input) DR2_DRAM :: nat where "DR2_DRAM \<equiv> 2"
abbreviation (input) DR1_DRAM :: nat where "DR1_DRAM \<equiv> 3"
abbreviation (input) IO_BOOT_BUS :: nat where "IO_BOOT_BUS \<equiv> 4"

definition init_map_array :: "(int \<times> int) list" where
  "init_map_array = [
    (0x0, 0xfffffff),
    (0x10000000, 0x1fffffff),
    (0x20000000, 0x3ffffffff),
    (0x410000000, 0x41fffffff),
    (0x1000000000000, 0x10000ffffffff),
    (0x1070000000000, 0x10700001008ff),
    (0x1180070000000, 0x1180070001fff),
    (0x1280000000000, 0x1280047ffffff),
    (0x1180000000000, 0x1180000001fff),
    (0x1180008000000, 0x1180008001fff),
    (0x1180028000000, 0x11800280001ff),
    (0x1180040000000, 0x118004000000f),
    (0x1180050000000, 0x1180050001fff),
    (0x1180058000000, 0x1180058001fff),
    (0x1180068000000, 0x1180068001fff),
    (0x1180080000000, 0x11800800007ff),
    (0x1180088000000, 0x118008800007f),
    (0x11800a0000000, 0x11800a0001fff),
    (0x11800b0000000, 0x11800b00003ff),
    (0x11800f0000000, 0x11800f00007ff),
    (0x1190000000000, 0x1190fffffffff),
    (0x11b0000000000, 0x11b0fffffffff),
    (0x11c0000000000, 0x11c0fffffffff),
    (0x11d0000000000, 0x11d0fffffffff),
    (0x11e0000000000, 0x11e0fffffffff),
    (0x11a0000000000, 0x11a0fffffffff),
    (0x1290000000000, 0x1290fffffffff),
    (0x12a0000000000, 0x12a0fffffffff),
    (0x12b0000000000, 0x12b0fffffffff),
    (0x12c0000000000, 0x12c0fffffffff),
    (0x12d0000000000, 0x12d0fffffffff),
    (0x12e0000000000, 0x12e0fffffffff),
    (0x12f0000000000, 0x12f0fffffffff),
    (0x1400000000000, 0x14000000007ff),
    (0x14f0000000000, 0x14f00000007ff),
    (0x1520000000000, 0x152000003ffff),
    (0x1600000000000, 0x1600fffffffff),
    (0x1610000000000, 0x1610fffffffff),
    (0x1620000000000, 0x162000000ffff),
    (0x1630000000000, 0x1630fffffffff),
    (0x1670000000000, 0x16700000003ff),
    (0x16f0000000000, 0x16f0000000fff),
    (0x1f000000000000, 0x1f00fffffffff),
    (0x11f0000000000, 0x11f0fffffffff),
    (0x1180020000000, 0x1180020001fff),
    (0x11800a8000000, 0x11800a8001fff),
    (0x1180038000000, 0x1180038001fff),
    (0x11800e0000000, 0x11800e0001fff),
    (0x11800b8000000, 0x11800b8001fff),
    (0x16f0010000000, 0x16f0010001fff),
    (0x1180010000000, 0x1180010001fff)]"

definition starting_address :: "nat \<Rightarrow> int" where
  "starting_address i = fst (init_map_array ! i)"

definition ending_address :: "nat \<Rightarrow> int" where
  "ending_address i = snd (init_map_array ! i)"

definition to_uint64 :: "u64 \<Rightarrow> int \<Rightarrow> u64" where
  "to_uint64 ub x = (if x < 0 then ub else of_int x)"

definition section_size :: "u64 \<Rightarrow> nat \<Rightarrow> u64" where
  "section_size ub i = to_uint64 ub (ending_address i - starting_address i + 1)"

section \<open>The table of regions\<close>

record GPAtoHVAmap_Val_IPE =
  val_HVA :: u64
  val_size :: u32
  map_idx :: u32

record GPAMap =
  GPAtoHVAMap_IPE :: "u64 \<rightharpoonup> GPAtoHVAmap_Val_IPE"
  mappings :: "(u64 \<times> u64) list"

type_synonym mmap_call = "(u64 \<times> u64) list \<Rightarrow> u64 \<Rightarrow> u64 option"

definition allocMemRegion :: "mmap_call \<Rightarrow> u64 \<Rightarrow> GPAMap \<Rightarrow> (u64 \<times> GPAMap) result" where
  "allocMemRegion mmap sz s =
     (case mmap (mappings s) sz of
        None \<Rightarrow> Inl ExitError
      | Some dest \<Rightarrow> Inr (dest, s\<lparr>mappings := (dest, sz) # mappings s\<rparr>))"

definition add_region :: "mmap_call \<Rightarrow> u64 \<Rightarrow> u64 \<Rightarrow> nat \<Rightarrow> GPAMap \<Rightarrow> (u64 \<times> GPAMap) result" where
  "add_region mmap sz key idx s =
     bind_result (allocMemRegion mmap sz s)
       (\<lambda>(dest, s). Inr (dest, s\<lparr>GPAtoHVAMap_IPE := (GPAtoHVAMap_IPE s)(key \<mapsto> \<lparr>val_HVA = dest, val_size = ucast sz, map_idx = of_nat idx\<rparr>)\<rparr>))"

definition add_Mem_Region :: "mmap_call \<Rightarrow> u64 \<Rightarrow> u64 \<Rightarrow> GPAMap \<Rightarrow> GPAMap result" where
  "add_Mem_Region mmap sz key s = bind_result (add_region mmap sz key DR2_DRAM s) (\<lambda>(dest, s). Inr s)"

lemma chunk_less: "0 < r \<Longrightarrow> 0 < c \<Longrightarrow> c \<le> r \<Longrightarrow> unat (r - c) < unat (r :: u64)"
  by (simp add: unat_sub word_less_nat_alt word_le_nat_alt)

function alloc_chunks :: "mmap_call \<Rightarrow> u64 \<Rightarrow> u64 \<Rightarrow> GPAMap \<Rightarrow> GPAMap result" where
  "alloc_chunks mmap ramsize allocOffset s =
     (if ramsize > 0
      then (let secSize = (if ramsize > MAX_SECTION_SIZE then MAX_SECTION_SIZE else ramsize) in
            bind_result (add_Mem_Region mmap secSize (of_int (starting_address DR2_DRAM) + allocOffset) s)
              (alloc_chunks mmap (ramsize - secSize) (allocOffset + secSize)))
      else Inr s)"
  by pat_completeness auto

termination
  by (relation "measure (\<lambda>(mmap, r, off, s). unat r)") (auto simp: chunk_less unat_gt_0 word_gt_0)

declare alloc_chunks.simps [simp del]

definition alloc_DRAM :: "mmap_call \<Rightarrow> u64 \<Rightarrow> u64 \<Rightarrow> GPAMap \<Rightarrow> GPAMap result" where
  "alloc_DRAM mmap ub ramsize s =
     bind_result (add_Mem_Region mmap (section_size ub BOOT_BUS) (of_int (starting_address BOOT_BUS)) s) (\<lambda>s.
     let secSize = section_size ub DR0_DRAM;
         secSize = (if secSize > ramsize then ramsize else secSize);
         ramsize = ramsize - secSize in
     bind_result (add_Mem_Region mmap secSize (of_int (starting_address DR0_DRAM)) s) (\<lambda>s.
     let secSize = section_size ub DR1_DRAM;
         secSize = (if secSize > ramsize then ramsize else secSize);
         ramsize = ramsize - secSize in
     bind_result (add_Mem_Region mmap secSize (of_int (starting_address DR1_DRAM)) s) (\<lambda>s.
     if ramsize > 0 then alloc_chunks mmap ramsize 0 s else Inr s)))"

fun add_sections :: "mmap_call \<Rightarrow> u64 \<Rightarrow> nat list \<Rightarrow> GPAMap \<Rightarrow> GPAMap result" where
  "add_sections mmap ub [] s = Inr s"
| "add_sections mmap ub (i # is) s =
     (let sz = section_size ub i in
      if sz \<le> MAX_SECTION_SIZE
      then bind_result (add_Mem_Region mmap sz (of_int (starting_address i)) s) (add_sections mmap ub is)
      else add_sections mmap ub is s)"

definition initialize_GPA_subsections :: "mmap_call \<Rightarrow> u64 \<Rightarrow> u64 \<Rightarrow> GPAMap result" where
  "initialize_GPA_subsections mmap ub ramSize =
     bind_result (alloc_DRAM mmap ub ramSize \<lparr>GPAtoHVAMap_IPE = Map.empty, mappings = []\<rparr>)
       (add_sections mmap ub [IO_BOOT_BUS..<ADDRESS_SECTIONS])"

section \<open>Translation\<close>

definition get_base_and_offset :: "u64 \<Rightarrow> u64 \<times> u64" where
  "get_base_and_offset GPA =
     (if drop_bit 48 GPA \<noteq> 1
      then (GPA AND MEM_ADDR_BASE_MASK, GPA AND MEM_ADDR_OFFSET_MASK)
      else (GPA AND IO_ADDR_BASE_MASK, GPA AND IO_ADDR_OFFSET_MASK))"

text \<open>The host address the lookup returns, zero when the table has no entry.\<close>

definition translate_GPA_to_HVA :: "GPAMap \<Rightarrow> u64 \<Rightarrow> u64" where
  "translate_GPA_to_HVA s key = (case GPAtoHVAMap_IPE s key of None \<Rightarrow> 0 | Some val \<Rightarrow> val_HVA val)"

text \<open>\<open>None\<close> is the end of the function without a value, when no section holds the address.\<close>

definition find_index :: "u64 \<Rightarrow> nat option" where
  "find_index addr =
     find (\<lambda>i. uint addr \<ge> starting_address i \<and> uint addr \<le> ending_address i) [IO_BOOT_BUS..<ADDRESS_SECTIONS]"

definition add_IO_Region :: "mmap_call \<Rightarrow> u64 \<Rightarrow> u64 \<Rightarrow> GPAMap \<Rightarrow> (u64 \<times> GPAMap) result" where
  "add_IO_Region mmap ub key s =
     (case find_index key of
        None \<Rightarrow> Inl NoReturn
      | Some idx \<Rightarrow>
          (let sz = section_size ub idx;
               sz = (if sz > MAX_IO_SECTION_SIZE then MAX_IO_SECTION_SIZE else sz) in
           add_region mmap sz key idx s))"

definition GPA_to_HVA :: "mmap_call \<Rightarrow> u64 \<Rightarrow> u64 \<Rightarrow> GPAMap \<Rightarrow> (u64 \<times> GPAMap) result" where
  "GPA_to_HVA mmap ub addr s =
     (let (key, offset) = get_base_and_offset addr; base = translate_GPA_to_HVA s key in
      bind_result (if base = 0 then add_IO_Region mmap ub key s else Inr (base, s))
        (\<lambda>(base, s). Inr (base + offset, s)))"

section \<open>What the table holds\<close>

definition size_at :: "GPAMap \<Rightarrow> u64 \<Rightarrow> nat option" where
  "size_at s k = map_option (unat \<circ> val_size) (GPAtoHVAMap_IPE s k)"

lemma add_region_Inr:
  assumes "add_region mmap n key idx s = Inr (d, s')"
  shows "mmap (mappings s) n = Some d" "mappings s' = (d, n) # mappings s"
    "GPAtoHVAMap_IPE s' = (GPAtoHVAMap_IPE s)(key \<mapsto> \<lparr>val_HVA = d, val_size = ucast n, map_idx = of_nat idx\<rparr>)"
  using assms by (auto simp: add_region_def allocMemRegion_def bind_result_Inr_iff split: option.splits)

lemma add_Mem_RegionE:
  assumes "add_Mem_Region mmap n key s = Inr s'"
  obtains d where "add_region mmap n key DR2_DRAM s = Inr (d, s')"
  using assms by (auto simp: add_Mem_Region_def bind_result_Inr_iff)

lemma add_Mem_Region_size:
  assumes "add_Mem_Region mmap n key s = Inr s'" "unat n < 2 ^ 32"
  shows "size_at s' = (size_at s)(key \<mapsto> unat n)"
proof -
  have "unat (ucast n :: u32) = unat n" using assms(2) by (simp add: unsigned_ucast_eq take_bit_nat_eq_self)
  then show ?thesis using add_region_Inr(3) assms(1) by (fastforce simp: size_at_def elim: add_Mem_RegionE)
qed

lemma chunk_step:
  fixes K B R c :: nat
  assumes "c = min (2 ^ 28) R" "0 < R"
  shows "(if B + c \<le> K \<and> (K - (B + c)) mod 2 ^ 28 = 0 \<and> K - (B + c) < R - c then Some (min (2 ^ 28) (R - c - (K - (B + c))))
          else if K = B then Some c else d) =
         (if B \<le> K \<and> (K - B) mod 2 ^ 28 = 0 \<and> K - B < R then Some (min (2 ^ 28) (R - (K - B))) else d)"
proof -
  consider "K \<le> B" | i where "K = B + i" "0 < i" "i < 2 ^ 28" | j where "K = B + (2 ^ 28 + j)"
    by (metis less_imp_add_positive linorder_not_less le_iff_add add.assoc)
  then show ?thesis using assms by cases (auto simp: min_def)
qed

lemma alloc_chunks_size:
  assumes "alloc_chunks mmap r off s = Inr s'" "unat off + unat r \<le> 0x3E0000000"
  shows "size_at s' k =
    (let i = unat k - (0x20000000 + unat off) in
     if 0x20000000 + unat off \<le> unat k \<and> i mod 2 ^ 28 = 0 \<and> i < unat r then Some (min (2 ^ 28) (unat r - i)) else size_at s k)"
  using assms
proof (induction mmap r off s rule: alloc_chunks.induct)
  case (1 mmap r off s)
  show ?case
  proof (cases "r > 0")
    case False
    then show ?thesis using "1.prems"(1) by (subst (asm) alloc_chunks.simps) (simp add: word_gt_0 Let_def)
  next
    case True
    define c where "c = (if r > MAX_SECTION_SIZE then MAX_SECTION_SIZE else r)"
    have c: "unat c = min (2 ^ 28) (unat r)" by (simp add: c_def word_less_nat_alt)
    have rpos: "0 < unat r" using True by (simp add: word_less_nat_alt)
    let ?key = "of_int (starting_address DR2_DRAM) + off"
    have key: "unat ?key = 0x20000000 + unat off"
      using "1.prems"(2) by (simp add: starting_address_def init_map_array_def unat_word_ariths)
    from "1.prems"(1) True obtain t where t: "add_Mem_Region mmap c ?key s = Inr t"
        "alloc_chunks mmap (r - c) (off + c) t = Inr s'"
      by (subst (asm) alloc_chunks.simps) (auto simp: bind_result_Inr_iff c_def Let_def)
    have cr: "c \<le> r" using c by (simp add: word_le_nat_alt)
    have rc: "unat (r - c) = unat r - unat c" using cr by (simp add: unat_sub)
    have oc: "unat (off + c) = unat off + unat c" using "1.prems"(2) c by (simp add: unat_word_ariths)
    have st: "size_at t k = (if k = ?key then Some (unat c) else size_at s k)"
      using add_Mem_Region_size [OF t(1)] c by simp
    have "size_at s' k = (let i = unat k - (0x20000000 + unat (off + c)) in
       if 0x20000000 + unat (off + c) \<le> unat k \<and> i mod 2 ^ 28 = 0 \<and> i < unat (r - c)
       then Some (min (2 ^ 28) (unat (r - c) - i)) else size_at t k)"
      using "1.IH" [OF True c_def, of t] t "1.prems"(2) cr rc oc by (simp add: word_le_nat_alt)
    moreover have "k = ?key \<longleftrightarrow> unat k = 0x20000000 + unat off" using key by (metis word_unat_eq_iff)
    ultimately show ?thesis
      using st chunk_step [OF c rpos, of "0x20000000 + unat off" "unat k" "size_at s k"]
      unfolding rc oc Let_def add.assoc by (simp only:)
  qed
qed

text \<open>The RAM after its allocation: the boot bus, the two fixed banks and the chunks of the third.\<close>

lemma section_sizes:
  "section_size ub 0 = 0x10000000" "section_size ub (Suc 0) = 0x10000000" "section_size ub 3 = 0x10000000"
  "(of_int (starting_address 0) :: u64) = 0" "(of_int (starting_address (Suc 0)) :: u64) = 0x10000000" "(of_int (starting_address 3) :: u64) = 0x410000000"
  by (simp_all add: section_size_def to_uint64_def starting_address_def ending_address_def init_map_array_def)

definition ram_size_at :: "nat \<Rightarrow> nat \<Rightarrow> nat option" where
  "ram_size_at ram k =
     (if k = 0 then Some (min (2 ^ 28) ram)
      else if k = 0x410000000 then Some (min (2 ^ 28) (ram - 2 ^ 28))
      else if k = 0x10000000 then Some (2 ^ 28)
      else if 0x20000000 \<le> k \<and> (k - 0x20000000) mod 2 ^ 28 = 0 \<and> k - 0x20000000 < ram - 2 ^ 29
      then Some (min (2 ^ 28) (ram - 2 ^ 29 - (k - 0x20000000)))
      else None)"

lemma alloc_DRAM_size:
  assumes "alloc_DRAM mmap ub ram \<lparr>GPAtoHVAMap_IPE = Map.empty, mappings = []\<rparr> = Inr s" "unat ram \<le> 0x400000000"
  shows "size_at s k = ram_size_at (unat ram) (unat k)"
proof -
  define c0 where "c0 = (if 0x10000000 > ram then ram else 0x10000000)"
  define c1 where "c1 = (if 0x10000000 > ram - c0 then ram - c0 else 0x10000000)"
  have c0: "unat c0 = min (2 ^ 28) (unat ram)" by (simp add: c0_def word_less_nat_alt)
  have r0: "unat (ram - c0) = unat ram - unat c0" using c0 by (simp add: unat_sub word_le_nat_alt)
  have c1: "unat c1 = min (2 ^ 28) (unat ram - 2 ^ 28)" using c0 by (simp add: c1_def word_less_nat_alt r0 min_def)
  have r1: "unat (ram - c0 - c1) = unat ram - 2 ^ 29" using c0 c1 r0 by (simp add: unat_sub word_le_nat_alt)
  from assms(1) [unfolded alloc_DRAM_def One_nat_def section_sizes Let_def, folded c0_def, folded c1_def]
  obtain s0 s1 s2 where s:
    "add_Mem_Region mmap 0x10000000 0x10000000 \<lparr>GPAtoHVAMap_IPE = Map.empty, mappings = []\<rparr> = Inr s0"
    "add_Mem_Region mmap c0 0 s0 = Inr s1" "add_Mem_Region mmap c1 0x410000000 s1 = Inr s2"
    "(if ram - c0 - c1 > 0 then alloc_chunks mmap (ram - c0 - c1) 0 s2 else Inr s2) = Inr s"
    by (auto simp: bind_result_Inr_iff simp del: add_0)
  have "size_at s0 = [0x10000000 \<mapsto> 2 ^ 28]"
    using add_Mem_Region_size [OF s(1)] by (simp add: size_at_def fun_eq_iff)
  moreover have "size_at s1 = (size_at s0)(0 \<mapsto> unat c0)" "size_at s2 = (size_at s1)(0x410000000 \<mapsto> unat c1)"
    using add_Mem_Region_size [OF s(2)] add_Mem_Region_size [OF s(3)] c0 c1 by simp_all
  ultimately have s2: "size_at s2 k = (if k = 0x410000000 then Some (unat c1) else if k = 0 then Some (unat c0)
      else if k = 0x10000000 then Some (2 ^ 28) else None)" by simp
  have k: "k = 0x410000000 \<longleftrightarrow> unat k = 0x410000000" "k = 0 \<longleftrightarrow> unat k = 0" "k = 0x10000000 \<longleftrightarrow> unat k = 0x10000000"
    by (simp_all add: word_unat_eq_iff)
  have "size_at s k =
    (if 0x20000000 \<le> unat k \<and> (unat k - 0x20000000) mod 2 ^ 28 = 0 \<and> unat k - 0x20000000 < unat ram - 2 ^ 29
     then Some (min (2 ^ 28) (unat ram - 2 ^ 29 - (unat k - 0x20000000))) else size_at s2 k)"
  proof (cases "ram - c0 - c1 > 0")
    case True
    then show ?thesis using alloc_chunks_size [of mmap "ram - c0 - c1" 0 s2 s k] s(4) assms(2) r1 by (simp add: Let_def)
  next
    case False
    then show ?thesis using s(4) r1 by (simp add: word_gt_0 flip: word_unat_eq_iff)
  qed
  then show ?thesis using s2 k c0 c1 assms(2) by (simp add: ram_size_at_def)
qed

text \<open>A statement on all I/O sections is checked along the table.\<close>

lemma length_sections: "length init_map_array = 51"
  by (simp add: init_map_array_def)

lemma all_sections:
  assumes "list_all P (drop m init_map_array)" "i \<in> set [m..<51]"
  shows "P (init_map_array ! i)"
  using assms length_sections nth_drop [of m init_map_array "i - m"] unfolding list_all_length by (auto dest: spec [of _ "i - m"])

lemma io_sections_high: "list_all (\<lambda>i. 2 ^ 48 \<le> starting_address i \<and> starting_address i < 2 ^ 64) [IO_BOOT_BUS..<ADDRESS_SECTIONS]"
proof -
  have "list_all (\<lambda>r. 2 ^ 48 \<le> fst r \<and> fst r < 2 ^ 64) (drop 4 init_map_array)" by (simp add: init_map_array_def)
  from all_sections [OF this] show ?thesis unfolding list_all_iff starting_address_def by blast
qed

lemma add_sections_low:
  assumes "add_sections mmap ub is s = Inr s'" "list_all (\<lambda>i. 2 ^ 48 \<le> starting_address i \<and> starting_address i < 2 ^ 64) is" "unat k < 2 ^ 48"
  shows "GPAtoHVAMap_IPE s' k = GPAtoHVAMap_IPE s k"
  using assms(1,2)
proof (induction "is" arbitrary: s)
  case (Cons i "is")
  have "k \<noteq> of_int (starting_address i)"
  proof
    assume "k = of_int (starting_address i)"
    then have "uint k = starting_address i" using Cons.prems(2) by (simp add: uint_word_of_int)
    moreover have "k < 0x1000000000000" using assms(3) by (simp add: word_less_nat_alt)
    then have "uint k < 2 ^ 48" by (simp add: word_less_def)
    ultimately show False using Cons.prems(2) by simp
  qed
  then show ?case using Cons.IH Cons.prems
    by (auto simp: Let_def bind_result_Inr_iff add_region_Inr(3) split: if_splits elim!: add_Mem_RegionE)
qed simp

lemma initialize_size:
  assumes "initialize_GPA_subsections mmap ub ram = Inr s" "unat ram \<le> 0x400000000" "unat k < 2 ^ 48"
  shows "size_at s k = ram_size_at (unat ram) (unat k)"
proof -
  obtain t where t: "alloc_DRAM mmap ub ram \<lparr>GPAtoHVAMap_IPE = Map.empty, mappings = []\<rparr> = Inr t"
      "add_sections mmap ub [IO_BOOT_BUS..<ADDRESS_SECTIONS] t = Inr s"
    using assms(1) by (auto simp: initialize_GPA_subsections_def bind_result_Inr_iff)
  have "size_at s k = size_at t k"
    using add_sections_low [OF t(2) io_sections_high assms(3)] by (simp add: size_at_def)
  then show ?thesis using alloc_DRAM_size [OF t(1) assms(2)] by simp
qed

section \<open>Regions do not overlap\<close>

text \<open>
  What is asked of the operating system: a mapping lies above address zero, within the address space and apart
  from the earlier ones.
\<close>

definition mmap_ok :: "mmap_call \<Rightarrow> bool" where
  "mmap_ok mmap \<longleftrightarrow> (\<forall>h n p. mmap h n = Some p \<longrightarrow> p \<noteq> 0 \<and> unat p + unat n \<le> 2 ^ 64
     \<and> (\<forall>(q, m) \<in> set h. unat p + unat n \<le> unat q \<or> unat q + unat m \<le> unat p))"

definition apart :: "GPAtoHVAmap_Val_IPE \<Rightarrow> GPAtoHVAmap_Val_IPE \<Rightarrow> bool" where
  "apart v w \<longleftrightarrow> unat (val_HVA v) + unat (val_size v) \<le> unat (val_HVA w) \<or> unat (val_HVA w) + unat (val_size w) \<le> unat (val_HVA v)"

definition within :: "(u64 \<times> u64) list \<Rightarrow> GPAtoHVAmap_Val_IPE \<Rightarrow> bool" where
  "within h v \<longleftrightarrow> val_HVA v \<noteq> 0 \<and> (\<exists>n. (val_HVA v, n) \<in> set h \<and> unat (val_size v) \<le> unat n \<and> unat (val_HVA v) + unat n \<le> 2 ^ 64)"

definition map_wf :: "GPAMap \<Rightarrow> bool" where
  "map_wf s \<longleftrightarrow> (\<forall>k v. GPAtoHVAMap_IPE s k = Some v \<longrightarrow> within (mappings s) v
     \<and> (\<forall>k' v'. GPAtoHVAMap_IPE s k' = Some v' \<longrightarrow> k \<noteq> k' \<longrightarrow> apart v v'))"

lemma apart_sym: "apart v w = apart w v"
  by (auto simp: apart_def)

lemma map_wf_add:
  assumes "map_wf s" "mmap_ok mmap" "add_region mmap n key idx s = Inr (d, s')"
  shows "map_wf s'"
proof -
  note a = add_region_Inr [OF assms(3)]
  define v where "v = \<lparr>val_HVA = d, val_size = (ucast n :: u32), map_idx = of_nat idx\<rparr>"
  have d: "d \<noteq> 0" "unat d + unat n \<le> 2 ^ 64" "(q, m) \<in> set (mappings s) \<Longrightarrow> unat d + unat n \<le> unat q \<or> unat q + unat m \<le> unat d" for q m
    using assms(2) a(1) unfolding mmap_ok_def by blast+
  have vs: "unat (val_size v) \<le> unat n" by (simp add: v_def unsigned_ucast_eq take_bit_nat_less_eq_self)
  have wv: "within (mappings s') v" using d(1,2) vs by (auto simp: within_def a(2) v_def)
  have mono: "within (mappings s) w \<Longrightarrow> within (mappings s') w" for w by (auto simp: within_def a(2))
  have ap: "apart v w" if w: "within (mappings s) w" for w
  proof -
    obtain m where "(val_HVA w, m) \<in> set (mappings s)" "unat (val_size w) \<le> unat m" using w by (auto simp: within_def)
    then show ?thesis using d(3) [of "val_HVA w" m] vs by (auto simp: apart_def v_def)
  qed
  have old: "within (mappings s) w" if "GPAtoHVAMap_IPE s k = Some w" for k w
    using assms(1) that by (auto simp: map_wf_def)
  have m: "GPAtoHVAMap_IPE s' = (GPAtoHVAMap_IPE s)(key \<mapsto> v)" using a(3) by (simp add: v_def)
  have "within (mappings s') w" if "GPAtoHVAMap_IPE s' k = Some w" for k w
    using that wv mono old by (auto simp: m split: if_splits)
  moreover have "apart w w'" if "GPAtoHVAMap_IPE s' k = Some w" "GPAtoHVAMap_IPE s' k' = Some w'" "k \<noteq> k'" for k k' w w'
    using that ap old assms(1) apart_sym [of w v] unfolding m map_wf_def by (auto split: if_splits)
  ultimately show ?thesis by (simp add: map_wf_def)
qed

lemma map_wf_add_Mem: "map_wf s \<Longrightarrow> mmap_ok mmap \<Longrightarrow> add_Mem_Region mmap n key s = Inr s' \<Longrightarrow> map_wf s'"
  by (auto elim: add_Mem_RegionE intro: map_wf_add)

lemma map_wf_chunks: "alloc_chunks mmap r off s = Inr s' \<Longrightarrow> map_wf s \<Longrightarrow> mmap_ok mmap \<Longrightarrow> map_wf s'"
proof (induction mmap r off s rule: alloc_chunks.induct)
  case (1 mmap r off s)
  show ?case
  proof (cases "r > 0")
    case True
    obtain t where "add_Mem_Region mmap (if r > MAX_SECTION_SIZE then MAX_SECTION_SIZE else r) (of_int (starting_address DR2_DRAM) + off) s = Inr t"
        "alloc_chunks mmap (r - (if r > MAX_SECTION_SIZE then MAX_SECTION_SIZE else r)) (off + (if r > MAX_SECTION_SIZE then MAX_SECTION_SIZE else r)) t = Inr s'"
      using "1.prems"(1) True unfolding alloc_chunks.simps [of mmap r] Let_def bind_result_Inr_iff if_P [OF True] by blast
    then show ?thesis using "1.IH" [OF True refl] map_wf_add_Mem "1.prems"(2,3) by blast
  next
    case False
    then show ?thesis using "1.prems"(1,2) unfolding alloc_chunks.simps [of mmap r] if_not_P [OF False] by simp
  qed
qed

lemma map_wf_sections: "add_sections mmap ub is s = Inr s' \<Longrightarrow> map_wf s \<Longrightarrow> mmap_ok mmap \<Longrightarrow> map_wf s'"
  by (induction "is" arbitrary: s) (auto simp: Let_def bind_result_Inr_iff split: if_splits intro: map_wf_add_Mem)

lemma map_wf_initialize:
  assumes "initialize_GPA_subsections mmap ub ram = Inr s" "mmap_ok mmap"
  shows "map_wf s"
proof -
  have e: "map_wf \<lparr>GPAtoHVAMap_IPE = Map.empty, mappings = []\<rparr>" by (simp add: map_wf_def)
  have "map_wf t" if t: "alloc_DRAM mmap ub ram \<lparr>GPAtoHVAMap_IPE = Map.empty, mappings = []\<rparr> = Inr t" for t
  proof -
    obtain s0 s1 s2 n1 n2 r where "add_Mem_Region mmap (section_size ub 1) (of_int (starting_address 1)) \<lparr>GPAtoHVAMap_IPE = Map.empty, mappings = []\<rparr> = Inr s0"
        "add_Mem_Region mmap n1 (of_int (starting_address 0)) s0 = Inr s1" "add_Mem_Region mmap n2 (of_int (starting_address 3)) s1 = Inr s2"
        "(if r > 0 then alloc_chunks mmap r 0 s2 else Inr s2) = Inr t"
      using t by (auto simp only: alloc_DRAM_def Let_def bind_result_Inr_iff)
    then show ?thesis
      using map_wf_add_Mem [OF e assms(2)] map_wf_add_Mem [OF _ assms(2)] map_wf_chunks [OF _ _ assms(2)]
      by (metis Inr_inject)
  qed
  then show ?thesis
    using assms map_wf_sections unfolding initialize_GPA_subsections_def bind_result_Inr_iff by blast
qed

section \<open>Translation of RAM addresses\<close>

text \<open>The guest physical addresses of a RAM of \<open>ram\<close> bytes: the two banks of 256 MB and, from 0x20000000, the rest.\<close>

definition ram_address :: "nat \<Rightarrow> nat \<Rightarrow> bool" where
  "ram_address ram a \<longleftrightarrow>
     a < 2 ^ 28 \<and> a < ram
     \<or> 0x410000000 \<le> a \<and> a < 0x420000000 \<and> a - 0x410000000 + 2 ^ 28 < ram
     \<or> 0x20000000 \<le> a \<and> a - 0x20000000 + 2 ^ 29 < ram"

lemma memory_key:
  assumes "unat a < 2 ^ 48"
  shows "get_base_and_offset a = (a AND MEM_ADDR_BASE_MASK, a AND MEM_ADDR_OFFSET_MASK)"
    "unat (a AND MEM_ADDR_OFFSET_MASK) = unat a mod 2 ^ 28" "unat (a AND MEM_ADDR_BASE_MASK) = unat a - unat a mod 2 ^ 28"
proof -
  have "unat (drop_bit 48 a) = 0" using assms by (simp add: drop_bit_eq_div unat_div_distrib)
  then show "get_base_and_offset a = (a AND MEM_ADDR_BASE_MASK, a AND MEM_ADDR_OFFSET_MASK)"
    by (auto simp: get_base_and_offset_def)
  have m: "MEM_ADDR_OFFSET_MASK = mask 28" "MEM_ADDR_BASE_MASK = NOT (mask 28)" by (simp_all add: mask_numeral)
  show o: "unat (a AND MEM_ADDR_OFFSET_MASK) = unat a mod 2 ^ 28"
    unfolding m by (simp add: take_bit_eq_mod unat_mod_distrib flip: take_bit_eq_mask)
  have "a AND NOT (mask 28) = push_bit 28 (drop_bit 28 a)" by (rule bit_word_eqI) (auto simp: bit_simps)
  then have "a AND NOT (mask 28) = a - (a AND mask 28)"
    using bits_ident [of 28 a] by (simp add: eq_diff_eq flip: take_bit_eq_mask)
  moreover have "a AND mask 28 \<le> a" by (rule word_and_le2)
  ultimately show "unat (a AND MEM_ADDR_BASE_MASK) = unat a - unat a mod 2 ^ 28"
    using o unfolding m by (simp add: unat_sub)
qed

lemma ram_backed:
  assumes "ram_address ram a" "ram \<le> 0x400000000"
  shows "a < 2 ^ 48 \<and> (\<exists>n. ram_size_at ram (a - a mod 2 ^ 28) = Some n \<and> a mod 2 ^ 28 < n)"
proof -
  define q where "q = a div 2 ^ 28"
  define m where "m = a mod 2 ^ 28"
  have a: "a = q * 2 ^ 28 + m" "m < 2 ^ 28" "a - a mod 2 ^ 28 = q * 2 ^ 28" "a mod 2 ^ 28 = m"
    by (simp_all add: q_def m_def minus_mod_eq_div_mult)
  from assms(1) consider "a < 2 ^ 28" "a < ram" | "0x410000000 \<le> a" "a < 0x420000000" "a - 0x410000000 + 2 ^ 28 < ram"
    | "0x20000000 \<le> a" "a - 0x20000000 + 2 ^ 29 < ram"
    by (auto simp: ram_address_def)
  then show ?thesis
  proof cases
    case 1
    then have "q = 0" "a = m" by (simp_all add: q_def m_def)
    then show ?thesis using 1 a by (simp add: ram_size_at_def)
  next
    case 2
    then have "q = 65" unfolding q_def by (intro div_nat_eqI) simp_all
    then show ?thesis using 2 a by (simp add: ram_size_at_def)
  next
    case 3
    then have "2 \<le> q" "q < 65" using assms(2) unfolding q_def by (simp_all add: less_eq_div_iff_mult_less_eq div_less_iff_less_mult)
    moreover have "(q * 2 ^ 28 - 0x20000000) mod 2 ^ 28 = 0" using \<open>2 \<le> q\<close> mod_mult_self2_is_0 [of "q - 2" "2 ^ 28"] by (simp add: diff_mult_distrib)
    ultimately show ?thesis using 3 a assms(2) by (auto simp: ram_size_at_def)
  qed
qed

lemma GPA_to_HVA_hit:
  "get_base_and_offset a = (key, off) \<Longrightarrow> GPAtoHVAMap_IPE s key = Some v \<Longrightarrow> val_HVA v \<noteq> 0 \<Longrightarrow> GPA_to_HVA mmap ub a s = Inr (val_HVA v + off, s)"
  by (simp add: GPA_to_HVA_def translate_GPA_to_HVA_def)

text \<open>What remains true of the table while regions of I/O are added: it is sound, and its entries for RAM are those of the start.\<close>

definition ram_map :: "nat \<Rightarrow> GPAMap \<Rightarrow> bool" where
  "ram_map ram s \<longleftrightarrow> map_wf s \<and> (\<forall>k. unat k < 2 ^ 48 \<longrightarrow> size_at s k = ram_size_at ram (unat k))"

lemma ram_map_initialize:
  assumes "mmap_ok mmap" "initialize_GPA_subsections mmap ub ram = Inr s" "unat ram \<le> 0x400000000"
  shows "ram_map (unat ram) s"
  using map_wf_initialize [OF assms(2,1)] initialize_size [OF assms(2,3)] by (simp add: ram_map_def)

lemma find_index_high:
  assumes "find_index key = Some i"
  shows "2 ^ 48 \<le> unat key"
proof -
  have found: "find P xs = Some j \<Longrightarrow> j \<in> set xs \<and> P j" for P j and xs :: "nat list"
    by (induction xs) (auto split: if_splits)
  have i: "i \<in> set [IO_BOOT_BUS..<ADDRESS_SECTIONS]" "starting_address i \<le> uint key"
    using found [OF assms [unfolded find_index_def]] by blast+
  then have "2 ^ 48 \<le> starting_address i" using io_sections_high unfolding list_all_iff by blast
  then have "2 ^ 48 \<le> uint key" using i(2) by linarith
  then show ?thesis by (simp add: uint_nat del: of_nat_unat)
qed

lemma ram_map_GPA:
  assumes "ram_map ram s" "mmap_ok mmap" "GPA_to_HVA mmap ub a s = Inr (h, s')"
  shows "ram_map ram s'"
proof -
  obtain key off where k: "get_base_and_offset a = (key, off)" by (cases "get_base_and_offset a")
  show ?thesis
  proof (cases "translate_GPA_to_HVA s key = 0")
    case True
    then obtain i n d where i: "find_index key = Some i" and r: "add_region mmap n key i s = Inr (d, s')"
      using assms(3) by (auto simp: GPA_to_HVA_def k add_IO_Region_def Let_def bind_result_Inr_iff split: option.splits)
    have "size_at s' j = size_at s j" if "unat j < 2 ^ 48" for j
      using that find_index_high [OF i] by (auto simp: size_at_def add_region_Inr(3) [OF r])
    then show ?thesis using assms(1) map_wf_add [OF _ assms(2) r] by (simp add: ram_map_def)
  next
    case False
    then show ?thesis using assms(1,3) by (simp add: GPA_to_HVA_def k)
  qed
qed

text \<open>The tables of a run: the start, then any translations, those that add a region included.\<close>

inductive map_reachable :: "mmap_call \<Rightarrow> u64 \<Rightarrow> u64 \<Rightarrow> GPAMap \<Rightarrow> bool" for mmap ub ram where
  start: "initialize_GPA_subsections mmap ub ram = Inr s \<Longrightarrow> map_reachable mmap ub ram s"
| translate: "map_reachable mmap ub ram s \<Longrightarrow> GPA_to_HVA mmap ub a s = Inr (h, s') \<Longrightarrow> map_reachable mmap ub ram s'"

lemma reachable_ram_map:
  "map_reachable mmap ub ram s \<Longrightarrow> mmap_ok mmap \<Longrightarrow> unat ram \<le> 0x400000000 \<Longrightarrow> ram_map (unat ram) s"
  by (induction rule: map_reachable.induct) (auto intro: ram_map_initialize ram_map_GPA)

lemma ram_placed:
  assumes "ram_map ram s" "ram \<le> 0x400000000" "ram_address ram (unat a)"
  shows "\<exists>v. GPAtoHVAMap_IPE s (a AND MEM_ADDR_BASE_MASK) = Some v \<and> within (mappings s) v \<and> unat a mod 2 ^ 28 < unat (val_size v)
    \<and> GPA_to_HVA mmap ub a s = Inr (val_HVA v + (a AND MEM_ADDR_OFFSET_MASK), s)
    \<and> unat (val_HVA v + (a AND MEM_ADDR_OFFSET_MASK)) = unat (val_HVA v) + unat a mod 2 ^ 28"
proof -
  obtain n where n: "unat a < 2 ^ 48" "ram_size_at ram (unat a - unat a mod 2 ^ 28) = Some n" "unat a mod 2 ^ 28 < n"
    using ram_backed [OF assms(3,2)] by blast
  note k = memory_key [OF n(1)]
  have "size_at s (a AND MEM_ADDR_BASE_MASK) = Some n"
    using assms(1) n k(3) by (simp add: ram_map_def)
  then obtain v where v: "GPAtoHVAMap_IPE s (a AND MEM_ADDR_BASE_MASK) = Some v" "unat (val_size v) = n"
    by (auto simp: size_at_def)
  have w: "within (mappings s) v" using assms(1) v(1) by (auto simp: ram_map_def map_wf_def)
  then have "unat (val_HVA v) + unat a mod 2 ^ 28 < 2 ^ 64" using v(2) n(3) by (auto simp: within_def)
  then have "unat (val_HVA v + (a AND MEM_ADDR_OFFSET_MASK)) = unat (val_HVA v) + unat a mod 2 ^ 28"
    using k(2) by (simp add: unat_word_ariths)
  then show ?thesis using v w n(3) GPA_to_HVA_hit [OF k(1) v(1)] by (auto simp: within_def)
qed

text \<open>Where a RAM address is in host memory.\<close>

definition ram_HVA :: "GPAMap \<Rightarrow> u64 \<Rightarrow> u64" where
  "ram_HVA s a = translate_GPA_to_HVA s (a AND MEM_ADDR_BASE_MASK) + (a AND MEM_ADDR_OFFSET_MASK)"

lemma ram_HVA_is:
  assumes "ram_map ram s" "ram \<le> 0x400000000" "ram_address ram (unat a)"
  shows "GPA_to_HVA mmap ub a s = Inr (ram_HVA s a, s)"
  using ram_placed [OF assms, of mmap ub] by (auto simp: ram_HVA_def translate_GPA_to_HVA_def)

lemma ram_HVA_mapped:
  assumes "ram_map ram s" "ram \<le> 0x400000000" "ram_address ram (unat a)"
  shows "\<exists>(p, n) \<in> set (mappings s). unat p \<le> unat (ram_HVA s a) \<and> unat (ram_HVA s a) < unat p + unat n"
proof -
  from ram_placed [OF assms] obtain v where v: "GPAtoHVAMap_IPE s (a AND MEM_ADDR_BASE_MASK) = Some v"
      "within (mappings s) v" "unat a mod 2 ^ 28 < unat (val_size v)"
      "unat (val_HVA v + (a AND MEM_ADDR_OFFSET_MASK)) = unat (val_HVA v) + unat a mod 2 ^ 28" by blast
  then have h: "unat (ram_HVA s a) = unat (val_HVA v) + unat a mod 2 ^ 28" by (simp add: ram_HVA_def translate_GPA_to_HVA_def)
  obtain n where "(val_HVA v, n) \<in> set (mappings s)" "unat (val_size v) \<le> unat n" using v(2) by (auto simp: within_def)
  then show ?thesis using v(3) unfolding h by (intro bexI [of _ "(val_HVA v, n)"]) auto
qed

lemma ram_HVA_inj:
  assumes "ram_map ram s" "ram \<le> 0x400000000" "ram_address ram (unat a)" "ram_address ram (unat b)" "ram_HVA s a = ram_HVA s b"
  shows "a = b"
proof (rule ccontr)
  assume "a \<noteq> b"
  from ram_placed [OF assms(1-3)] obtain v where v: "GPAtoHVAMap_IPE s (a AND MEM_ADDR_BASE_MASK) = Some v"
      "unat a mod 2 ^ 28 < unat (val_size v)"
      "unat (val_HVA v + (a AND MEM_ADDR_OFFSET_MASK)) = unat (val_HVA v) + unat a mod 2 ^ 28" by blast
  from ram_placed [OF assms(1,2,4)] obtain w where w: "GPAtoHVAMap_IPE s (b AND MEM_ADDR_BASE_MASK) = Some w"
      "unat b mod 2 ^ 28 < unat (val_size w)"
      "unat (val_HVA w + (b AND MEM_ADDR_OFFSET_MASK)) = unat (val_HVA w) + unat b mod 2 ^ 28" by blast
  have "unat (val_HVA v) + unat a mod 2 ^ 28 \<noteq> unat (val_HVA w) + unat b mod 2 ^ 28"
  proof (cases "a AND MEM_ADDR_BASE_MASK = b AND MEM_ADDR_BASE_MASK")
    case True
    have n: "unat a < 2 ^ 48" "unat b < 2 ^ 48" using ram_backed assms(2-4) by blast+
    then have "unat a - unat a mod 2 ^ 28 = unat b - unat b mod 2 ^ 28" using True memory_key(3) by metis
    moreover have "unat a mod 2 ^ 28 \<le> unat a" "unat b mod 2 ^ 28 \<le> unat b" by simp_all
    ultimately have "unat a mod 2 ^ 28 \<noteq> unat b mod 2 ^ 28" using \<open>a \<noteq> b\<close> by (metis le_add_diff_inverse2 word_unat_eq_iff)
    then show ?thesis using True v(1) w(1) by simp
  next
    case False
    then have "apart v w" using assms(1) v(1) w(1) unfolding ram_map_def map_wf_def by blast
    then show ?thesis using v(2) w(2) by (auto simp: apart_def)
  qed
  then show False using assms(5) v(1,3) w(1,3) by (simp add: ram_HVA_def translate_GPA_to_HVA_def)
qed

section \<open>Properties\<close>

text \<open>
  Property C11. After a successful start with up to 16 GB, every RAM address translates, without a further mapping,
  to a host address inside mapped memory, and different RAM addresses go to different host addresses.
\<close>

theorem guest_ram_private:
  assumes "mmap_ok mmap" "initialize_GPA_subsections mmap ub ram = Inr s" "unat ram \<le> 0x400000000"
    "ram_address (unat ram) (unat a)" "ram_address (unat ram) (unat b)" "a \<noteq> b"
  shows "\<exists>h k. GPA_to_HVA mmap ub a s = Inr (h, s) \<and> GPA_to_HVA mmap ub b s = Inr (k, s) \<and> h \<noteq> k
    \<and> (\<exists>(p, n) \<in> set (mappings s). unat p \<le> unat h \<and> unat h < unat p + unat n)"
proof -
  note r = ram_map_initialize [OF assms(1-3)] assms(3)
  from ram_HVA_inj [OF r assms(4,5)] assms(6) have "ram_HVA s a \<noteq> ram_HVA s b" by blast
  then show ?thesis using ram_HVA_is [OF r assms(4)] ram_HVA_is [OF r assms(5)] ram_HVA_mapped [OF r assms(4)] by blast
qed

text \<open>A host that always maps above what it has mapped and rejects an empty mapping.\<close>

definition top_of :: "(u64 \<times> u64) list \<Rightarrow> nat" where
  "top_of h = foldr (\<lambda>(q, m). max (unat q + unat m)) h 0x10000"

definition first_fit :: mmap_call where
  "first_fit h n = (if n = 0 \<or> 2 ^ 64 < top_of h + unat n then None else Some (of_nat (top_of h)))"

lemma top_of_max: "(q, m) \<in> set h \<Longrightarrow> unat q + unat m \<le> top_of h" "0 < top_of h"
  unfolding top_of_def by (induction h) auto

lemma first_fitD:
  assumes "first_fit h n = Some p"
  shows "unat p = top_of h" "top_of h + unat n \<le> 2 ^ 64"
proof -
  show t: "top_of h + unat n \<le> 2 ^ 64" using assms by (simp add: first_fit_def split: if_splits)
  have "0 < unat n" using assms by (auto simp: first_fit_def unat_gt_0 split: if_splits)
  then show "unat p = top_of h" using assms t by (auto simp: first_fit_def unat_of_nat take_bit_nat_eq_self split: if_splits)
qed

lemma first_fit_ok: "mmap_ok first_fit"
proof -
  have "p \<noteq> 0" if "first_fit h n = Some p" for h n p
    using first_fitD(1) [OF that] top_of_max(2) [of h] by auto
  then show ?thesis using first_fitD top_of_max(1) unfolding mmap_ok_def by fastforce
qed

lemma first_fit_add:
  assumes "n \<noteq> 0" "top_of (mappings s) + unat n \<le> 2 ^ 64"
  shows "\<exists>s'. add_Mem_Region first_fit n key s = Inr s' \<and> top_of (mappings s') = top_of (mappings s) + unat n"
proof -
  have f: "first_fit (mappings s) n = Some (of_nat (top_of (mappings s)))" using assms by (simp add: first_fit_def)
  then have "top_of ((of_nat (top_of (mappings s)), n) # mappings s) = top_of (mappings s) + unat n"
    using first_fitD(1) [OF f] by (simp add: top_of_def)
  then show ?thesis using f by (simp add: add_Mem_Region_def add_region_def allocMemRegion_def)
qed

lemma first_fit_sections:
  assumes "list_all (\<lambda>i. section_size ub i \<noteq> 0) is" "top_of (mappings s) + length is * 2 ^ 28 \<le> 2 ^ 63"
  shows "\<exists>s'. add_sections first_fit ub is s = Inr s' \<and> top_of (mappings s') \<le> top_of (mappings s) + length is * 2 ^ 28"
  using assms
proof (induction "is" arbitrary: s)
  case (Cons i "is")
  show ?case
  proof (cases "section_size ub i \<le> MAX_SECTION_SIZE")
    case True
    then have le: "unat (section_size ub i) \<le> 2 ^ 28" by (simp add: word_le_nat_alt)
    then obtain t where t: "add_Mem_Region first_fit (section_size ub i) (of_int (starting_address i)) s = Inr t"
        "top_of (mappings t) = top_of (mappings s) + unat (section_size ub i)"
      using first_fit_add [of "section_size ub i" s "of_int (starting_address i)"] Cons.prems by auto
    then show ?thesis using Cons.IH [of t] Cons.prems le True by (fastforce simp: Let_def)
  next
    case False
    then show ?thesis using Cons.IH [of s] Cons.prems by (fastforce simp: Let_def)
  qed
qed simp

lemma io_sizes: "list_all (\<lambda>i. section_size 0xFFFFFFFFFFFFFFFF i \<noteq> 0) [IO_BOOT_BUS..<ADDRESS_SECTIONS]"
proof -
  have "list_all (\<lambda>r. to_uint64 0xFFFFFFFFFFFFFFFF (snd r - fst r + 1) \<noteq> 0) (drop 4 init_map_array)"
    by (simp add: init_map_array_def to_uint64_def)
  from all_sections [OF this] show ?thesis
    unfolding list_all_iff section_size_def starting_address_def ending_address_def by blast
qed

lemma first_fit_starts:
  "\<exists>s. initialize_GPA_subsections first_fit 0xFFFFFFFFFFFFFFFF 0x40000000 = Inr s \<and> top_of (mappings s) \<le> 2 ^ 40"
proof -
  let ?e = "\<lparr>GPAtoHVAMap_IPE = Map.empty, mappings = []\<rparr>"
  have e: "top_of (mappings ?e) = 0x10000" by (simp add: top_of_def)
  obtain s0 where s0: "add_Mem_Region first_fit 0x10000000 0x10000000 ?e = Inr s0" "top_of (mappings s0) = 0x10010000"
    using first_fit_add [of "0x10000000" ?e "0x10000000"] unfolding e by auto
  obtain s1 where s1: "add_Mem_Region first_fit 0x10000000 0 s0 = Inr s1" "top_of (mappings s1) = 0x20010000"
    using first_fit_add [of "0x10000000" s0 0] unfolding s0(2) by auto
  obtain s2 where s2: "add_Mem_Region first_fit 0x10000000 0x410000000 s1 = Inr s2" "top_of (mappings s2) = 0x30010000"
    using first_fit_add [of "0x10000000" s1 "0x410000000"] unfolding s1(2) by auto
  obtain s3 where s3: "add_Mem_Region first_fit 0x10000000 (of_int (starting_address DR2_DRAM) + 0) s2 = Inr s3" "top_of (mappings s3) = 0x40010000"
    using first_fit_add [of "0x10000000" s2 "of_int (starting_address DR2_DRAM) + 0"] unfolding s2(2) by auto
  obtain s4 where s4: "add_Mem_Region first_fit 0x10000000 (of_int (starting_address DR2_DRAM) + 0x10000000) s3 = Inr s4" "top_of (mappings s4) = 0x50010000"
    using first_fit_add [of "0x10000000" s3 "of_int (starting_address DR2_DRAM) + 0x10000000"] unfolding s3(2) by auto
  have "alloc_chunks first_fit 0x20000000 0 s2 = Inr s4"
    using s3(1) s4(1)
    by (simp add: alloc_chunks.simps [of first_fit "0x20000000"] alloc_chunks.simps [of first_fit "0x10000000"] alloc_chunks.simps [of first_fit 0])
  then have dram: "alloc_DRAM first_fit 0xFFFFFFFFFFFFFFFF 0x40000000 ?e = Inr s4"
    using s0(1) s1(1) s2(1) by (simp add: alloc_DRAM_def section_sizes Let_def)
  obtain s where "add_sections first_fit 0xFFFFFFFFFFFFFFFF [IO_BOOT_BUS..<ADDRESS_SECTIONS] s4 = Inr s"
    "top_of (mappings s) \<le> top_of (mappings s4) + length [IO_BOOT_BUS..<ADDRESS_SECTIONS] * 2 ^ 28"
    using first_fit_sections [OF io_sizes, of s4] s4(2) by auto
  then show ?thesis using s4(2) unfolding initialize_GPA_subsections_def dram by simp
qed

text \<open>This host also grants every region the translation of an I/O address asks for.\<close>

lemma first_fit_translates:
  assumes "GPAtoHVAMap_IPE s (fst (get_base_and_offset a)) \<noteq> None \<and> map_wf s \<or> find_index (fst (get_base_and_offset a)) = Some i \<and> section_size ub i \<noteq> 0"
    and "top_of (mappings s) \<le> 2 ^ 50"
  shows "\<exists>h s'. GPA_to_HVA first_fit ub a s = Inr (h, s') \<and> top_of (mappings s') \<le> top_of (mappings s) + unat MAX_IO_SECTION_SIZE"
proof -
  obtain key off where k: "get_base_and_offset a = (key, off)" by (cases "get_base_and_offset a")
  show ?thesis
  proof (cases "translate_GPA_to_HVA s key = 0")
    case True
    then have "\<not> (GPAtoHVAMap_IPE s key \<noteq> None \<and> map_wf s)" by (fastforce simp: translate_GPA_to_HVA_def map_wf_def within_def)
    then have i: "find_index key = Some i" "section_size ub i \<noteq> 0" using assms(1) by (auto simp: k)
    define n where "n = (if section_size ub i > MAX_IO_SECTION_SIZE then MAX_IO_SECTION_SIZE else section_size ub i)"
    have n: "n \<noteq> 0" "unat n \<le> unat MAX_IO_SECTION_SIZE" using i(2) by (auto simp: n_def word_less_nat_alt)
    have f: "first_fit (mappings s) n = Some (of_nat (top_of (mappings s)))" using n assms(2) by (simp add: first_fit_def)
    then have "top_of ((of_nat (top_of (mappings s)), n) # mappings s) = top_of (mappings s) + unat n"
      using first_fitD(1) [OF f] by (simp add: top_of_def)
    moreover have "add_IO_Region first_fit ub key s = add_region first_fit n key i s"
      using i(1) by (simp add: add_IO_Region_def n_def Let_def)
    ultimately show ?thesis using True f n(2) by (simp add: GPA_to_HVA_def k add_region_def allocMemRegion_def)
  qed (simp add: GPA_to_HVA_def k)
qed

theorem guest_ram_private_witness:
  "\<exists>s h k. initialize_GPA_subsections first_fit 0xFFFFFFFFFFFFFFFF 0x40000000 = Inr s
     \<and> GPA_to_HVA first_fit 0xFFFFFFFFFFFFFFFF 0x100 s = Inr (h, s) \<and> GPA_to_HVA first_fit 0xFFFFFFFFFFFFFFFF 0x20000100 s = Inr (k, s) \<and> h \<noteq> k"
proof -
  obtain s where s: "initialize_GPA_subsections first_fit 0xFFFFFFFFFFFFFFFF 0x40000000 = Inr s"
    using first_fit_starts by blast
  from guest_ram_private [OF first_fit_ok s, of "0x100" "0x20000100"] show ?thesis
    using s by (auto simp: ram_address_def)
qed

text \<open>
  A RAM of at most 256 MB does not start: the second bank is then of size zero, which the host
  does not map.
\<close>

lemma small_ram_exits:
  assumes "\<forall>h. mmap h 0 = None" "ram \<le> 0x10000000"
  shows "initialize_GPA_subsections mmap ub ram = Inl ExitError"
proof -
  have zero: "add_Mem_Region mmap 0 key s = Inl ExitError" for key s
    using assms(1) by (simp add: add_Mem_Region_def add_region_def allocMemRegion_def)
  have fail: "add_Mem_Region mmap n key s = Inl e \<Longrightarrow> e = ExitError" for n key s e
    by (auto simp: add_Mem_Region_def add_region_def allocMemRegion_def split: option.splits)
  have "alloc_DRAM mmap ub ram s = Inl ExitError" for s
    using assms(2) zero fail
    by (cases "add_Mem_Region mmap 0x10000000 0x10000000 s")
       (auto simp: alloc_DRAM_def section_sizes Let_def bind_result_def not_less split: sum.splits)
  then show ?thesis by (simp only: initialize_GPA_subsections_def bind_result_simps)
qed

lemma add_sections_keeps:
  assumes "add_sections mmap ub is s = Inr s'" "\<forall>i \<in> set is. of_int (starting_address i) \<noteq> k"
  shows "GPAtoHVAMap_IPE s' k = GPAtoHVAMap_IPE s k"
  using assms
  by (induction "is" arbitrary: s)
     (auto simp: Let_def bind_result_Inr_iff add_region_Inr(3) split: if_splits elim!: add_Mem_RegionE)

lemma virtio_region:
  assumes "initialize_GPA_subsections mmap ub ram = Inr s" "mmap_ok mmap"
  shows "\<exists>v. GPAtoHVAMap_IPE s 0x1180070000000 = Some v \<and> val_size v = 0x2000 \<and> val_HVA v \<noteq> 0"
proof -
  obtain t where t: "add_sections mmap ub ([4, 5] @ 6 # [7..<51]) t = Inr s"
    using assms(1) by (auto simp: initialize_GPA_subsections_def bind_result_Inr_iff upt_rec_numeral)
  have split: "add_sections mmap ub (xs @ ys) u = bind_result (add_sections mmap ub xs u) (add_sections mmap ub ys)" for xs ys u
    by (induction xs arbitrary: u) (auto simp: Let_def bind_result_def split: sum.splits)
  obtain t' where t': "add_sections mmap ub (6 # [7..<51]) t' = Inr s"
    using t unfolding split bind_result_Inr_iff by blast
  have six: "section_size ub 6 = 0x2000" "(of_int (starting_address 6) :: u64) = 0x1180070000000"
    by (simp_all add: section_size_def to_uint64_def starting_address_def ending_address_def init_map_array_def)
  obtain u d where u: "add_region mmap 0x2000 0x1180070000000 DR2_DRAM t' = Inr (d, u)" "add_sections mmap ub [7..<51] u = Inr s"
    using t' unfolding add_sections.simps six Let_def by (auto simp: bind_result_Inr_iff simp del: upt_rec_numeral elim!: add_Mem_RegionE)
  have high: "list_all (\<lambda>r. (of_int (fst r) :: u64) \<noteq> 0x1180070000000) (drop 7 init_map_array)" by (simp add: init_map_array_def)
  have "\<forall>i \<in> set [7..<51]. (of_int (starting_address i) :: u64) \<noteq> 0x1180070000000"
    unfolding starting_address_def by (rule ballI) (rule all_sections [OF high])
  from add_sections_keeps [OF u(2) this] add_region_Inr(3) [OF u(1)]
  have "GPAtoHVAMap_IPE s 0x1180070000000 = Some \<lparr>val_HVA = d, val_size = 0x2000, map_idx = of_nat DR2_DRAM\<rparr>" by simp
  moreover have "d \<noteq> 0" using add_region_Inr(1) [OF u(1)] assms(2) unfolding mmap_ok_def by blast
  ultimately show ?thesis by simp
qed

text \<open>
  The offset of an address is not checked against the length of its region: after the start, an access
  just behind the page pair of the Virtio devices goes to the host address just behind their mapping.
\<close>

lemma io_offset_unchecked:
  assumes "mmap_ok mmap" "initialize_GPA_subsections mmap ub ram = Inr s" "k < 0x8000000"
  shows "\<exists>v. GPAtoHVAMap_IPE s 0x1180070000000 = Some v \<and> val_size v = 0x2000
    \<and> GPA_to_HVA mmap ub (0x1180070000000 + k) s = Inr (val_HVA v + k, s)"
proof -
  obtain v where v: "GPAtoHVAMap_IPE s 0x1180070000000 = Some v" "val_size v = 0x2000" "val_HVA v \<noteq> 0"
    using virtio_region [OF assms(2,1)] by blast
  have "k < 2 ^ 27" using assms(3) by simp
  then have "take_bit 27 k = k" by (simp only: take_bit_eq_mask less_mask_eq)
  then have k: "k = k AND 0x7FFFFFF" by (simp add: take_bit_eq_mask mask_numeral)
  have "0x1180070000000 + (k AND 0x7FFFFFF) = 0x1180070000000 OR (k AND 0x7FFFFFF)"
  proof -
    have "0x1180070000000 AND (k AND 0x7FFFFFF) = 0" by (rule word64_eqI) (simp add: bitblast bit_simps)
    then show ?thesis by (metis word_plus_and_or add_0)
  qed
  then have sum: "0x1180070000000 + k = 0x1180070000000 OR (k AND 0x7FFFFFF)" using k by metis
  have "drop_bit 48 (0x1180070000000 OR (k AND 0x7FFFFFF)) = 1"
    "(0x1180070000000 OR (k AND 0x7FFFFFF)) AND IO_ADDR_BASE_MASK = 0x1180070000000"
    "(0x1180070000000 OR (k AND 0x7FFFFFF)) AND IO_ADDR_OFFSET_MASK = k AND 0x7FFFFFF"
    by (rule word64_eqI; simp add: bitblast bit_simps)+
  then have "get_base_and_offset (0x1180070000000 + k) = (0x1180070000000, k)"
    unfolding sum get_base_and_offset_def using k by simp
  from GPA_to_HVA_hit [OF this v(1,3)] v show ?thesis by blast
qed

end
