(* ===== verification/IOManager.thy ===== *)
theory IOManager
  imports AddrCache MMU GPAMap
begin

text \<open>
  The way from a guest virtual address to a host address, \<^verbatim>\<open>GVAtoHVATranslation_IPE.cpp\<close>, and the manager of the
  devices, \<^verbatim>\<open>IOManager.cpp\<close>: one mailbox per device, through which a core hands a register access to
  the device's thread, and the host address of each device's registers. The build has no network device, so there are three.

  A core waits for a device in a busy loop on \<^verbatim>\<open>isServiced\<close>. An operation of the model returns \<open>None\<close> for a core that
  is still waiting; the access is repeated in a later state. The second half of the theory is the protocol between
  a core and a device thread as a step relation.
\<close>

section \<open>From guest virtual to host virtual addresses\<close>

text \<open>
  The value returned, the final content of \<^verbatim>\<open>*HVA\<close> (the handler's address when the translation failed) and the
  states. The local variable \<^verbatim>\<open>GPA\<close> is not initialized; \<open>junk\<close> is its content.
\<close>

definition GVAtoHVA ::
    "mmap_call \<Rightarrow> u64 \<Rightarrow> u64 \<Rightarrow> CP0_IPE \<Rightarrow> TLB_IPE \<Rightarrow> u64 \<Rightarrow> Context_IPE \<Rightarrow> GPAMap \<Rightarrow>
     (bool \<times> u64 \<times> CP0_IPE \<times> Context_IPE \<times> GPAMap) result" where
  "GVAtoHVA mmap ub junk cp0 tlb GVA ctx gm =
     bind_result (mmu_GVAtoGPA cp0 tlb GVA junk ctx) (\<lambda>(ok, GPA, cp0, ctx).
       if ok then bind_result (GPA_to_HVA mmap ub GPA gm) (\<lambda>(HVA, gm). Inr (True, HVA, cp0, ctx, gm))
       else Inr (False, GPA, cp0, ctx, gm))"

text \<open>The loader's translation. The first component is \<open>None\<close> when the function returns \<^verbatim>\<open>false\<close>.\<close>

definition GVAtoHVA_for_fileloading :: "mmap_call \<Rightarrow> u64 \<Rightarrow> u64 \<Rightarrow> GPAMap \<Rightarrow> (u64 option \<times> GPAMap) result" where
  "GVAtoHVA_for_fileloading mmap ub GVA gm =
     (case GVAtoGPA_for_fileloading GVA of
        None \<Rightarrow> Inr (None, gm)
      | Some GPA \<Rightarrow> bind_result (GPA_to_HVA mmap ub GPA gm) (\<lambda>(HVA, gm). Inr (Some HVA, gm)))"

section \<open>The manager\<close>

abbreviation (input) UART_ID :: nat where "UART_ID \<equiv> 0"
abbreviation (input) CIU_ID :: nat where "CIU_ID \<equiv> 1"
abbreviation (input) VBLK_ID :: nat where "VBLK_ID \<equiv> 2"
abbreviation (input) AVAILABLE_DEVICES :: nat where "AVAILABLE_DEVICES \<equiv> 3"

abbreviation (input) IO_MASK :: u64 where "IO_MASK \<equiv> 0x0001000000000000"
abbreviation (input) UART_OFFSET_MASK :: u64 where "UART_OFFSET_MASK \<equiv> 0x07FF"
abbreviation (input) CIU_REG_MASK :: u64 where "CIU_REG_MASK \<equiv> 0x7FFF"
abbreviation (input) VNET_OFFSET_MASK :: u64 where "VNET_OFFSET_MASK \<equiv> 0x1FF"
abbreviation (input) UART0_BASE_ADDR :: u64 where "UART0_BASE_ADDR \<equiv> 0x8001180000000800"
abbreviation (input) UART1_BASE_ADDR :: u64 where "UART1_BASE_ADDR \<equiv> 0x8001180000000C00"
abbreviation (input) UART1_END_ADDR :: u64 where "UART1_END_ADDR \<equiv> 0x8001180000000C90"
abbreviation (input) CIU_BASE_ADDR :: u64 where "CIU_BASE_ADDR \<equiv> 0x8001070000000000"
abbreviation (input) CIU_END_ADDR :: u64 where "CIU_END_ADDR \<equiv> 0x8001070000006D40"
abbreviation (input) VBLK_BASE_ADDR :: u64 where "VBLK_BASE_ADDR \<equiv> 0x9001180070000200"
abbreviation (input) VBLK_END_ADDR :: u64 where "VBLK_END_ADDR \<equiv> 0x9001180070000320"

record DeviceMessageBox =
  mb_addr :: u64
  mb_data :: u64
  mb_RW :: u64
  isServiced :: bool

record IOManager =
  ioaddrCache :: AddrTranslationCache
  MessageBox :: "DeviceMessageBox list"
  DeviceHVA :: "u64 list"

definition isIOaddr :: "u64 \<Rightarrow> bool" where
  "isIOaddr addr \<longleftrightarrow> drop_bit 62 addr = 0x02 \<and> addr AND IO_MASK \<noteq> 0"

definition getMessageBox :: "IOManager \<Rightarrow> nat \<Rightarrow> DeviceMessageBox" where
  "getMessageBox m i = MessageBox m ! i"

definition getDeviceHVA :: "IOManager \<Rightarrow> nat \<Rightarrow> u64" where
  "getDeviceHVA m i = DeviceHVA m ! i"

fun device_addresses :: "mmap_call \<Rightarrow> u64 \<Rightarrow> u64 list \<Rightarrow> GPAMap \<Rightarrow> (u64 list \<times> GPAMap) result" where
  "device_addresses mmap ub [] gm = Inr ([], gm)"
| "device_addresses mmap ub (GVA # GVAs) gm =
     bind_result (GVAtoHVA_for_fileloading mmap ub GVA gm) (\<lambda>(h, gm).
       case h of
         None \<Rightarrow> Inl ExitError
       | Some HVA \<Rightarrow> bind_result (device_addresses mmap ub GVAs gm) (\<lambda>(hs, gm). Inr (HVA # hs, gm)))"

text \<open>The constructor. The parameters are what memory holds before: the cache is not cleared, nor are the messages.\<close>

definition new_IOManager ::
    "mmap_call \<Rightarrow> u64 \<Rightarrow> AddrTranslationCache \<Rightarrow> DeviceMessageBox list \<Rightarrow> GPAMap \<Rightarrow> (IOManager \<times> GPAMap) result" where
  "new_IOManager mmap ub cache boxes gm =
     bind_result (device_addresses mmap ub [UART1_BASE_ADDR, CIU_BASE_ADDR, VBLK_BASE_ADDR] gm)
       (\<lambda>(hs, gm). Inr (\<lparr>ioaddrCache = cache, MessageBox = map (\<lambda>b. b\<lparr>isServiced := True\<rparr>) boxes, DeviceHVA = hs\<rparr>, gm))"

definition updateMessageBox :: "nat \<Rightarrow> u64 \<Rightarrow> Context_IPE \<Rightarrow> IOManager \<Rightarrow> IOManager option" where
  "updateMessageBox i addr ctx m =
     (if \<not> isServiced (MessageBox m ! i) then None
      else Some (m\<lparr>MessageBox := (MessageBox m)[i :=
                    \<lparr>mb_addr = addr, mb_data = getWriteData ctx, mb_RW = getLDST ctx, isServiced = False\<rparr>]\<rparr>))"

text \<open>A write posts the access and a read waits for the device.\<close>

definition post_or_wait :: "nat \<Rightarrow> u64 \<Rightarrow> Context_IPE \<Rightarrow> IOManager \<Rightarrow> IOManager option" where
  "post_or_wait i GVA ctx m =
     (if getLDST ctx = ST_WRITE then updateMessageBox i GVA ctx m
      else if isServiced (MessageBox m ! i) then Some m else None)"

definition iom_GVAtoHVA ::
    "mmap_call \<Rightarrow> u64 \<Rightarrow> u64 \<Rightarrow> Context_IPE \<Rightarrow> IOManager \<Rightarrow> GPAMap \<Rightarrow> (u64 \<times> IOManager \<times> GPAMap) option result" where
  "iom_GVAtoHVA mmap ub GVA ctx m gm =
     (if GVA \<ge> CIU_BASE_ADDR \<and> GVA < CIU_END_ADDR
      then Inr (map_option (\<lambda>m. (DeviceHVA m ! CIU_ID OR (GVA AND CIU_REG_MASK), m, gm)) (post_or_wait CIU_ID GVA ctx m))
      else if GVA \<ge> UART0_BASE_ADDR \<and> GVA < UART1_END_ADDR
      then Inr (map_option (\<lambda>m. (DeviceHVA m ! UART_ID OR (GVA AND UART_OFFSET_MASK), m, gm)) (updateMessageBox UART_ID GVA ctx m))
      else if GVA \<ge> VBLK_BASE_ADDR \<and> GVA \<le> VBLK_END_ADDR
      then Inr (map_option (\<lambda>m. (DeviceHVA m ! VBLK_ID OR (GVA AND VNET_OFFSET_MASK), m, gm)) (post_or_wait VBLK_ID GVA ctx m))
      else
        (case Check_cache (ioaddrCache m) GVA ctx of
           (True, HVA) \<Rightarrow> Inr (Some (HVA, m, gm))
         | (False, HVA) \<Rightarrow>
             bind_result (GVAtoHVA_for_fileloading mmap ub GVA gm) (\<lambda>(h, gm).
               let HVA = (case h of None \<Rightarrow> HVA | Some HVA \<Rightarrow> HVA) in
               Inr (Some (HVA, m\<lparr>ioaddrCache := Update_cache GVA HVA ST_WRITE (ioaddrCache m)\<rparr>, gm)))))"

section \<open>The protocol between cores and a device\<close>

text \<open>
  The device thread enters its loop without the lock (\<open>Starting\<close>) and waits on its condition with the lock released
  (\<open>Waiting\<close>). A wake-up makes it compete for the lock (\<open>Woken\<close>); from then on it holds the lock while it handles
  the message (\<open>Handling\<close>) and, after it has set \<^verbatim>\<open>isServiced\<close>, while it returns to the wait (\<open>Returning\<close>).
  A core leaves the loop on \<^verbatim>\<open>isServiced\<close> (\<open>entering\<close> counts the cores there), clears \<^verbatim>\<open>isServiced\<close> and then waits for
  the lock (\<open>posting\<close> counts those); under the lock it signals and writes the message, in one step. At most \<open>n\<close> cores
  are on this path. A signal wakes a waiting thread and is otherwise lost. The flag \<open>spurious\<close> says whether
  \<^verbatim>\<open>pthread_cond_wait\<close> may also return without a signal, as its documentation allows. The lists record the messages
  posted and those handled.
\<close>

datatype device_thread = Starting | Waiting | Woken | Handling | Returning

record exchange =
  box :: DeviceMessageBox
  thread :: device_thread
  entering :: nat
  posting :: nat
  posted :: "(u64 \<times> u64 \<times> u64) list"
  handled :: "(u64 \<times> u64 \<times> u64) list"

definition message :: "DeviceMessageBox \<Rightarrow> u64 \<times> u64 \<times> u64" where
  "message b = (mb_addr b, mb_data b, mb_RW b)"

inductive handshake :: "bool \<Rightarrow> nat \<Rightarrow> exchange \<Rightarrow> exchange \<Rightarrow> bool" for spurious n where
  enter: "isServiced (box x) \<Longrightarrow> entering x + posting x < n \<Longrightarrow>
     handshake spurious n x (x\<lparr>entering := entering x + 1\<rparr>)"
| claim: "0 < entering x \<Longrightarrow>
     handshake spurious n x (x\<lparr>box := (box x)\<lparr>isServiced := False\<rparr>, entering := entering x - 1, posting := posting x + 1\<rparr>)"
| post: "0 < posting x \<Longrightarrow> thread x \<in> {Starting, Waiting, Woken} \<Longrightarrow>
     handshake spurious n x (x\<lparr>box := (box x)\<lparr>mb_addr := a, mb_data := d, mb_RW := rw\<rparr>, posting := posting x - 1,
       thread := (if thread x = Waiting then Woken else thread x), posted := posted x @ [(a, d, rw)]\<rparr>)"
| wake: "thread x = Woken \<Longrightarrow> handshake spurious n x (x\<lparr>thread := Handling\<rparr>)"
| handle: "thread x = Handling \<Longrightarrow>
     handshake spurious n x (x\<lparr>box := (box x)\<lparr>isServiced := True\<rparr>, thread := Returning, handled := handled x @ [message (box x)]\<rparr>)"
| sleep: "thread x \<in> {Starting, Returning} \<Longrightarrow> handshake spurious n x (x\<lparr>thread := Waiting\<rparr>)"
| no_signal: "spurious \<Longrightarrow> thread x = Waiting \<Longrightarrow> handshake spurious n x (x\<lparr>thread := Woken\<rparr>)"

inductive exchange_reachable :: "bool \<Rightarrow> nat \<Rightarrow> exchange \<Rightarrow> bool" for spurious n where
  fresh: "isServiced b \<Longrightarrow>
     exchange_reachable spurious n \<lparr>box = b, thread = Starting, entering = 0, posting = 0, posted = [], handled = []\<rparr>"
| step: "exchange_reachable spurious n x \<Longrightarrow> handshake spurious n x y \<Longrightarrow> exchange_reachable spurious n y"


text \<open>The message that is posted and not handled.\<close>

definition unhandled :: "exchange \<Rightarrow> (u64 \<times> u64 \<times> u64) list" where
  "unhandled x = (if isServiced (box x) \<or> 0 < posting x then [] else [message (box x)])"

definition exchange_ok :: "exchange \<Rightarrow> bool" where
  "exchange_ok x \<longleftrightarrow> posted x = handled x @ unhandled x
     \<and> (thread x \<in> {Woken, Handling} \<longrightarrow> unhandled x \<noteq> [])
     \<and> (thread x = Starting \<longrightarrow> handled x = [])
     \<and> (unhandled x \<noteq> [] \<longrightarrow> thread x \<in> {Woken, Handling} \<or> handled x = [] \<and> thread x \<in> {Starting, Waiting})
     \<and> entering x + posting x \<le> 1 \<and> (entering x = 1 \<longrightarrow> isServiced (box x)) \<and> (posting x = 1 \<longrightarrow> \<not> isServiced (box x))"

lemma exchange_reachable_ok: "exchange_reachable False 1 x \<Longrightarrow> exchange_ok x"
proof (induction rule: exchange_reachable.induct)
  case (step x y)
  from step.hyps(2) step.IH show ?case
    by (induction rule: handshake.induct) (auto simp: exchange_ok_def unhandled_def message_def split: if_splits)
qed (simp add: exchange_ok_def unhandled_def)

text \<open>
  The states of the runs below: before any message; one message posted and not handled; one message handled, with
  the thread back at its wait.
\<close>

definition fresh_exchange :: exchange where
  "fresh_exchange = \<lparr>box = \<lparr>mb_addr = 0, mb_data = 0, mb_RW = 0, isServiced = True\<rparr>, thread = Starting, entering = 0,
     posting = 0, posted = [], handled = []\<rparr>"

definition posted_exchange :: "u64 \<times> u64 \<times> u64 \<Rightarrow> device_thread \<Rightarrow> exchange" where
  "posted_exchange m t = (case m of (a, d, rw) \<Rightarrow>
     \<lparr>box = \<lparr>mb_addr = a, mb_data = d, mb_RW = rw, isServiced = False\<rparr>, thread = t, entering = 0, posting = 0,
      posted = [m], handled = []\<rparr>)"

lemma message_posted [simp]: "message (box (posted_exchange m t)) = m"
  by (simp add: posted_exchange_def message_def split: prod.splits)

text \<open>A core goes through its three steps, when the thread is in a state that leaves it the lock.\<close>

lemma reachable_posting:
  assumes "exchange_reachable sp n x" "isServiced (box x)" "entering x = 0" "posting x = 0" "0 < n"
    and "thread x \<in> {Starting, Waiting}"
  shows "exchange_reachable sp n (x\<lparr>box := \<lparr>mb_addr = a, mb_data = d, mb_RW = rw, isServiced = False\<rparr>,
     thread := (if thread x = Waiting then Woken else thread x), posted := posted x @ [(a, d, rw)]\<rparr>)"
proof -
  let ?e = "x\<lparr>entering := 1\<rparr>" let ?c = "x\<lparr>box := (box x)\<lparr>isServiced := False\<rparr>, entering := 0, posting := 1\<rparr>"
  have "handshake sp n x ?e" using handshake.enter [of x n sp] assms by simp
  with assms(1) have e: "exchange_reachable sp n ?e" by (rule exchange_reachable.step)
  have "handshake sp n ?e ?c" using handshake.claim [of ?e sp n] assms(3,4) by simp
  with e have c: "exchange_reachable sp n ?c" by (rule exchange_reachable.step)
  show ?thesis
    using exchange_reachable.step [OF c handshake.post [of ?c sp n a d rw]] assms(3,4,6)
    by (cases x; cases "box x") auto
qed

lemma reachable_fresh: "exchange_reachable sp n fresh_exchange" "exchange_reachable sp n (fresh_exchange\<lparr>thread := Waiting\<rparr>)"
proof -
  show f: "exchange_reachable sp n fresh_exchange" by (simp add: fresh_exchange_def exchange_reachable.fresh)
  show "exchange_reachable sp n (fresh_exchange\<lparr>thread := Waiting\<rparr>)"
    using exchange_reachable.step [OF f handshake.sleep] by (simp add: fresh_exchange_def)
qed

lemma reachable_post:
  assumes "0 < n"
  shows "exchange_reachable sp n (posted_exchange m Starting)" "exchange_reachable sp n (posted_exchange m Waiting)"
    and "exchange_reachable sp n (posted_exchange m Woken)"
proof -
  obtain a d rw where m: "m = (a, d, rw)" by (cases m)
  show r: "exchange_reachable sp n (posted_exchange m Starting)"
    using reachable_posting [OF reachable_fresh(1) _ _ _ assms, of sp a d rw] by (simp add: fresh_exchange_def posted_exchange_def m)
  show "exchange_reachable sp n (posted_exchange m Woken)"
    using reachable_posting [OF reachable_fresh(2) _ _ _ assms, of sp a d rw] by (simp add: fresh_exchange_def posted_exchange_def m)
  show "exchange_reachable sp n (posted_exchange m Waiting)"
    using exchange_reachable.step [OF r handshake.sleep] by (simp add: posted_exchange_def m)
qed

text \<open>
  With two cores the mailbox is not safe even when nothing is lost: both can leave the loop before either has
  posted, and the second message replaces the first.
\<close>

lemma message_replaced:
  assumes "2 \<le> n"
  shows "\<exists>x. exchange_reachable False n x \<and> posted x = [m, m'] \<and> handled x = [m'] \<and> isServiced (box x)
     \<and> entering x = 0 \<and> posting x = 0"
proof -
  obtain a d rw where m: "m = (a, d, rw)" by (cases m)
  obtain a' d' rw' where m': "m' = (a', d', rw')" by (cases m')
  let ?w = "fresh_exchange\<lparr>thread := Waiting\<rparr>" and ?E = "exchange_reachable False n"
  note s = exchange_reachable.step and d = fresh_exchange_def posted_exchange_def m m' numeral_2_eq_2
  have "?E (?w\<lparr>entering := 1\<rparr>)"
    using s [OF reachable_fresh(2) handshake.enter [of ?w n]] assms by (simp add: d)
  then have "?E (?w\<lparr>entering := 2\<rparr>)"
    using s [OF _ handshake.enter [of "?w\<lparr>entering := 1\<rparr>" n]] assms by (simp add: d)
  from s [OF this handshake.claim]
  have "?E (?w\<lparr>entering := 1, posting := 1, box := (box ?w)\<lparr>isServiced := False\<rparr>\<rparr>)" by (simp add: d)
  from s [OF this handshake.claim]
  have "?E (?w\<lparr>posting := 2, box := (box ?w)\<lparr>isServiced := False\<rparr>\<rparr>)" by (simp add: d)
  from s [OF this handshake.post [of _ _ _ a d rw]]
  have "?E ((posted_exchange m Woken)\<lparr>posting := 1\<rparr>)" by (simp add: d)
  from s [OF this handshake.post [of _ _ _ a' d' rw']]
  have "?E ((posted_exchange m' Woken)\<lparr>posted := [m, m']\<rparr>)" by (simp add: d)
  from s [OF this handshake.wake]
  have "?E ((posted_exchange m' Handling)\<lparr>posted := [m, m']\<rparr>)" by (simp add: d)
  from s [OF this handshake.handle]
  show ?thesis by (intro exI conjI) (auto simp: d message_def)
qed

text \<open>
  The thread does not check that there is a message: woken without a signal, it handles the last one again.
\<close>

lemma message_handled_twice:
  "\<exists>x. exchange_reachable True (Suc n) x \<and> posted x = [m] \<and> handled x = [m, m]"
proof -
  obtain a d rw where m: "m = (a, d, rw)" by (cases m)
  let ?E = "exchange_reachable True (Suc n)"
  let ?h = "(posted_exchange m Returning)\<lparr>box := (box (posted_exchange m Woken))\<lparr>isServiced := True\<rparr>, handled := [m]\<rparr>"
  note s = exchange_reachable.step and d = posted_exchange_def message_def m
  have "?E (posted_exchange m Woken)" by (rule reachable_post) simp
  from s [OF this handshake.wake] have "?E (posted_exchange m Handling)" by (simp add: d)
  from s [OF this handshake.handle] have "?E ?h" by (simp add: d)
  from s [OF this handshake.sleep] have "?E (?h\<lparr>thread := Waiting\<rparr>)" by (simp add: d)
  from s [OF this handshake.no_signal] have "?E (?h\<lparr>thread := Woken\<rparr>)" by (simp add: d)
  from s [OF this handshake.wake] have "?E (?h\<lparr>thread := Handling\<rparr>)" by (simp add: d)
  from s [OF this handshake.handle] show ?thesis
    by (intro exI conjI) (auto simp: d)
qed

section \<open>Properties\<close>

text \<open>
  Property C20. With one core, and when the wait returns only for signals, in every state the protocol reaches the
  device has handled the messages of the core in the order in which they were posted, each at most once, and all of
  them except possibly the last, the one in the mailbox. A message in the mailbox has woken the thread or is being
  handled, unless it is the very first and was posted before the thread first waited; that one may be lost.
\<close>

theorem messages_in_order:
  assumes "exchange_reachable False 1 x"
  shows "posted x = handled x @ unhandled x
    \<and> (unhandled x \<noteq> [] \<longrightarrow> thread x \<in> {Woken, Handling} \<or> handled x = [] \<and> thread x \<in> {Starting, Waiting})"
  using exchange_reachable_ok [OF assms] by (simp add: exchange_ok_def)

theorem messages_in_order_witness:
  "posted (posted_exchange (8, 5, 1) Woken) = handled (posted_exchange (8, 5, 1) Woken) @ unhandled (posted_exchange (8, 5, 1) Woken)
    \<and> unhandled (posted_exchange (8, 5, 1) Woken) = [(8, 5, 1)]"
  using messages_in_order [OF reachable_post(3) [of 1 False "(8, 5, 1)"]]
  by (simp add: posted_exchange_def unhandled_def message_def)


end
