(* ===== verification/BlockCache.thy ===== *)
theory BlockCache
  imports AddrCache
begin

text \<open>
  Where translated code is kept: \<^verbatim>\<open>TranslationBlock\<close>, a container of host words that doubles when it is
  full, and \<^verbatim>\<open>TranslatedBlockCache_IPE\<close>, 128 by 64 such containers, found by two fields of the
  guest address and tagged with the address and the address space.

  A container's memory is the list of the words mapped for it; \<^verbatim>\<open>currentlocation\<close> is a position in it. Mapping
  memory is the host's: \<open>avail\<close> says for which sizes in bytes \<^verbatim>\<open>mmap\<close> succeeds, and mapped memory is
  zero. Every entry of the cache owns its container, so the pointer in an entry is the container
  itself. Changing the protection of the pages has no effect in the model.
\<close>

section \<open>The container of translated instructions\<close>

abbreviation (input) INITIALBLOCKSIZE :: u32 where "INITIALBLOCKSIZE \<equiv> 1024 * 8"
abbreviation (input) INS_SIZE :: u32 where "INS_SIZE \<equiv> 4"

record TranslationBlock =
  container :: "u32 list"
  currentlocation :: nat
  currentsize :: u32
  allocatedsize :: u32

definition allocateBlock :: "(u32 \<Rightarrow> bool) \<Rightarrow> u32 \<Rightarrow> u32 list result" where
  "allocateBlock avail size_in_bytes =
     (if avail size_in_bytes then Inr (replicate (unat size_in_bytes div 4) 0) else Inl ExitError)"

definition new_TranslationBlock :: "(u32 \<Rightarrow> bool) \<Rightarrow> TranslationBlock result" where
  "new_TranslationBlock avail =
     bind_result (allocateBlock avail INITIALBLOCKSIZE)
       (\<lambda>m. Inr \<lparr>container = m, currentlocation = 0, currentsize = 0, allocatedsize = INITIALBLOCKSIZE div INS_SIZE\<rparr>)"

definition block_size :: "TranslationBlock \<Rightarrow> u32" where
  "block_size b = currentsize b"

definition block_maxsize :: "TranslationBlock \<Rightarrow> u32" where
  "block_maxsize b = allocatedsize b * INS_SIZE"

text \<open>
  The clearing sets \<^verbatim>\<open>currentsize\<close> bytes to zero, a quarter of the words in use. A word
  that lies across the end of the range loses its leading bytes, the host being big-endian.
\<close>

definition clear_bytes :: "nat \<Rightarrow> u32 list \<Rightarrow> u32 list" where
  "clear_bytes n ws =
     map (\<lambda>(i, w). if 4 * i + 4 \<le> n then 0 else if n \<le> 4 * i then w else take_bit (8 * (4 - (n - 4 * i))) w)
       (enumerate 0 ws)"

definition block_clear :: "(u32 \<Rightarrow> bool) \<Rightarrow> TranslationBlock \<Rightarrow> TranslationBlock result" where
  "block_clear avail b =
     (if allocatedsize b > INITIALBLOCKSIZE div INS_SIZE
      then bind_result (allocateBlock avail INITIALBLOCKSIZE)
             (\<lambda>m. Inr (b\<lparr>container := m, allocatedsize := INITIALBLOCKSIZE div INS_SIZE, currentsize := 0, currentlocation := 0\<rparr>))
      else Inr (b\<lparr>container := clear_bytes (unat (currentsize b)) (container b), currentsize := 0, currentlocation := 0\<rparr>))"

text \<open>The copy fills the front of the new memory; its size is that of the old allocation.\<close>

definition expandBlock :: "(u32 \<Rightarrow> bool) \<Rightarrow> TranslationBlock \<Rightarrow> TranslationBlock result" where
  "expandBlock avail b =
     bind_result (allocateBlock avail (allocatedsize b * 2 * INS_SIZE))
       (\<lambda>m. let n = unat (allocatedsize b * INS_SIZE) div 4 in
         if length (container b) < n \<or> length m < n then Inl OutOfBounds
         else Inr (b\<lparr>container := take n (container b) @ drop n m, allocatedsize := allocatedsize b * 2\<rparr>))"

definition push_back :: "(u32 \<Rightarrow> bool) \<Rightarrow> u32 \<Rightarrow> TranslationBlock \<Rightarrow> TranslationBlock result" where
  "push_back avail value b =
     (if length (container b) \<le> currentlocation b then Inl OutOfBounds
      else
        (let b = b\<lparr>container := (container b)[currentlocation b := value],
                   currentlocation := currentlocation b + 1, currentsize := currentsize b + 1\<rparr> in
         if currentsize b \<ge> allocatedsize b then expandBlock avail b else Inr b))"

section \<open>A container is a list\<close>

text \<open>
  \<open>contents\<close> is what the container means. The invariant leaves room for at least one more word, and
  the capacity is the initial one doubled a number of times.
\<close>

definition contents :: "TranslationBlock \<Rightarrow> u32 list" where
  "contents b = take (unat (currentsize b)) (container b)"

definition block_wf :: "TranslationBlock \<Rightarrow> bool" where
  "block_wf b \<longleftrightarrow> length (container b) = unat (allocatedsize b) \<and> currentlocation b = unat (currentsize b)
     \<and> currentsize b < allocatedsize b \<and> (\<exists>k \<le> 17. unat (allocatedsize b) = 2048 * 2 ^ k)"

text \<open>Memory is never short: a mapping of a positive size succeeds.\<close>

definition mem_ok :: "(u32 \<Rightarrow> bool) \<Rightarrow> bool" where
  "mem_ok avail \<longleftrightarrow> (\<forall>n > 0. avail n)"

lemma mem_ok_all: "mem_ok (\<lambda>_. True)"
  by (simp add: mem_ok_def)

lemma initial_capacity: "unat (INITIALBLOCKSIZE div INS_SIZE) = 2048" "unat INITIALBLOCKSIZE = 8192"
  by simp_all

lemma new_block:
  "avail INITIALBLOCKSIZE \<Longrightarrow> \<exists>b. new_TranslationBlock avail = Inr b \<and> block_wf b \<and> contents b = []"
  by (auto simp: new_TranslationBlock_def allocateBlock_def block_wf_def contents_def intro!: exI [of _ 0])

lemma length_clear_bytes [simp]: "length (clear_bytes n ws) = length ws"
  by (simp add: clear_bytes_def)

lemma clear_block:
  assumes "block_wf b" "avail INITIALBLOCKSIZE"
  shows "\<exists>b'. block_clear avail b = Inr b' \<and> block_wf b' \<and> contents b' = [] \<and> unat (allocatedsize b') = 2048"
proof (cases "allocatedsize b > INITIALBLOCKSIZE div INS_SIZE")
  case True
  then show ?thesis using assms
    by (auto simp: block_clear_def allocateBlock_def block_wf_def contents_def intro!: exI [of _ 0])
next
  case False
  then obtain k where k: "unat (allocatedsize b) = 2048 * 2 ^ k" "unat (allocatedsize b) \<le> 2048"
    using assms(1) by (auto simp: block_wf_def word_less_nat_alt)
  then have "(2 :: nat) ^ k \<le> 1" by simp
  then have "unat (allocatedsize b) = 2048" using k(1) by (metis le_antisym mult.right_neutral one_le_numeral one_le_power)
  then show ?thesis using assms False
    by (auto simp: block_clear_def block_wf_def contents_def word_less_nat_alt intro!: exI [of _ 0])
qed

lemma expand_block:
  assumes "length (container b) = unat (allocatedsize b)" "unat (allocatedsize b) = 2048 * 2 ^ k" "k < 17"
    "mem_ok avail"
  shows "\<exists>b'. expandBlock avail b = Inr b' \<and> length (container b') = unat (allocatedsize b') \<and> unat (allocatedsize b') = 2048 * 2 ^ Suc k
    \<and> take (unat (allocatedsize b)) (container b') = container b
    \<and> currentsize b' = currentsize b \<and> currentlocation b' = currentlocation b"
proof -
  have "(2 :: nat) ^ k \<le> 2 ^ 16" using assms(3) by (intro power_increasing) simp_all
  then have le: "unat (allocatedsize b) \<le> 2 ^ 27" using assms(2) by simp
  have m: "unat (allocatedsize b * 2 * INS_SIZE) = unat (allocatedsize b) * 8"
    "unat (allocatedsize b * INS_SIZE) = unat (allocatedsize b) * 4" "unat (allocatedsize b * 2) = unat (allocatedsize b) * 2"
    using le by (simp_all add: unat_word_ariths)
  have "unat (allocatedsize b * 2 * INS_SIZE) > 0" unfolding m assms(2) by simp
  then have "allocatedsize b * 2 * INS_SIZE > 0" by (simp add: word_less_nat_alt)
  then have "avail (allocatedsize b * 2 * INS_SIZE)" using assms(4) by (simp add: mem_ok_def)
  then show ?thesis using m assms(1,2) by (simp add: expandBlock_def allocateBlock_def)
qed

lemma push_block:
  assumes "block_wf b" "unat (allocatedsize b) < 2048 * 2 ^ 17" "mem_ok avail"
  shows "\<exists>b'. push_back avail v b = Inr b' \<and> block_wf b' \<and> contents b' = contents b @ [v]
    \<and> unat (allocatedsize b') \<le> max (unat (allocatedsize b)) (2 * (length (contents b) + 1))"
proof -
  obtain k where k: "unat (allocatedsize b) = 2048 * 2 ^ k" using assms(1) by (auto simp: block_wf_def)
  then have "(2 :: nat) ^ k < 2 ^ 17" using assms(2) by simp
  then have k17: "k < 17" by (rule power_less_imp_less_exp [rotated]) simp
  have len: "length (container b) = unat (allocatedsize b)" "currentlocation b = unat (currentsize b)"
    and less: "unat (currentsize b) < unat (allocatedsize b)"
    using assms(1) by (simp_all add: block_wf_def word_less_nat_alt)
  have "unat (currentsize b) + 1 < 2 ^ 32" using less assms(2) by simp
  then have s: "unat (currentsize b + 1) = unat (currentsize b) + 1" by (simp add: unat_word_ariths)
  let ?b = "b\<lparr>container := (container b)[currentlocation b := v], currentlocation := currentlocation b + 1, currentsize := currentsize b + 1\<rparr>"
  have c: "take (unat (currentsize b) + 1) ((container b)[unat (currentsize b) := v]) = contents b @ [v]"
    using less len(1) by (simp add: contents_def take_Suc_conv_app_nth)
  have lc: "length (contents b) = unat (currentsize b)" using less len by (simp add: contents_def)
  show ?thesis
  proof (cases "currentsize b + 1 \<ge> allocatedsize b")
    case True
    then have full: "unat (currentsize b) + 1 = unat (allocatedsize b)" using s less by (simp add: word_le_nat_alt)
    obtain b' where b': "expandBlock avail ?b = Inr b'" "length (container b') = unat (allocatedsize b')"
        "unat (allocatedsize b') = 2048 * 2 ^ Suc k" "take (unat (allocatedsize b)) (container b') = container ?b"
        "currentsize b' = currentsize b + 1" "currentlocation b' = currentlocation b + 1"
      using expand_block [of ?b k avail] len k k17 assms(3) by auto
    have "contents b' = contents b @ [v]"
      using b'(4,5) c full s len by (simp add: contents_def)
    moreover have "block_wf b'"
      using b' s full k k17 len(2) by (auto simp: block_wf_def word_less_nat_alt intro!: exI [of _ "Suc k"])
    moreover have "push_back avail v b = Inr b'" using b'(1) True len less by (simp add: push_back_def)
    moreover have "unat (allocatedsize b') \<le> 2 * (length (contents b) + 1)" using b'(3) full k lc by simp
    ultimately show ?thesis by auto
  next
    case False
    then have "push_back avail v b = Inr ?b" using len less by (simp add: push_back_def)
    moreover have "block_wf ?b"
      using False len s k k17 less by (auto simp: block_wf_def word_less_nat_alt word_le_nat_alt intro!: exI [of _ k])
    moreover have "contents ?b = contents b @ [v]" using c s len by (simp add: contents_def)
    ultimately show ?thesis by auto
  qed
qed

fun push_all :: "(u32 \<Rightarrow> bool) \<Rightarrow> u32 list \<Rightarrow> TranslationBlock \<Rightarrow> TranslationBlock result" where
  "push_all avail [] b = Inr b"
| "push_all avail (w # ws) b = bind_result (push_back avail w b) (push_all avail ws)"

definition capacity_ok :: "TranslationBlock \<Rightarrow> bool" where
  "capacity_ok b \<longleftrightarrow> unat (allocatedsize b) \<le> max 2048 (2 * length (contents b))"

lemma push_all_block:
  assumes "block_wf b" "capacity_ok b" "length (contents b) + length ws < 2 ^ 27" "mem_ok avail"
  shows "\<exists>b'. push_all avail ws b = Inr b' \<and> block_wf b' \<and> capacity_ok b' \<and> contents b' = contents b @ ws"
  using assms(1-3)
proof (induction ws arbitrary: b)
  case Nil
  then show ?case by simp
next
  case (Cons w ws)
  have "unat (allocatedsize b) < 2048 * 2 ^ 17" using Cons.prems(2,3) by (simp add: capacity_ok_def)
  from push_block [OF Cons.prems(1) this assms(4), of w] obtain b1 where
    b1: "push_back avail w b = Inr b1" "block_wf b1" "contents b1 = contents b @ [w]"
      "unat (allocatedsize b1) \<le> max (unat (allocatedsize b)) (2 * (length (contents b) + 1))"
    by blast
  have "capacity_ok b1" using b1(3,4) Cons.prems(2) by (auto simp: capacity_ok_def)
  then show ?case using Cons.IH [of b1] b1 Cons.prems(3) by simp
qed

section \<open>The cache of translated blocks\<close>

abbreviation (input) FIRST_LEVEL_ADDR_MASK :: u64 where "FIRST_LEVEL_ADDR_MASK \<equiv> 127"
abbreviation (input) SECOND_LEVEL_ADDR_MASK :: u64 where "SECOND_LEVEL_ADDR_MASK \<equiv> 63"
abbreviation (input) FIRST_LEVEL_KEY_SHIFT_BITS :: nat where "FIRST_LEVEL_KEY_SHIFT_BITS \<equiv> 2"
abbreviation (input) SECOND_LEVEL_KEY_SHIFT_BITS :: nat where "SECOND_LEVEL_KEY_SHIFT_BITS \<equiv> 9"

record CacheVal =
  cv_key :: u64
  blockEndPC :: u64
  translatedBlock :: TranslationBlock
  cv_asid :: u8

record BlockCache =
  bc_cache :: "nat \<Rightarrow> nat \<Rightarrow> CacheVal"
  firstIndex :: nat
  secondIndex :: nat

text \<open>The constructor keys every entry with its row; the address space is what the memory held.\<close>

definition new_BlockCache :: "(u32 \<Rightarrow> bool) \<Rightarrow> (nat \<Rightarrow> nat \<Rightarrow> u8) \<Rightarrow> BlockCache result" where
  "new_BlockCache avail junk =
     bind_result (new_TranslationBlock avail)
       (\<lambda>b. Inr \<lparr>bc_cache = (\<lambda>i j. \<lparr>cv_key = of_nat i, blockEndPC = 0, translatedBlock = b, cv_asid = junk i j\<rparr>),
                firstIndex = 0, secondIndex = 0\<rparr>)"

definition updateIndex :: "u64 \<Rightarrow> BlockCache \<Rightarrow> BlockCache" where
  "updateIndex Key s =
     s\<lparr>firstIndex := unat (drop_bit FIRST_LEVEL_KEY_SHIFT_BITS Key AND FIRST_LEVEL_ADDR_MASK),
       secondIndex := unat (drop_bit SECOND_LEVEL_KEY_SHIFT_BITS Key AND SECOND_LEVEL_ADDR_MASK)\<rparr>"

definition current :: "BlockCache \<Rightarrow> CacheVal" where
  "current s = bc_cache s (firstIndex s) (secondIndex s)"

definition set_current :: "CacheVal \<Rightarrow> BlockCache \<Rightarrow> BlockCache" where
  "set_current v s = s\<lparr>bc_cache := (bc_cache s)(firstIndex s := (bc_cache s (firstIndex s))(secondIndex s := v))\<rparr>"

definition doesExists :: "u64 \<Rightarrow> u8 \<Rightarrow> BlockCache \<Rightarrow> CacheVal option \<times> BlockCache" where
  "doesExists searchKey asid s =
     (let s = updateIndex searchKey s; cacheData = current s in
      (if cv_key cacheData \<noteq> searchKey \<or> cv_asid cacheData \<noteq> asid then None else Some cacheData, s))"

text \<open>
  \<open>getContainer\<close> returns the container the caller fills; the model keeps it in the current entry, and
  \<open>fill\<close> is what the caller's pushes do to it.
\<close>

definition getContainer :: "(u32 \<Rightarrow> bool) \<Rightarrow> u64 \<Rightarrow> BlockCache \<Rightarrow> BlockCache result" where
  "getContainer avail GVA s =
     (let s = updateIndex GVA s in
      bind_result (block_clear avail (translatedBlock (current s)))
        (\<lambda>b. Inr (set_current ((current s)\<lparr>translatedBlock := b\<rparr>) s)))"

definition fill :: "(u32 \<Rightarrow> bool) \<Rightarrow> u32 list \<Rightarrow> BlockCache \<Rightarrow> BlockCache result" where
  "fill avail ws s =
     bind_result (push_all avail ws (translatedBlock (current s)))
       (\<lambda>b. Inr (set_current ((current s)\<lparr>translatedBlock := b\<rparr>) s))"

definition putInCache :: "u64 \<Rightarrow> u64 \<Rightarrow> u8 \<Rightarrow> BlockCache \<Rightarrow> BlockCache" where
  "putInCache newSearchKey endPC asid s =
     set_current ((current s)\<lparr>cv_key := newSearchKey, blockEndPC := endPC, cv_asid := asid\<rparr>) s"

section \<open>It provides the interface of a cache\<close>

text \<open>
  For a client the cache maps an address and an address space to the end address and the container of a
  block; storing one is the effect of the three calls together (\<open>store_steps\<close>).
\<close>

definition bc_look :: "BlockCache \<Rightarrow> u64 \<Rightarrow> u8 \<Rightarrow> (u64 \<times> TranslationBlock) option" where
  "bc_look s k asid = map_option (\<lambda>v. (blockEndPC v, translatedBlock v)) (fst (doesExists k asid s))"

definition bc_store :: "u64 \<Rightarrow> u64 \<times> TranslationBlock \<Rightarrow> u8 \<Rightarrow> BlockCache \<Rightarrow> BlockCache" where
  "bc_store k v asid s =
     set_current \<lparr>cv_key = k, blockEndPC = fst v, translatedBlock = snd v, cv_asid = asid\<rparr> (updateIndex k s)"

definition bc_wf :: "BlockCache \<Rightarrow> bool" where
  "bc_wf s \<longleftrightarrow> (\<forall>i j. block_wf (translatedBlock (bc_cache s i j)))"

lemma current_set [simp]: "current (set_current v s) = v" "firstIndex (set_current v s) = firstIndex s"
  "secondIndex (set_current v s) = secondIndex s"
  by (simp_all add: current_def set_current_def)

lemma set_set_current [simp]: "set_current v (set_current w s) = set_current v s"
  by (simp add: set_current_def)

lemma bc_wf_current: "bc_wf s \<Longrightarrow> block_wf (translatedBlock (current s))"
  by (simp add: bc_wf_def current_def)

lemma bc_wf_index [simp]: "bc_wf (updateIndex k s) = bc_wf s"
  by (simp add: bc_wf_def updateIndex_def)

lemma bc_wf_set: "bc_wf s \<Longrightarrow> block_wf (translatedBlock v) \<Longrightarrow> bc_wf (set_current v s)"
  by (simp add: bc_wf_def set_current_def)

text \<open>Clearing, filling and tagging an entry, in one step.\<close>

lemma store_steps:
  assumes "bc_wf s" "length ws < 2 ^ 27" "mem_ok avail"
  shows "\<exists>b. contents b = ws \<and> block_wf b \<and> capacity_ok b \<and>
    bind_result (getContainer avail k s) (\<lambda>s. bind_result (fill avail ws s) (\<lambda>s. Inr (putInCache k e a s)))
    = Inr (bc_store k (e, b) a s)"
proof -
  let ?s = "updateIndex k s"
  have "block_wf (translatedBlock (current ?s))" using assms(1) by (simp add: bc_wf_current)
  from clear_block [OF this, of avail] assms(3) [unfolded mem_ok_def] obtain b0 where b0: "block_clear avail (translatedBlock (current ?s)) = Inr b0"
      "block_wf b0" "contents b0 = []" "capacity_ok b0"
    by (auto simp: capacity_ok_def)
  from push_all_block [OF b0(2,4) _ assms(3), of ws] b0(3) assms(2) obtain b where
    b: "push_all avail ws b0 = Inr b" "block_wf b" "capacity_ok b" "contents b = ws" by auto
  have "putInCache k e a (set_current ((current ?s)\<lparr>translatedBlock := b\<rparr>) ?s)
      = set_current \<lparr>cv_key = k, blockEndPC = e, translatedBlock = b, cv_asid = a\<rparr> ?s"
    by (cases "current ?s") (simp add: putInCache_def)
  then show ?thesis
    using b0(1) b by (intro exI [of _ b]) (simp add: getContainer_def fill_def bc_store_def Let_def)
qed

lemma bc_wf_store: "bc_wf s \<Longrightarrow> block_wf b \<Longrightarrow> bc_wf (bc_store k (e, b) a s)"
  by (simp add: bc_store_def bc_wf_set)

lemma index_of_key [simp]:
  "firstIndex (updateIndex k s) = unat (drop_bit 2 k AND 127)" "secondIndex (updateIndex k s) = unat (drop_bit 9 k AND 63)"
  "bc_cache (updateIndex k s) = bc_cache s"
  by (simp_all add: updateIndex_def)

interpretation bc: lookup_cache bc_look bc_store "\<lambda>_. True" "(=)" "\<lambda>_ _ v. v" "(=)"
proof unfold_locales
  fix s k k' q q' v
  show "(k :: u64) = k' \<Longrightarrow> (q :: u8) = q' \<Longrightarrow> bc_look (bc_store k v q s) k' q' = Some v"
    and "k = k' \<Longrightarrow> q \<noteq> q' \<Longrightarrow> bc_look (bc_store k v q s) k' q' = None"
    by (auto simp: bc_look_def bc_store_def doesExists_def Let_def current_def set_current_def)
next
  fix s k k' q q' v
  assume "(k :: u64) \<noteq> k'"
  then show "bc_look (bc_store k v q s) k' q' = bc_look s k' q' \<or> bc_look (bc_store k v q s) k' q' = None"
    by (auto simp: bc_look_def bc_store_def doesExists_def Let_def current_def set_current_def)
qed simp

section \<open>Properties\<close>

text \<open>
  A container holds what was pushed. While memory lasts, pushing up to 2 to the 27 words into a new
  container keeps every write inside the mapped memory and leaves exactly these words, in order, with a
  capacity of at most twice their number (or the initial 2048 words).
\<close>

lemma container_holds_words:
  assumes "mem_ok avail" "length ws < 2 ^ 27"
  shows "\<exists>b. bind_result (new_TranslationBlock avail) (push_all avail ws) = Inr b \<and> contents b = ws
    \<and> unat (block_size b) = length ws \<and> length (container b) = unat (allocatedsize b)
    \<and> length ws < unat (allocatedsize b) \<and> unat (allocatedsize b) \<le> max 2048 (2 * length ws)"
proof -
  obtain b0 where b0: "new_TranslationBlock avail = Inr b0" "block_wf b0" "contents b0 = []"
    using new_block [of avail] assms(1) by (auto simp: mem_ok_def)
  have "capacity_ok b0" using b0(1,3) by (auto simp: new_TranslationBlock_def capacity_ok_def bind_result_Inr_iff)
  from push_all_block [OF b0(2) this _ assms(1), of ws] b0(3) assms(2) obtain b where
    b: "push_all avail ws b0 = Inr b" "block_wf b" "capacity_ok b" "contents b = ws" by auto
  have "unat (currentsize b) = length ws"
    using b(2,4) by (auto simp: block_wf_def contents_def word_less_nat_alt)
  then show ?thesis
    using b b0(1) by (auto simp: block_wf_def capacity_ok_def block_size_def word_less_nat_alt)
qed

text \<open>
  Property C9. A block is found again. Taking a container for an address, filling it and entering it in the
  cache makes the lookup of the address in the same address space return these words and this end
  address, makes it fail in every other address space, and changes the lookup of any other
  address at most to a miss.
\<close>

theorem translated_block_found:
  assumes "bc_wf s" "length ws < 2 ^ 27" "mem_ok avail"
  shows "\<exists>s' b. bind_result (getContainer avail k s) (\<lambda>s. bind_result (fill avail ws s) (\<lambda>s. Inr (putInCache k e a s))) = Inr s'
    \<and> bc_wf s' \<and> contents b = ws \<and> bc_look s' k a = Some (e, b) \<and> (\<forall>a'. a' \<noteq> a \<longrightarrow> bc_look s' k a' = None)
    \<and> (\<forall>k' a'. k' \<noteq> k \<longrightarrow> bc_look s' k' a' = bc_look s k' a' \<or> bc_look s' k' a' = None)"
proof -
  obtain b where b: "contents b = ws" "block_wf b"
    "bind_result (getContainer avail k s) (\<lambda>s. bind_result (fill avail ws s) (\<lambda>s. Inr (putInCache k e a s))) = Inr (bc_store k (e, b) a s)"
    using store_steps [OF assms, of k e a] by blast
  have "bc_look (bc_store k (e, b) a s) k a = Some (e, b)" "\<forall>a'. a' \<noteq> a \<longrightarrow> bc_look (bc_store k (e, b) a s) k a' = None"
    "\<forall>k' a'. k' \<noteq> k \<longrightarrow> bc_look (bc_store k (e, b) a s) k' a' = bc_look s k' a' \<or> bc_look (bc_store k (e, b) a s) k' a' = None"
    using bc.look_ins_hit bc.look_ins_deny bc.look_ins_other by simp_all
  then show ?thesis
    using b bc_wf_store [OF assms(1) b(2)] by (intro exI [of _ "bc_store k (e, b) a s"] exI [of _ b]) blast
qed

lemma new_cache_wf:
  "new_BlockCache avail junk = Inr s \<Longrightarrow> avail INITIALBLOCKSIZE \<Longrightarrow> bc_wf s"
  using new_block [of avail] by (auto simp: new_BlockCache_def bc_wf_def bind_result_Inr_iff)

theorem translated_block_found_witness:
  "\<exists>s0 s' b. new_BlockCache (\<lambda>_. True) (\<lambda>_ _. 0) = Inr s0 \<and> bc_look s' 0x80001000 3 = Some (0x80001010, b) \<and> contents b = [1, 2]
     \<and> bc_look s' 0x80001000 4 = None"
proof -
  obtain s0 where s0: "new_BlockCache (\<lambda>_. True) (\<lambda>_ _. 0) = Inr s0"
    using new_block [of "\<lambda>_. True"] by (auto simp: new_BlockCache_def)
  have "bc_wf s0" by (rule new_cache_wf [OF s0]) simp
  from translated_block_found [OF this, of "[1, 2]" "\<lambda>_. True" "0x80001000" "0x80001010" 3] mem_ok_all s0
  show ?thesis by force
qed

text \<open>
  The cache starts with one false entry. In a new cache the lookup of an address hits exactly
  when the address is 0 and the unset tag of the first entry happens to be the address space asked for.
\<close>

lemma new_cache_hit:
  assumes "new_BlockCache avail junk = Inr s"
  shows "bc_look s k a \<noteq> None \<longleftrightarrow> k = 0 \<and> junk 0 0 = a"
proof -
  let ?i = "drop_bit 2 k AND 127"
  have key: "bc_look s k a \<noteq> None \<longleftrightarrow> of_nat (unat ?i) = k \<and> junk (unat ?i) (unat (drop_bit 9 k AND 63)) = a"
    using assms by (auto simp: new_BlockCache_def bind_result_Inr_iff bc_look_def doesExists_def Let_def current_def)
  have "k = 0" if "?i = k"
  proof -
    have "?i = take_bit 7 (drop_bit 2 k)" by (rule word64_eqI) (simp add: bitblast bit_simps)
    then have "unat ?i = unat k div 4 mod 128"
      by (simp add: drop_bit_eq_div unat_div_distrib unat_mod_distrib take_bit_eq_mod)
    then have "unat k = unat k div 4 mod 128" using that by simp
    then have "unat k \<le> unat k div 4" by (metis mod_less_eq_dividend)
    then have "unat k = 0" by (metis div_less_dividend gr0I not_less one_less_numeral_iff semiring_norm(76) less_trans)
    then show ?thesis by (simp add: unsigned_eq_0_iff)
  qed
  then show ?thesis using key by auto
qed

end
