(* ===== verification/Timer.thy ===== *)
theory Timer
  imports CP0
begin

text \<open>
  The timer of a core, \<^verbatim>\<open>timer.cpp\<close>: the guest's Count and Compare registers on top of a host timer.

  The host is a parameter: \<open>clk\<close> is the time in nanoseconds that \<^verbatim>\<open>get_clk\<close> returns, and \<open>accepts sec nsec\<close> says whether
  \<^verbatim>\<open>timer_settime\<close> accepts a time; it documents that it refuses nanoseconds above 999999999. The factor 1.5 between the
  clocks makes the source compute in \<^verbatim>\<open>double\<close>; host times are below \<open>2 ^ 53\<close>, so the results are exact up to
  the final truncation, and the model computes with integers. Converting a negative double to \<^verbatim>\<open>uint64_t\<close> is undefined;
  \<open>neg\<close> is what it gives.
\<close>

abbreviation (input) LATENCY :: u64 where "LATENCY \<equiv> 10"

record timer =
  startOfTime :: u64
  startOfCVMTime :: u64
  armed :: "(u64 \<times> u64) option"

definition new_timer :: "u64 \<Rightarrow> timer" where
  "new_timer clk = \<lparr>startOfTime = clk, startOfCVMTime = clk, armed = None\<rparr>"

text \<open>The distance the source computes: \<^verbatim>\<open>d\<close> is a 32-bit signed integer.\<close>

definition guest_ticks :: "u64 \<Rightarrow> u64 \<Rightarrow> u64" where
  "guest_ticks count compare =
     (let d = (ucast (compare - count) :: u32) in
      if 0 <s d then ucast d else ucast (0xffffffff + d))"

text \<open>Setting the time to zero disarms; a refused time leaves the timer disarmed by the call before.\<close>

definition resetTimer :: "(u64 \<Rightarrow> u64 \<Rightarrow> bool) \<Rightarrow> CP0_IPE \<Rightarrow> timer \<Rightarrow> timer" where
  "resetTimer accepts cp0 t =
     (let count = cp0_read cp0 H2_CP0_COUNT SEL_ZERO AND 0xffffffff;
          compare = cp0_read cp0 H2_CP0_COMPARE SEL_ZERO AND 0xffffffff;
          time = guest_ticks count compare * LATENCY;
          (sec, nsec) = (if time > 1000000000 then (time div 1000000000, time mod 1000000000) else (0, time)) in
      t\<lparr>armed := (if accepts sec nsec \<and> (sec, nsec) \<noteq> (0, 0) then Some (sec, nsec) else None)\<rparr>)"

definition updateCounter :: "u64 \<Rightarrow> timer \<Rightarrow> CP0_IPE \<Rightarrow> CP0_IPE" where
  "updateCounter clk t cp0 =
     (let currentTime = (of_int (uint (clk - startOfTime t) * 2 div 3) :: u64);
          CVMcurrentTime = of_int (uint (clk - startOfCVMTime t) * 2 div 3) in
      if cp0_read cp0 H2_CP0_CAUSE SEL_ZERO AND 0x10000000 = 0
      then cp0_write CVMcurrentTime H2_CP0_CVMCOUNT_6 SEL_SIX (cp0_write (currentTime AND 0xffffffff) H2_CP0_COUNT SEL_ZERO cp0)
      else cp0)"

definition updateTimer :: "(u64 \<Rightarrow> u64 \<Rightarrow> bool) \<Rightarrow> u64 \<Rightarrow> u64 \<Rightarrow> CP0_IPE \<Rightarrow> timer \<Rightarrow> timer" where
  "updateTimer accepts neg clk cp0 t =
     (let count = cp0_read cp0 H2_CP0_COUNT SEL_ZERO;
          twice = 2 * uint clk - 3 * uint count in
      resetTimer accepts cp0 (t\<lparr>startOfTime := (if twice < 0 then neg else of_int (twice div 2))\<rparr>))"

text \<open>What the signal handler of the host timer does to the core's registers.\<close>

definition TimerUnit_Handler :: "(CP0_IPE \<Rightarrow> CP0_IPE) \<Rightarrow> CP0_IPE \<Rightarrow> CP0_IPE" where
  "TimerUnit_Handler setTimerTick cp0 =
     (if cp0_read cp0 H2_CP0_COMPARE SEL_ZERO \<noteq> 0 then setTimerTick cp0 else cp0)"

section \<open>The distance\<close>

lemma signed_positive: "0 <s (d :: u32) \<longleftrightarrow> 0 < unat d \<and> unat d < 2 ^ 31"
proof -
  have u: "uint d < 2 ^ 32" "0 \<le> uint d" using uint_lt2p [of d] by simp_all
  have n: "unat d < 2147483648 \<longleftrightarrow> uint d < 2147483648" by (simp only: unat_eq_nat_uint nat_less_iff [OF u(2)] of_nat_numeral)
  have z: "0 < uint d \<longleftrightarrow> d \<noteq> 0" using u(2) uint_0_iff [of d] by linarith
  show ?thesis
  proof (cases "uint d < 2 ^ 31")
    case True
    then have "signed_take_bit 31 (uint d) = uint d" using u(2) by (subst signed_take_bit_int_eq_self_iff) linarith
    then show ?thesis using True n z by (simp add: word_sless_alt sint_uint unat_gt_0)
  next
    case False
    then have "uint d div 2 ^ 31 = 1" using u(1) by (intro int_div_pos_eq [where r = "uint d - 2 ^ 31"]) simp_all
    then have "bit (uint d) 31" by (simp add: bit_iff_odd)
    then have "signed_take_bit 31 (uint d) < 0" by simp
    then have "\<not> 0 < signed_take_bit 31 (uint d)" by linarith
    then show ?thesis using False n by (simp add: word_sless_alt sint_uint)
  qed
qed

lemma unat_u32_add: "unat (x + y :: u32) = (unat x + unat y) mod 2 ^ 32"
  by (simp add: unat_word_ariths)

lemma unat_up: "unat (ucast (x :: u32) :: u64) = unat x"
proof -
  have "unat x < 2 ^ LENGTH(32)" by (rule unsigned_less)
  then show ?thesis by (simp add: unsigned_ucast_eq take_bit_nat_eq_self_iff)
qed

text \<open>The ticks from \<open>count\<close> to \<open>compare\<close> on a counter of 32 bits, with a full round when they are equal.\<close>

definition distance :: "nat \<Rightarrow> nat \<Rightarrow> nat" where
  "distance count compare = (if count < compare then compare - count else 2 ^ 32 + compare - count)"

lemma guest_ticks_distance:
  assumes "unat count < 2 ^ 32" "unat compare < 2 ^ 32"
  shows "unat (guest_ticks count compare) =
    (if distance (unat count) (unat compare) < 2 ^ 31 then distance (unat count) (unat compare)
     else distance (unat count) (unat compare) - 1)"
proof -
  define d where "d = (ucast (compare - count) :: u32)"
  have "unat d = unat (compare - count) mod 2 ^ 32" by (simp add: d_def unsigned_ucast_eq take_bit_eq_mod)
  moreover have "unat (compare - count) = (if unat count \<le> unat compare then unat compare - unat count
      else 2 ^ 64 + unat compare - unat count)"
    using unat_sub_if' [of compare count] by (simp only: word_le_nat_alt add.commute [of "2 ^ 64"] len_bit0 len_num1) simp
  moreover have "(2 ^ 64 + k - c) mod 2 ^ 32 = (2 ^ 32 + k - c) mod 2 ^ 32" if "c < 2 ^ 32" for c k :: nat
  proof -
    have "n + m + k - c = m + k - c + n" if "c \<le> m" for n m using that by simp
    from this [of "2 ^ 32" "(2 ^ 32 - 1) * 2 ^ 32"] that
    have "(2 ^ 32 - 1) * 2 ^ 32 + 2 ^ 32 + k - c = 2 ^ 32 + k - c + (2 ^ 32 - 1) * 2 ^ 32" by (simp only: less_imp_le)
    moreover have "(2 :: nat) ^ 64 = (2 ^ 32 - 1) * 2 ^ 32 + 2 ^ 32" by simp
    ultimately show ?thesis by (simp only: mod_mult_self1)
  qed
  ultimately have d: "unat d = distance (unat count) (unat compare) mod 2 ^ 32"
    using assms(1) by (auto simp: distance_def)
  have range: "0 < distance (unat count) (unat compare)" "distance (unat count) (unat compare) \<le> 2 ^ 32"
    using assms by (auto simp: distance_def)
  then consider "distance (unat count) (unat compare) = 2 ^ 32" "unat d = 0"
    | "distance (unat count) (unat compare) < 2 ^ 32" "unat d = distance (unat count) (unat compare)"
    using d by (cases "distance (unat count) (unat compare) = 2 ^ 32") simp_all
  note cases = this
  show ?thesis
  proof (cases "0 < unat d \<and> unat d < 2 ^ 31")
    case True
    then have "guest_ticks count compare = ucast d"
      unfolding guest_ticks_def d_def [symmetric] Let_def signed_positive if_P [OF True] by (simp only:)
    moreover have "distance (unat count) (unat compare) < 2 ^ 31"
      using True by (cases rule: cases) simp_all
    moreover have "unat d = distance (unat count) (unat compare)" using True by (cases rule: cases) simp_all
    ultimately show ?thesis by (simp add: unat_up)
  next
    case False
    then have "guest_ticks count compare = ucast (0xffffffff + d)"
      unfolding guest_ticks_def d_def [symmetric] Let_def signed_positive if_not_P [OF False] by (simp only:)
    moreover have "unat (0xffffffff + d) = distance (unat count) (unat compare) - 1"
      using range False by (cases rule: cases) (simp_all add: unat_u32_add mod_if)
    moreover have "\<not> distance (unat count) (unat compare) < 2 ^ 31" using False range by (cases rule: cases) simp_all
    ultimately show ?thesis by (simp add: unat_up)
  qed
qed

section \<open>Properties\<close>

text \<open>What the host documents.\<close>

definition host_accepts :: "(u64 \<Rightarrow> u64 \<Rightarrow> bool) \<Rightarrow> bool" where
  "host_accepts accepts \<longleftrightarrow> (\<forall>sec nsec. accepts sec nsec \<longleftrightarrow> nsec \<le> 999999999)"

definition armed_time :: "timer \<Rightarrow> nat option" where
  "armed_time t = map_option (\<lambda>(sec, nsec). unat sec * 1000000000 + unat nsec) (armed t)"

lemma distance_bounds: "c < 2 ^ 32 \<Longrightarrow> k < 2 ^ 32 \<Longrightarrow> 0 < distance c k \<and> distance c k \<le> 2 ^ 32"
  by (auto simp: distance_def)

lemma low_half: "unat (x AND 0xffffffff :: u64) < 2 ^ 32"
proof -
  have "x AND 0xffffffff \<le> 0xffffffff" by (rule word_and_le1)
  then show ?thesis by (simp add: word_le_nat_alt)
qed

text \<open>
  Setting Compare arms the host timer with ten times the number of ticks until the counter reaches it
  (of one tick less when that number is \<open>2 ^ 31\<close> or more); but a distance of exactly 100 million ticks, one second, is
  passed on as a number of nanoseconds the host refuses, so that the timer stays disarmed and the interrupt never comes.
\<close>

lemma compare_arms_timer:
  assumes "host_accepts accepts"
    and "dist = distance (unat (cp0_read cp0 H2_CP0_COUNT SEL_ZERO AND 0xffffffff)) (unat (cp0_read cp0 H2_CP0_COMPARE SEL_ZERO AND 0xffffffff))"
  shows "armed_time (resetTimer accepts cp0 t) =
    (if dist = 100000000 then None else Some (10 * (if dist < 2 ^ 31 then dist else dist - 1)))"
proof -
  let ?c = "cp0_read cp0 H2_CP0_COUNT SEL_ZERO AND 0xffffffff" and ?k = "cp0_read cp0 H2_CP0_COMPARE SEL_ZERO AND 0xffffffff"
  define g where "g = guest_ticks ?c ?k"
  have g: "unat g = (if dist < 2 ^ 31 then dist else dist - 1)"
    unfolding g_def assms(2) using low_half by (intro guest_ticks_distance)
  have dist: "0 < dist" "dist \<le> 2 ^ 32" using distance_bounds low_half assms(2) by blast+
  have t: "unat (g * LATENCY) = 10 * unat g" using g dist(2) by (simp add: unat_word_ariths mult.commute)
  have h: "accepts sec nsec = (nsec \<le> 999999999)" for sec nsec using assms(1) by (simp add: host_accepts_def)
  show ?thesis
  proof (cases "g * LATENCY > 1000000000")
    case True
    define sec where "sec = g * LATENCY div 1000000000"
    define nsec where "nsec = g * LATENCY mod 1000000000"
    have q: "unat sec = 10 * unat g div 1000000000" "unat nsec = 10 * unat g mod 1000000000"
      unfolding sec_def nsec_def t [symmetric] by (simp_all add: unat_div_distrib unat_mod_distrib)
    have big: "1000000000 < 10 * unat g" using True t by (simp add: word_less_nat_alt)
    have ok: "accepts sec nsec" unfolding h word_le_nat_alt q(2) by simp
    have "0 < unat sec" unfolding q(1) using big by (simp add: div_greater_zero_iff)
    then have nz: "(sec, nsec) \<noteq> (0, 0)" by auto
    have "resetTimer accepts cp0 t = t\<lparr>armed := Some (sec, nsec)\<rparr>"
      using True ok nz by (simp add: resetTimer_def Let_def g_def sec_def nsec_def)
    then have "armed_time (resetTimer accepts cp0 t) = Some (10 * unat g)"
      using div_mult_mod_eq [of "10 * unat g" 1000000000] by (simp only: armed_time_def q) (simp add: q del: mod_mult_mult1 div_mult_mult1)
    then show ?thesis using big g by auto
  next
    case False
    then have small: "10 * unat g \<le> 1000000000" using t by (simp add: word_less_nat_alt)
    have gd: "unat g = dist" using small g by (auto split: if_splits)
    have nz: "g * LATENCY \<noteq> 0" using t gd dist(1) by (metis mult_is_0 unat_0 neq0_conv zero_neq_numeral)
    have "accepts 0 (g * LATENCY) \<longleftrightarrow> dist \<noteq> 100000000"
      using small by (auto simp: h word_le_nat_alt t gd)
    then have "resetTimer accepts cp0 t = t\<lparr>armed := (if dist \<noteq> 100000000 then Some (0, g * LATENCY) else None)\<rparr>"
      using False nz by (simp add: resetTimer_def Let_def g_def)
    then show ?thesis using gd t small by (auto simp: armed_time_def)
  qed
qed

end
