(* ===== verification/Processor.thy ===== *)
theory Processor
  imports IOManager BlockCache Decode IInfo Timer
begin

text \<open>
  A core of the board, \<^verbatim>\<open>Processor_IPE.cpp\<close>: the handlers of the requests with which translated code leaves for the
  hypervisor, and the fetching of the next block.

  The cells of \<^verbatim>\<open>guestData\<close> that the handlers use are fields of the state. The instruction context points to three
  of them, so the program counter is \<open>PC\<close> of the context, the access kind \<open>loadstore\<close>, and the
  stored word \<open>writeData\<close>. Where translated code goes on is a pointer into a container of the block cache; \<open>CodeStart\<close> is the
  start of the container in a place of the cache, \<open>CodeAt\<close> the return address that translated code left in its register.

  A handler that returns \<^verbatim>\<open>false\<close> aborts through \<^verbatim>\<open>P::EPRINT\<close>, which is \<open>NotHandled\<close>. A handler that waits for
  another thread has the result \<open>Inr None\<close>. What the handlers take from outside is a record \<open>Host\<close>: the memory the
  host has mapped, by byte address, the mappings it grants, the times and random numbers it supplies, and the address
  of the core's \<^verbatim>\<open>CVMSEG\<close> array. \<open>fuel\<close> bounds the search for the end of a block.
\<close>

section \<open>State\<close>

abbreviation (input) MIPS_REST_VEC :: u64 where "MIPS_REST_VEC \<equiv> 0xFFFFFFFFBFC00000"
abbreviation (input) TERMINATION_INS :: u32 where "TERMINATION_INS \<equiv> 0xEC000000"
abbreviation (input) DELAYSLOTINS :: nat where "DELAYSLOTINS \<equiv> 2"
abbreviation (input) CVMSEG_MASK :: u64 where "CVMSEG_MASK \<equiv> 0xFFFFFFFFFFFFC000"
abbreviation (input) CVMSEG_BASE_ADDR :: u64 where "CVMSEG_BASE_ADDR \<equiv> 0xFFFFFFFFFFFF8000"

record Host =
  mmap :: mmap_call
  undefined_size :: u64
  junk_address :: u64
  avail :: "u32 \<Rightarrow> bool"
  host_word :: "u64 \<Rightarrow> u32"
  fuel :: nat
  rand :: nat
  clk :: u64
  accepts :: "u64 \<Rightarrow> u64 \<Rightarrow> bool"
  negative_time :: u64
  CVMSEGBase :: u64

datatype code_pointer = CodeStart nat nat | CodeAt u64

record Processor_IPE =
  cp0 :: CP0_IPE
  tlb :: TLB_IPE
  ctx :: Context_IPE
  controlMark :: u64
  currentBlockStartAddr :: u64
  currentBlockEndAddr :: u64
  tlbData :: u64
  transAddr :: u64
  LLBit :: u64
  cacheBlk :: BlockCache
  addrCache :: AddrTranslationCache
  retAddr :: code_pointer
  prevRetAddr :: code_pointer
  NMI :: bool
  Asid :: u8
  TIMER :: timer
  last_intrpt_time :: u64
  iomanager :: IOManager
  memory_map :: GPAMap

definition set_pc :: "u64 \<Rightarrow> Processor_IPE \<Rightarrow> Processor_IPE" where
  "set_pc pc p = p\<lparr>ctx := (ctx p)\<lparr>PC := pc\<rparr>\<rparr>"

definition set_LDST :: "u64 \<Rightarrow> Processor_IPE \<Rightarrow> Processor_IPE" where
  "set_LDST k p = p\<lparr>ctx := (ctx p)\<lparr>loadstore := k\<rparr>\<rparr>"

section \<open>Translation of an address\<close>

text \<open>The value returned, the final content of \<^verbatim>\<open>*HVA\<close> and the state.\<close>

definition addrTranslation :: "Host \<Rightarrow> u64 \<Rightarrow> Processor_IPE \<Rightarrow> (bool \<times> u64 \<times> Processor_IPE) result" where
  "addrTranslation h GVA p =
     (case Check_cache (addrCache p) GVA (ctx p) of
        (True, HVA) \<Rightarrow> Inr (True, HVA, p)
      | (False, _) \<Rightarrow>
          if GVA AND CVMSEG_MASK = CVMSEG_BASE_ADDR
          then Inr (True, CVMSEGBase h + (GVA AND NOT CVMSEG_MASK), p)
          else
            bind_result
              (GVAtoHVA (mmap h) (undefined_size h) (junk_address h) (cp0 p) (tlb p) GVA (ctx p) (memory_map p))
              (\<lambda>(ok, HVA, c, x, gm).
                 let p = p\<lparr>cp0 := c, ctx := x, memory_map := gm\<rparr> in
                 Inr (ok, HVA, if ok then p\<lparr>addrCache := Update_cache GVA HVA (getProt x) (addrCache p)\<rparr> else p)))"

section \<open>Fetching the next block\<close>

text \<open>
  The vector's \<^verbatim>\<open>erase\<close> from position \<^verbatim>\<open>validinstr\<close> on; a position outside the vector is undefined. The difference
  of the addresses is kept in a signed 32-bit integer.
\<close>

definition fixBlock :: "Host \<Rightarrow> IInfo list \<Rightarrow> u64 \<Rightarrow> u64 \<Rightarrow> Processor_IPE \<Rightarrow> (IInfo list \<times> Processor_IPE) result" where
  "fixBlock h instVec blockStartAddress blockEndAddr p =
     (let bytes = (ucast ((blockEndAddr AND NOT 0x0FFF) - blockStartAddress) :: u32);
          validinstr = unat bytes div 4 in
      if unat bytes \<ge> 2 ^ 31 \<or> length instVec < validinstr then Inl OutOfBounds
      else if length instVec - validinstr > 1
      then Inr (take validinstr instVec @ [IInfo_of TERMINATION_INS, IInfo_of 0], p)
      else bind_result (addrTranslation h (blockEndAddr AND NOT 0x0FFF) p)
             (\<lambda>(ok, HVA, p). Inr (take validinstr instVec @ [IInfo_of (host_word h HVA)], p)))"

text \<open>The translation of a block into the cache, after its code has been found at \<open>HVA\<close>.\<close>

definition translate_block :: "Host \<Rightarrow> u64 \<Rightarrow> u64 \<Rightarrow> Processor_IPE \<Rightarrow> Processor_IPE result" where
  "translate_block h localGVA HVA p =
     (let p = p\<lparr>currentBlockStartAddr := localGVA\<rparr> in
      bind_result (getBlock (fuel h) (\<lambda>i. host_word h (HVA + of_nat (4 * i))) 0) (\<lambda>instVec.
      let blockEndAddr = localGVA + of_nat ((length instVec - DELAYSLOTINS) * 4);
          p = p\<lparr>currentBlockEndAddr := blockEndAddr\<rparr> in
      bind_result (getContainer (avail h) localGVA (cacheBlk p)) (\<lambda>blk.
      let p = p\<lparr>cacheBlk := blk\<rparr> in
      bind_result
        (if get_KSU (cp0 p) \<noteq> 0 \<and> currentBlockStartAddr p AND NOT 0x0FFF \<noteq> blockEndAddr AND NOT 0x0FFF
         then fixBlock h instVec localGVA blockEndAddr p else Inr (instVec, p)) (\<lambda>(instVec, p).
      bind_result (doBlockTranslation instVec blockEndAddr) (\<lambda>ws.
      bind_result (fill (avail h) ws (cacheBlk p)) (\<lambda>blk.
      let blk = putInCache localGVA blockEndAddr (Asid p) blk in
      Inr (p\<lparr>cacheBlk := blk, retAddr := CodeStart (firstIndex blk) (secondIndex blk),
             prevRetAddr := CodeStart (firstIndex blk) (secondIndex blk)\<rparr>)))))))"

definition fetchNextBlock :: "Host \<Rightarrow> Processor_IPE \<Rightarrow> Processor_IPE result" where
  "fetchNextBlock h p =
     (let localGVA = PC (ctx p) in
      case doesExists localGVA (Asid p) (cacheBlk p) of
        (Some entry, blk) \<Rightarrow>
          Inr (p\<lparr>cacheBlk := blk, currentBlockStartAddr := localGVA, currentBlockEndAddr := blockEndPC entry,
                 retAddr := CodeStart (firstIndex blk) (secondIndex blk),
                 prevRetAddr := CodeStart (firstIndex blk) (secondIndex blk)\<rparr>)
      | (None, blk) \<Rightarrow>
          let p = set_LDST LD_READ (p\<lparr>cacheBlk := blk\<rparr>) in
          bind_result (addrTranslation h localGVA p) (\<lambda>(ok, HVA, p).
            if ok then translate_block h localGVA HVA p
            else (let localGVA = HVA; p = set_pc localGVA p in
                  bind_result (addrTranslation h localGVA p) (\<lambda>(_, HVA, p). translate_block h localGVA HVA p))))"

section \<open>Requests\<close>

abbreviation (input) FETCH_NEXT_BLOCK_CODE :: u64 where "FETCH_NEXT_BLOCK_CODE \<equiv> 1"

definition raise_exception :: "u32 \<Rightarrow> u64 \<Rightarrow> Processor_IPE \<Rightarrow> Processor_IPE result" where
  "raise_exception exp_type GVA p =
     bind_result (Perform_Exception (cp0 p) GVA exp_type (ctx p)) (\<lambda>(pc, c). Inr (set_pc pc (p\<lparr>cp0 := c\<rparr>)))"

definition executePendingInterrrupts :: "Processor_IPE \<Rightarrow> Processor_IPE result" where
  "executePendingInterrrupts p = raise_exception EXC_INT (PC (ctx p)) p"

definition setTimerTick :: "Host \<Rightarrow> Processor_IPE \<Rightarrow> Processor_IPE" where
  "setTimerTick h p =
     (let cause = cp0_read (cp0 p) H2_CP0_CAUSE SEL_ZERO OR (CAUSE_TI OR CAUSE_IP7) in
      p\<lparr>cp0 := cp0_write cause H2_CP0_CAUSE SEL_ZERO (cp0 p), last_intrpt_time := clk h\<rparr>)"

definition setNMI :: "Processor_IPE \<Rightarrow> Processor_IPE" where
  "setNMI p = p\<lparr>NMI := True\<rparr>"

definition handleNMI :: "Processor_IPE \<Rightarrow> Processor_IPE" where
  "handleNMI p =
     (let status = (cp0_read (cp0 p) H2_CP0_STATUS SEL_ZERO OR 0x00480004) AND 0xFFCFFFFF;
          p = set_pc MIPS_REST_VEC (p\<lparr>cp0 := cp0_write status H2_CP0_STATUS SEL_ZERO (cp0 p)\<rparr>) in
      p\<lparr>controlMark := FETCH_NEXT_BLOCK_CODE, currentBlockStartAddr := 0, currentBlockEndAddr := 0, NMI := False\<rparr>)"

definition NewBlock :: "Host \<Rightarrow> Processor_IPE \<Rightarrow> Processor_IPE result" where
  "NewBlock h p =
     (let p = (if last_intrpt_time p \<noteq> 0 \<and> last_intrpt_time p + 3000000000 < clk h then setTimerTick h p else p) in
      bind_result (if isInterruptPending (cp0 p) then executePendingInterrrupts p else Inr p) (\<lambda>p.
      if PC (ctx p) = 0x0 then Inl NotHandled
      else
        (let p = (if NMI p then handleNMI p else p) in
         if PC (ctx p) \<noteq> currentBlockStartAddr p then fetchNextBlock h p
         else Inr (p\<lparr>retAddr := prevRetAddr p\<rparr>))))"

definition exception_request :: "Host \<Rightarrow> u32 \<Rightarrow> Processor_IPE \<Rightarrow> Processor_IPE result" where
  "exception_request h exp_type p =
     bind_result (raise_exception exp_type (PC (ctx p)) p)
       (\<lambda>p. fetchNextBlock h (p\<lparr>controlMark := FETCH_NEXT_BLOCK_CODE\<rparr>))"

definition Syscall :: "Host \<Rightarrow> Processor_IPE \<Rightarrow> Processor_IPE result" where
  "Syscall h p = exception_request h SCALL p"

definition Handle_BR :: "Host \<Rightarrow> Processor_IPE \<Rightarrow> Processor_IPE result" where
  "Handle_BR h p = exception_request h BRK p"

definition Handle_Trap :: "Host \<Rightarrow> Processor_IPE \<Rightarrow> Processor_IPE result" where
  "Handle_Trap h p = exception_request h TRAP p"

definition Handle_RI :: "Host \<Rightarrow> Processor_IPE \<Rightarrow> Processor_IPE result" where
  "Handle_RI h p = exception_request h EXC_RI p"

text \<open>The overflow signal of the host. The handler returns the address of the code to go on with.\<close>

definition handleSigFPE :: "Host \<Rightarrow> Processor_IPE \<Rightarrow> (code_pointer \<times> Processor_IPE) result" where
  "handleSigFPE h p = bind_result (exception_request h EXC_OV p) (\<lambda>p. Inr (retAddr p, p))"

definition TlbWriteI :: "Processor_IPE \<Rightarrow> Processor_IPE result" where
  "TlbWriteI p =
     bind_result (tlb_write_index (tlb p) (cp0 p)) (\<lambda>t. Inr (p\<lparr>tlb := t, addrCache := Clear_cache (addrCache p)\<rparr>))"

definition TlbProbe :: "Processor_IPE \<Rightarrow> Processor_IPE result" where
  "TlbProbe p = (case tlb_probe (tlb p) (cp0 p) of (t, c) \<Rightarrow> Inr (p\<lparr>tlb := t, cp0 := c\<rparr>))"

definition TlbRead :: "Processor_IPE \<Rightarrow> Processor_IPE result" where
  "TlbRead p = bind_result (tlb_read (tlb p) (cp0 p)) (\<lambda>c. Inr (p\<lparr>cp0 := c\<rparr>))"

definition TlbWrite :: "Host \<Rightarrow> Processor_IPE \<Rightarrow> Processor_IPE result" where
  "TlbWrite h p =
     bind_result (tlb_random (rand h) (tlb p) (cp0 p))
       (\<lambda>(t, c). Inr (p\<lparr>tlb := t, cp0 := c, addrCache := Clear_cache (addrCache p)\<rparr>))"

definition HandleASIDchange :: "Processor_IPE \<Rightarrow> Processor_IPE result" where
  "HandleASIDchange p =
     (let asid = cp0_read (cp0 p) H2_CP0_ENTRYHI SEL_ZERO AND ENTRYHI_ASID_MASK in
      if ucast (Asid p) \<noteq> asid then Inr (p\<lparr>addrCache := Clear_cache (addrCache p), Asid := ucast asid\<rparr>)
      else Inr p)"

text \<open>A wait ends when an interrupt is pending. The address it passes to the delivery is zero.\<close>

definition handlewait :: "Host \<Rightarrow> Processor_IPE \<Rightarrow> Processor_IPE option result" where
  "handlewait h p =
     (if \<not> isInterruptPending (cp0 p) then Inr None
      else
        (let p = set_pc (PC (ctx p) + 4) p in
         bind_result (raise_exception EXC_INT 0x0 p) (\<lambda>p. bind_result (fetchNextBlock h p) (\<lambda>p. Inr (Some p)))))"

definition CompareWrite :: "Host \<Rightarrow> Processor_IPE \<Rightarrow> Processor_IPE result" where
  "CompareWrite h p = Inr (p\<lparr>TIMER := resetTimer (accepts h) (cp0 p) (TIMER p)\<rparr>)"

definition CountWrite :: "Host \<Rightarrow> Processor_IPE \<Rightarrow> Processor_IPE result" where
  "CountWrite h p = Inr (p\<lparr>TIMER := updateTimer (accepts h) (negative_time h) (clk h) (cp0 p) (TIMER p)\<rparr>)"

definition handleLDST :: "Host \<Rightarrow> Processor_IPE \<Rightarrow> Processor_IPE option result" where
  "handleLDST h p =
     (let localtlbData = tlbData p in
      if isIOaddr localtlbData
      then bind_result (iom_GVAtoHVA (mmap h) (undefined_size h) localtlbData (ctx p) (iomanager p) (memory_map p))
             (\<lambda>r. Inr (map_option (\<lambda>(HVA, m, gm). p\<lparr>transAddr := HVA, iomanager := m, memory_map := gm\<rparr>) r))
      else
        bind_result (addrTranslation h localtlbData p) (\<lambda>(ok, HVA, p).
          if ok then Inr (Some (p\<lparr>transAddr := HVA\<rparr>))
          else if HVA = 0x0 then Inl NotHandled
          else bind_result (fetchNextBlock h (set_pc HVA (p\<lparr>LLBit := 0x0\<rparr>))) (\<lambda>p. Inr (Some p))))"

text \<open>
  The dispatch on the control mark, for the fifteen entries of \<^verbatim>\<open>cases\<close>. Writing the log file (entry 11) does not
  change the state. On entry the code saves the return register of the translated code.
\<close>

definition handleRequest :: "Host \<Rightarrow> u64 \<Rightarrow> Processor_IPE \<Rightarrow> Processor_IPE option result" where
  "handleRequest h t9 p =
     (let p = p\<lparr>retAddr := CodeAt t9\<rparr>; k = controlMark p; done = (\<lambda>r. bind_result r (\<lambda>p. Inr (Some p))) in
      if k = 0 then handleLDST h p
      else if k = 1 then done (NewBlock h p)
      else if k = 2 then done (Syscall h p)
      else if k = 3 then done (TlbProbe p)
      else if k = 4 then done (TlbRead p)
      else if k = 5 then done (TlbWriteI p)
      else if k = 6 then done (TlbWrite h p)
      else if k = 7 then done (HandleASIDchange p)
      else if k = 8 then handlewait h p
      else if k = 9 then done (CompareWrite h p)
      else if k = 10 then done (CountWrite h p)
      else if k = 11 then Inr (Some p)
      else if k = 12 then done (Handle_BR h p)
      else if k = 13 then done (Handle_Trap h p)
      else if k = 14 then done (Handle_RI h p)
      else Inl OutOfBounds)"

text \<open>
  The constructor and the first part of \<^verbatim>\<open>C2Assembly2C\<close>. Neither the address cache nor the time of the last interrupt
  is initialized; the parameters are what memory holds. A core other than the first waits for its NMI.
\<close>

definition new_Processor ::
    "Host \<Rightarrow> (nat \<Rightarrow> nat \<Rightarrow> u8) \<Rightarrow> AddrTranslationCache \<Rightarrow> u64 \<Rightarrow> TLB_IPE \<Rightarrow> IOManager \<Rightarrow> GPAMap \<Rightarrow> Processor_IPE result" where
  "new_Processor h asids old_cache time t m gm =
     bind_result (new_BlockCache (avail h) asids) (\<lambda>blk.
     Inr \<lparr>cp0 = initCP0 \<lparr>reg = (\<lambda>_. 0)\<rparr>, tlb = t, ctx = \<lparr>loadstore = 0, PC = MIPS_REST_VEC, writeData = 0\<rparr>, controlMark = 0,
          currentBlockStartAddr = 0, currentBlockEndAddr = 0, tlbData = 0, transAddr = 0, LLBit = 0, cacheBlk = blk,
          addrCache = old_cache, retAddr = CodeAt 0, prevRetAddr = CodeAt 0, NMI = False, Asid = 0x0, TIMER = new_timer (clk h),
          last_intrpt_time = time, iomanager = m, memory_map = gm\<rparr>)"

definition start_core :: "Processor_IPE \<Rightarrow> Processor_IPE option" where
  "start_core p =
     (let p = set_pc MIPS_REST_VEC (p\<lparr>controlMark := FETCH_NEXT_BLOCK_CODE\<rparr>) in
      if corenum (cp0 p) \<noteq> 0 \<and> \<not> NMI p then None
      else
        (let p = (if corenum (cp0 p) \<noteq> 0 then p\<lparr>NMI := False\<rparr> else p) in
         Some (p\<lparr>currentBlockStartAddr := 0, currentBlockEndAddr := 0\<rparr>)))"

end
