(* ===== verification/ProcessorCorrect.thy ===== *)
theory ProcessorCorrect
  imports Processor
begin

text \<open>
  What the handlers of a core guarantee: which parts of the state a translation of an address leaves alone, that the
  block a core is sent to is the block of its program counter, how a block is cut at the end of a page, how interrupts are taken, and
  two ways in which a core goes on with what the guest has revoked.
\<close>

section \<open>Frames\<close>

lemma mmu_keeps_pc:
  assumes "mmu_GVAtoGPA c t GVA g x = Inr (ok, GPA, c', x')"
  shows "PC x' = PC x" "writeData x' = writeData x"
  using assms
  by (auto simp: mmu_GVAtoGPA_def tlb_GVAtoGPA_def Let_def bind_result_Inr_iff setProt_def split: if_splits option.splits)

lemma GVAtoHVA_keeps_pc:
  assumes "GVAtoHVA mm ub g c t GVA x gm = Inr (ok, HVA, c', x', gm')"
  shows "PC x' = PC x" "writeData x' = writeData x"
  using assms mmu_keeps_pc by (auto simp: GVAtoHVA_def bind_result_Inr_iff split: if_splits)

text \<open>The parts of the state that decide where a core goes on.\<close>

definition same_flow :: "Processor_IPE \<Rightarrow> Processor_IPE \<Rightarrow> bool" where
  "same_flow p q \<longleftrightarrow> PC (ctx q) = PC (ctx p) \<and> cacheBlk q = cacheBlk p \<and> Asid q = Asid p \<and> NMI q = NMI p
     \<and> currentBlockStartAddr q = currentBlockStartAddr p \<and> currentBlockEndAddr q = currentBlockEndAddr p
     \<and> retAddr q = retAddr p \<and> prevRetAddr q = prevRetAddr p \<and> tlb q = tlb p \<and> controlMark q = controlMark p \<and> LLBit q = LLBit p"

lemma same_flow_refl [simp]: "same_flow p p"
  by (simp add: same_flow_def)

lemma addrTranslation_flow:
  assumes "addrTranslation h GVA p = Inr (ok, HVA, q)"
  shows "same_flow p q"
  using assms GVAtoHVA_keeps_pc(1)
  by (auto simp: addrTranslation_def same_flow_def bind_result_Inr_iff Let_def split: prod.splits bool.splits if_splits)

lemma fixBlock_flow:
  assumes "fixBlock h vec start fin p = Inr (vec', q)"
  shows "same_flow p q"
  using assms addrTranslation_flow by (auto simp: fixBlock_def Let_def bind_result_Inr_iff split: if_splits)

section \<open>The block of the program counter\<close>

text \<open>A core is at the block of an address: the cache holds it under the current address space, and the core goes on there.\<close>

definition at_block :: "u64 \<Rightarrow> Processor_IPE \<Rightarrow> bool" where
  "at_block pc p \<longleftrightarrow> currentBlockStartAddr p = pc
     \<and> (\<exists>code. bc_look (cacheBlk p) pc (Asid p) = Some (currentBlockEndAddr p, code))
     \<and> retAddr p = CodeStart (firstIndex (updateIndex pc (cacheBlk p))) (secondIndex (updateIndex pc (cacheBlk p)))
     \<and> prevRetAddr p = retAddr p"

definition at_index :: "u64 \<Rightarrow> BlockCache \<Rightarrow> bool" where
  "at_index k s \<longleftrightarrow> firstIndex s = unat (drop_bit 2 k AND 127) \<and> secondIndex s = unat (drop_bit 9 k AND 63)"

lemma at_index_update [simp]: "at_index k (updateIndex k s)" "at_index k (set_current v s) = at_index k s"
  by (simp_all add: at_index_def)

lemma updateIndex_at: "at_index k s \<Longrightarrow> updateIndex k s = s"
  by (cases s) (simp add: at_index_def updateIndex_def)

lemma cache_steps_index:
  "getContainer av k s = Inr s' \<Longrightarrow> at_index k s'"
  "fill av ws s = Inr s' \<Longrightarrow> at_index k s' = at_index k s"
  "at_index k (putInCache k' e a s) = at_index k s"
  by (auto simp: getContainer_def fill_def putInCache_def Let_def bind_result_Inr_iff)

lemma putInCache_found:
  assumes "at_index k s"
  shows "bc_look (putInCache k e a s) k a = Some (e, translatedBlock (current s))"
  using assms by (simp add: bc_look_def doesExists_def Let_def updateIndex_at cache_steps_index(3)) (simp add: putInCache_def)

lemma translate_block_at:
  assumes "translate_block h pc HVA p = Inr q"
  shows "at_block pc q" "PC (ctx q) = PC (ctx p)" "Asid q = Asid p" "NMI q = NMI p"
proof -
  let ?fin = "\<lambda>vec. pc + of_nat ((length vec - DELAYSLOTINS) * 4)"
  let ?p = "\<lambda>vec blk. p\<lparr>currentBlockStartAddr := pc, currentBlockEndAddr := ?fin vec, cacheBlk := blk\<rparr>"
  let ?put = "\<lambda>vec p1 blk2. putInCache pc (?fin vec) (Asid p1) blk2"
  from assms obtain vec blk vec' p1 ws blk2 where
    c: "getContainer (avail h) pc (cacheBlk p) = Inr blk"
    and fx: "(if get_KSU (cp0 p) \<noteq> 0 \<and> pc AND NOT 0x0FFF \<noteq> ?fin vec AND NOT 0x0FFF
         then fixBlock h vec pc (?fin vec) (?p vec blk) else Inr (vec, ?p vec blk)) = Inr (vec', p1)"
    and f: "fill (avail h) ws (cacheBlk p1) = Inr blk2"
    and q: "q = p1\<lparr>cacheBlk := ?put vec p1 blk2, retAddr := CodeStart (firstIndex (?put vec p1 blk2)) (secondIndex (?put vec p1 blk2)),
        prevRetAddr := CodeStart (firstIndex (?put vec p1 blk2)) (secondIndex (?put vec p1 blk2))\<rparr>"
    by (auto simp: translate_block_def Let_def bind_result_Inr_iff simp del: if_split of_nat_mult)
  have fl: "same_flow (?p vec blk) p1" using fx fixBlock_flow by (auto split: if_splits)
  then show "PC (ctx q) = PC (ctx p)" "Asid q = Asid p" "NMI q = NMI p" by (simp_all add: q same_flow_def)
  have i: "at_index pc blk2" using cache_steps_index(1) [OF c] cache_steps_index(2) [OF f, of pc] fl by (simp add: same_flow_def)
  show "at_block pc q"
    using fl putInCache_found [OF i] cache_steps_index(3) i by (simp add: at_block_def q same_flow_def updateIndex_at)
qed

lemma fetchNextBlock_at:
  assumes "fetchNextBlock h p = Inr q"
  shows "at_block (PC (ctx q)) q"
proof (cases "doesExists (PC (ctx p)) (Asid p) (cacheBlk p)")
  case (Pair found blk)
  show ?thesis
  proof (cases found)
    case (Some e)
    then show ?thesis using assms Pair
      by (auto simp: fetchNextBlock_def Let_def at_block_def bc_look_def doesExists_def current_def split: if_splits)
  next
    case None
    let ?p = "set_LDST LD_READ (p\<lparr>cacheBlk := blk\<rparr>)"
    obtain ok HVA p1 where t: "addrTranslation h (PC (ctx p)) ?p = Inr (ok, HVA, p1)"
      and rest: "(if ok then translate_block h (PC (ctx p)) HVA p1
         else bind_result (addrTranslation h HVA (set_pc HVA p1)) (\<lambda>(_, HVA', p). translate_block h HVA HVA' p)) = Inr q"
      using assms by (auto simp: fetchNextBlock_def Pair None Let_def bind_result_Inr_iff simp del: if_split cong: if_cong)
    have "PC (ctx p1) = PC (ctx p)" using addrTranslation_flow [OF t] by (simp add: same_flow_def set_LDST_def)
    moreover have "PC (ctx p2) = HVA" if "addrTranslation h HVA (set_pc HVA p1) = Inr (x, y, p2)" for x y p2
      using addrTranslation_flow [OF that] by (simp add: same_flow_def set_pc_def)
    ultimately show ?thesis
      using rest translate_block_at(1,2) by (cases ok) (auto simp: bind_result_Inr_iff)
  qed
qed

lemma fetchNextBlock_hit:
  assumes "bc_look (cacheBlk p) (PC (ctx p)) (Asid p) = Some (fin, code)"
  shows "\<exists>q. fetchNextBlock h p = Inr q \<and> at_block (PC (ctx p)) q \<and> same_flow p (q\<lparr>cacheBlk := cacheBlk p,
       currentBlockStartAddr := currentBlockStartAddr p, currentBlockEndAddr := currentBlockEndAddr p, retAddr := retAddr p, prevRetAddr := prevRetAddr p\<rparr>)
     \<and> bc_cache (cacheBlk q) = bc_cache (cacheBlk p) \<and> currentBlockEndAddr q = fin"
  using assms
  by (auto simp: fetchNextBlock_def Let_def at_block_def bc_look_def doesExists_def current_def same_flow_def split: if_splits)

section \<open>A sample core\<close>

text \<open>A core with every register of CP0 equal to \<open>r\<close>, all places of whose block cache hold a block of the address \<open>k\<close>.\<close>

definition sample_core :: "u64 \<Rightarrow> u64 \<Rightarrow> AddrTranslationCache \<Rightarrow> Processor_IPE" where
  "sample_core r k ac =
     \<lparr>cp0 = \<lparr>reg = (\<lambda>_. r)\<rparr>, tlb = blank_tlb, ctx = \<lparr>loadstore = 0, PC = k, writeData = 0\<rparr>, controlMark = 1,
      currentBlockStartAddr = 0, currentBlockEndAddr = 0, tlbData = 0, transAddr = 0, LLBit = 0,
      cacheBlk = \<lparr>bc_cache = (\<lambda>_ _. \<lparr>cv_key = k, blockEndPC = k + 8,
          translatedBlock = \<lparr>container = [], currentlocation = 0, currentsize = 0, allocatedsize = 0\<rparr>, cv_asid = 0\<rparr>),
          firstIndex = 0, secondIndex = 0\<rparr>,
      addrCache = ac, retAddr = CodeAt 0, prevRetAddr = CodeAt 0, NMI = False, Asid = 0, TIMER = new_timer 0,
      last_intrpt_time = 0, iomanager = \<lparr>ioaddrCache = [], MessageBox = [], DeviceHVA = []\<rparr>, memory_map = \<lparr>GPAtoHVAMap_IPE = Map.empty, mappings = []\<rparr>\<rparr>"

lemma sample_core_fields [simp]:
  "cp0 (sample_core r k ac) = \<lparr>reg = (\<lambda>_. r)\<rparr>" "tlb (sample_core r k ac) = blank_tlb"
  "ctx (sample_core r k ac) = \<lparr>loadstore = 0, PC = k, writeData = 0\<rparr>" "addrCache (sample_core r k ac) = ac"
  "controlMark (sample_core r k ac) = 1" "NMI (sample_core r k ac) = False" "currentBlockStartAddr (sample_core r k ac) = 0"
  "last_intrpt_time (sample_core r k ac) = 0" "Asid (sample_core r k ac) = 0"
  by (simp_all add: sample_core_def)

lemma sample_core_look:
  "\<exists>code. bc_look (cacheBlk (sample_core r k ac)) k 0 = Some (k + 8, code)"
  by (simp add: sample_core_def bc_look_def doesExists_def current_def Let_def updateIndex_def)

section \<open>Blocks at the end of a page\<close>

lemma page_start:
  fixes a :: u64
  shows "unat (a AND NOT 0x0FFF) = unat a - unat a mod 4096"
proof -
  have "a AND NOT 0x0FFF = push_bit 12 (drop_bit 12 a)"
    by (rule word64_eqI) (simp add: bitblast bit_simps)
  then have "a AND NOT 0x0FFF = a - take_bit 12 a" using bits_ident [of 12 a] by (simp add: eq_diff_eq)
  moreover have "unat (take_bit 12 a) = unat a mod 4096" by (simp add: take_bit_eq_mod unat_mod_distrib)
  moreover have "take_bit 12 a \<le> a" by (simp add: word_le_nat_alt calculation(2))
  ultimately show ?thesis by (simp add: unat_sub)
qed

text \<open>
  A block of a mapped address space that runs over a page boundary is cut at the start of the page of its last
  branch and closed with a terminating instruction. The second case of the code, which would fetch the delay
  slot from the other page, is never reached: the address it tests is the one of the branch, not of the slot.
\<close>

lemma fixBlock_cuts:
  assumes "2 \<le> length vec" "unat start + 4 * length vec \<le> 2 ^ 64" "4 * length vec < 2 ^ 31" "unat start mod 4 = 0"
    and "fin = start + of_nat ((length vec - DELAYSLOTINS) * 4)" "start AND NOT 0x0FFF \<noteq> fin AND NOT 0x0FFF"
  shows "\<exists>k \<le> length vec - 2. fixBlock h vec start fin p = Inr (take k vec @ [IInfo_of TERMINATION_INS, IInfo_of 0], p)
    \<and> unat start + 4 * k = unat fin - unat fin mod 4096 \<and> 0 < k"
proof -
  define n where "n = 4 * (length vec - 2)"
  have n: "unat (of_nat n :: u64) = n" using assms(2,1) unfolding n_def by (subst unat_of_nat) (simp add: take_bit_nat_eq_self)
  have fin: "fin = start + of_nat n" by (simp only: assms(5) n_def mult.commute)
  have f: "unat fin = unat start + n"
    unfolding fin using assms(1,2) n by (simp only: unat_word_ariths) (simp add: n_def)
  define m where "m = unat fin - unat fin mod 4096"
  have m: "unat (fin AND NOT 0x0FFF) = m" unfolding m_def by (rule page_start)
  have "unat start div 4096 \<noteq> unat fin div 4096"
  proof
    assume "unat start div 4096 = unat fin div 4096"
    then have "unat (start AND NOT 0x0FFF) = unat (fin AND NOT 0x0FFF)" unfolding page_start minus_mod_eq_div_mult by simp
    then show False using assms(6) unfolding word_unat_eq_iff by blast
  qed
  moreover have "unat start div 4096 \<le> unat fin div 4096" using f by (intro div_le_mono) simp
  ultimately have "unat start div 4096 + 1 \<le> unat fin div 4096" by simp
  then have "(unat start div 4096 + 1) * 4096 \<le> m" unfolding m_def minus_mod_eq_div_mult by (rule mult_le_mono1)
  moreover have "unat start < (unat start div 4096 + 1) * 4096" using div_mult_mod_eq [of "unat start" 4096] mod_less_divisor [of 4096 "unat start"] by simp
  ultimately have ge: "unat start < m" by simp
  have le: "m - unat start \<le> n" using f by (simp add: m_def)
  define k where "k = (m - unat start) div 4"
  have "4 dvd m" unfolding m_def minus_mod_eq_div_mult by simp
  moreover have "4 dvd unat start" using assms(4) by (simp add: mod_eq_0_iff_dvd)
  ultimately have k4: "4 * k = m - unat start" by (simp add: k_def dvd_diff_nat)
  have b: "unat (ucast ((fin AND NOT 0x0FFF) - start) :: u32) = m - unat start"
  proof -
    have "unat ((fin AND NOT 0x0FFF) - start) = m - unat start" using ge m by (simp add: unat_sub word_le_nat_alt)
    moreover have "m - unat start < 2 ^ 32" using le assms(3) by (simp add: n_def)
    ultimately show ?thesis by (simp add: unsigned_ucast_eq take_bit_nat_eq_self)
  qed
  have kl: "k \<le> length vec - 2" using le k4 by (simp add: n_def)
  have "m - unat start < 2 ^ 31" using le assms(3) by (simp add: n_def)
  moreover have "1 < length vec - k" "k \<le> length vec" using kl assms(1) by arith+
  ultimately have "fixBlock h vec start fin p = Inr (take k vec @ [IInfo_of TERMINATION_INS, IInfo_of 0], p)"
    unfolding fixBlock_def Let_def b k_def [symmetric] by simp
  then show ?thesis using kl k4 ge by (intro exI [of _ k]) (auto simp: m_def [symmetric])
qed

section \<open>Where a core goes on\<close>

text \<open>
  The run of a core: translated code changes registers, the program counter, the control mark and the address
  of an access; a request is handled; the interrupt unit sends an NMI; the timer thread ticks.
\<close>

inductive core_step :: "Processor_IPE \<Rightarrow> Processor_IPE \<Rightarrow> bool" where
  guest: "core_step p (p\<lparr>cp0 := c, ctx := x, controlMark := k, tlbData := d, LLBit := l\<rparr>)"
| request: "handleRequest h t9 p = Inr (Some q) \<Longrightarrow> core_step p q"
| nmi: "core_step p (setNMI p)"
| tick: "core_step p (setTimerTick h p)"

inductive core_reachable :: "Processor_IPE \<Rightarrow> bool" where
  start: "start_core p = Some q \<Longrightarrow> core_reachable q"
| step: "core_reachable p \<Longrightarrow> core_step p q \<Longrightarrow> core_reachable q"

text \<open>The pointer to the current block points to the block the start and end addresses are of.\<close>

definition place :: "u64 \<Rightarrow> nat \<times> nat" where
  "place pc = (unat (drop_bit 2 pc AND 127), unat (drop_bit 9 pc AND 63))"

definition code_of :: "u64 \<Rightarrow> code_pointer \<Rightarrow> Processor_IPE \<Rightarrow> bool" where
  "code_of pc a p \<longleftrightarrow> a = CodeStart (fst (place pc)) (snd (place pc))
     \<and> (let e = bc_cache (cacheBlk p) (fst (place pc)) (snd (place pc)) in cv_key e = pc \<and> blockEndPC e = currentBlockEndAddr p)"

definition block_known :: "Processor_IPE \<Rightarrow> bool" where
  "block_known p \<longleftrightarrow> (currentBlockStartAddr p \<noteq> 0 \<longrightarrow> code_of (currentBlockStartAddr p) (prevRetAddr p) p)"

lemma at_block_code:
  assumes "at_block pc q"
  shows "code_of pc (retAddr q) q" "block_known q" "currentBlockStartAddr q = pc"
proof -
  show "code_of pc (retAddr q) q" "currentBlockStartAddr q = pc"
    using assms by (auto simp: at_block_def code_of_def place_def bc_look_def doesExists_def Let_def current_def split: if_splits)
  then show "block_known q" using assms by (simp add: block_known_def at_block_def)
qed

lemma block_known_frame:
  assumes "block_known p" "currentBlockStartAddr q = currentBlockStartAddr p \<and> currentBlockEndAddr q = currentBlockEndAddr p
     \<and> prevRetAddr q = prevRetAddr p \<and> bc_cache (cacheBlk q) = bc_cache (cacheBlk p)"
  shows "block_known q"
  using assms by (simp add: block_known_def code_of_def Let_def)

lemma raise_exception_frame:
  assumes "raise_exception t g p = Inr q"
  shows "\<exists>pc c. Perform_Exception (cp0 p) g t (ctx p) = Inr (pc, c) \<and> q = set_pc pc (p\<lparr>cp0 := c\<rparr>)"
  using assms by (auto simp: raise_exception_def bind_result_Inr_iff)

lemma NewBlock_code:
  assumes "NewBlock h p = Inr q" "block_known p"
  shows "code_of (PC (ctx q)) (retAddr q) q \<and> block_known q"
proof -
  obtain p1 where known: "block_known p1"
    and i: "(if isInterruptPending (cp0 p1) then executePendingInterrrupts p1 else Inr p1)
        = (if isInterruptPending (cp0 p1) then raise_exception EXC_INT (PC (ctx p1)) p1 else Inr p1)"
    and rest: "bind_result (if isInterruptPending (cp0 p1) then executePendingInterrrupts p1 else Inr p1) (\<lambda>p.
      if PC (ctx p) = 0x0 then Inl NotHandled
      else
        (let p = (if NMI p then handleNMI p else p) in
         if PC (ctx p) \<noteq> currentBlockStartAddr p then fetchNextBlock h p
         else Inr (p\<lparr>retAddr := prevRetAddr p\<rparr>))) = Inr q"
  proof (rule that)
    let ?p = "if last_intrpt_time p \<noteq> 0 \<and> last_intrpt_time p + 3000000000 < clk h then setTimerTick h p else p"
    show "block_known ?p" by (rule block_known_frame [OF assms(2)]) (simp add: setTimerTick_def Let_def)
    show "(if isInterruptPending (cp0 ?p) then executePendingInterrrupts ?p else Inr ?p)
        = (if isInterruptPending (cp0 ?p) then raise_exception EXC_INT (PC (ctx ?p)) ?p else Inr ?p)"
      by (simp only: executePendingInterrrupts_def)
  qed (use assms(1) in \<open>simp only: NewBlock_def Let_def\<close>)
  obtain p2 where p2: "(if isInterruptPending (cp0 p1) then raise_exception EXC_INT (PC (ctx p1)) p1 else Inr p1) = Inr p2"
    and rest2: "(let p = (if NMI p2 then handleNMI p2 else p2) in
         if PC (ctx p) \<noteq> currentBlockStartAddr p then fetchNextBlock h p else Inr (p\<lparr>retAddr := prevRetAddr p\<rparr>)) = Inr q"
    and nz: "PC (ctx p2) \<noteq> 0"
    using rest unfolding i by (auto simp: bind_result_Inr_iff simp del: if_split cong: if_cong split: if_splits)
  have "block_known p2"
    using p2 raise_exception_frame [of EXC_INT "PC (ctx p1)" p1 p2]
    by (intro block_known_frame [OF known]) (auto simp: set_pc_def split: if_splits)
  then show ?thesis
    using rest2 nz fetchNextBlock_at [of h "handleNMI p2" q] fetchNextBlock_at [of h p2 q] at_block_code(1,2)
    by (cases "NMI p2") (auto simp: Let_def handleNMI_def set_pc_def block_known_def code_of_def split: if_splits)
qed

lemma fetch_code:
  assumes "fetchNextBlock h p = Inr q"
  shows "code_of (PC (ctx q)) (retAddr q) q \<and> block_known q"
  using at_block_code(1,2) [OF fetchNextBlock_at [OF assms]] by simp

lemma exception_request_code:
  assumes "exception_request h t p = Inr q"
  shows "code_of (PC (ctx q)) (retAddr q) q \<and> block_known q"
  using assms fetch_code by (auto simp: exception_request_def bind_result_Inr_iff)

lemmas request_defs = Syscall_def Handle_BR_def Handle_Trap_def Handle_RI_def TlbProbe_def TlbRead_def TlbWriteI_def
  TlbWrite_def HandleASIDchange_def CompareWrite_def CountWrite_def

text \<open>The marks with which translated code asks for a block to go on with.\<close>

definition asks_for_block :: "u64 \<Rightarrow> bool" where
  "asks_for_block k \<longleftrightarrow> k \<in> {1, 2, 8, 12, 13, 14}"

lemma handleRequest_code:
  assumes "handleRequest h t9 p = Inr (Some q)" "block_known p"
  shows "block_known q \<and> (asks_for_block (controlMark p) \<longrightarrow> code_of (PC (ctx q)) (retAddr q) q)"
proof -
  let ?p = "p\<lparr>retAddr := CodeAt t9\<rparr>"
  have known: "block_known ?p" by (rule block_known_frame [OF assms(2)]) simp
  have data: "block_known q" if "handleLDST h ?p = Inr (Some q)"
    using that block_known_frame [OF known] addrTranslation_flow fetch_code
    by (fastforce simp: handleLDST_def Let_def bind_result_Inr_iff same_flow_def split: if_splits)
  have wait: "code_of (PC (ctx q)) (retAddr q) q \<and> block_known q" if "handlewait h ?p = Inr (Some q)"
    using that fetch_code by (auto simp: handlewait_def Let_def bind_result_Inr_iff split: if_splits)
  have exc: "code_of (PC (ctx q)) (retAddr q) q \<and> block_known q"
    if "exception_request h t ?p = Inr q" for t using exception_request_code [OF that] .
  have new: "code_of (PC (ctx q)) (retAddr q) q \<and> block_known q" if "NewBlock h ?p = Inr q"
    using NewBlock_code [OF that known] .
  have other: "block_known q"
    if "TlbProbe ?p = Inr q \<or> TlbRead ?p = Inr q \<or> TlbWriteI ?p = Inr q \<or> TlbWrite h ?p = Inr q
      \<or> HandleASIDchange ?p = Inr q \<or> CompareWrite h ?p = Inr q \<or> CountWrite h ?p = Inr q"
    using that by (intro block_known_frame [OF known])
      (auto simp: request_defs bind_result_Inr_iff Let_def split: prod.splits if_splits)
  show ?thesis
    using assms(1) data wait exc new other known
    by (auto simp: handleRequest_def Let_def asks_for_block_def Syscall_def Handle_BR_def Handle_Trap_def Handle_RI_def
        bind_result_Inr_iff split: if_splits)
qed

lemma core_reachable_known: "core_reachable p \<Longrightarrow> block_known p"
proof (induction rule: core_reachable.induct)
  case (start p q)
  then show ?case by (auto simp: start_core_def Let_def block_known_def split: if_splits)
next
  case (step p q)
  from step.hyps(2) show ?case
  proof cases
    case (request h t9)
    then show ?thesis using handleRequest_code step.IH by blast
  qed (use block_known_frame [OF step.IH] in \<open>simp_all add: setNMI_def setTimerTick_def Let_def\<close>)
qed

text \<open>
  Property C6. A core goes on at its program counter. After any run, a request that asks for a block returns to the
  start of the code that the block cache keeps for the program counter, and \<^verbatim>\<open>currentBlockEndAddr\<close> is the end of that
  block; this includes the shortcut that runs the current block again through \<^verbatim>\<open>prevRetAddr\<close>.
\<close>

theorem next_block_is_pc:
  assumes "core_reachable p" "asks_for_block (controlMark p)" "handleRequest h t9 p = Inr (Some q)"
  shows "\<exists>i j. retAddr q = CodeStart i j \<and> cv_key (bc_cache (cacheBlk q) i j) = PC (ctx q)
    \<and> blockEndPC (bc_cache (cacheBlk q) i j) = currentBlockEndAddr q"
  using handleRequest_code [OF assms(3) core_reachable_known [OF assms(1)]] assms(2) by (simp add: code_of_def Let_def)

theorem next_block_is_pc_witness:
  "\<forall>h. \<exists>p q i j. core_reachable p \<and> handleRequest h 0 p = Inr (Some q) \<and> retAddr q = CodeStart i j
     \<and> cv_key (bc_cache (cacheBlk q) i j) = MIPS_REST_VEC \<and> currentBlockEndAddr q = MIPS_REST_VEC + 8"
proof
  fix h
  let ?p = "sample_core 0 MIPS_REST_VEC []"
  have s: "start_core ?p = Some (set_pc MIPS_REST_VEC (?p\<lparr>controlMark := FETCH_NEXT_BLOCK_CODE\<rparr>)
      \<lparr>currentBlockStartAddr := 0, currentBlockEndAddr := 0\<rparr>)"
    by (simp add: start_core_def corenum_def cp0_read_def set_pc_def Let_def)
  let ?q = "set_pc MIPS_REST_VEC (?p\<lparr>controlMark := FETCH_NEXT_BLOCK_CODE\<rparr>)\<lparr>currentBlockStartAddr := 0, currentBlockEndAddr := 0\<rparr>"
  have r: "core_reachable ?q" by (rule core_reachable.start [OF s])
  let ?q' = "?q\<lparr>retAddr := CodeAt 0\<rparr>"
  obtain code where "bc_look (cacheBlk ?q') (PC (ctx ?q')) (Asid ?q') = Some (MIPS_REST_VEC + 8, code)"
    using sample_core_look [of 0 MIPS_REST_VEC "[]"] by (auto simp: set_pc_def)
  from fetchNextBlock_hit [OF this, of h] obtain q where q: "fetchNextBlock h ?q' = Inr q" "currentBlockEndAddr q = MIPS_REST_VEC + 8"
      "PC (ctx q) = MIPS_REST_VEC" by (auto simp: same_flow_def set_pc_def)
  have n: "\<not> isInterruptPending \<lparr>reg = (\<lambda>_. 0)\<rparr>" by (simp add: isInterruptPending_def Let_def)
  have "NewBlock h ?q' = Inr q"
    using q(1) n by (simp add: NewBlock_def set_pc_def)
  then have h: "handleRequest h 0 ?q = Inr (Some q)" by (simp add: handleRequest_def set_pc_def)
  have "asks_for_block (controlMark ?q)" by (simp add: asks_for_block_def set_pc_def)
  from next_block_is_pc [OF r this h] q(2,3) r h
  show "\<exists>p q i j. core_reachable p \<and> handleRequest h 0 p = Inr (Some q) \<and> retAddr q = CodeStart i j
     \<and> cv_key (bc_cache (cacheBlk q) i j) = MIPS_REST_VEC \<and> currentBlockEndAddr q = MIPS_REST_VEC + 8"
    by metis
qed

section \<open>Stale translations\<close>

lemma TlbWriteI_block: "TlbWriteI p = Inr q \<Longrightarrow> cacheBlk q = cacheBlk p \<and> ctx q = ctx p \<and> Asid q = Asid p"
  by (auto simp: TlbWriteI_def bind_result_Inr_iff)

text \<open>
  Property C38. A block outlives its page. After \<^verbatim>\<open>tlbwi\<close> has replaced an entry of the TLB, the next block at an
  address that the block cache knows is fetched from the cache, for whatever the TLB and the host's memory now
  hold: no handler of a TLB write drops translated blocks, and fetching a cached block translates no address.
\<close>

theorem stale_block_runs:
  assumes "bc_look (cacheBlk p) (PC (ctx p)) (Asid p) = Some (fin, code)" "TlbWriteI p = Inr q"
  shows "\<exists>r. fetchNextBlock h q = Inr r \<and> bc_look (cacheBlk r) (PC (ctx r)) (Asid r) = Some (fin, code)
    \<and> currentBlockStartAddr r = PC (ctx p) \<and> currentBlockEndAddr r = fin \<and> addrCache r = addrCache q \<and> cp0 r = cp0 q"
  using assms(1) TlbWriteI_block [OF assms(2)]
  by (auto simp: fetchNextBlock_def Let_def bc_look_def doesExists_def current_def split: if_splits)

theorem stale_block_runs_witness:
  "\<forall>h. \<exists>q r. TlbWriteI (sample_core 0 0x1000 []) = Inr q \<and> fetchNextBlock h q = Inr r \<and> currentBlockEndAddr r = 0x1008
     \<and> \<not> (\<exists>GPA c x. tlb_GVAtoGPA (tlb q) (cp0 q) 0x1000 0 (ctx q) = Inr (True, GPA, c, x))"
proof
  fix h
  let ?p = "sample_core 0 0x1000 []"
  obtain code where look: "bc_look (cacheBlk ?p) (PC (ctx ?p)) (Asid ?p) = Some (0x1008, code)"
    using sample_core_look [of 0 "0x1000" "[]"] by auto
  have t: "tlb_write_index blank_tlb \<lparr>reg = (\<lambda>_. 0)\<rparr> = Inr (blank_tlb[0 := set_Entry \<lparr>reg = (\<lambda>_. 0)\<rparr> blank_entry])"
    by (simp add: tlb_write_index_def get_index_def cp0_read_def)
  then obtain q where q: "TlbWriteI ?p = Inr q" "tlb q = blank_tlb[0 := set_Entry \<lparr>reg = (\<lambda>_. 0)\<rparr> blank_entry]" "cp0 q = \<lparr>reg = (\<lambda>_. 0)\<rparr>"
      "ctx q = \<lparr>loadstore = 0, PC = 0x1000, writeData = 0\<rparr>"
    by (simp add: TlbWriteI_def)
  have v: "\<not> (entry_matches a b 0x1000 e \<and> page_valid 0x1000 e)" if "e \<in> set (tlb q)" for a b e
  proof -
    have "e = set_Entry \<lparr>reg = (\<lambda>_. 0)\<rparr> blank_entry \<or> e = blank_entry"
      using that set_update_subset_insert [of blank_tlb 0 "set_Entry \<lparr>reg = (\<lambda>_. 0)\<rparr> blank_entry"]
      by (auto simp: q(2) blank_tlb_def)
    then show ?thesis
      by (auto simp: entry_matches_def page_valid_def odd_page_def set_Entry_def blank_entry_def cp0_read_def Let_def)
  qed
  have "\<not> (\<exists>GPA c x. tlb_GVAtoGPA (tlb q) (cp0 q) 0x1000 0 (ctx q) = Inr (True, GPA, c, x))"
    using tlb_success [of "tlb q" "cp0 q" "0x1000" 0 "ctx q"] v q(4) by fastforce
  with stale_block_runs [OF look q(1), of h] q
  show "\<exists>q r. TlbWriteI ?p = Inr q \<and> fetchNextBlock h q = Inr r \<and> currentBlockEndAddr r = 0x1008
     \<and> \<not> (\<exists>GPA c x. tlb_GVAtoGPA (tlb q) (cp0 q) 0x1000 0 (ctx q) = Inr (True, GPA, c, x))"
    by auto
qed

text \<open>
  The address cache forgets the mode. Once an address has been translated, a core with any other register
  file gets the same host address for it, in particular a core that has gone to user mode gets the kernel's page, which
  the translation itself would refuse: the cache is cleared on TLB writes and changes of the address space, but not on
  changes of Status.
\<close>

lemma cached_page_ignores_mode:
  assumes "addrTranslation h GVA p = Inr (True, HVA, q)" "cache_wf (addrCache p)" "GVA AND CVMSEG_MASK \<noteq> CVMSEG_BASE_ADDR"
  shows "addrTranslation h GVA (q\<lparr>cp0 := c\<rparr>) = Inr (True, HVA, q\<lparr>cp0 := c\<rparr>)
    \<and> (get_KSU c = USER_MODE \<and> 0xFFFFFFFF80000000 \<le> GVA \<longrightarrow> \<not> verify_priviliges c GVA)"
proof (intro conjI impI)
  have "Check_cache (addrCache q) GVA (ctx q) = (True, HVA)"
  proof (cases "Check_cache (addrCache p) GVA (ctx p)")
    case (Pair hit a)
    then show ?thesis
    proof (cases hit)
      case False
      then have q: "addrCache q = Update_cache GVA HVA (getProt (ctx q)) (addrCache p)"
        using assms(1,3) Pair by (auto simp: addrTranslation_def bind_result_Inr_iff Let_def)
      have "ac_look (addrCache q) GVA (getLDST (ctx q)) = Some HVA"
        using ac.look_ins_hit [of "addrCache p" GVA GVA "getLDST (ctx q)" "getProt (ctx q)" HVA] assms(2)
        by (subst q) (simp add: same_page_def getLDST_def getProt_def)
      then show ?thesis by (simp add: ac_look_iff)
    qed (use assms(1) in \<open>auto simp: addrTranslation_def\<close>)
  qed
  then show "addrTranslation h GVA (q\<lparr>cp0 := c\<rparr>) = Inr (True, HVA, q\<lparr>cp0 := c\<rparr>)" by (simp add: addrTranslation_def)
next
  assume u: "get_KSU c = USER_MODE \<and> 0xFFFFFFFF80000000 \<le> GVA"
  then have l: "0xFFFFFFFF80000000 \<le> unat GVA" "unat GVA < 2 ^ 64" using unsigned_less [of GVA] by (simp_all add: word_le_nat_alt)
  have s: "find_address_space_size GVA = BIT_32" using l address_space_range [of GVA] by simp
  have "34359738364 \<le> unat GVA div 2 ^ 29" "unat GVA div 2 ^ 29 < 34359738368" using l by (simp_all add: less_mult_imp_div_less)
  moreover have "4 \<le> d mod 8" if "34359738364 \<le> d" "d < 34359738368" for d :: nat using that by presburger
  ultimately have "4 \<le> unat GVA div 2 ^ 29 mod 8" by blast
  then have "get_segment_number GVA BIT_32 \<noteq> 0" using segment_32 [of GVA] by (auto simp: Let_def split: if_splits)
  then show "\<not> verify_priviliges c GVA" using u s by (simp add: verify_priviliges_def Let_def)
qed

section \<open>Interrupts\<close>

text \<open>An exception level that a core has entered at an address is kept, with EPC, by whatever happens in the hypervisor.\<close>

definition in_handler :: "u64 \<Rightarrow> CP0_IPE \<Rightarrow> bool" where
  "in_handler epc c \<longleftrightarrow> cp0_read c H2_CP0_EPC 0 = epc \<and> bit (cp0_read c H2_CP0_STATUS 0) 1"

lemma bit_1_iff: "(x :: u64) AND 2 \<noteq> 0 \<longleftrightarrow> bit x 1"
  using and_exp_eq_0_iff_not_bit [of x 1] by simp

lemma exception_in_handler:
  assumes "Perform_Exception c g t x = Inr (pc, d)"
  shows "in_handler e c \<Longrightarrow> in_handler e d"
    and "\<not> bit (cp0_read c H2_CP0_STATUS 0) 1 \<Longrightarrow> in_handler (PC x) d"
  using Perform_Exception_regs(2,4) [OF assms] bit_1_iff [of "cp0_read c 12 0"]
  by (auto simp: in_handler_def bit_simps)

lemma TLB_Excep_in_handler:
  "TLB_Excep c g t x = Inr (pc, d) \<Longrightarrow> in_handler e c \<Longrightarrow> in_handler e d"
  unfolding TLB_Excep_def by (erule exception_in_handler(1)) (simp add: in_handler_def TLB_fill_other)

lemma translation_in_handler:
  assumes "addrTranslation h GVA p = Inr (ok, HVA, q)" "in_handler e (cp0 p)"
  shows "in_handler e (cp0 q)"
proof -
  have "in_handler e d" if "mmu_GVAtoGPA (cp0 p) t g a x = Inr (k, b, d, y)" for t g a x k b d y
    using that assms(2) exception_in_handler(1) TLB_Excep_in_handler
    by (fastforce simp: mmu_GVAtoGPA_def tlb_GVAtoGPA_def Let_def bind_result_Inr_iff split: if_splits option.splits)
  then show ?thesis using assms
    by (auto simp: addrTranslation_def GVAtoHVA_def Let_def bind_result_Inr_iff split: prod.splits bool.splits if_splits)
qed

lemma translate_block_in_handler:
  assumes "translate_block h pc HVA p = Inr q" "in_handler e (cp0 p)"
  shows "in_handler e (cp0 q)"
proof -
  have "in_handler e (cp0 q')" if "fixBlock h v s f p' = Inr (v', q')" "in_handler e (cp0 p')" for v s f p' v' q'
    using that translation_in_handler by (auto simp: fixBlock_def Let_def bind_result_Inr_iff split: if_splits)
  then show ?thesis using assms
    by (fastforce simp: translate_block_def Let_def bind_result_Inr_iff simp del: of_nat_mult split: if_splits)
qed

lemma fetch_in_handler:
  assumes "fetchNextBlock h p = Inr q" "in_handler e (cp0 p)"
  shows "in_handler e (cp0 q)"
proof (cases "doesExists (PC (ctx p)) (Asid p) (cacheBlk p)")
  case (Pair found blk)
  have p: "in_handler e (cp0 (set_LDST LD_READ (p\<lparr>cacheBlk := blk\<rparr>)))" using assms(2) by (simp add: set_LDST_def)
  show ?thesis
  proof (cases found)
    case None
    have "in_handler e (cp0 (set_pc HVA p1))" if "in_handler e (cp0 p1)" for HVA p1
      using that by (simp add: set_pc_def)
    then show ?thesis
      using assms(1) p translation_in_handler translate_block_in_handler
      by (fastforce simp: fetchNextBlock_def Pair None Let_def bind_result_Inr_iff simp del: if_split split: if_splits cong: if_cong)
  qed (use assms Pair in \<open>auto simp: fetchNextBlock_def Let_def\<close>)
qed

lemma handleNMI_in_handler: "in_handler e (cp0 p) \<Longrightarrow> in_handler e (cp0 (handleNMI p))"
  by (simp add: in_handler_def handleNMI_def set_pc_def Let_def bit_simps)

lemma tick_pending:
  assumes "isInterruptPending (cp0 p)"
  shows "isInterruptPending (cp0 (setTimerTick h p))" "ctx (setTimerTick h p) = ctx p"
proof -
  let ?s = "cp0_read (cp0 p) 12 0" and ?c = "cp0_read (cp0 p) 13 0"
  have "?c AND (?s AND 0xFF00) \<noteq> 0" "?s AND 7 = 1"
    using assms by (simp_all add: isInterruptPending_def cp0_read_def Let_def word_gt_0)
  moreover have "((?c OR 0x40008000) AND 0xfcc0ff7c) AND (?s AND 0xFF00) \<noteq> 0" if "?c AND (?s AND 0xFF00) \<noteq> 0"
    using that by (auto simp: word64_eq_iff bit_simps bitblast)
  ultimately show "isInterruptPending (cp0 (setTimerTick h p))"
    by (simp add: setTimerTick_def isInterruptPending_def cp0_read_def [symmetric] Let_def word_gt_0)
qed (simp add: setTimerTick_def Let_def)

text \<open>
  An interrupt is taken at the next block. A core that asks for the next block while an interrupt is pending and
  enabled saves its program counter in EPC and is then in the kernel with interrupts off, also when fetching the handler's code
  raises further exceptions, when an NMI arrives, or when the lost-timer check adds a tick.
\<close>

lemma interrupt_taken:
  assumes "NewBlock h p = Inr q" "isInterruptPending (cp0 p)"
  shows "cp0_read (cp0 q) H2_CP0_EPC 0 = PC (ctx p) \<and> get_KSU (cp0 q) = KERNEL_MODE \<and> \<not> isInterruptPending (cp0 q)"
proof -
  obtain p1 where p1: "isInterruptPending (cp0 p1)" "ctx p1 = ctx p"
    and new: "bind_result (executePendingInterrrupts p1) (\<lambda>p.
      if PC (ctx p) = 0x0 then Inl NotHandled
      else
        (let p = (if NMI p then handleNMI p else p) in
         if PC (ctx p) \<noteq> currentBlockStartAddr p then fetchNextBlock h p
         else Inr (p\<lparr>retAddr := prevRetAddr p\<rparr>))) = Inr q"
  proof (rule that)
    let ?p = "if last_intrpt_time p \<noteq> 0 \<and> last_intrpt_time p + 3000000000 < clk h then setTimerTick h p else p"
    show i: "isInterruptPending (cp0 ?p)" "ctx ?p = ctx p" using tick_pending [OF assms(2)] assms(2) by simp_all
    show "bind_result (executePendingInterrrupts ?p) (\<lambda>p.
      if PC (ctx p) = 0x0 then Inl NotHandled
      else
        (let p = (if NMI p then handleNMI p else p) in
         if PC (ctx p) \<noteq> currentBlockStartAddr p then fetchNextBlock h p
         else Inr (p\<lparr>retAddr := prevRetAddr p\<rparr>))) = Inr q"
      using assms(1) i(1) by (simp only: NewBlock_def Let_def if_True)
  qed
  from new obtain p2 where p2: "executePendingInterrrupts p1 = Inr p2"
    and rest: "(let p = (if NMI p2 then handleNMI p2 else p2) in
         if PC (ctx p) \<noteq> currentBlockStartAddr p then fetchNextBlock h p else Inr (p\<lparr>retAddr := prevRetAddr p\<rparr>)) = Inr q"
    by (auto simp: bind_result_Inr_iff simp del: if_split cong: if_cong split: if_splits)
  have "\<not> bit (cp0_read (cp0 p1) 12 0) 1"
    using p1(1) by (auto simp: isInterruptPending_def cp0_read_def word64_eq_iff bitblast bit_simps Let_def)
  then have "in_handler (PC (ctx p)) (cp0 p2)"
    using p2 exception_in_handler(2) raise_exception_frame [of EXC_INT "PC (ctx p1)" p1 p2] p1(2)
    by (auto simp: executePendingInterrrupts_def set_pc_def)
  then have "in_handler (PC (ctx p)) (cp0 q)"
    using rest fetch_in_handler handleNMI_in_handler by (fastforce simp: Let_def split: if_splits)
  then show ?thesis using raised_level_kernel [of "cp0 q"] by (simp add: in_handler_def)
qed

end
