(* ===== verification/Vhost.thy ===== *)
theory Vhost
  imports GPAMap "HOL-Library.Signed_Division"
begin

text \<open>
  The client of the host's vhost driver, \<^verbatim>\<open>Vhost.cpp\<close>, and the queues of the virtio devices, \<^verbatim>\<open>VirtQueue.cpp\<close>:
  the driver of the guest chains descriptors of buffers in a ring, and before the host is kicked the hypervisor walks the new chains and
  enters the translation of every buffer in a table of 64 memory regions, which it hands to the host.

  The layout of a ring is defined by a header outside of the sources: a ring is here a record of its descriptors, by
  number, and of the available ring; a table of indirect descriptors is a function of its host address, \<open>indirect_at\<close>. The flags of
  a descriptor and its size are parameters, in the record \<open>abi\<close>. The guest does not change a ring while it is walked. The host
  calls do not change the state; the table last handed over is recorded as \<open>published\<close>. The debug output is not modelled.

  The index of the table is an \<^verbatim>\<open>int\<close> that only grows, for the disk over the whole life of the device. It is a 32-bit word
  here, read as a signed number: it wraps at \<open>2\<^sup>3\<^sup>1\<close>, as the compiled increment does, and the remainder by 64 is the
  one of C, which is negative for most negative indices. A region before the start of the table is the error \<open>OutOfBounds\<close>.
\<close>

section \<open>Queues and rings\<close>

abbreviation (input) PAGE_SHIFT :: nat where "PAGE_SHIFT \<equiv> 12"
abbreviation (input) VHOST_MEMORY_MAX_NREGIONS :: nat where "VHOST_MEMORY_MAX_NREGIONS \<equiv> 64"

record abi =
  F_NEXT :: u16
  F_INDIRECT :: u16
  desc_size :: nat

record vring_desc =
  d_addr :: u64
  d_len :: u32
  d_flags :: u16
  d_next :: u16

record guest_ring =
  ring_desc :: "nat \<Rightarrow> vring_desc"
  avail_idx :: u16
  avail_ring :: "nat \<Rightarrow> u16"

record VirtQueue =
  vq_GPA :: u64
  vq_HVA :: u64
  numDesc :: u32
  last_avail_idx :: u16

definition createVring :: "mmap_call \<Rightarrow> u64 \<Rightarrow> u32 \<Rightarrow> u32 \<Rightarrow> VirtQueue \<Rightarrow> GPAMap \<Rightarrow> (VirtQueue \<times> GPAMap) result" where
  "createVring mmap ub num page q gm =
     (let GPA = push_bit PAGE_SHIFT (ucast page) in
      bind_result (GPA_to_HVA mmap ub GPA gm)
        (\<lambda>(HVA, gm). Inr (q\<lparr>vq_GPA := GPA, vq_HVA := HVA, numDesc := num, last_avail_idx := 0\<rparr>, gm)))"

definition getNumberofDescriptors :: "VirtQueue \<Rightarrow> nat" where
  "getNumberofDescriptors q = unat (numDesc q)"

definition incLastAvailIdx :: "VirtQueue \<Rightarrow> VirtQueue" where
  "incLastAvailIdx q = q\<lparr>last_avail_idx := last_avail_idx q + 1\<rparr>"

section \<open>The memory table\<close>

record vhost_memory_region =
  guest_phys_addr :: u64
  userspace_addr :: u64
  memory_size :: u64

record Vhost =
  regions :: "vhost_memory_region list"
  nregions :: u32
  memTableIdx :: u32
  isNet :: bool
  queues :: "VirtQueue list"
  numQueues :: nat
  published :: "(u32 \<times> vhost_memory_region list) option"

text \<open>The class after its initialization; the regions are what the mapped memory holds, zero.\<close>

definition new_Vhost :: "bool \<Rightarrow> VirtQueue list \<Rightarrow> nat \<Rightarrow> Vhost" where
  "new_Vhost net qs n =
     \<lparr>regions = replicate VHOST_MEMORY_MAX_NREGIONS \<lparr>guest_phys_addr = 0, userspace_addr = 0, memory_size = 0\<rparr>, nregions = 0,
      memTableIdx = 0, isNet = net, queues = qs, numQueues = n, published = None\<rparr>"

definition setMemoryTable :: "Vhost \<Rightarrow> Vhost" where
  "setMemoryTable v = v\<lparr>published := Some (nregions v, regions v)\<rparr>"

definition region_of :: "vring_desc \<Rightarrow> u64 \<Rightarrow> vhost_memory_region" where
  "region_of d HVA = \<lparr>guest_phys_addr = d_addr d, userspace_addr = HVA, memory_size = ucast (d_len d)\<rparr>"

definition nextDesc :: "abi \<Rightarrow> vring_desc \<Rightarrow> nat option" where
  "nextDesc a d = (if d_flags d AND F_NEXT a = 0 then None else Some (unat (d_next d)))"

text \<open>The entry for a descriptor, in both functions that make one; it returns the translation.\<close>

definition table_position :: "u32 \<Rightarrow> int" where
  "table_position idx = sint idx smod int VHOST_MEMORY_MAX_NREGIONS"

definition put_region :: "mmap_call \<Rightarrow> u64 \<Rightarrow> vring_desc \<Rightarrow> Vhost \<times> GPAMap \<Rightarrow> (u64 \<times> Vhost \<times> GPAMap) result" where
  "put_region mmap ub d = (\<lambda>(v, gm).
     let k = table_position (memTableIdx v) in
     if k < 0 then Inl OutOfBounds
     else bind_result (GPA_to_HVA mmap ub (d_addr d) gm) (\<lambda>(HVA, gm).
       Inr (HVA, v\<lparr>regions := (regions v)[nat k := region_of d HVA], memTableIdx := memTableIdx v + 1\<rparr>, gm)))"

text \<open>
  The loop over an indirect table. The pointer moves by the index of the next descriptor, from where it stands: \<open>pos\<close> is the
  descriptor it points to.
\<close>

function indirect_loop ::
    "abi \<Rightarrow> mmap_call \<Rightarrow> u64 \<Rightarrow> (nat \<Rightarrow> vring_desc) \<Rightarrow> nat \<Rightarrow> nat \<Rightarrow> nat \<Rightarrow> nat \<Rightarrow> Vhost \<times> GPAMap \<Rightarrow> (Vhost \<times> GPAMap) result" where
  "indirect_loop a mmap ub desc count found i pos s =
     (if found + 1 > count then Inr s
      else
        (let pos = pos + i in
         bind_result (put_region mmap ub (desc pos) s) (\<lambda>(_, s).
           if d_flags (desc pos) AND F_INDIRECT a \<noteq> 0 then Inr s
           else
             (case nextDesc a (desc pos) of
                None \<Rightarrow> Inr s
              | Some i \<Rightarrow> indirect_loop a mmap ub desc count (found + 1) i pos s))))"
  by pat_completeness auto
termination
  by (relation "measure (\<lambda>(a, mmap, ub, desc, count, found, i, pos, s). count - found)") auto

declare indirect_loop.simps [simp del]

text \<open>The length is passed as a signed integer; the division is in the unsigned type of \<^verbatim>\<open>sizeof\<close>.\<close>

definition updateTableIndirect ::
    "abi \<Rightarrow> mmap_call \<Rightarrow> u64 \<Rightarrow> (nat \<Rightarrow> vring_desc) \<Rightarrow> u32 \<Rightarrow> Vhost \<times> GPAMap \<Rightarrow> (Vhost \<times> GPAMap) result" where
  "updateTableIndirect a mmap ub desc len =
     (let count = (ucast ((scast len :: u64) div of_nat (desc_size a)) :: u32) in
      indirect_loop a mmap ub desc (unat count) 0 0 0)"

definition updateTableEntry ::
    "abi \<Rightarrow> mmap_call \<Rightarrow> u64 \<Rightarrow> (u64 \<Rightarrow> nat \<Rightarrow> vring_desc) \<Rightarrow> vring_desc \<Rightarrow> Vhost \<times> GPAMap \<Rightarrow> (Vhost \<times> GPAMap) result" where
  "updateTableEntry a mmap ub indirect_at d s =
     bind_result (put_region mmap ub d s) (\<lambda>(HVA, s).
       if d_flags d AND F_INDIRECT a \<noteq> 0 then updateTableIndirect a mmap ub (indirect_at HVA) (d_len d) s else Inr s)"

section \<open>The walk over a queue\<close>

text \<open>
  One chain of a block request: whether its end was reached, how many descriptors have been counted, and the state. The walk gives
  up at an index outside the ring and at the 64th descriptor of the call.
\<close>

function blk_chain ::
    "abi \<Rightarrow> mmap_call \<Rightarrow> u64 \<Rightarrow> (u64 \<Rightarrow> nat \<Rightarrow> vring_desc) \<Rightarrow> guest_ring \<Rightarrow> nat \<Rightarrow> nat \<Rightarrow> nat \<Rightarrow> Vhost \<times> GPAMap \<Rightarrow>
     (bool \<times> nat \<times> Vhost \<times> GPAMap) result" where
  "blk_chain a mmap ub indirect_at ring num i found s =
     (if i \<ge> num then Inr (False, found, s)
      else if found + 1 \<ge> VHOST_MEMORY_MAX_NREGIONS then Inr (False, found + 1, s)
      else
        bind_result (updateTableEntry a mmap ub indirect_at (ring_desc ring i) s) (\<lambda>s.
          case nextDesc a (ring_desc ring i) of
            None \<Rightarrow> Inr (True, found + 1, s)
          | Some i \<Rightarrow> blk_chain a mmap ub indirect_at ring num i (found + 1) s))"
  by pat_completeness auto
termination
  by (relation "measure (\<lambda>(a, mmap, ub, indirect_at, ring, num, i, found, s). VHOST_MEMORY_MAX_NREGIONS - found)") auto

declare blk_chain.simps [simp del]

lemma blk_chain_counts:
  assumes "blk_chain a mmap ub indirect_at ring num i found s = Inr (ok, found', s')"
  shows "(ok \<longrightarrow> found < found' \<and> found' < VHOST_MEMORY_MAX_NREGIONS) \<and> found' \<le> max found VHOST_MEMORY_MAX_NREGIONS + 1"
  using assms
proof (induction a mmap ub indirect_at ring num i found s rule: blk_chain.induct)
  case (1 a mmap ub indirect_at ring num i found s)
  show ?case
  proof (cases "num \<le> i \<or> VHOST_MEMORY_MAX_NREGIONS \<le> found + 1")
    case True
    then show ?thesis using "1.prems" by (subst (asm) blk_chain.simps) (auto split: if_splits)
  next
    case False
    then obtain t where t: "updateTableEntry a mmap ub indirect_at (ring_desc ring i) s = Inr t"
      and r: "(case nextDesc a (ring_desc ring i) of None \<Rightarrow> Inr (True, found + 1, t)
          | Some i \<Rightarrow> blk_chain a mmap ub indirect_at ring num i (found + 1) t) = Inr (ok, found', s')"
      using "1.prems" by (subst (asm) blk_chain.simps) (auto simp: bind_result_Inr_iff)
    show ?thesis
    proof (cases "nextDesc a (ring_desc ring i)")
      case None
      then show ?thesis using r False by auto
    next
      case (Some j)
      have "(ok \<longrightarrow> found + 1 < found' \<and> found' < VHOST_MEMORY_MAX_NREGIONS) \<and> found' \<le> max (found + 1) VHOST_MEMORY_MAX_NREGIONS + 1"
        using "1.IH" [of t j] False Some t r by simp
      then show ?thesis using False by auto
    qed
  qed
qed

text \<open>
  The loop over the new chains of the block queue. The number of chains is returned; a chain on which the walk gave up ends the call, and
  the index stays at it. The counter of descriptors runs on from chain to chain, so the loop ends.
\<close>

function blk_loop ::
    "abi \<Rightarrow> mmap_call \<Rightarrow> u64 \<Rightarrow> (u64 \<Rightarrow> nat \<Rightarrow> vring_desc) \<Rightarrow> guest_ring \<Rightarrow> nat \<Rightarrow> nat \<Rightarrow> VirtQueue \<Rightarrow> Vhost \<times> GPAMap \<Rightarrow>
     (nat \<times> VirtQueue \<times> Vhost \<times> GPAMap) result" where
  "blk_loop a mmap ub indirect_at ring found ret q s =
     (if last_avail_idx q = avail_idx ring then Inr (ret, q, s)
      else if getNumberofDescriptors q = 0 then Inl DivByZero
      else
        (let head = unat (avail_ring ring (unat (last_avail_idx q) mod getNumberofDescriptors q)) in
         bind_result (blk_chain a mmap ub indirect_at ring (getNumberofDescriptors q) head found s) (\<lambda>(ok, found, s).
           if ok then blk_loop a mmap ub indirect_at ring found (ret + 1) (incLastAvailIdx q) s else Inr (ret, q, s))))"
  by pat_completeness auto
termination
proof (relation "measure (\<lambda>(a, mmap, ub, indirect_at, ring, found, ret, q, s). VHOST_MEMORY_MAX_NREGIONS - found)", goal_cases)
  case (2 a mmap ub indirect_at ring found ret q s head x ok x' found' s')
  then show ?case using blk_chain_counts by fastforce
qed simp

declare blk_loop.simps [simp del]

definition updateBlkTableFromQueue ::
    "abi \<Rightarrow> mmap_call \<Rightarrow> u64 \<Rightarrow> (u64 \<Rightarrow> nat \<Rightarrow> vring_desc) \<Rightarrow> guest_ring \<Rightarrow> VirtQueue \<Rightarrow> Vhost \<times> GPAMap \<Rightarrow>
     (nat \<times> VirtQueue \<times> Vhost \<times> GPAMap) result" where
  "updateBlkTableFromQueue a mmap ub indirect_at ring q s = blk_loop a mmap ub indirect_at ring 0 0 q s"

text \<open>The walk for a network queue counts entries, takes one chain without asking whether it is new, and fills the table from \<^verbatim>\<open>nregions\<close>.\<close>

function net_chain ::
    "abi \<Rightarrow> mmap_call \<Rightarrow> u64 \<Rightarrow> (u64 \<Rightarrow> nat \<Rightarrow> vring_desc) \<Rightarrow> guest_ring \<Rightarrow> nat \<Rightarrow> nat \<Rightarrow> nat \<Rightarrow> nat \<Rightarrow> Vhost \<times> GPAMap \<Rightarrow>
     (bool \<times> nat \<times> Vhost \<times> GPAMap) result" where
  "net_chain a mmap ub indirect_at ring num i found ret s =
     (if i \<ge> num then Inr (False, ret, s)
      else if found + 1 \<ge> VHOST_MEMORY_MAX_NREGIONS then Inr (False, ret, s)
      else
        bind_result (updateTableEntry a mmap ub indirect_at (ring_desc ring i) s) (\<lambda>s.
          case nextDesc a (ring_desc ring i) of
            None \<Rightarrow> Inr (True, ret + 1, s)
          | Some i \<Rightarrow> net_chain a mmap ub indirect_at ring num i (found + 1) (ret + 1) s))"
  by pat_completeness auto
termination
  by (relation "measure (\<lambda>(a, mmap, ub, indirect_at, ring, num, i, found, ret, s). VHOST_MEMORY_MAX_NREGIONS - found)") auto

declare net_chain.simps [simp del]

definition updateNetTableFromQueue ::
    "abi \<Rightarrow> mmap_call \<Rightarrow> u64 \<Rightarrow> (u64 \<Rightarrow> nat \<Rightarrow> vring_desc) \<Rightarrow> guest_ring \<Rightarrow> VirtQueue \<Rightarrow> Vhost \<times> GPAMap \<Rightarrow>
     (nat \<times> VirtQueue \<times> Vhost \<times> GPAMap) result" where
  "updateNetTableFromQueue a mmap ub indirect_at ring q = (\<lambda>(v, gm).
     if getNumberofDescriptors q = 0 then Inl DivByZero
     else
       (let i = unat (avail_ring ring (unat (last_avail_idx q) mod getNumberofDescriptors q));
            v = v\<lparr>memTableIdx := nregions v\<rparr> in
        bind_result (net_chain a mmap ub indirect_at ring (getNumberofDescriptors q) i 0 0 (v, gm))
          (\<lambda>(ok, ret, s). Inr (ret, if ok then incLastAvailIdx q else q, s))))"

text \<open>\<open>rings\<close> gives the ring of a queue. A function for one queue is applied to queue \<open>i\<close>.\<close>

definition on_queue ::
    "(guest_ring \<Rightarrow> VirtQueue \<Rightarrow> Vhost \<times> GPAMap \<Rightarrow> (nat \<times> VirtQueue \<times> Vhost \<times> GPAMap) result) \<Rightarrow> (nat \<Rightarrow> guest_ring) \<Rightarrow> nat \<Rightarrow>
     nat \<times> Vhost \<times> GPAMap \<Rightarrow> (nat \<times> Vhost \<times> GPAMap) result" where
  "on_queue f rings i = (\<lambda>(ret, v, gm).
     if i \<ge> length (queues v) then Inl OutOfBounds
     else bind_result (f (rings i) (queues v ! i) (v, gm))
            (\<lambda>(n, q, v, gm). Inr (ret + n, v\<lparr>queues := (queues v)[i := q]\<rparr>, gm)))"

fun on_queues ::
    "(guest_ring \<Rightarrow> VirtQueue \<Rightarrow> Vhost \<times> GPAMap \<Rightarrow> (nat \<times> VirtQueue \<times> Vhost \<times> GPAMap) result) \<Rightarrow> (nat \<Rightarrow> guest_ring) \<Rightarrow> nat list \<Rightarrow>
     nat \<times> Vhost \<times> GPAMap \<Rightarrow> (nat \<times> Vhost \<times> GPAMap) result" where
  "on_queues f rings [] s = Inr s"
| "on_queues f rings (i # is) s = bind_result (on_queue f rings i s) (on_queues f rings is)"

definition updateMemoryTable ::
    "abi \<Rightarrow> mmap_call \<Rightarrow> u64 \<Rightarrow> (u64 \<Rightarrow> nat \<Rightarrow> vring_desc) \<Rightarrow> (nat \<Rightarrow> guest_ring) \<Rightarrow> Vhost \<times> GPAMap \<Rightarrow> (Vhost \<times> GPAMap) result" where
  "updateMemoryTable a mmap ub indirect_at rings = (\<lambda>(v, gm).
     bind_result
       (if isNet v then on_queues (updateNetTableFromQueue a mmap ub indirect_at) rings [0..<numQueues v] (0, v, gm)
        else on_queue (updateBlkTableFromQueue a mmap ub indirect_at) rings 0 (0, v, gm))
       (\<lambda>(ret, v, gm).
          if ret > 0
          then (let v = v\<lparr>nregions := (if sint (memTableIdx v) > int VHOST_MEMORY_MAX_NREGIONS
                                       then of_nat VHOST_MEMORY_MAX_NREGIONS else memTableIdx v)\<rparr> in
                Inr (setMemoryTable v, gm))
          else Inr (v, gm)))"

section \<open>The index of the table\<close>

lemma sint_index: "unat (i :: u32) < 2 ^ 31 \<Longrightarrow> sint i = int (unat i)"
proof -
  assume "unat i < 2 ^ 31"
  then have "int (unat i) < 2 ^ 31" by (simp del: of_nat_unat)
  then have "signed_take_bit 31 (int (unat i)) = int (unat i)"
    by (subst signed_take_bit_int_eq_self_iff) (simp del: of_nat_unat)
  then show ?thesis by (simp add: sint_uint uint_nat del: of_nat_unat)
qed

lemma table_position_index: "unat i < 2 ^ 31 \<Longrightarrow> table_position i = int (unat i mod VHOST_MEMORY_MAX_NREGIONS)"
  by (simp add: table_position_def sint_index signed_modulo_int_def zmod_int sgn_if del: of_nat_unat)

text \<open>
  The index can pass \<open>2\<^sup>3\<^sup>1\<close>, and then one more region is entered, at the start of the table; the next one
  is out of bounds. So the index of a table never gets further than this.
\<close>

definition index_ok :: "u32 \<Rightarrow> bool" where
  "index_ok i \<longleftrightarrow> unat i < 2 ^ 31 \<or> i \<in> {0x80000000, 0x80000001}"

lemma table_position_wrapped: "table_position 0x80000000 = 0" "table_position 0x80000001 = -63"
  by (simp_all add: table_position_def signed_modulo_int_def)

lemma index_ok_Suc:
  assumes "index_ok i" "0 \<le> table_position i"
  shows "index_ok (i + 1)"
proof -
  consider "unat i < 2 ^ 31 - 1" | "unat i = 2 ^ 31 - 1" | "i = 0x80000000" | "i = 0x80000001"
    using assms(1) by (fastforce simp: index_ok_def)
  then show ?thesis
  proof cases
    case 1
    then have "unat (i + 1) = unat i + 1" by (simp add: unat_word_ariths)
    with 1 show ?thesis by (simp add: index_ok_def)
  next
    case 2
    then have "i = 0x7fffffff" by (simp add: word_unat_eq_iff)
    then show ?thesis by (simp add: index_ok_def)
  next
    case 4
    with assms(2) show ?thesis by (simp add: table_position_wrapped)
  qed (simp add: index_ok_def)
qed

lemma table_index_overflows:
  assumes "GPA_to_HVA mmap ub (d_addr d) gm = Inr (h, gm)" "memTableIdx v = 0x7fffffff"
  shows "\<exists>u. put_region mmap ub d (v, gm) = Inr (h, u, gm) \<and> sint (memTableIdx u) = - (2 ^ 31)
    \<and> (\<exists>w. put_region mmap ub d (u, gm) = Inr (h, w, gm) \<and> put_region mmap ub d (w, gm) = Inl OutOfBounds)"
proof -
  have "0 \<le> table_position 0x7fffffff" by (simp add: table_position_def signed_modulo_int_def)
  then show ?thesis using assms by (simp add: put_region_def table_position_wrapped not_less [symmetric])
qed

section \<open>The table stays in bounds\<close>

definition vhost_wf :: "Vhost \<Rightarrow> bool" where
  "vhost_wf v \<longleftrightarrow> length (regions v) = VHOST_MEMORY_MAX_NREGIONS \<and> unat (nregions v) \<le> VHOST_MEMORY_MAX_NREGIONS
     \<and> unat (memTableIdx v) < 2 ^ 31
     \<and> (\<forall>n rs. published v = Some (n, rs) \<longrightarrow> unat n \<le> length rs \<and> length rs = VHOST_MEMORY_MAX_NREGIONS)"

text \<open>An operation that changes the table, its index and the queues only.\<close>

definition table_step :: "Vhost \<Rightarrow> Vhost \<Rightarrow> bool" where
  "table_step v v' \<longleftrightarrow> length (regions v') = length (regions v) \<and> nregions v' = nregions v \<and> published v' = published v
     \<and> isNet v' = isNet v \<and> numQueues v' = numQueues v \<and> length (queues v') = length (queues v)
     \<and> (index_ok (nregions v) \<and> index_ok (memTableIdx v) \<longrightarrow> index_ok (memTableIdx v'))"

lemma table_step_refl [simp]: "table_step v v"
  by (simp add: table_step_def)

lemma table_step_trans [trans]: "table_step u v \<Longrightarrow> table_step v w \<Longrightarrow> table_step u w"
  by (simp add: table_step_def)

lemma put_region_step: "put_region mmap ub d s = Inr (h, t) \<Longrightarrow> table_step (fst s) (fst t)"
  by (cases s) (auto simp: put_region_def bind_result_Inr_iff table_step_def Let_def index_ok_Suc not_less split: if_splits)

lemma indirect_loop_step:
  "indirect_loop a mmap ub desc count found i pos s = Inr t \<Longrightarrow> table_step (fst s) (fst t)"
proof (induction a mmap ub desc count found i pos s rule: indirect_loop.induct)
  case (1 a mmap ub desc count found i pos s)
  show ?case
  proof (cases "count < found + 1")
    case True
    then show ?thesis using "1.prems" by (subst (asm) indirect_loop.simps) simp
  next
    case False
    then obtain h u where u: "put_region mmap ub (desc (pos + i)) s = Inr (h, u)"
      and r: "(if d_flags (desc (pos + i)) AND F_INDIRECT a \<noteq> 0 then Inr u
           else case nextDesc a (desc (pos + i)) of None \<Rightarrow> Inr u
             | Some j \<Rightarrow> indirect_loop a mmap ub desc count (found + 1) j (pos + i) u) = Inr t"
      using "1.prems" False unfolding indirect_loop.simps [of a mmap ub desc count found i pos s] Let_def
      by (auto simp: bind_result_Inr_iff simp del: if_split)
    have "table_step (fst s) (fst u)" by (rule put_region_step [OF u])
    moreover have "table_step (fst u) (fst t)"
      using r 1(1) [OF False refl u refl] by (auto split: if_splits option.splits)
    ultimately show ?thesis by (rule table_step_trans)
  qed
qed

lemma updateTableEntry_step:
  assumes "updateTableEntry a mmap ub indirect_at d s = Inr t"
  shows "table_step (fst s) (fst t)"
proof -
  obtain h u where u: "put_region mmap ub d s = Inr (h, u)"
    and r: "(if d_flags d AND F_INDIRECT a \<noteq> 0 then updateTableIndirect a mmap ub (indirect_at h) (d_len d) u else Inr u) = Inr t"
    using assms by (auto simp: updateTableEntry_def bind_result_Inr_iff simp del: if_split)
  have "table_step (fst u) (fst t)"
    using r indirect_loop_step unfolding updateTableIndirect_def Let_def by (metis Inr_inject table_step_refl)
  then show ?thesis using put_region_step [OF u] table_step_trans by blast
qed

lemma blk_chain_step:
  "blk_chain a mmap ub indirect_at ring num i found s = Inr (ok, n, t) \<Longrightarrow> table_step (fst s) (fst t)"
proof (induction a mmap ub indirect_at ring num i found s rule: blk_chain.induct)
  case (1 a mmap ub indirect_at ring num i found s)
  show ?case
  proof (cases "num \<le> i \<or> VHOST_MEMORY_MAX_NREGIONS \<le> found + 1")
    case True
    then show ?thesis using "1.prems" by (subst (asm) blk_chain.simps) (auto split: if_splits)
  next
    case False
    then obtain u where u: "updateTableEntry a mmap ub indirect_at (ring_desc ring i) s = Inr u"
      and r: "(case nextDesc a (ring_desc ring i) of None \<Rightarrow> Inr (True, found + 1, u)
          | Some i \<Rightarrow> blk_chain a mmap ub indirect_at ring num i (found + 1) u) = Inr (ok, n, t)"
      using "1.prems" by (subst (asm) blk_chain.simps) (auto simp: bind_result_Inr_iff)
    have "table_step (fst u) (fst t)" using r "1.IH" [of u] False u by (auto split: option.splits)
    then show ?thesis using updateTableEntry_step [OF u] table_step_trans by blast
  qed
qed

lemma net_chain_step:
  "net_chain a mmap ub indirect_at ring num i found ret s = Inr (ok, n, t) \<Longrightarrow> table_step (fst s) (fst t)"
proof (induction a mmap ub indirect_at ring num i found ret s rule: net_chain.induct)
  case (1 a mmap ub indirect_at ring num i found ret s)
  show ?case
  proof (cases "num \<le> i \<or> VHOST_MEMORY_MAX_NREGIONS \<le> found + 1")
    case True
    then show ?thesis using "1.prems" by (subst (asm) net_chain.simps) (auto split: if_splits)
  next
    case False
    then obtain u where u: "updateTableEntry a mmap ub indirect_at (ring_desc ring i) s = Inr u"
      and r: "(case nextDesc a (ring_desc ring i) of None \<Rightarrow> Inr (True, ret + 1, u)
          | Some i \<Rightarrow> net_chain a mmap ub indirect_at ring num i (found + 1) (ret + 1) u) = Inr (ok, n, t)"
      using "1.prems" by (subst (asm) net_chain.simps) (auto simp: bind_result_Inr_iff)
    have "table_step (fst u) (fst t)" using r "1.IH" [of u] False u by (auto split: option.splits)
    then show ?thesis using updateTableEntry_step [OF u] table_step_trans by blast
  qed
qed

text \<open>The loop over the chains also returns as many chains as it has advanced the index of the queue, fewer than 64.\<close>

lemma blk_loop_step:
  "blk_loop a mmap ub indirect_at ring found ret q s = Inr (n, q', t) \<Longrightarrow>
   table_step (fst s) (fst t) \<and> ret \<le> n \<and> (found < VHOST_MEMORY_MAX_NREGIONS \<longrightarrow> n + found < ret + VHOST_MEMORY_MAX_NREGIONS)
   \<and> last_avail_idx q' = last_avail_idx q + of_nat (n - ret)"
proof (induction a mmap ub indirect_at ring found ret q s rule: blk_loop.induct)
  case (1 a mmap ub indirect_at ring found ret q s)
  show ?case
  proof (cases "last_avail_idx q = avail_idx ring \<or> getNumberofDescriptors q = 0")
    case True
    then show ?thesis using "1.prems" by (subst (asm) blk_loop.simps) (auto split: if_splits)
  next
    case False
    let ?head = "unat (avail_ring ring (unat (last_avail_idx q) mod getNumberofDescriptors q))"
    obtain ok f u where u: "blk_chain a mmap ub indirect_at ring (getNumberofDescriptors q) ?head found s = Inr (ok, f, u)"
      and r: "(if ok then blk_loop a mmap ub indirect_at ring f (ret + 1) (incLastAvailIdx q) u else Inr (ret, q, u)) = Inr (n, q', t)"
      using "1.prems" False unfolding blk_loop.simps [of a mmap ub indirect_at ring found ret q s] Let_def
      by (auto simp: bind_result_Inr_iff simp del: if_split)
    have s: "table_step (fst s) (fst u)" by (rule blk_chain_step [OF u])
    show ?thesis
    proof (cases ok)
      case True
      have f: "found < f" "f < VHOST_MEMORY_MAX_NREGIONS" using blk_chain_counts [OF u] True by auto
      have ih: "table_step (fst u) (fst t) \<and> ret + 1 \<le> n \<and> (f < VHOST_MEMORY_MAX_NREGIONS \<longrightarrow> n + f < ret + 1 + VHOST_MEMORY_MAX_NREGIONS)
          \<and> last_avail_idx q' = last_avail_idx (incLastAvailIdx q) + of_nat (n - (ret + 1))"
        using "1.IH" [of ?head "(ok, f, u)" ok "(f, u)" f u] False u r True by simp
      moreover from ih have "ret + 1 \<le> n" by blast
      then have "n - ret = Suc (n - (ret + 1))" by arith
      then have "of_nat (n - ret) = 1 + (of_nat (n - (ret + 1)) :: u16)" by (simp only: of_nat_Suc)
      ultimately show ?thesis using f table_step_trans [OF s] by (auto simp: incLastAvailIdx_def)
    qed (use r s in auto)
  qed
qed

lemma on_queue_step:
  assumes "\<And>r q v gm n q' t. f r q (v, gm) = Inr (n, q', t) \<Longrightarrow> table_step v (fst t)" "on_queue f rings i (ret, v, gm) = Inr (ret', v', gm')"
  shows "table_step v v'"
proof -
  obtain n q u g where f: "f (rings i) (queues v ! i) (v, gm) = Inr (n, q, u, g)" and v': "v' = u\<lparr>queues := (queues u)[i := q]\<rparr>"
    using assms(2) by (auto simp: on_queue_def bind_result_Inr_iff split: if_splits)
  have "table_step v u" using assms(1) [OF f] by simp
  then show ?thesis by (simp add: v' table_step_def)
qed

lemma on_queues_step:
  assumes "\<And>r q v gm n q' t. f r q (v, gm) = Inr (n, q', t) \<Longrightarrow> table_step v (fst t)" "on_queues f rings is (ret, v, gm) = Inr (ret', v', gm')"
  shows "table_step v v'"
  using assms(2)
proof (induction "is" arbitrary: ret v gm)
  case Nil
  then show ?case by simp
next
  case (Cons i "is")
  then obtain r u g where u: "on_queue f rings i (ret, v, gm) = Inr (r, u, g)" "on_queues f rings is (r, u, g) = Inr (ret', v', gm')"
    by (auto simp: bind_result_Inr_iff)
  have "table_step v u" by (rule on_queue_step [OF _ u(1)]) (rule assms(1))
  then show ?case using Cons.IH [OF u(2)] table_step_trans by blast
qed

lemma small_u32: "m \<le> 64 \<Longrightarrow> unat (of_nat m :: u32) = m"
  by (subst unat_of_nat) (simp add: take_bit_nat_eq_self)

lemma update_net_step:
  assumes "updateNetTableFromQueue a mmap ub indirect_at r q (v, gm) = Inr (n, q', t)"
  shows "table_step v (fst t)"
proof -
  obtain i ok where "net_chain a mmap ub indirect_at r (getNumberofDescriptors q) i 0 0 (v\<lparr>memTableIdx := nregions v\<rparr>, gm) = Inr (ok, n, t)"
    using assms by (auto simp: updateNetTableFromQueue_def Let_def bind_result_Inr_iff split: if_splits)
  then have "table_step (v\<lparr>memTableIdx := nregions v\<rparr>) (fst t)" using net_chain_step by fastforce
  then show ?thesis by (simp add: table_step_def)
qed

lemma update_blk_step:
  "updateBlkTableFromQueue a mmap ub indirect_at r q (v, gm) = Inr (n, q', t) \<Longrightarrow> table_step v (fst t)"
  using blk_loop_step [of a mmap ub indirect_at r 0 0 q "(v, gm)"] by (simp add: updateBlkTableFromQueue_def)

lemma walk_step:
  assumes "(if isNet v then on_queues (updateNetTableFromQueue a mmap ub indirect_at) rings [0..<numQueues v] (0, v, gm)
      else on_queue (updateBlkTableFromQueue a mmap ub indirect_at) rings 0 (0, v, gm)) = Inr (ret, u, g)"
  shows "table_step v u"
proof (cases "isNet v")
  case True
  then have "on_queues (updateNetTableFromQueue a mmap ub indirect_at) rings [0..<numQueues v] (0, v, gm) = Inr (ret, u, g)" using assms by simp
  then show ?thesis by (rule on_queues_step [rotated]) (rule update_net_step)
next
  case False
  then have "on_queue (updateBlkTableFromQueue a mmap ub indirect_at) rings 0 (0, v, gm) = Inr (ret, u, g)" using assms by simp
  then show ?thesis by (rule on_queue_step [rotated]) (rule update_blk_step)
qed

text \<open>
  Property C30. The table of memory regions keeps its shape. Whatever rings the guest presents, an update that returns
  keeps the table at 64 regions, and as long as its running index has not passed \<open>2\<^sup>3\<^sup>1\<close>, the number of regions
  in force, also in the table handed to the host, is at most 64. An update in which the index passes \<open>2\<^sup>3\<^sup>1\<close> leaves it
  at exactly one of two negative values, and the number of regions is the old one or that index, read as an
  unsigned number above \<open>2\<^sup>3\<^sup>1\<close>.
\<close>

theorem memory_table_bounded:
  assumes "vhost_wf v" "updateMemoryTable a mmap ub indirect_at rings (v, gm) = Inr (v', gm')"
  shows "if 0 \<le> sint (memTableIdx v') then vhost_wf v'
    else memTableIdx v' \<in> {0x80000000, 0x80000001} \<and> length (regions v') = VHOST_MEMORY_MAX_NREGIONS
      \<and> (nregions v' = nregions v \<or> nregions v' = memTableIdx v')"
proof -
  obtain ret u g where u: "(if isNet v then on_queues (updateNetTableFromQueue a mmap ub indirect_at) rings [0..<numQueues v] (0, v, gm)
        else on_queue (updateBlkTableFromQueue a mmap ub indirect_at) rings 0 (0, v, gm)) = Inr (ret, u, g)"
    and v': "v' = u \<or> v' = setMemoryTable (u\<lparr>nregions := (if sint (memTableIdx u) > int VHOST_MEMORY_MAX_NREGIONS
        then of_nat VHOST_MEMORY_MAX_NREGIONS else memTableIdx u)\<rparr>)"
    using assms(2) by (auto simp: updateMemoryTable_def bind_result_Inr_iff Let_def split: if_splits)
  have step: "table_step v u" by (rule walk_step [OF u])
  have same: "memTableIdx v' = memTableIdx u" "length (regions v') = VHOST_MEMORY_MAX_NREGIONS"
    using v' step assms(1) by (auto simp: setMemoryTable_def table_step_def vhost_wf_def)
  have "index_ok (memTableIdx u)" using step assms(1) by (simp add: table_step_def vhost_wf_def index_ok_def)
  then consider "unat (memTableIdx u) < 2 ^ 31" | "memTableIdx u \<in> {0x80000000, 0x80000001}" by (auto simp: index_ok_def)
  then show ?thesis
  proof cases
    case 1
    then have "vhost_wf u" using step assms(1) unfolding vhost_wf_def table_step_def by metis
    moreover have "sint (memTableIdx u) \<le> 64 \<Longrightarrow> unat (memTableIdx u) \<le> 64" using sint_index [OF 1] by (simp del: of_nat_unat)
    ultimately show ?thesis
      using v' 1 sint_index [OF 1] by (auto simp: vhost_wf_def setMemoryTable_def)
  next
    case 2
    then have "sint (memTableIdx u) < 0" by auto
    then show ?thesis
      using v' 2 same step by (auto simp: setMemoryTable_def table_step_def)
  qed
qed

section \<open>What the walk enters\<close>

text \<open>The chain of descriptors that starts at an index, of at most \<open>fuel\<close> descriptors, and the heads of the new chains of a queue.\<close>

fun chain :: "abi \<Rightarrow> guest_ring \<Rightarrow> nat \<Rightarrow> nat \<Rightarrow> nat \<Rightarrow> nat list option" where
  "chain a ring num 0 i = None"
| "chain a ring num (Suc fuel) i =
     (if i \<ge> num then None
      else
        (case nextDesc a (ring_desc ring i) of
           None \<Rightarrow> Some [i]
         | Some j \<Rightarrow> map_option ((#) i) (chain a ring num fuel j)))"

definition new_chains :: "guest_ring \<Rightarrow> VirtQueue \<Rightarrow> nat" where
  "new_chains ring q = unat (avail_idx ring - last_avail_idx q)"

definition heads :: "guest_ring \<Rightarrow> VirtQueue \<Rightarrow> nat list" where
  "heads ring q = map (\<lambda>k. unat (avail_ring ring (unat (last_avail_idx q + of_nat k) mod getNumberofDescriptors q))) [0..<new_chains ring q]"

fun enter_all ::
    "abi \<Rightarrow> mmap_call \<Rightarrow> u64 \<Rightarrow> (u64 \<Rightarrow> nat \<Rightarrow> vring_desc) \<Rightarrow> vring_desc list \<Rightarrow> Vhost \<times> GPAMap \<Rightarrow> (Vhost \<times> GPAMap) result" where
  "enter_all a mmap ub indirect_at [] s = Inr s"
| "enter_all a mmap ub indirect_at (d # ds) s =
     bind_result (updateTableEntry a mmap ub indirect_at d s) (enter_all a mmap ub indirect_at ds)"

lemma bind_bind: "bind_result (bind_result r f) g = bind_result r (\<lambda>x. bind_result (f x) g)"
  by (cases r) simp_all

lemma enter_all_append:
  "enter_all a mmap ub ind (ds @ es) s = bind_result (enter_all a mmap ub ind ds s) (enter_all a mmap ub ind es)"
  by (induction ds arbitrary: s) (auto simp: bind_result_def split: sum.splits)

lemma blk_chain_enters:
  assumes "chain a ring num fuel i = Some is" "found + length is < VHOST_MEMORY_MAX_NREGIONS"
  shows "blk_chain a mmap ub ind ring num i found s =
    bind_result (enter_all a mmap ub ind (map (ring_desc ring) is) s) (\<lambda>s. Inr (True, found + length is, s))"
  using assms
proof (induction fuel arbitrary: i "is" found s)
  case 0
  then show ?case by simp
next
  case (Suc fuel)
  have i: "i < num" using Suc.prems(1) by (auto split: if_splits)
  show ?case
  proof (cases "nextDesc a (ring_desc ring i)")
    case None
    then have "is = [i]" using Suc.prems(1) i by simp
    then show ?thesis using None Suc.prems(2) i by (subst blk_chain.simps) (simp add: bind_bind)
  next
    case (Some j)
    then obtain js where js: "chain a ring num fuel j = Some js" "is = i # js" using Suc.prems(1) i by auto
    have "blk_chain a mmap ub ind ring num j (found + 1) t =
      bind_result (enter_all a mmap ub ind (map (ring_desc ring) js) t) (\<lambda>s. Inr (True, found + 1 + length js, s))" for t
      using Suc.IH [OF js(1), of "found + 1"] Suc.prems(2) js(2) by simp
    then show ?thesis using Suc.prems(2) i Some js(2) by (subst blk_chain.simps) (simp add: bind_bind)
  qed
qed

lemma heads_Cons:
  assumes "last_avail_idx q \<noteq> avail_idx ring"
  shows "heads ring q = unat (avail_ring ring (unat (last_avail_idx q) mod getNumberofDescriptors q)) # heads ring (incLastAvailIdx q)"
    "new_chains ring q = Suc (new_chains ring (incLastAvailIdx q))"
proof -
  have "avail_idx ring - last_avail_idx q \<noteq> 0" using assms by simp
  then have "unat (avail_idx ring - last_avail_idx q - 1) = unat (avail_idx ring - last_avail_idx q) - 1" "0 < unat (avail_idx ring - last_avail_idx q)"
    by (auto simp: unat_minus_one unat_gt_0)
  then show n: "new_chains ring q = Suc (new_chains ring (incLastAvailIdx q))"
    by (simp add: new_chains_def incLastAvailIdx_def algebra_simps)
  show "heads ring q = unat (avail_ring ring (unat (last_avail_idx q) mod getNumberofDescriptors q)) # heads ring (incLastAvailIdx q)"
    unfolding heads_def n upt_conv_Cons [OF zero_less_Suc] map_Suc_upt [symmetric]
    by (simp add: incLastAvailIdx_def getNumberofDescriptors_def add.assoc)
qed

lemma blk_loop_enters:
  assumes "getNumberofDescriptors q \<noteq> 0" "map (chain a ring (getNumberofDescriptors q) VHOST_MEMORY_MAX_NREGIONS) (heads ring q) = map Some iss"
    "found + length (concat iss) < VHOST_MEMORY_MAX_NREGIONS"
  shows "blk_loop a mmap ub ind ring found ret q s =
    bind_result (enter_all a mmap ub ind (map (ring_desc ring) (concat iss)) s)
      (\<lambda>s. Inr (ret + length iss, q\<lparr>last_avail_idx := avail_idx ring\<rparr>, s))"
  using assms
proof (induction iss arbitrary: found ret q s)
  case Nil
  then have "new_chains ring q = 0" by (simp add: heads_def)
  then have "last_avail_idx q = avail_idx ring" by (simp add: new_chains_def unsigned_eq_0_iff)
  then show ?case by (subst blk_loop.simps) simp
next
  case (Cons "is" iss)
  have ne: "last_avail_idx q \<noteq> avail_idx ring" using Cons.prems(2) by (auto simp: heads_def new_chains_def)
  note h = heads_Cons [OF ne]
  let ?q = "incLastAvailIdx q"
  have n: "getNumberofDescriptors ?q = getNumberofDescriptors q" by (simp add: getNumberofDescriptors_def incLastAvailIdx_def)
  have c: "chain a ring (getNumberofDescriptors q) VHOST_MEMORY_MAX_NREGIONS (unat (avail_ring ring (unat (last_avail_idx q) mod getNumberofDescriptors q))) = Some is"
    "map (chain a ring (getNumberofDescriptors ?q) VHOST_MEMORY_MAX_NREGIONS) (heads ring ?q) = map Some iss"
    using Cons.prems(2) unfolding h(1) n by simp_all
  have ih: "blk_loop a mmap ub ind ring (found + length is) (ret + 1) ?q t =
    bind_result (enter_all a mmap ub ind (map (ring_desc ring) (concat iss)) t)
      (\<lambda>s. Inr (ret + 1 + length iss, q\<lparr>last_avail_idx := avail_idx ring\<rparr>, s))" for t
    using Cons.IH [of ?q "found + length is" "ret + 1" t] Cons.prems(1,3) c(2) n by (simp add: incLastAvailIdx_def)
  have "blk_chain a mmap ub ind ring (getNumberofDescriptors q) (unat (avail_ring ring (unat (last_avail_idx q) mod getNumberofDescriptors q))) found s =
    bind_result (enter_all a mmap ub ind (map (ring_desc ring) is) s) (\<lambda>s. Inr (True, found + length is, s))"
    using blk_chain_enters [OF c(1)] Cons.prems(3) by simp
  then show ?case using ne Cons.prems(1) ih by (subst blk_loop.simps) (simp add: bind_bind enter_all_append)
qed

lemma position_apart: "j < n \<Longrightarrow> n - j < 64 \<Longrightarrow> (k + n) mod 64 \<noteq> (k + j) mod (64 :: nat)"
  using mod_eq_dvd_iff_nat [of "k + j" "k + n" 64] dvd_imp_le [of 64 "n - j"] by auto

lemma unat_index_add: "unat (i :: u32) + n < 2 ^ 31 \<Longrightarrow> unat (i + of_nat n) = unat i + n"
  by (simp add: unat_word_ariths unat_of_nat take_bit_nat_eq_self)

text \<open>Entries without indirect tables whose addresses translate without a change of the map.\<close>

lemma enter_all_regions:
  assumes "\<forall>d \<in> set ds. d_flags d AND F_INDIRECT a = 0 \<and> GPA_to_HVA mmap ub (d_addr d) gm = Inr (h d, gm)"
    "length (regions v) = VHOST_MEMORY_MAX_NREGIONS" "length ds \<le> VHOST_MEMORY_MAX_NREGIONS"
    "unat (memTableIdx v) + length ds < 2 ^ 31"
  shows "\<exists>rs. enter_all a mmap ub ind ds (v, gm) = Inr (v\<lparr>regions := rs, memTableIdx := memTableIdx v + of_nat (length ds)\<rparr>, gm)
    \<and> length rs = VHOST_MEMORY_MAX_NREGIONS
    \<and> (\<forall>j < length ds. rs ! ((unat (memTableIdx v) + j) mod VHOST_MEMORY_MAX_NREGIONS) = region_of (ds ! j) (h (ds ! j)))"
  using assms(1,3,4)
proof (induction ds rule: rev_induct)
  case Nil
  then show ?case using assms(2) by (intro exI [of _ "regions v"]) simp
next
  case (snoc d ds)
  then obtain rs where rs: "enter_all a mmap ub ind ds (v, gm) = Inr (v\<lparr>regions := rs, memTableIdx := memTableIdx v + of_nat (length ds)\<rparr>, gm)"
    "length rs = VHOST_MEMORY_MAX_NREGIONS"
    "\<forall>j < length ds. rs ! ((unat (memTableIdx v) + j) mod VHOST_MEMORY_MAX_NREGIONS) = region_of (ds ! j) (h (ds ! j))" by auto
  let ?p = "(unat (memTableIdx v) + length ds) mod VHOST_MEMORY_MAX_NREGIONS"
  let ?rs = "rs[?p := region_of d (h d)]"
  have u: "unat (memTableIdx v + of_nat (length ds)) = unat (memTableIdx v) + length ds"
    using snoc.prems(3) by (intro unat_index_add) simp
  have "table_position (memTableIdx v + of_nat (length ds)) = int ?p"
    using table_position_index [of "memTableIdx v + of_nat (length ds)"] snoc.prems(3) unfolding u by simp
  then have "enter_all a mmap ub ind (ds @ [d]) (v, gm) = Inr (v\<lparr>regions := ?rs, memTableIdx := memTableIdx v + of_nat (length (ds @ [d]))\<rparr>, gm)"
    using rs(1) snoc.prems(1) by (simp add: enter_all_append updateTableEntry_def put_region_def add.assoc add.commute)
  moreover have "?rs ! ((unat (memTableIdx v) + j) mod VHOST_MEMORY_MAX_NREGIONS) = region_of ((ds @ [d]) ! j) (h ((ds @ [d]) ! j))"
    if "j < length (ds @ [d])" for j
  proof (cases "j = length ds")
    case True
    then show ?thesis using rs(2) by simp
  next
    case False
    then have "j < length ds" using that by simp
    then show ?thesis using rs(3) position_apart [of j "length ds" "unat (memTableIdx v)"] snoc.prems(2) by (simp add: nth_append)
  qed
  ultimately show ?case using rs(2) by (intro exI [of _ ?rs]) simp
qed

section \<open>A sample device\<close>

text \<open>
  The layout of the standard, a map that has host memory for every section, and a ring with one request of two descriptors.
\<close>

definition sample_abi :: abi where
  "sample_abi = \<lparr>F_NEXT = 1, F_INDIRECT = 4, desc_size = 16\<rparr>"

definition sample_map :: GPAMap where
  "sample_map = \<lparr>GPAtoHVAMap_IPE = (\<lambda>_. Some \<lparr>val_HVA = 0x5000, val_size = 0, map_idx = 0\<rparr>), mappings = []\<rparr>"

definition sample_ring :: guest_ring where
  "sample_ring = \<lparr>ring_desc = (\<lambda>i. \<lparr>d_addr = 0x1000 * of_nat i, d_len = 16, d_flags = (if i = 0 then 1 else 0), d_next = 1\<rparr>),
     avail_idx = 1, avail_ring = (\<lambda>_. 0)\<rparr>"

definition sample_queue :: VirtQueue where
  "sample_queue = \<lparr>vq_GPA = 0, vq_HVA = 0, numDesc = 4, last_avail_idx = 0\<rparr>"

definition sample_hva :: "u64 \<Rightarrow> u64" where
  "sample_hva a = 0x5000 + snd (get_base_and_offset a)"

lemma sample_translates: "GPA_to_HVA mmap ub a sample_map = Inr (sample_hva a, sample_map)"
  by (cases "get_base_and_offset a") (simp add: GPA_to_HVA_def translate_GPA_to_HVA_def sample_map_def sample_hva_def)

lemma sample_wf: "vhost_wf (new_Vhost net qs n)"
  by (simp add: vhost_wf_def new_Vhost_def)

lemma sample_count: "getNumberofDescriptors sample_queue = 4"
  by (simp add: getNumberofDescriptors_def sample_queue_def)

lemma sample_chains:
  "map (chain sample_abi sample_ring (getNumberofDescriptors sample_queue) VHOST_MEMORY_MAX_NREGIONS) (heads sample_ring sample_queue)
     = map Some [[0, 1]]"
proof -
  have "chain sample_abi sample_ring 4 (Suc (Suc n)) 0 = Some [0, 1]" for n
    by (simp add: sample_abi_def sample_ring_def nextDesc_def)
  from this [of 62] have "chain sample_abi sample_ring 4 64 0 = Some [0, 1]" by simp
  moreover have "heads sample_ring sample_queue = [0]"
    by (simp add: heads_def new_chains_def sample_ring_def sample_queue_def)
  ultimately show ?thesis by (simp add: sample_count)
qed

lemma sample_blk_walk:
  "\<exists>t. updateBlkTableFromQueue sample_abi (\<lambda>_ _. None) 0 ind sample_ring sample_queue (new_Vhost False [sample_queue] 1, sample_map)
     = Inr (1, sample_queue\<lparr>last_avail_idx := 1\<rparr>, t, sample_map)
   \<and> queues t = [sample_queue]"
proof -
  let ?v = "new_Vhost False [sample_queue] 1" and ?ds = "map (ring_desc sample_ring) [0, 1]"
  have "\<forall>d \<in> set ?ds. d_flags d AND F_INDIRECT sample_abi = 0
      \<and> GPA_to_HVA (\<lambda>_ _. None) 0 (d_addr d) sample_map = Inr (sample_hva (d_addr d), sample_map)"
    by (simp add: sample_translates sample_ring_def sample_abi_def)
  from enter_all_regions [OF this, of ?v ind] sample_wf [of False "[sample_queue]" 1] obtain rs where
    "enter_all sample_abi (\<lambda>_ _. None) 0 ind ?ds (?v, sample_map) = Inr (?v\<lparr>regions := rs, memTableIdx := memTableIdx ?v + of_nat 2\<rparr>, sample_map)"
    by (auto simp: vhost_wf_def new_Vhost_def)
  then show ?thesis
    using blk_loop_enters [OF _ sample_chains, of 0 "\<lambda>_ _. None" 0 ind 0 "(?v, sample_map)"]
    by (simp add: updateBlkTableFromQueue_def sample_count) (simp add: sample_ring_def new_Vhost_def)
qed

text \<open>
  Property C16. New requests are shared with the host. When the new chains of the block queue are proper chains of at
  most 63 descriptors in all, without indirect tables, and the running index of the table stays below \<open>2\<^sup>3\<^sup>1\<close>, an update
  of the memory table enters every descriptor of every chain, in order, with its guest address, its length and the host
  address its guest address translates to, hands the table to the host with a length that covers them, and marks exactly
  these chains as seen.
\<close>

theorem requests_shared:
  assumes "\<not> isNet v" "queues v = q # qs" "getNumberofDescriptors q \<noteq> 0" "vhost_wf v"
    and "map (chain a (rings 0) (getNumberofDescriptors q) VHOST_MEMORY_MAX_NREGIONS) (heads (rings 0) q) = map Some iss"
    and "iss \<noteq> []" "is = concat iss" "length is < VHOST_MEMORY_MAX_NREGIONS"
    and "\<forall>i \<in> set is. d_flags (ring_desc (rings 0) i) AND F_INDIRECT a = 0
           \<and> GPA_to_HVA mmap ub (d_addr (ring_desc (rings 0) i)) gm = Inr (h (d_addr (ring_desc (rings 0) i)), gm)"
    and "unat (memTableIdx v) + length is < 2 ^ 31"
  shows "\<exists>v' n rs. updateMemoryTable a mmap ub ind rings (v, gm) = Inr (v', gm) \<and> published v' = Some (n, rs)
    \<and> queues v' = q\<lparr>last_avail_idx := avail_idx (rings 0)\<rparr> # qs
    \<and> (\<forall>j < length is. (unat (memTableIdx v) + j) mod VHOST_MEMORY_MAX_NREGIONS < unat n
         \<and> rs ! ((unat (memTableIdx v) + j) mod VHOST_MEMORY_MAX_NREGIONS) = region_of (ring_desc (rings 0) (is ! j)) (h (d_addr (ring_desc (rings 0) (is ! j)))))"
proof -
  let ?ds = "map (ring_desc (rings 0)) is" and ?i = "memTableIdx v + of_nat (length is)"
  have "\<forall>d \<in> set ?ds. d_flags d AND F_INDIRECT a = 0 \<and> GPA_to_HVA mmap ub (d_addr d) gm = Inr (h (d_addr d), gm)"
    using assms(9) by auto
  from enter_all_regions [OF this, of v ind] assms(4,8,10) obtain rs where
    rs: "enter_all a mmap ub ind ?ds (v, gm) = Inr (v\<lparr>regions := rs, memTableIdx := ?i\<rparr>, gm)"
      "length rs = VHOST_MEMORY_MAX_NREGIONS"
      "\<forall>j < length is. rs ! ((unat (memTableIdx v) + j) mod VHOST_MEMORY_MAX_NREGIONS) = region_of (?ds ! j) (h (d_addr (?ds ! j)))"
    by (auto simp: vhost_wf_def)
  let ?n = "if sint ?i > int VHOST_MEMORY_MAX_NREGIONS then of_nat VHOST_MEMORY_MAX_NREGIONS else ?i"
  let ?v = "setMemoryTable (v\<lparr>regions := rs, memTableIdx := ?i,
      queues := q\<lparr>last_avail_idx := avail_idx (rings 0)\<rparr> # qs, nregions := ?n\<rparr>)"
  have u: "unat ?i = unat (memTableIdx v) + length is" by (rule unat_index_add [OF assms(10)])
  have i: "sint ?i = int (unat (memTableIdx v) + length is)" using sint_index [of ?i] u assms(10) by simp
  have "updateMemoryTable a mmap ub ind rings (v, gm) = Inr (?v, gm)"
    using blk_loop_enters [OF assms(3,5), of 0 mmap ub ind 0 "(v, gm)"] rs(1) assms(1,2,6,7,8)
    by (simp add: updateMemoryTable_def on_queue_def updateBlkTableFromQueue_def Let_def)
  moreover have "(unat (memTableIdx v) + j) mod VHOST_MEMORY_MAX_NREGIONS < unat ?n" if "j < length is" for j
  proof (cases "sint ?i > int VHOST_MEMORY_MAX_NREGIONS")
    case False
    then have "unat ?n = unat (memTableIdx v) + length is" by (simp only: u if_False)
    then show ?thesis using that False i by simp
  qed simp
  ultimately show ?thesis
    using rs(3) by (intro exI [of _ ?v] exI [of _ ?n] exI [of _ rs]) (simp add: setMemoryTable_def)
qed

theorem requests_shared_witness:
  "\<exists>v' n rs. updateMemoryTable sample_abi (\<lambda>_ _. None) 0 (\<lambda>_ _. \<lparr>d_addr = 0, d_len = 0, d_flags = 0, d_next = 0\<rparr>) (\<lambda>_. sample_ring)
       (new_Vhost False [sample_queue] 1, sample_map) = Inr (v', sample_map)
     \<and> published v' = Some (n, rs) \<and> rs ! 1 = \<lparr>guest_phys_addr = 0x1000, userspace_addr = sample_hva 0x1000, memory_size = 16\<rparr>"
proof -
  let ?v = "new_Vhost False [sample_queue] 1"
  have v: "\<not> isNet ?v" "queues ?v = sample_queue # []" "getNumberofDescriptors sample_queue \<noteq> 0" "memTableIdx ?v = 0"
    by (simp_all add: new_Vhost_def getNumberofDescriptors_def sample_queue_def)
  show ?thesis
    using requests_shared [OF v(1-3) sample_wf, of sample_abi "\<lambda>_. sample_ring" "[[0, 1]]" "[0, 1]" "\<lambda>_ _. None" 0 sample_map sample_hva
        "\<lambda>_ _. \<lparr>d_addr = 0, d_len = 0, d_flags = 0, d_next = 0\<rparr>"] sample_chains v(4)
    by (force simp: sample_translates sample_abi_def sample_ring_def region_of_def)
qed

text \<open>
  Indirect tables are followed wrongly. A request of three buffers in an indirect table whose entries name
  their successors, 0, 1, 2, has entries 0, 1 and 3 shared: the loop adds the index of the next entry to its position, so the
  third buffer is missing and an entry behind the table is taken for it.
\<close>

lemma indirect_third_wrong:
  assumes "desc_size a = 16" "\<forall>k \<in> {0, 1}. d_flags (t k) AND F_NEXT a \<noteq> 0 \<and> d_flags (t k) AND F_INDIRECT a = 0 \<and> unat (d_next (t k)) = k + 1"
  shows "updateTableIndirect a mmap ub t 48 s =
    bind_result (put_region mmap ub (t 0) s) (\<lambda>(_, s). bind_result (put_region mmap ub (t 1) s) (\<lambda>(_, s).
      bind_result (put_region mmap ub (t 3) s) (\<lambda>(_, s). Inr s)))"
proof -
  have n: "nextDesc a (t 0) = Some 1" "nextDesc a (t 1) = Some 2" using assms(2) by (simp_all add: nextDesc_def)
  have e: "indirect_loop a mmap ub t (Suc (Suc (Suc 0))) (Suc (Suc (Suc 0))) i p s = Inr s" for i p s
    by (subst indirect_loop.simps) simp
  have l3: "indirect_loop a mmap ub t 3 2 2 1 s = bind_result (put_region mmap ub (t 3) s) (\<lambda>(_, s). Inr s)" for s
    by (subst indirect_loop.simps)
      (auto simp: bind_result_def e numeral_3_eq_3 split: sum.splits option.splits)
  have l2: "indirect_loop a mmap ub t 3 1 1 0 s = bind_result (put_region mmap ub (t 1) s) (\<lambda>(_, s). indirect_loop a mmap ub t 3 2 2 1 s)" for s
    using assms(2) n(2) by (subst indirect_loop.simps) (simp add: numeral_2_eq_2)
  have l1: "indirect_loop a mmap ub t 3 0 0 0 s = bind_result (put_region mmap ub (t 0) s) (\<lambda>(_, s). indirect_loop a mmap ub t 3 1 1 0 s)" for s
    using assms(2) n(1) by (subst indirect_loop.simps) simp
  show ?thesis by (simp add: updateTableIndirect_def assms(1) l1 l2 [unfolded One_nat_def] l3 [unfolded One_nat_def])
qed

theorem memory_table_bounded_witness:
  "\<exists>v'. updateMemoryTable sample_abi (\<lambda>_ _. None) 0 (\<lambda>_ _. \<lparr>d_addr = 0, d_len = 0, d_flags = 0, d_next = 0\<rparr>) (\<lambda>_. sample_ring)
       (new_Vhost False [sample_queue] 1, sample_map) = Inr (v', sample_map)
     \<and> (0 \<le> sint (memTableIdx v') \<longrightarrow> vhost_wf v')"
proof -
  obtain u where "updateMemoryTable sample_abi (\<lambda>_ _. None) 0 (\<lambda>_ _. \<lparr>d_addr = 0, d_len = 0, d_flags = 0, d_next = 0\<rparr>) (\<lambda>_. sample_ring)
       (new_Vhost False [sample_queue] 1, sample_map) = Inr (u, sample_map)"
    using sample_blk_walk [of "\<lambda>_ _. \<lparr>d_addr = 0, d_len = 0, d_flags = 0, d_next = 0\<rparr>"]
    by (auto simp: updateMemoryTable_def on_queue_def new_Vhost_def Let_def)
  from memory_table_bounded [OF sample_wf this] this show ?thesis by (metis (no_types, lifting))
qed

end
