(* ===== verification/CIU.thy ===== *)
theory CIU
  imports Exceptions
begin

text \<open>
  The central interrupt unit, \<^verbatim>\<open>CIU.cpp\<close>. Its registers are 8-byte words of a memory region, and the
  pointers that \<^verbatim>\<open>setMappings\<close> computes are positions in the region; so two register arrays
  may share words, and the model keeps one memory. A core that writes a register stores the word itself (\<open>guest_store\<close>)
  and notifies the unit's thread, which runs \<open>updateFlags\<close>.

  The host is big-endian, so the bit-fields of the unions count from the most significant bit: \<^verbatim>\<open>MBOX0\<close> is bit 32,
  \<^verbatim>\<open>MBOX1\<close> bit 33, and the halves of a mailbox are its bits 0 to 15 and 16 to 31.
  The cores enter with their register files and their NMI flags. Raising \<^verbatim>\<open>SIGTERM\<close> sets a flag of the model.
\<close>

section \<open>Registers\<close>

abbreviation (input) CIU_INT0_EN0_OFFSET_NEW :: nat where "CIU_INT0_EN0_OFFSET_NEW \<equiv> 64"
abbreviation (input) CIU_INT23_EN1_OFFSET_NEW :: nat where "CIU_INT23_EN1_OFFSET_NEW \<equiv> 111"
abbreviation (input) CIU_MBOX_SET0_OFFSET_NEW :: nat where "CIU_MBOX_SET0_OFFSET_NEW \<equiv> 192"
abbreviation (input) CIU_MBOX_SET11_OFFSET_NEW :: nat where "CIU_MBOX_SET11_OFFSET_NEW \<equiv> 203"
abbreviation (input) CIU_MBOX_CLR0_OFFSET_NEW :: nat where "CIU_MBOX_CLR0_OFFSET_NEW \<equiv> 208"
abbreviation (input) CIU_MBOX_CLR11_OFFSET_NEW :: nat where "CIU_MBOX_CLR11_OFFSET_NEW \<equiv> 219"
abbreviation (input) CIU_PP_RST_OFFSET_NEW :: nat where "CIU_PP_RST_OFFSET_NEW \<equiv> 224"
abbreviation (input) CIU_NMI_OFFSET_NEW :: nat where "CIU_NMI_OFFSET_NEW \<equiv> 227"
abbreviation (input) CIU_FUSE_OFFSET_NEW :: nat where "CIU_FUSE_OFFSET_NEW \<equiv> 229"
abbreviation (input) CIU_SOFT_RST_OFFSET :: nat where "CIU_SOFT_RST_OFFSET \<equiv> 232"
abbreviation (input) CIU_INT0_SUM4_OFFSET_NEW :: nat where "CIU_INT0_SUM4_OFFSET_NEW \<equiv> 384"
abbreviation (input) CIU_INT0_EN4_0_OFFSET_NEW :: nat where "CIU_INT0_EN4_0_OFFSET_NEW \<equiv> 400"
abbreviation (input) CIU_INT11_EN4_1_OFFSET_NEW :: nat where "CIU_INT11_EN4_1_OFFSET_NEW \<equiv> 423"
abbreviation (input) CIU_INT0_EN0_W1C_OFFSET_NEW :: nat where "CIU_INT0_EN0_W1C_OFFSET_NEW \<equiv> 1088"
abbreviation (input) CIU_INT23_EN1_W1C_OFFSET_NEW :: nat where "CIU_INT23_EN1_W1C_OFFSET_NEW \<equiv> 1135"
abbreviation (input) CIU_INT0_EN4_0_W1C_OFFSET_NEW :: nat where "CIU_INT0_EN4_0_W1C_OFFSET_NEW \<equiv> 1424"
abbreviation (input) CIU_INT11_EN4_1_W1C_OFFSET_NEW :: nat where "CIU_INT11_EN4_1_W1C_OFFSET_NEW \<equiv> 1447"
abbreviation (input) CIU_INT0_EN0_W1S_OFFSET_NEW :: nat where "CIU_INT0_EN0_W1S_OFFSET_NEW \<equiv> 3136"
abbreviation (input) CIU_INT23_EN1_W1S_OFFSET_NEW :: nat where "CIU_INT23_EN1_W1S_OFFSET_NEW \<equiv> 3183"
abbreviation (input) CIU_INT0_EN4_0_W1S_OFFSET_NEW :: nat where "CIU_INT0_EN4_0_W1S_OFFSET_NEW \<equiv> 3472"
abbreviation (input) CIU_INT11_EN4_1_W1S_OFFSET_NEW :: nat where "CIU_INT11_EN4_1_W1S_OFFSET_NEW \<equiv> 3495"

abbreviation (input) PP_RST_INIT_VALUE_NEW :: u64 where "PP_RST_INIT_VALUE_NEW \<equiv> 0x0FFE"
abbreviation (input) NMI_MASK_NEW :: u64 where "NMI_MASK_NEW \<equiv> 0x0FFF"
abbreviation (input) CIU_OFFSET_MASK :: u64 where "CIU_OFFSET_MASK \<equiv> 0x7FFF"
abbreviation (input) CIU_SUM_MBOX0 :: nat where "CIU_SUM_MBOX0 \<equiv> 32"
abbreviation (input) CIU_SUM_MBOX1 :: nat where "CIU_SUM_MBOX1 \<equiv> 33"
abbreviation (input) CIU_SUM_UART1 :: nat where "CIU_SUM_UART1 \<equiv> 35"

record CIU =
  word_at :: "nat \<Rightarrow> u64"
  cores :: "CP0_IPE list"
  NMI_flag :: "bool list"
  terminated :: bool

text \<open>The positions the pointer arrays of the class hold after \<^verbatim>\<open>setMappings\<close>.\<close>

definition INT_SUM0 :: "nat \<Rightarrow> nat" where "INT_SUM0 i = i"
definition INT_EN0 :: "nat \<Rightarrow> nat" where "INT_EN0 i = CIU_INT0_EN0_OFFSET_NEW + i * 2"
definition INT_SUM4 :: "nat \<Rightarrow> nat" where "INT_SUM4 i = CIU_INT0_SUM4_OFFSET_NEW + i"
definition INT_EN4_0 :: "nat \<Rightarrow> nat" where "INT_EN4_0 i = CIU_INT0_EN4_0_OFFSET_NEW + i"
definition INT_MBOX_SET :: "nat \<Rightarrow> nat" where "INT_MBOX_SET i = CIU_MBOX_SET0_OFFSET_NEW + i"
definition INT_MBOX_CLR :: "nat \<Rightarrow> nat" where "INT_MBOX_CLR i = CIU_MBOX_CLR0_OFFSET_NEW + i"
definition INT_EN0_W1C :: "nat \<Rightarrow> nat" where "INT_EN0_W1C i = CIU_INT0_EN0_W1C_OFFSET_NEW + i * 2"
definition INT_EN4_0_W1C :: "nat \<Rightarrow> nat" where "INT_EN4_0_W1C i = CIU_INT0_EN4_0_W1C_OFFSET_NEW + i * 2"
definition INT_EN0_W1S :: "nat \<Rightarrow> nat" where "INT_EN0_W1S i = CIU_INT0_EN0_W1S_OFFSET_NEW + i * 2"
definition INT_EN4_0_W1S :: "nat \<Rightarrow> nat" where "INT_EN4_0_W1S i = CIU_INT0_EN4_0_W1S_OFFSET_NEW + i * 2"

lemmas register_defs = INT_SUM0_def INT_EN0_def INT_SUM4_def INT_EN4_0_def INT_MBOX_SET_def INT_MBOX_CLR_def
  INT_EN0_W1C_def INT_EN4_0_W1C_def INT_EN0_W1S_def INT_EN4_0_W1S_def

definition put :: "nat \<Rightarrow> u64 \<Rightarrow> CIU \<Rightarrow> CIU" where
  "put k v s = s\<lparr>word_at := (word_at s)(k := v)\<rparr>"

text \<open>The store a core makes into the region.\<close>

definition guest_store :: "nat \<Rightarrow> u64 \<Rightarrow> CIU \<Rightarrow> CIU" where
  "guest_store offset data s = put offset data s"

text \<open>The three registers \<^verbatim>\<open>setMappings\<close> initializes.\<close>

definition setMappings :: "CIU \<Rightarrow> CIU" where
  "setMappings s =
     put CIU_FUSE_OFFSET_NEW (NOT (push_bit (length (cores s)) (NOT 0)))
       (put CIU_NMI_OFFSET_NEW 0 (put CIU_PP_RST_OFFSET_NEW PP_RST_INIT_VALUE_NEW s))"

section \<open>The interrupt lines of a core\<close>

definition pending :: "CIU \<Rightarrow> nat \<Rightarrow> nat \<Rightarrow> bool" where
  "pending s summary en \<longleftrightarrow> word_at s summary AND word_at s en \<noteq> 0"

definition updateInterrupt :: "nat \<Rightarrow> CIU \<Rightarrow> CIU result" where
  "updateInterrupt core s =
     (if length (cores s) \<le> core \<or> 12 \<le> core then Inl OutOfBounds
      else
        (let i = core * 2;
             cause = cp0_read (cores s ! core) H2_CP0_CAUSE SEL_ZERO;
             IP2 = pending s (INT_SUM0 i) (INT_EN0 i);
             IP3 = pending s (INT_SUM0 (i + 1)) (INT_EN0 (i + 1));
             IP4 = pending s (INT_SUM4 core) (INT_EN4_0 core);
             cause = (if IP2 then cause OR CAUSE_IP2 else cause AND NOT CAUSE_IP2);
             cause = (if IP3 then cause OR CAUSE_IP3 else cause AND NOT CAUSE_IP3);
             cause = (if IP4 then cause OR CAUSE_IP4 else cause AND NOT CAUSE_IP4) in
         Inr (s\<lparr>cores := (cores s)[core := cp0_write cause H2_CP0_CAUSE SEL_ZERO (cores s ! core)]\<rparr>)))"

section \<open>Handlers\<close>

definition set_flag :: "nat \<Rightarrow> nat \<Rightarrow> CIU \<Rightarrow> CIU" where
  "set_flag n k s = put k (word_at s k OR push_bit n 1) s"

definition clear_flag :: "nat \<Rightarrow> nat \<Rightarrow> CIU \<Rightarrow> CIU" where
  "clear_flag n k s = put k (word_at s k AND NOT (push_bit n 1)) s"

text \<open>The three summary words of a core in which the unit keeps the flag of a source.\<close>

definition set_summary :: "nat \<Rightarrow> nat \<Rightarrow> CIU \<Rightarrow> CIU" where
  "set_summary n core s = set_flag n (INT_SUM4 core) (set_flag n (INT_SUM0 (core * 2 + 1)) (set_flag n (INT_SUM0 (core * 2)) s))"

definition clear_summary :: "nat \<Rightarrow> nat \<Rightarrow> CIU \<Rightarrow> CIU" where
  "clear_summary n core s = clear_flag n (INT_SUM4 core) (clear_flag n (INT_SUM0 (core * 2 + 1)) (clear_flag n (INT_SUM0 (core * 2)) s))"

definition LowerHalf :: "u64 \<Rightarrow> u64" where "LowerHalf v = v AND 0xFFFF"
definition UpperHalf :: "u64 \<Rightarrow> u64" where "UpperHalf v = drop_bit 16 v AND 0xFFFF"

text \<open>Each handler returns the core it determined and the state.\<close>

definition handleMboxSet :: "nat \<Rightarrow> u64 \<Rightarrow> CIU \<Rightarrow> nat \<times> CIU" where
  "handleMboxSet offset data s =
     (let core = offset - CIU_MBOX_SET0_OFFSET_NEW;
          s = put (INT_MBOX_CLR core) data (put (INT_MBOX_SET core) data s);
          v = word_at s (INT_MBOX_SET core) in
      (core,
       if LowerHalf v \<noteq> 0
       then set_summary CIU_SUM_MBOX0 core s
       else if UpperHalf v \<noteq> 0
       then set_summary CIU_SUM_MBOX1 core s
       else s))"

definition handleMboxClr :: "nat \<Rightarrow> u64 \<Rightarrow> CIU \<Rightarrow> nat \<times> CIU" where
  "handleMboxClr offset data s =
     (let core = offset - CIU_MBOX_CLR0_OFFSET_NEW;
          s = put (INT_MBOX_SET core) (word_at s (INT_MBOX_SET core) AND NOT data) s;
          v = word_at s (INT_MBOX_SET core);
          s = (if LowerHalf v = 0
               then clear_summary CIU_SUM_MBOX0 core s
               else s);
          s = (if UpperHalf v = 0
               then clear_summary CIU_SUM_MBOX1 core s
               else s) in
      (core, put (INT_MBOX_CLR core) (word_at s (INT_MBOX_SET core)) s))"

definition handleEnable0 :: "nat \<Rightarrow> u64 \<Rightarrow> CIU \<Rightarrow> nat \<times> CIU" where
  "handleEnable0 offset data s =
     (let i = offset - CIU_INT0_EN0_OFFSET_NEW; core = i div 4 in
      (core, if i mod 2 = 0 then put (INT_EN0 (i div 2)) data s else s))"

definition handleEnable4 :: "nat \<Rightarrow> u64 \<Rightarrow> CIU \<Rightarrow> nat \<times> CIU" where
  "handleEnable4 offset data s =
     (let i = offset - CIU_INT0_EN4_0_OFFSET_NEW; core = i div 2 in
      (core, if i mod 2 = 0 then put (INT_EN4_0 core) data s else s))"

definition handleEnable0_W1C :: "nat \<Rightarrow> u64 \<Rightarrow> CIU \<Rightarrow> nat \<times> CIU" where
  "handleEnable0_W1C offset data s =
     (let i = offset - CIU_INT0_EN0_W1C_OFFSET_NEW; core = i div 4 in
      (core, if i mod 2 = 0
             then put (INT_EN0_W1C (i div 2)) 0 (put (INT_EN0 (i div 2)) (word_at s (INT_EN0 (i div 2)) AND NOT data) s)
             else s))"

text \<open>
  The comment after the \<^verbatim>\<open>else\<close> of this handler hides the end of the statement: the \<^verbatim>\<open>return\<close> is the branch for
  odd registers, and for even ones the function ends without a value.
\<close>

definition handleEnable4_W1C :: "nat \<Rightarrow> u64 \<Rightarrow> CIU \<Rightarrow> nat option \<times> CIU" where
  "handleEnable4_W1C offset data s =
     (let i = offset - CIU_INT0_EN4_0_W1C_OFFSET_NEW; core = i div 2 in
      if i mod 2 = 0
      then (None, put (INT_EN4_0_W1C core) 0 (put (INT_EN4_0 core) (word_at s (INT_EN4_0 core) AND NOT data) s))
      else (Some core, s))"

definition handleEnable0_W1S :: "nat \<Rightarrow> u64 \<Rightarrow> CIU \<Rightarrow> nat \<times> CIU" where
  "handleEnable0_W1S offset data s =
     (let i = offset - CIU_INT0_EN0_W1S_OFFSET_NEW; core = i div 4 in
      (core, if i mod 2 = 0
             then put (INT_EN0_W1S (i div 2)) 0 (put (INT_EN0 (i div 2)) (word_at s (INT_EN0 (i div 2)) OR data) s)
             else s))"

definition handleEnable4_W1S :: "nat \<Rightarrow> u64 \<Rightarrow> CIU \<Rightarrow> nat \<times> CIU" where
  "handleEnable4_W1S offset data s =
     (let i = offset - CIU_INT0_EN4_0_W1S_OFFSET_NEW; core = i div 2 in
      (core, if i mod 2 = 0
             then put (INT_EN4_0_W1S core) 0 (put (INT_EN4_0 core) (word_at s (INT_EN4_0 core) OR data) s)
             else s))"

text \<open>
  The loop over the bits of the NMI register. It ends because the register is shifted to zero; the measure is its
  value.
\<close>

lemma shift_decreases: "x \<noteq> 0 \<Longrightarrow> unat (drop_bit 1 (x :: u64)) < unat x"
  by (simp add: drop_bit_eq_div unat_div_distrib unat_gt_0)

function NMI_loop :: "u64 \<Rightarrow> nat \<Rightarrow> bool list \<Rightarrow> bool list" where
  "NMI_loop coreNMI i flags =
     (if coreNMI = 0 then flags
      else NMI_loop (drop_bit 1 coreNMI) (i + 1)
             (if coreNMI AND 1 \<noteq> 0 then (if i < length flags then flags[i := True] else flags) else flags))"
  by pat_completeness auto
termination
  by (relation "measure (\<lambda>(x, i, flags). unat x)") (simp_all add: shift_decreases [simplified])

declare NMI_loop.simps [simp del]

definition sendNMI :: "u64 \<Rightarrow> CIU \<Rightarrow> CIU" where
  "sendNMI data s =
     put CIU_NMI_OFFSET_NEW 0 (s\<lparr>NMI_flag := NMI_loop (data AND NMI_MASK_NEW) 0 (NMI_flag s)\<rparr>)"

text \<open>\<open>addr\<close> and \<open>data\<close> are the message of the core.\<close>

definition updateFlags :: "u64 \<Rightarrow> u64 \<Rightarrow> CIU \<Rightarrow> CIU result" where
  "updateFlags addr data s =
     (let offset = unat (addr AND CIU_OFFSET_MASK) div 8;
          update = (\<lambda>(core, s). updateInterrupt core s) in
      if offset \<le> CIU_INT23_EN1_OFFSET_NEW \<and> offset \<ge> CIU_INT0_EN0_OFFSET_NEW then update (handleEnable0 offset data s)
      else if offset \<le> CIU_MBOX_SET11_OFFSET_NEW \<and> offset \<ge> CIU_MBOX_SET0_OFFSET_NEW then update (handleMboxSet offset data s)
      else if offset \<le> CIU_MBOX_CLR11_OFFSET_NEW \<and> offset \<ge> CIU_MBOX_CLR0_OFFSET_NEW then update (handleMboxClr offset data s)
      else if offset = CIU_NMI_OFFSET_NEW then Inr (sendNMI data s)
      else if offset = CIU_SOFT_RST_OFFSET then Inr (s\<lparr>terminated := True\<rparr>)
      else if offset \<le> CIU_INT11_EN4_1_OFFSET_NEW \<and> offset \<ge> CIU_INT0_EN4_0_OFFSET_NEW then update (handleEnable4 offset data s)
      else if offset \<le> CIU_INT23_EN1_W1C_OFFSET_NEW \<and> offset \<ge> CIU_INT0_EN0_W1C_OFFSET_NEW then update (handleEnable0_W1C offset data s)
      else if offset \<le> CIU_INT11_EN4_1_W1C_OFFSET_NEW \<and> offset \<ge> CIU_INT0_EN4_0_W1C_OFFSET_NEW
      then (case handleEnable4_W1C offset data s of (None, s) \<Rightarrow> Inl NoReturn | (Some core, s) \<Rightarrow> update (core, s))
      else if offset \<le> CIU_INT23_EN1_W1S_OFFSET_NEW \<and> offset \<ge> CIU_INT0_EN0_W1S_OFFSET_NEW then update (handleEnable0_W1S offset data s)
      else if offset \<le> CIU_INT11_EN4_1_W1S_OFFSET_NEW \<and> offset \<ge> CIU_INT0_EN4_0_W1S_OFFSET_NEW then update (handleEnable4_W1S offset data s)
      else Inr s)"

text \<open>The thread of the unit, for the messages it has been woken with so far. \<^verbatim>\<open>SIGTERM\<close> ends the process.\<close>

fun service :: "(u64 \<times> u64) list \<Rightarrow> CIU \<Rightarrow> CIU result" where
  "service [] s = Inr s"
| "service ((addr, data) # ms) s =
     (if terminated s then Inr s else bind_result (updateFlags addr data s) (service ms))"

definition start :: "(u64 \<times> u64) list \<Rightarrow> CIU \<Rightarrow> CIU result" where
  "start ms s = service ms (setMappings s)"

section \<open>Device interrupts\<close>

text \<open>The number of a line is below 64; both devices of the program use one line each.\<close>

definition raise_core :: "nat \<Rightarrow> nat \<Rightarrow> CIU \<Rightarrow> CIU result" where
  "raise_core offset core s =
     updateInterrupt core (set_summary offset core s)"

definition lower_core :: "nat \<Rightarrow> nat \<Rightarrow> CIU \<Rightarrow> CIU result" where
  "lower_core offset core s =
     updateInterrupt core (clear_summary offset core s)"

fun for_cores :: "(nat \<Rightarrow> CIU \<Rightarrow> CIU result) \<Rightarrow> nat list \<Rightarrow> CIU \<Rightarrow> CIU result" where
  "for_cores f [] s = Inr s"
| "for_cores f (c # cs) s = bind_result (f c s) (for_cores f cs)"

definition generateInterrupt :: "nat \<Rightarrow> CIU \<Rightarrow> CIU result" where
  "generateInterrupt offset s = for_cores (raise_core offset) [0..<length (cores s)] s"

definition clearInterrupt :: "nat \<Rightarrow> CIU \<Rightarrow> CIU result" where
  "clearInterrupt offset s = for_cores (lower_core offset) [0..<length (cores s)] s"

section \<open>Consistency of the interrupt lines\<close>

text \<open>
  A core's lines are consistent when the three bits of its Cause register say whether a pending source is
  enabled. They depend on the core's Cause and on six words of the region.
\<close>

definition core_words :: "nat \<Rightarrow> nat set" where
  "core_words c = {INT_SUM0 (c * 2), INT_SUM0 (c * 2 + 1), INT_EN0 (c * 2), INT_EN0 (c * 2 + 1), INT_SUM4 c, INT_EN4_0 c}"

definition irq_ok :: "CIU \<Rightarrow> nat \<Rightarrow> bool" where
  "irq_ok s c \<longleftrightarrow>
     (let cause = cp0_read (cores s ! c) H2_CP0_CAUSE SEL_ZERO in
      bit cause 10 = pending s (INT_SUM0 (c * 2)) (INT_EN0 (c * 2))
      \<and> bit cause 11 = pending s (INT_SUM0 (c * 2 + 1)) (INT_EN0 (c * 2 + 1))
      \<and> bit cause 12 = pending s (INT_SUM4 c) (INT_EN4_0 c))"

definition irq_consistent :: "CIU \<Rightarrow> bool" where
  "irq_consistent s \<longleftrightarrow> length (cores s) \<le> 12 \<and> (\<forall>c < length (cores s). irq_ok s c)"

lemma word_at_put [simp]: "word_at (put k v s) = (word_at s)(k := v)" "cores (put k v s) = cores s"
  "NMI_flag (put k v s) = NMI_flag s"
  by (simp_all add: put_def)

lemma flag_simps [simp]:
  "cores (set_flag n k s) = cores s" "cores (clear_flag n k s) = cores s"
  "word_at (set_flag n k s) = (word_at s)(k := word_at s k OR push_bit n 1)"
  "word_at (clear_flag n k s) = (word_at s)(k := word_at s k AND NOT (push_bit n 1))"
  by (simp_all add: set_flag_def clear_flag_def)

lemma irq_ok_frame:
  assumes "\<And>k. k \<in> core_words c \<Longrightarrow> word_at s' k = word_at s k" "cores s' ! c = cores s ! c"
  shows "irq_ok s' c = irq_ok s c"
  using assms by (simp add: irq_ok_def pending_def core_words_def Let_def)

lemma updateInterrupt_cases:
  assumes "updateInterrupt core s = Inr s'"
  shows "core < length (cores s)" "core < 12" "word_at s' = word_at s" "length (cores s') = length (cores s)"
    "\<And>c. c \<noteq> core \<Longrightarrow> cores s' ! c = cores s ! c" "irq_ok s' core"
proof -
  have r: "\<not> (length (cores s) \<le> core \<or> 12 \<le> core)" using assms by (auto simp: updateInterrupt_def split: if_splits)
  then show l: "core < length (cores s)" "core < 12" by simp_all
  have s': "s' = projr (updateInterrupt core s)" using assms by simp
  show "word_at s' = word_at s" "length (cores s') = length (cores s)" "\<And>c. c \<noteq> core \<Longrightarrow> cores s' ! c = cores s ! c"
    using r by (simp_all add: s' updateInterrupt_def Let_def)
  show "irq_ok s' core"
    using r l(1) by (simp add: s' updateInterrupt_def Let_def irq_ok_def pending_def bit_simps)
qed

lemma updateInterrupt_consistent:
  assumes "\<forall>c < length (cores s). c \<noteq> core \<longrightarrow> irq_ok s c" "length (cores s) \<le> 12" "updateInterrupt core s = Inr s'"
  shows "irq_consistent s'"
proof -
  note u = updateInterrupt_cases [OF assms(3)]
  have "irq_ok s' c" if "c < length (cores s')" for c
    using assms(1) u irq_ok_frame [of c s' s] that by (cases "c = core") simp_all
  then show ?thesis using assms(2) u(4) by (simp add: irq_consistent_def)
qed

text \<open>A handler touches the words of the core it returns and no other core's.\<close>

definition own_core :: "CIU \<Rightarrow> nat \<times> CIU \<Rightarrow> bool" where
  "own_core s r \<longleftrightarrow> cores (snd r) = cores s \<and>
     (\<forall>c < 12. c \<noteq> fst r \<longrightarrow> (\<forall>k \<in> core_words c. word_at (snd r) k = word_at s k))"

lemma own_core_update:
  assumes "irq_consistent s" "own_core s r" "(case r of (core, s) \<Rightarrow> updateInterrupt core s) = Inr s'"
  shows "irq_consistent s'"
proof -
  obtain core s1 where r: "r = (core, s1)" by (cases r)
  have "irq_ok s1 c" if "c < length (cores s1)" "c \<noteq> core" for c
  proof -
    have c: "c < length (cores s)" "c < 12" "cores s1 = cores s" using that(1) assms(1,2) by (simp_all add: own_core_def r irq_consistent_def)
    then have "irq_ok s1 c = irq_ok s c"
      using assms(2) that(2) by (intro irq_ok_frame) (simp_all add: own_core_def r)
    then show ?thesis using assms(1) c(1) by (simp add: irq_consistent_def)
  qed
  then have "\<forall>c < length (cores s1). c \<noteq> core \<longrightarrow> irq_ok s1 c" by blast
  moreover have "length (cores s1) \<le> 12" using assms(1,2) by (simp add: own_core_def r irq_consistent_def)
  ultimately show ?thesis using updateInterrupt_consistent assms(3) by (simp add: r)
qed

definition owner :: "nat \<Rightarrow> nat" where
  "owner k = (if k < 64 then k div 2 else if k < 112 then (k - 64) div 4 else if k < 400 then k - 384 else k - 400)"

lemma core_words_owner:
  assumes "c < 12" "k \<in> core_words c"
  shows "owner k = c" "k < 112 \<or> 384 \<le> k \<and> k < 412"
proof -
  consider "k = c * 2" | "k = c * 2 + 1" | "k = 64 + c * 4" | "k = 66 + c * 4" | "k = 384 + c" | "k = 400 + c"
    using assms(2) by (auto simp: core_words_def register_defs)
  then have "owner k = c \<and> (k < 112 \<or> 384 \<le> k \<and> k < 412)"
    using assms(1) by cases (simp_all add: owner_def)
  then show "owner k = c" "k < 112 \<or> 384 \<le> k \<and> k < 412" by simp_all
qed

lemma own_coreI:
  assumes "cores s' = cores s" "m < 12"
    and "\<And>k. k \<notin> core_words m \<Longrightarrow> k < 112 \<or> 384 \<le> k \<and> k < 412 \<Longrightarrow> word_at s' k = word_at s k"
  shows "own_core s (m, s')"
proof -
  have "word_at s' k = word_at s k" if "c < 12" "c \<noteq> m" "k \<in> core_words c" for c k
    using assms(2,3) core_words_owner [OF that(1,3)] core_words_owner(1) [of m k] that(2) by metis
  then show ?thesis using assms(1) by (simp add: own_core_def)
qed

lemma core_of_word: "i < 48 \<Longrightarrow> i mod 2 = 0 \<Longrightarrow> INT_EN0 (i div 2) \<in> core_words (i div 4)"
proof -
  assume "i mod 2 = 0"
  then have "i div 2 = i div 4 * 2 \<or> i div 2 = i div 4 * 2 + 1" by presburger
  then show ?thesis by (auto simp: core_words_def)
qed

lemma own_words:
  "INT_SUM0 (c * 2) \<in> core_words c" "INT_SUM0 (c * 2 + 1) \<in> core_words c" "INT_SUM4 c \<in> core_words c" "INT_EN4_0 c \<in> core_words c"
  by (simp_all add: core_words_def)

lemma own_core_Enable0: "i < 48 \<Longrightarrow> own_core s (handleEnable0 (64 + i) d s)"
proof -
  assume i: "i < 48"
  have "own_core s (i div 4, if i mod 2 = 0 then put (INT_EN0 (i div 2)) d s else s)"
    using core_of_word [OF i] i by (intro own_coreI) auto
  then show ?thesis by (simp add: handleEnable0_def Let_def)
qed

lemma own_core_Enable0_W1C: "i < 48 \<Longrightarrow> own_core s (handleEnable0_W1C (1088 + i) d s)"
proof -
  assume i: "i < 48"
  have "own_core s (i div 4, if i mod 2 = 0
      then put (INT_EN0_W1C (i div 2)) 0 (put (INT_EN0 (i div 2)) (word_at s (INT_EN0 (i div 2)) AND NOT d) s) else s)"
    using core_of_word [OF i] i by (intro own_coreI) (auto simp: INT_EN0_W1C_def)
  then show ?thesis by (simp add: handleEnable0_W1C_def Let_def)
qed

lemma own_core_Enable0_W1S: "i < 48 \<Longrightarrow> own_core s (handleEnable0_W1S (3136 + i) d s)"
proof -
  assume i: "i < 48"
  have "own_core s (i div 4, if i mod 2 = 0
      then put (INT_EN0_W1S (i div 2)) 0 (put (INT_EN0 (i div 2)) (word_at s (INT_EN0 (i div 2)) OR d) s) else s)"
    using core_of_word [OF i] i by (intro own_coreI) (auto simp: INT_EN0_W1S_def)
  then show ?thesis by (simp add: handleEnable0_W1S_def Let_def)
qed

lemma own_core_Enable4: "i < 24 \<Longrightarrow> own_core s (handleEnable4 (400 + i) d s)"
proof -
  assume i: "i < 24"
  have "own_core s (i div 2, if i mod 2 = 0 then put (INT_EN4_0 (i div 2)) d s else s)"
    using own_words(4) [of "i div 2"] i by (intro own_coreI) auto
  then show ?thesis by (simp add: handleEnable4_def Let_def)
qed

lemma own_core_Enable4_W1S: "i < 24 \<Longrightarrow> own_core s (handleEnable4_W1S (3472 + i) d s)"
proof -
  assume i: "i < 24"
  have "own_core s (i div 2, if i mod 2 = 0
      then put (INT_EN4_0_W1S (i div 2)) 0 (put (INT_EN4_0 (i div 2)) (word_at s (INT_EN4_0 (i div 2)) OR d) s) else s)"
    using own_words(4) [of "i div 2"] i by (intro own_coreI) (auto simp: INT_EN4_0_W1S_def)
  then show ?thesis by (simp add: handleEnable4_W1S_def Let_def)
qed

lemma summary_flags:
  assumes "k \<notin> core_words c"
  shows "word_at (set_summary n c s) k = word_at s k" "word_at (clear_summary n c s) k = word_at s k"
  using assms own_words [of c] by (auto simp: set_summary_def clear_summary_def)

lemma summary_cores [simp]: "cores (set_summary n c s) = cores s" "cores (clear_summary n c s) = cores s"
  by (simp_all add: set_summary_def clear_summary_def)

lemma own_core_MboxSet: "c < 12 \<Longrightarrow> own_core s (handleMboxSet (192 + c) d s)"
proof -
  assume c: "c < 12"
  have "own_core s (fst (handleMboxSet (192 + c) d s), snd (handleMboxSet (192 + c) d s))"
    using c by (intro own_coreI) (auto simp: handleMboxSet_def Let_def summary_flags INT_MBOX_SET_def INT_MBOX_CLR_def split: if_splits)
  then show ?thesis by simp
qed

lemma own_core_MboxClr: "c < 12 \<Longrightarrow> own_core s (handleMboxClr (208 + c) d s)"
proof -
  assume c: "c < 12"
  have "own_core s (fst (handleMboxClr (208 + c) d s), snd (handleMboxClr (208 + c) d s))"
    using c by (intro own_coreI) (auto simp: handleMboxClr_def Let_def summary_flags INT_MBOX_SET_def INT_MBOX_CLR_def split: if_splits)
  then show ?thesis by simp
qed

lemma core_update_at:
  fixes n a b :: nat
  assumes "irq_consistent s" "a \<le> n" "n < a + b" "\<And>i. i < b \<Longrightarrow> own_core s (h (a + i) d s)"
    "(case h n d s of (core, s) \<Rightarrow> updateInterrupt core s) = Inr s'"
  shows "irq_consistent s'"
  using own_core_update [OF assms(1) _ assms(5)] assms(4) [of "n - a"] assms(2,3) by simp

lemma raise_lower_consistent:
  assumes "\<forall>c' < length (cores s). c' < c \<longrightarrow> irq_ok s c'" "f = raise_core n \<or> f = lower_core n" "f c s = Inr s'" "c < 12"
  shows "length (cores s') = length (cores s) \<and> (\<forall>c' < length (cores s'). c' < Suc c \<longrightarrow> irq_ok s' c')"
proof -
  obtain t where t: "updateInterrupt c t = Inr s'" "cores t = cores s" "\<And>k. k \<notin> core_words c \<Longrightarrow> word_at t k = word_at s k"
    using assms(2,3) summary_flags by (fastforce simp: raise_core_def lower_core_def)
  note u = updateInterrupt_cases [OF t(1)]
  have "irq_ok s' c'" if "c' < length (cores s')" "c' < c" for c'
  proof -
    have "word_at s' k = word_at s k" if "k \<in> core_words c'" for k
      using t(3) [of k] u(3) core_words_owner(1) [of c' k] core_words_owner(1) [of c k] that \<open>c' < c\<close> assms(4) by fastforce
    then have "irq_ok s' c' = irq_ok s c'"
      using u(5) t(2) that(2) by (intro irq_ok_frame) simp_all
    then show ?thesis using assms(1) that u(4) t(2) by simp
  qed
  then show ?thesis using u(4,6) t(2) by (auto simp: less_Suc_eq)
qed

lemma for_cores_consistent:
  assumes "f = raise_core n \<or> f = lower_core n" "m \<le> k" "k \<le> 12" "\<forall>c < length (cores s). c < m \<longrightarrow> irq_ok s c"
    "for_cores f [m..<k] s = Inr s'"
  shows "length (cores s') = length (cores s) \<and> (\<forall>c < length (cores s'). c < k \<longrightarrow> irq_ok s' c)"
  using assms(2,4,5)
proof (induction "k - m" arbitrary: m s)
  case 0
  then show ?case by simp
next
  case (Suc x)
  then have l: "m < k" "[m..<k] = m # [Suc m..<k]" by (simp_all add: upt_conv_Cons)
  obtain t where t: "f m s = Inr t" "for_cores f [Suc m..<k] t = Inr s'"
    using Suc.prems(3) l(2) by (auto simp: bind_result_Inr_iff)
  have "length (cores t) = length (cores s) \<and> (\<forall>c < length (cores t). c < Suc m \<longrightarrow> irq_ok t c)"
    using raise_lower_consistent [OF Suc.prems(2) assms(1) t(1)] l(1) assms(3) by simp
  then show ?case using Suc.hyps(1) [of "Suc m" t] Suc.hyps(2) t(2) l(1) by simp
qed

lemma device_irq_consistent:
  assumes "irq_consistent s" "generateInterrupt n s = Inr s' \<or> clearInterrupt n s = Inr s'"
  shows "irq_consistent s'"
proof -
  obtain f where f: "f = raise_core n \<or> f = lower_core n" "for_cores f [0..<length (cores s)] s = Inr s'"
    using assms(2) by (auto simp: generateInterrupt_def clearInterrupt_def)
  then show ?thesis
    using for_cores_consistent [OF f(1), of 0 "length (cores s)" s s'] assms(1) by (simp add: irq_consistent_def)
qed

text \<open>\<open>leads_to P r\<close>: if the operation returns a state, the state satisfies \<open>P\<close>.\<close>

definition leads_to :: "('s \<Rightarrow> bool) \<Rightarrow> 's result \<Rightarrow> bool" where
  "leads_to P r \<longleftrightarrow> (\<forall>s. r = Inr s \<longrightarrow> P s)"

lemma leads_to_if: "(c \<Longrightarrow> leads_to P x) \<Longrightarrow> leads_to P y \<Longrightarrow> leads_to P (if c then x else y)"
  by simp

lemma leads_to_Inr: "P s \<Longrightarrow> leads_to P (Inr s)"
  by (simp add: leads_to_def)

lemma leads_to_update:
  fixes n a b :: nat
  assumes "irq_consistent s" "\<And>i. i < b \<Longrightarrow> own_core s (h (a + i) d s)" "n \<le> c \<and> a \<le> n" "c < a + b"
  shows "leads_to irq_consistent (case h n d s of (core, s) \<Rightarrow> updateInterrupt core s)"
  using core_update_at [OF assms(1), of a n b h d] assms(2-4) by (simp add: leads_to_def)

lemma leads_to_W1C:
  assumes "irq_consistent s"
  shows "leads_to irq_consistent
    (case handleEnable4_W1C n d s of (None, s) \<Rightarrow> Inl NoReturn | (Some core, s) \<Rightarrow> updateInterrupt core s)"
  using updateInterrupt_consistent [of s] assms
  by (auto simp: leads_to_def handleEnable4_W1C_def Let_def irq_consistent_def)

lemma NMI_consistent:
  assumes "irq_consistent s"
  shows "irq_consistent (sendNMI d s)"
proof -
  have "irq_ok (sendNMI d s) c = irq_ok s c" if "c < 12" for c
  proof -
    have "227 \<notin> core_words c" using core_words_owner(2) [OF that, of 227] by auto
    then show ?thesis by (intro irq_ok_frame) (auto simp: sendNMI_def)
  qed
  then show ?thesis using assms by (auto simp: irq_consistent_def sendNMI_def)
qed

lemma updateFlags_consistent:
  assumes "irq_consistent s"
  shows "leads_to irq_consistent (updateFlags addr data s)"
proof -
  note upd = leads_to_update [OF assms]
  have t: "irq_consistent (s\<lparr>terminated := True\<rparr>)"
    using assms by (simp add: irq_consistent_def irq_ok_def pending_def)
  show ?thesis
    unfolding updateFlags_def Let_def prod.case
    by (intro leads_to_if leads_to_Inr assms t NMI_consistent leads_to_W1C
        upd [where h = handleEnable0 and a = 64 and b = 48, OF own_core_Enable0]
        upd [where h = handleMboxSet and a = 192 and b = 12, OF own_core_MboxSet]
        upd [where h = handleMboxClr and a = 208 and b = 12, OF own_core_MboxClr]
        upd [where h = handleEnable4 and a = 400 and b = 24, OF own_core_Enable4]
        upd [where h = handleEnable0_W1C and a = 1088 and b = 48, OF own_core_Enable0_W1C]
        upd [where h = handleEnable0_W1S and a = 3136 and b = 48, OF own_core_Enable0_W1S]
        upd [where h = handleEnable4_W1S and a = 3472 and b = 24, OF own_core_Enable4_W1S]; (assumption | simp)) simp_all
qed

lemma service_consistent: "irq_consistent s \<Longrightarrow> leads_to irq_consistent (service ms s)"
proof (induction ms s rule: service.induct)
  case (2 addr data ms s)
  then show ?case using updateFlags_consistent [OF "2.prems", of addr data]
    by (auto simp: leads_to_def bind_result_Inr_iff split: if_splits)
qed (simp add: leads_to_def)

lemma setMappings_consistent: "irq_consistent s \<Longrightarrow> irq_consistent (setMappings s)"
proof -
  assume c: "irq_consistent s"
  have "irq_ok (setMappings s) c = irq_ok s c" if "c < 12" for c
  proof (intro irq_ok_frame)
    fix k assume "k \<in> core_words c"
    then show "word_at (setMappings s) k = word_at s k" using core_words_owner(2) [OF that, of k] by (auto simp: setMappings_def)
  qed (simp add: setMappings_def)
  then show ?thesis using c by (auto simp: irq_consistent_def setMappings_def)
qed

text \<open>
  A run of the unit under the cores' own stores. A core's access to a register is a message to the unit and a
  doubleword store into the register's word; the core goes on after the message has been posted, so the unit may
  handle it before or after the store. Devices raise and lower lines at any time. The next access starts when both
  parts of the last one are done; on one core this is the order of the program.

  The registers a run stores to exclude two groups. The summary words belong to the unit, and a store there changes what is
  pending without an update of the cores. The words 401 to 411 hold the enable words of cores 1 to 11 and are addressed as
  enable registers of other cores (\<open>enable4_alias\<close>).
\<close>

record access =
  acc_addr :: u64
  acc_data :: u64
  stored :: bool
  serviced :: bool

definition register_word :: "u64 \<Rightarrow> nat" where
  "register_word addr = unat (addr AND CIU_OFFSET_MASK) div 8"

definition plain_register :: "nat \<Rightarrow> bool" where
  "plain_register k \<longleftrightarrow> 24 \<le> k \<and> \<not> (384 \<le> k \<and> k < 396) \<and> \<not> (401 \<le> k \<and> k < 412)"

inductive unit_step :: "CIU \<times> access option \<Rightarrow> CIU \<times> access option \<Rightarrow> bool" where
  access: "plain_register (register_word addr) \<Longrightarrow>
     unit_step (s, None) (s, Some \<lparr>acc_addr = addr, acc_data = data, stored = False, serviced = False\<rparr>)"
| core_store: "\<not> stored a \<Longrightarrow>
     unit_step (s, Some a) (guest_store (register_word (acc_addr a)) (acc_data a) s, Some (a\<lparr>stored := True\<rparr>))"
| unit_service: "\<not> serviced a \<Longrightarrow> updateFlags (acc_addr a) (acc_data a) s = Inr t \<Longrightarrow>
     unit_step (s, Some a) (t, Some (a\<lparr>serviced := True\<rparr>))"
| complete: "stored a \<Longrightarrow> serviced a \<Longrightarrow> unit_step (s, Some a) (s, None)"
| raise_line: "generateInterrupt line s = Inr t \<Longrightarrow> unit_step (s, r) (t, r)"
| lower_line: "clearInterrupt line s = Inr t \<Longrightarrow> unit_step (s, r) (t, r)"

inductive unit_reachable :: "CIU \<Rightarrow> CIU \<times> access option \<Rightarrow> bool" for s0 where
  unit_start: "unit_reachable s0 (setMappings s0, None)"
| unit_run: "unit_reachable s0 x \<Longrightarrow> unit_step x y \<Longrightarrow> unit_reachable s0 y"

text \<open>The cores whose lines may lag: the owner of an enable word that is stored and not yet reported.\<close>

definition lagging :: "access option \<Rightarrow> nat \<Rightarrow> bool" where
  "lagging r c \<longleftrightarrow> (\<exists>a. r = Some a \<and> stored a \<and> \<not> serviced a \<and> register_word (acc_addr a) \<in> core_words c)"

definition holds_data :: "CIU \<Rightarrow> access option \<Rightarrow> bool" where
  "holds_data s r \<longleftrightarrow> (\<forall>a. r = Some a \<longrightarrow> plain_register (register_word (acc_addr a)) \<and>
     (stored a \<or> serviced a \<longrightarrow> (\<forall>c < 12. register_word (acc_addr a) \<in> core_words c \<longrightarrow>
        word_at s (register_word (acc_addr a)) = acc_data a)))"

definition unit_ok :: "CIU \<times> access option \<Rightarrow> bool" where
  "unit_ok x \<longleftrightarrow> (case x of (s, r) \<Rightarrow> length (cores s) \<le> 12 \<and> holds_data s r
     \<and> (\<forall>c < length (cores s). irq_ok s c \<or> lagging r c))"

lemma plain_core_word:
  assumes "plain_register k" "c < 12" "k \<in> core_words c"
  shows "(\<exists>i < 48. i mod 2 = 0 \<and> k = 64 + i \<and> c = i div 4) \<or> k = 400 \<and> c = 0"
proof -
  consider "k = c * 2 \<or> k = c * 2 + 1 \<or> k = 384 + c" | "k = 64 + 4 * c" | "k = 66 + 4 * c" | "k = 400 + c"
    using assms(3) by (auto simp: core_words_def register_defs)
  then show ?thesis
  proof cases
    case 2
    then show ?thesis using assms(2) by (intro disjI1 exI [of _ "4 * c"]) auto
  next
    case 3
    then show ?thesis using assms(2) by (intro disjI1 exI [of _ "4 * c + 2"]) auto
  qed (use assms(1,2) in \<open>auto simp: plain_register_def\<close>)
qed

text \<open>Reporting such a word stores it once more and updates its core.\<close>

lemma updateFlags_enable:
  assumes "plain_register (register_word addr)" "c < 12" "register_word addr \<in> core_words c"
  shows "updateFlags addr data s = updateInterrupt c (put (register_word addr) data s)"
  using plain_core_word [OF assms]
proof (elim disjE exE conjE)
  fix i assume i: "i < 48" "i mod 2 = 0" "register_word addr = 64 + i" "c = i div 4"
  have "INT_EN0 (i div 2) = 64 + i" using i(2) by (simp add: INT_EN0_def) presburger
  with i show ?thesis by (simp add: updateFlags_def register_word_def handleEnable0_def Let_def)
next
  assume "register_word addr = 400" "c = 0"
  then show ?thesis by (simp add: updateFlags_def register_word_def handleEnable4_def INT_EN4_0_def Let_def)
qed

lemma put_same: "word_at s k = v \<Longrightarrow> put k v s = s"
  by (simp add: put_def fun_upd_idem)

text \<open>The lines of the devices touch summary words only.\<close>

lemma for_cores_words:
  assumes "f = raise_core n \<or> f = lower_core n" "\<forall>c \<in> set cs. c < 12" "for_cores f cs s = Inr s'"
    and "24 \<le> k" "\<not> (384 \<le> k \<and> k < 396)"
  shows "word_at s' k = word_at s k \<and> length (cores s') = length (cores s)"
  using assms(2,3)
proof (induction cs arbitrary: s)
  case (Cons c cs)
  obtain t where t: "f c s = Inr t" "for_cores f cs t = Inr s'" using Cons.prems(2) by (auto simp: bind_result_Inr_iff)
  obtain u where u: "updateInterrupt c u = Inr t" "u = set_summary n c s \<or> u = clear_summary n c s"
    using t(1) assms(1) by (auto simp: raise_core_def lower_core_def)
  have c: "c < 12" using Cons.prems(1) by simp
  have "word_at u k = word_at s k" "cores u = cores s"
    using u(2) c assms(4,5) by (auto simp: set_summary_def clear_summary_def register_defs)
  then have "word_at t k = word_at s k" "length (cores t) = length (cores s)"
    using updateInterrupt_cases(3,4) [OF u(1)] by simp_all
  then show ?case using Cons.IH [OF _ t(2)] Cons.prems(1) by simp
qed simp

lemma line_unit_ok:
  assumes "unit_ok (s, r)" "generateInterrupt n s = Inr t \<or> clearInterrupt n s = Inr t"
  shows "unit_ok (t, r)"
proof -
  obtain f where f: "f = raise_core n \<or> f = lower_core n" "for_cores f [0..<length (cores s)] s = Inr t"
    using assms(2) by (auto simp: generateInterrupt_def clearInterrupt_def)
  have l: "length (cores s) \<le> 12" using assms(1) by (simp add: unit_ok_def)
  note w = for_cores_words [OF f(1) _ f(2)]
  have "length (cores t) = length (cores s) \<and> (\<forall>c < length (cores t). c < length (cores s) \<longrightarrow> irq_ok t c)"
    using for_cores_consistent [OF f(1) le0 l _ f(2)] by simp
  moreover have "holds_data t r"
    using assms(1) w l by (auto simp: unit_ok_def holds_data_def plain_register_def)
  ultimately show ?thesis using l by (simp add: unit_ok_def)
qed

lemma store_unit_ok:
  assumes "unit_ok (s, Some a)" "\<not> stored a"
  shows "unit_ok (guest_store (register_word (acc_addr a)) (acc_data a) s, Some (a\<lparr>stored := True\<rparr>))"
proof -
  let ?k = "register_word (acc_addr a)" and ?t = "guest_store (register_word (acc_addr a)) (acc_data a) s"
  have ok: "irq_ok s c" if "c < length (cores s)" for c
    using assms that by (auto simp: unit_ok_def lagging_def)
  have l: "length (cores s) \<le> 12" "holds_data s (Some a)" using assms(1) by (simp_all add: unit_ok_def)
  have "irq_ok ?t c \<or> lagging (Some (a\<lparr>stored := True\<rparr>)) c" if c: "c < length (cores s)" for c
  proof (cases "?k \<in> core_words c \<and> \<not> serviced a")
    case True
    then show ?thesis by (simp add: lagging_def)
  next
    case False
    moreover have "?k \<in> core_words c \<Longrightarrow> serviced a \<Longrightarrow> word_at s ?k = acc_data a"
      using l order_less_le_trans [OF c l(1)] by (simp add: holds_data_def)
    ultimately have "word_at ?t k = word_at s k" if "k \<in> core_words c" for k
      using that by (auto simp: guest_store_def)
    then have "irq_ok ?t c = irq_ok s c" by (intro irq_ok_frame) (simp_all add: guest_store_def)
    then show ?thesis using ok [OF c] by simp
  qed
  then show ?thesis using l by (simp add: unit_ok_def holds_data_def guest_store_def)
qed

lemma service_unit_ok:
  assumes "unit_ok (s, Some a)" "\<not> serviced a" "updateFlags (acc_addr a) (acc_data a) s = Inr t"
  shows "unit_ok (t, Some (a\<lparr>serviced := True\<rparr>))"
proof (cases "\<exists>c < 12. register_word (acc_addr a) \<in> core_words c")
  case True
  then obtain c where c: "c < 12" "register_word (acc_addr a) \<in> core_words c" by blast
  let ?k = "register_word (acc_addr a)" and ?p = "put (register_word (acc_addr a)) (acc_data a) s"
  have l: "length (cores s) \<le> 12" "plain_register ?k" using assms(1) by (simp_all add: unit_ok_def holds_data_def)
  have u: "updateInterrupt c ?p = Inr t" using updateFlags_enable [OF l(2) c] assms(3) by simp
  have "irq_ok ?p d" if "d < length (cores s)" "d \<noteq> c" for d
  proof -
    have d: "?k \<notin> core_words d"
      using core_words_owner(1) [of d ?k] core_words_owner(1) [of c ?k] c that l(1) by auto
    then have "irq_ok ?p d = irq_ok s d" by (intro irq_ok_frame) auto
    then show ?thesis using assms(1) d that(1) by (auto simp: unit_ok_def lagging_def)
  qed
  then have "irq_consistent t" using l(1) by (intro updateInterrupt_consistent [OF _ _ u]) simp_all
  moreover have "word_at t ?k = acc_data a" using updateInterrupt_cases(3) [OF u] by simp
  ultimately show ?thesis using l(2) by (simp add: unit_ok_def irq_consistent_def holds_data_def)
next
  case False
  then have "irq_consistent s" using assms(1) by (auto simp: unit_ok_def irq_consistent_def lagging_def)
  then have "irq_consistent t" using updateFlags_consistent assms(3) by (simp add: leads_to_def)
  then show ?thesis using False assms(1) by (auto simp: unit_ok_def irq_consistent_def holds_data_def)
qed

lemma unit_reachable_ok:
  assumes "irq_consistent s0" "unit_reachable s0 x"
  shows "unit_ok x"
  using assms(2)
proof (induction rule: unit_reachable.induct)
  case unit_start
  then show ?case
    using setMappings_consistent [OF assms(1)] by (simp add: unit_ok_def irq_consistent_def holds_data_def)
next
  case (unit_run x y)
  from unit_run.hyps(2) unit_run.IH show ?case
  proof (induction rule: unit_step.induct)
    case (access addr s data)
    then show ?case by (simp add: unit_ok_def holds_data_def lagging_def)
  next
    case (complete a s)
    then show ?case by (auto simp: unit_ok_def holds_data_def lagging_def)
  next
    case (raise_line line s t r)
    then show ?case using line_unit_ok by blast
  next
    case (lower_line line s t r)
    then show ?case using line_unit_ok by blast
  qed (simp_all add: store_unit_ok service_unit_ok)
qed

text \<open>
  Property C8. Take a machine of at most twelve cores whose lines agree with the unit, and any run of the unit after its start: the
  messages of the cores, their doubleword stores into the registers, before or after the message is handled, and lines that
  devices raise and lower in between; one access at a time, and no stores to the summary words or to words 401 to 411. In every
  state of the run the interrupt bits of every core's Cause register agree with its summary and enable words, except while a
  core's own enable word has been stored and the unit has not handled the message yet; when no access is under way there
  is no exception.
\<close>

theorem interrupt_lines_consistent:
  assumes "irq_consistent s0" and "unit_reachable s0 (s, r)"
  shows "(\<forall>c < length (cores s). irq_ok s c \<or> lagging r c) \<and> (r = None \<longrightarrow> irq_consistent s)"
  using unit_reachable_ok [OF assms] by (auto simp: unit_ok_def irq_consistent_def lagging_def)

text \<open>
  Why the summary words are left out: a core that clears its summary word takes the source away from the unit, which
  does nothing, and the Cause bit stays.
\<close>

lemma summary_store_breaks:
  assumes "irq_consistent s" "0 < length (cores s)" "pending s (INT_SUM0 0) (INT_EN0 0)"
  shows "updateFlags 0 0 (guest_store (INT_SUM0 0) 0 s) = Inr (guest_store (INT_SUM0 0) 0 s)
    \<and> \<not> irq_consistent (guest_store (INT_SUM0 0) 0 s)"
  using assms by (auto simp: updateFlags_def Let_def irq_consistent_def irq_ok_def guest_store_def pending_def register_defs
      intro!: exI [of _ 0])

text \<open>Two cores at reset, the machine the witnesses run.\<close>

definition reset_CIU :: CIU where
  "reset_CIU = setMappings \<lparr>word_at = (\<lambda>k. 0), cores = [initCP0 \<lparr>reg = (\<lambda>k. 0)\<rparr>, initCP0 \<lparr>reg = (\<lambda>k. 0)\<rparr>],
     NMI_flag = [False, False], terminated = False\<rparr>"

lemma reset_Cause: "cp0_read (initCP0 \<lparr>reg = (\<lambda>k. 0)\<rparr>) H2_CP0_CAUSE SEL_ZERO = 0"
  by code_simp

lemma reset_CIU_simps:
  "length (cores reset_CIU) = 2" "c < 2 \<Longrightarrow> cp0_read (cores reset_CIU ! c) H2_CP0_CAUSE SEL_ZERO = 0"
  "k < 224 \<or> 229 < k \<Longrightarrow> word_at reset_CIU k = 0"
  using reset_Cause by (auto simp: reset_CIU_def setMappings_def less_Suc_eq numeral_2_eq_2)

lemma reset_consistent: "irq_consistent reset_CIU"
  by (simp add: irq_consistent_def irq_ok_def reset_CIU_simps pending_def register_defs)

lemma updateInterrupt_runs:
  "core < length (cores s) \<Longrightarrow> core < 12 \<Longrightarrow> \<exists>s'. updateInterrupt core s = Inr s' \<and> word_at s' = word_at s \<and> length (cores s') = length (cores s)"
  by (auto simp: updateInterrupt_def Let_def)

section \<open>Delivery\<close>

lemma EN0_not_summary: "c < 24 \<Longrightarrow> k < 12 \<Longrightarrow> INT_EN0 c \<noteq> INT_SUM0 (k * 2) \<and> INT_EN0 c \<noteq> INT_SUM0 (Suc (k * 2)) \<and> INT_EN0 c \<noteq> INT_SUM4 k"
  by (simp add: register_defs)

lemma bit_set_flag: "n < 64 \<Longrightarrow> bit (word_at (set_flag n j s) k) m = (bit (word_at s k) m \<or> j = k \<and> m = n)"
  by (auto simp: bit_simps)

text \<open>What raising and lowering a line does to the summary words, and that neither fails on twelve cores.\<close>

definition summary_words :: "nat \<Rightarrow> nat set" where
  "summary_words c = {INT_SUM0 (c * 2), INT_SUM0 (c * 2 + 1), INT_SUM4 c}"

definition drive_core :: "bool \<Rightarrow> nat \<Rightarrow> nat \<Rightarrow> CIU \<Rightarrow> CIU result" where
  "drive_core up = (if up then raise_core else lower_core)"

lemma summary_words_apart: "c < 12 \<Longrightarrow> c' < 12 \<Longrightarrow> c \<noteq> c' \<Longrightarrow> j \<in> summary_words c \<Longrightarrow> j \<notin> summary_words c'"
  by (auto simp: summary_words_def register_defs)

lemma drive_core_step:
  assumes "c < length (cores s)" "c < 12" "n < 64"
  shows "\<exists>t. drive_core up n c s = Inr t \<and> length (cores t) = length (cores s)
    \<and> (\<forall>j. j \<notin> summary_words c \<longrightarrow> word_at t j = word_at s j) \<and> (\<forall>j \<in> summary_words c. bit (word_at t j) n = up)"
proof -
  let ?s = "(if up then set_summary else clear_summary) n c s"
  have n: "cores ?s = cores s" by (cases up) simp_all
  obtain t where t: "updateInterrupt c ?s = Inr t" "word_at t = word_at ?s" "length (cores t) = length (cores ?s)"
    using updateInterrupt_runs [of c ?s] assms(1,2) unfolding n by blast
  have "word_at ?s j = word_at s j" if "j \<notin> summary_words c" for j
    using that by (auto simp: summary_words_def set_summary_def clear_summary_def)
  moreover have "bit (word_at ?s j) n = up" if "j \<in> summary_words c" for j
    using that assms(3) by (auto simp: summary_words_def set_summary_def clear_summary_def register_defs bit_simps)
  moreover have "drive_core up n c s = Inr t" using t(1) by (cases up) (simp_all add: drive_core_def raise_core_def lower_core_def)
  ultimately show ?thesis using t(2,3) n by auto
qed

lemma for_cores_drive:
  assumes "k \<le> 12" "n < 64" "k \<le> length (cores s)" "m \<le> k"
  shows "\<exists>s'. for_cores (drive_core up n) [m..<k] s = Inr s' \<and> length (cores s') = length (cores s)
     \<and> (\<forall>j. (\<forall>c. m \<le> c \<and> c < k \<longrightarrow> j \<notin> summary_words c) \<longrightarrow> word_at s' j = word_at s j)
     \<and> (\<forall>c. m \<le> c \<and> c < k \<longrightarrow> (\<forall>j \<in> summary_words c. bit (word_at s' j) n = up))"
  using assms(3,4)
proof (induction "k - m" arbitrary: m s)
  case 0
  then have "k = m" by simp
  then show ?case by auto
next
  case (Suc x)
  then have l: "m < k" "[m..<k] = m # [Suc m..<k]" "x = k - Suc m" by (simp_all add: upt_conv_Cons)
  have m: "m < length (cores s)" "m < 12" using l(1) assms(1) Suc.prems(1) by simp_all
  obtain t where t: "drive_core up n m s = Inr t" "length (cores t) = length (cores s)"
    "\<forall>j. j \<notin> summary_words m \<longrightarrow> word_at t j = word_at s j" "\<forall>j \<in> summary_words m. bit (word_at t j) n = up"
    using drive_core_step [OF m assms(2), of up] by blast
  obtain s' where s': "for_cores (drive_core up n) [Suc m..<k] t = Inr s'" "length (cores s') = length (cores t)"
      "\<forall>j. (\<forall>c. Suc m \<le> c \<and> c < k \<longrightarrow> j \<notin> summary_words c) \<longrightarrow> word_at s' j = word_at t j"
      "\<forall>c. Suc m \<le> c \<and> c < k \<longrightarrow> (\<forall>j \<in> summary_words c. bit (word_at s' j) n = up)"
    using Suc.hyps(1) [OF l(3), of t] l(1) t(2) Suc.prems(1) by auto
  have "bit (word_at s' j) n = up" if c: "m \<le> c" "c < k" "j \<in> summary_words c" for c j
  proof (cases "c = m")
    case True
    have "j \<notin> summary_words c'" if "Suc m \<le> c' \<and> c' < k" for c'
      using summary_words_apart [of c c' j] c that assms(1) True by simp
    then show ?thesis using s'(3) t(4) c(3) True by simp
  next
    case False
    then have "Suc m \<le> c \<and> c < k" using c by simp
    then show ?thesis using s'(4) c(3) by blast
  qed
  moreover have "word_at s' j = word_at s j" if "\<forall>c. m \<le> c \<and> c < k \<longrightarrow> j \<notin> summary_words c" for j
    using s'(3) t(3) that l(1) by simp
  ultimately show ?case using s'(1,2) t(1,2) l(2) by auto
qed

lemma line_driven:
  assumes "irq_consistent s" "n < 64"
  shows "\<exists>s'. (if up then generateInterrupt n s else clearInterrupt n s) = Inr s' \<and> irq_consistent s'
     \<and> length (cores s') = length (cores s) \<and> (\<forall>c < 24. word_at s' (INT_EN0 c) = word_at s (INT_EN0 c))
     \<and> (\<forall>c < length (cores s). \<forall>j \<in> summary_words c. bit (word_at s' j) n = up)"
proof -
  have l: "length (cores s) \<le> 12" using assms(1) by (simp add: irq_consistent_def)
  obtain s' where s': "for_cores (drive_core up n) [0..<length (cores s)] s = Inr s'" "length (cores s') = length (cores s)"
      "\<forall>j. (\<forall>c. 0 \<le> c \<and> c < length (cores s) \<longrightarrow> j \<notin> summary_words c) \<longrightarrow> word_at s' j = word_at s j"
      "\<forall>c. 0 \<le> c \<and> c < length (cores s) \<longrightarrow> (\<forall>j \<in> summary_words c. bit (word_at s' j) n = up)"
    using for_cores_drive [OF l assms(2) order_refl le0, of up] by blast
  then have d: "(if up then generateInterrupt n s else clearInterrupt n s) = Inr s'"
    by (cases up) (simp_all add: generateInterrupt_def clearInterrupt_def drive_core_def)
  moreover have "irq_consistent s'" using device_irq_consistent [OF assms(1), of n s'] d by (simp split: if_splits)
  moreover have "word_at s' (INT_EN0 c) = word_at s (INT_EN0 c)" if "c < 24" for c
    using s'(3) l that EN0_not_summary by (auto simp: summary_words_def)
  ultimately show ?thesis using s'(2,4) by auto
qed

lemma line_pending:
  assumes "irq_consistent s" "c < length (cores s)" "bit (word_at s (INT_SUM0 (c * 2))) n" "bit (word_at s (INT_EN0 (c * 2))) n"
  shows "bit (cp0_read (cores s ! c) H2_CP0_CAUSE SEL_ZERO) 10"
proof -
  have "bit (word_at s (INT_SUM0 (c * 2)) AND word_at s (INT_EN0 (c * 2))) n" using assms(3,4) by (simp add: bit_simps)
  then have "pending s (INT_SUM0 (c * 2)) (INT_EN0 (c * 2))" by (auto simp: pending_def)
  then show ?thesis using assms(1,2) by (simp add: irq_consistent_def irq_ok_def Let_def)
qed

text \<open>
  Raising a device line never fails on a machine of at most twelve cores, and afterwards every core
  that enables the line has interrupt 2 pending in its Cause register.
\<close>

lemma device_interrupt_delivered:
  assumes "irq_consistent s" "line < 64"
  shows "\<exists>s'. generateInterrupt line s = Inr s'
     \<and> (\<forall>c < length (cores s). bit (word_at s (INT_EN0 (c * 2))) line \<longrightarrow> bit (cp0_read (cores s' ! c) H2_CP0_CAUSE SEL_ZERO) 10)"
proof -
  have l: "length (cores s) \<le> 12" using assms(1) by (simp add: irq_consistent_def)
  obtain s' where s': "generateInterrupt line s = Inr s'" "irq_consistent s'" "length (cores s') = length (cores s)"
      "\<forall>c < 24. word_at s' (INT_EN0 c) = word_at s (INT_EN0 c)"
      "\<forall>c < length (cores s). bit (word_at s' (INT_SUM0 (c * 2))) line"
    using line_driven [OF assms, of True] by (auto simp: summary_words_def)
  have "bit (cp0_read (cores s' ! c) H2_CP0_CAUSE SEL_ZERO) 10"
    if that: "c < length (cores s)" "bit (word_at s (INT_EN0 (c * 2))) line" for c
    using line_pending [OF s'(2), of c line] s'(3,4,5) that l by simp
  then show ?thesis using s'(1) by blast
qed

theorem interrupt_lines_consistent_witness:
  "\<exists>t. unit_reachable reset_CIU (t, None) \<and> word_at t 64 = 0x800000000 \<and> irq_consistent t"
proof -
  let ?a = "\<lparr>acc_addr = 0x200, acc_data = 0x800000000, stored = False, serviced = False\<rparr>"
  let ?s = "put 64 0x800000000 reset_CIU"
  have k: "register_word 0x200 = 64" by (simp add: register_word_def)
  have m: "setMappings reset_CIU = reset_CIU" by (simp add: reset_CIU_def setMappings_def put_def fun_eq_iff)
  obtain t where t: "updateInterrupt 0 ?s = Inr t" "word_at t = word_at ?s"
    using updateInterrupt_runs [of 0 ?s] by (auto simp: reset_CIU_simps)
  have f: "updateFlags 0x200 0x800000000 ?s = Inr t"
    using t(1) by (simp add: updateFlags_def handleEnable0_def register_defs Let_def put_def)
  note run = unit_reachable.unit_run
  have "unit_reachable reset_CIU (reset_CIU, None)" using unit_reachable.unit_start [of reset_CIU] by (simp add: m)
  from run [OF this unit_step.access [where addr = "0x200" and data = "0x800000000"]]
  have "unit_reachable reset_CIU (reset_CIU, Some ?a)" by (simp add: k plain_register_def)
  from run [OF this unit_step.core_store]
  have "unit_reachable reset_CIU (?s, Some (?a\<lparr>stored := True\<rparr>))" by (simp add: k guest_store_def)
  from run [OF this unit_step.unit_service [where t = t]] f
  have "unit_reachable reset_CIU (t, Some (?a\<lparr>stored := True, serviced := True\<rparr>))" by simp
  from run [OF this unit_step.complete] have r: "unit_reachable reset_CIU (t, None)" by simp
  then have "irq_consistent t" using interrupt_lines_consistent [OF reset_consistent r] by simp
  then show ?thesis using r t(2) by auto
qed

lemma NMI_loop_length [simp]: "length (NMI_loop x i flags) = length flags"
  by (induction x i flags rule: NMI_loop.induct) (subst NMI_loop.simps, simp)

lemma NMI_loop_nth:
  "j < length flags \<Longrightarrow> NMI_loop x i flags ! j = (flags ! j \<or> i \<le> j \<and> bit x (j - i))"
proof (induction x i flags rule: NMI_loop.induct)
  case (1 x i flags)
  have b: "bit (drop_bit 1 x) (j - Suc i) = bit x (j - i)" if "i < j" using that by (simp add: bit_simps Suc_diff_Suc)
  have one: "x AND 1 \<noteq> 0 \<longleftrightarrow> bit x 0" by (simp add: and_one_eq bit_0 odd_iff_mod_2_eq_one)
  show ?case
    using 1 b one by (subst NMI_loop.simps) (auto simp: nth_list_update le_less Suc_le_eq)
qed

text \<open>
  Property C32. A value written to the NMI register ends the loop over its bits after it has raised the flag of
  exactly the cores whose bit is set, of the twelve the register names and of those that exist.
\<close>

theorem NMI_reaches_cores:
  "NMI_flag (sendNMI data s) = map (\<lambda>j. NMI_flag s ! j \<or> j < 12 \<and> bit data j) [0..<length (NMI_flag s)]"
proof (rule nth_equalityI)
  show "NMI_flag (sendNMI data s) ! j = map (\<lambda>j. NMI_flag s ! j \<or> j < 12 \<and> bit data j) [0..<length (NMI_flag s)] ! j"
    if "j < length (NMI_flag (sendNMI data s))" for j
  proof -
    have m: "NMI_MASK_NEW = mask 12" by (simp add: mask_numeral)
    have "bit (data AND NMI_MASK_NEW) j \<longleftrightarrow> bit data j \<and> j < 12"
      unfolding m by (simp only: bit_and_iff bit_mask_iff) (auto dest: bit_imp_le_length)
    then show ?thesis using that by (auto simp: sendNMI_def NMI_loop_nth)
  qed
qed (simp add: sendNMI_def)

text \<open>
  The enable words of interrupt 4 are laid out one word apart, and the handler reads the offset as if
  they were two apart: the store of core \<open>c\<close> to its enable register also enables the sources of core \<open>2 * c\<close>.
\<close>

lemma enable4_alias:
  assumes "0 < c" "c < 6" "2 * c < length (cores s)"
  shows "\<exists>t. updateFlags (of_nat (8 * (400 + 2 * c))) data (guest_store (400 + 2 * c) data s) = Inr t
     \<and> word_at t (INT_EN4_0 c) = data \<and> word_at t (INT_EN4_0 (2 * c)) = data"
proof -
  consider "c = 1" | "c = 2" | "c = 3" | "c = 4" | "c = 5" using assms(1,2) by linarith
  then show ?thesis
    by cases (use assms(3) updateInterrupt_runs [of c "put (INT_EN4_0 c) data (guest_store (400 + 2 * c) data s)"] in
      \<open>auto simp: updateFlags_def handleEnable4_def register_defs guest_store_def Let_def\<close>)
qed

text \<open>
  A mailbox written with both halves set raises the first of its two summary flags only: the second
  keeps its value, so a core that waits for it is not told.
\<close>

lemma mailbox_second_half_lost:
  assumes "c < 12" "LowerHalf data \<noteq> 0"
  shows "\<exists>t. handleMboxSet (CIU_MBOX_SET0_OFFSET_NEW + c) data s = (c, t) \<and> word_at t (INT_MBOX_SET c) = data
     \<and> bit (word_at t (INT_SUM0 (c * 2))) CIU_SUM_MBOX0
     \<and> bit (word_at t (INT_SUM0 (c * 2))) CIU_SUM_MBOX1 = bit (word_at s (INT_SUM0 (c * 2))) CIU_SUM_MBOX1"
  using assms by (auto simp: handleMboxSet_def Let_def set_summary_def register_defs bit_simps)

end
