(* ===== verification/UART.thy ===== *)
theory UART
  imports CIU IOManager
begin

text \<open>
  The serial port, \<^verbatim>\<open>UART.cpp\<close>: a 16550 without FIFOs whose transmitter is the standard output and whose receiver is a
  thread that reads the keyboard.

  The registers the guest reads are words of the device's region, \<open>Reg_HVA\<close>, by register number; the class
  keeps its own copies and updates the region. The port drives line 35 of the interrupt unit, so its operations act on
  the port and the unit together. Memory the constructor does not set (\<^verbatim>\<open>index\<close>, the buffer, some registers) is what the
  state before holds. \<open>console\<close> collects what has been written. The keys read with \<^verbatim>\<open>getch\<close> are parameters.
\<close>

section \<open>Registers\<close>

abbreviation (input) BUFFER_SIZE :: nat where "BUFFER_SIZE \<equiv> 3"
abbreviation (input) RBR_OFFSET :: nat where "RBR_OFFSET \<equiv> 0"
abbreviation (input) THR_OFFSET :: nat where "THR_OFFSET \<equiv> 0"
abbreviation (input) DLL_OFFSET :: nat where "DLL_OFFSET \<equiv> 0"
abbreviation (input) IER_OFFSET :: nat where "IER_OFFSET \<equiv> 1"
abbreviation (input) DLH_OFFSET :: nat where "DLH_OFFSET \<equiv> 1"
abbreviation (input) FCR_OFFSET :: nat where "FCR_OFFSET \<equiv> 2"
abbreviation (input) IIR_OFFSET :: nat where "IIR_OFFSET \<equiv> 2"
abbreviation (input) LCR_OFFSET :: nat where "LCR_OFFSET \<equiv> 3"
abbreviation (input) MCR_OFFSET :: nat where "MCR_OFFSET \<equiv> 4"
abbreviation (input) LSR_OFFSET :: nat where "LSR_OFFSET \<equiv> 5"
abbreviation (input) MSR_OFFSET :: nat where "MSR_OFFSET \<equiv> 6"
abbreviation (input) SCR_OFFSET :: nat where "SCR_OFFSET \<equiv> 7"
abbreviation (input) FAR_OFFSET :: nat where "FAR_OFFSET \<equiv> 8"

abbreviation (input) UART_IIR_NO_INT :: u64 where "UART_IIR_NO_INT \<equiv> 0x01"
abbreviation (input) UART_IIR_ID :: u64 where "UART_IIR_ID \<equiv> 0x06"
abbreviation (input) UART_IIR_THRI :: u64 where "UART_IIR_THRI \<equiv> 0x02"
abbreviation (input) UART_IIR_RLSI :: u64 where "UART_IIR_RLSI \<equiv> 0x06"
abbreviation (input) UART_IIR_CTI :: u64 where "UART_IIR_CTI \<equiv> 0x0C"
abbreviation (input) UART_LCR_DLAB :: u64 where "UART_LCR_DLAB \<equiv> 0x80"
abbreviation (input) UART_IER_RLSI :: u64 where "UART_IER_RLSI \<equiv> 0x04"
abbreviation (input) UART_IER_THRI :: u64 where "UART_IER_THRI \<equiv> 0x02"
abbreviation (input) UART_IER_RDI :: u64 where "UART_IER_RDI \<equiv> 0x01"
abbreviation (input) UART_LSR_DR :: u64 where "UART_LSR_DR \<equiv> 0x01"
abbreviation (input) UART_LSR_OE :: u64 where "UART_LSR_OE \<equiv> 0x02"
abbreviation (input) UART_LSR_BI :: u64 where "UART_LSR_BI \<equiv> 0x10"
abbreviation (input) UART_LSR_THRE :: u64 where "UART_LSR_THRE \<equiv> 0x20"
abbreviation (input) UART_LSR_TEMT :: u64 where "UART_LSR_TEMT \<equiv> 0x40"
abbreviation (input) UART_LSR_INT_ANY :: u64 where "UART_LSR_INT_ANY \<equiv> 0x1E"
abbreviation (input) UART_MSR_DCD :: u64 where "UART_MSR_DCD \<equiv> 0x80"
abbreviation (input) UART_MSR_DSR :: u64 where "UART_MSR_DSR \<equiv> 0x20"
abbreviation (input) UART_MSR_CTS :: u64 where "UART_MSR_CTS \<equiv> 0x10"
abbreviation (input) UART_MSR_ANY_DELTA :: u64 where "UART_MSR_ANY_DELTA \<equiv> 0x0F"
abbreviation (input) UART_MCR_OUT2 :: u64 where "UART_MCR_OUT2 \<equiv> 0x08"
abbreviation (input) UART_FAR_FE :: u64 where "UART_FAR_FE \<equiv> 0x1"

record UART =
  RBR :: u64
  THR :: u64
  DLL :: u64
  IER :: u64
  DLH :: u64
  IIR :: u64
  FCR :: u64
  LCR :: u64
  MCR :: u64
  LSR :: u64
  MSR :: u64
  SCR :: u64
  FAR :: u64
  index :: u64
  UART_Buffer :: "u64 list"
  Reg_HVA :: "nat \<Rightarrow> u64"
  thr_ipending :: bool
  console :: "u8 list"

definition show_reg :: "nat \<Rightarrow> u64 \<Rightarrow> UART \<Rightarrow> UART" where
  "show_reg r v u = u\<lparr>Reg_HVA := (Reg_HVA u)(r := v)\<rparr>"

definition uart_update_memory :: "UART \<Rightarrow> UART" where
  "uart_update_memory u =
     show_reg SCR_OFFSET (SCR u) (show_reg MSR_OFFSET (MSR u) (show_reg LSR_OFFSET (LSR u) (show_reg MCR_OFFSET (MCR u)
       (show_reg LCR_OFFSET (LCR u) (show_reg IIR_OFFSET (IIR u) (show_reg IER_OFFSET (IER u) (show_reg RBR_OFFSET (RBR u) u)))))))"

definition uart_reset :: "UART \<Rightarrow> UART" where
  "uart_reset u =
     (let u = u\<lparr>RBR := 0, IER := 0, IIR := UART_IIR_NO_INT, LCR := 0, LSR := UART_LSR_TEMT OR UART_LSR_THRE,
                MSR := UART_MSR_DCD OR UART_MSR_DSR OR UART_MSR_CTS, MCR := UART_MCR_OUT2, SCR := 0\<rparr> in
      (uart_update_memory u)\<lparr>thr_ipending := False\<rparr>)"

section \<open>Interrupts\<close>

definition uart_update_irq :: "UART \<times> CIU \<Rightarrow> (UART \<times> CIU) result" where
  "uart_update_irq = (\<lambda>(u, s).
     let tempiir =
           (if IER u AND UART_IER_RLSI \<noteq> 0 \<and> LSR u AND UART_LSR_INT_ANY \<noteq> 0 then UART_IIR_RLSI
            else if IER u AND UART_IER_RDI \<noteq> 0 \<and> LSR u AND UART_LSR_DR \<noteq> 0 then UART_IIR_CTI
            else if IER u AND UART_IER_THRI \<noteq> 0 \<and> thr_ipending u then UART_IIR_THRI
            else UART_IIR_NO_INT);
         u = u\<lparr>IIR := tempiir OR (IIR u AND 0xF0)\<rparr> in
     if tempiir \<noteq> UART_IIR_NO_INT
     then bind_result (generateInterrupt CIU_SUM_UART1 s) (\<lambda>s. Inr (show_reg IIR_OFFSET (IIR u) (u\<lparr>thr_ipending := False\<rparr>), s))
     else bind_result (clearInterrupt CIU_SUM_UART1 s) (\<lambda>s. Inr (u, s)))"

section \<open>Accesses of the guest\<close>

text \<open>The register number of an access; the \<^verbatim>\<open>default\<close> label of the switch stands before its first case.\<close>

definition register_of :: "u64 \<Rightarrow> nat" where
  "register_of addr = unat (addr AND 0xFF) div 8"

definition uart_io_write :: "u64 \<Rightarrow> u64 \<Rightarrow> UART \<times> CIU \<Rightarrow> (UART \<times> CIU) result" where
  "uart_io_write addr data = (\<lambda>(u, s).
     let r = register_of addr in
     if r = IER_OFFSET
     then (if LCR u AND UART_LCR_DLAB \<noteq> 0 then Inr (u\<lparr>DLH := data\<rparr>, s)
           else
             (let u = u\<lparr>IER := data AND 0x0F\<rparr> in
              if LSR u AND UART_LSR_THRE \<noteq> 0 then uart_update_irq (u, s) else Inr (u, s)))
     else if r = FCR_OFFSET then Inr (u\<lparr>FCR := data\<rparr>, s)
     else if r = LCR_OFFSET then Inr (u\<lparr>LCR := data\<rparr>, s)
     else if r = MCR_OFFSET then Inr (u\<lparr>MCR := data\<rparr>, s)
     else if r = LSR_OFFSET \<or> r = MSR_OFFSET then Inr (u, s)
     else if r = SCR_OFFSET then Inr (u\<lparr>SCR := data\<rparr>, s)
     else if LCR u AND UART_LCR_DLAB \<noteq> 0 then Inr (u\<lparr>DLL := data\<rparr>, s)
     else
       (let u = u\<lparr>THR := data, LSR := LSR u AND NOT UART_LSR_THRE\<rparr>;
            u = u\<lparr>console := console u @ [ucast data]\<rparr>;
            u = u\<lparr>LSR := LSR u OR (UART_LSR_THRE OR UART_LSR_TEMT), thr_ipending := True\<rparr> in
        uart_update_irq (u, s)))"

text \<open>The buffer is read from its start as \<^verbatim>\<open>index\<close> counts down from three; other positions lie outside.\<close>

definition uart_io_read :: "u64 \<Rightarrow> UART \<times> CIU \<Rightarrow> (UART \<times> CIU) result" where
  "uart_io_read addr = (\<lambda>(u, s).
     let r = register_of addr in
     if r = IER_OFFSET
     then Inr (if LCR u AND UART_LCR_DLAB \<noteq> 0 then show_reg DLH_OFFSET (DLH u) u else show_reg IER_OFFSET (IER u) u, s)
     else if r = IIR_OFFSET
     then (let u = show_reg IIR_OFFSET (IIR u) u in
           if IIR u AND UART_IIR_ID = UART_IIR_THRI then uart_update_irq (u\<lparr>thr_ipending := False\<rparr>, s) else Inr (u, s))
     else if r = LCR_OFFSET then Inr (show_reg LCR_OFFSET (LCR u) u, s)
     else if r = MCR_OFFSET then Inr (show_reg MCR_OFFSET (MCR u) u, s)
     else if r = LSR_OFFSET
     then (let u = show_reg LSR_OFFSET (LSR u) u in
           if LSR u AND (UART_LSR_BI OR UART_LSR_OE) \<noteq> 0
           then uart_update_irq (u\<lparr>LSR := LSR u AND NOT (UART_LSR_BI OR UART_LSR_OE)\<rparr>, s) else Inr (u, s))
     else if r = MSR_OFFSET
     then (let u = show_reg MSR_OFFSET (MSR u) u in
           Inr (if MSR u AND UART_MSR_ANY_DELTA \<noteq> 0 then u\<lparr>MSR := MSR u AND 0xF0\<rparr> else u, s))
     else if r = SCR_OFFSET then Inr (show_reg SCR_OFFSET (SCR u) u, s)
     else if r = FAR_OFFSET
     then (let u = u\<lparr>FAR := FAR u OR UART_FAR_FE\<rparr> in Inr (show_reg FAR_OFFSET (FAR u) u, s))
     else if LCR u AND UART_LCR_DLAB \<noteq> 0 then Inr (show_reg DLL_OFFSET (DLL u) u, s)
     else if unat (3 - index u) \<ge> length (UART_Buffer u) then Inl OutOfBounds
     else
       (let u = show_reg RBR_OFFSET (UART_Buffer u ! unat (3 - index u)) u;
            u = u\<lparr>index := index u - 1\<rparr>;
            u = (if index u = 0 \<or> UART_Buffer u ! 0 \<noteq> 0x1b
                 then (let u = u\<lparr>LSR := LSR u AND NOT UART_LSR_DR\<rparr> in show_reg LSR_OFFSET (LSR u) u) else u) in
        uart_update_irq (u, s)))"

text \<open>One turn of the loop of \<^verbatim>\<open>start\<close>, for the message in the mailbox.\<close>

definition uart_service :: "DeviceMessageBox \<Rightarrow> UART \<times> CIU \<Rightarrow> (UART \<times> CIU) result" where
  "uart_service m = (if mb_RW m = ST_WRITE then uart_io_write (mb_addr m) (mb_data m) else uart_io_read (mb_addr m))"

section \<open>The keyboard\<close>

text \<open>
  The loop that fills the buffer, from position \<open>i\<close>, and the position it ends at; only an escape makes it read on.
  Of the two special keys one prints program counters, which changes nothing here, and one terminates the process.
\<close>

fun read_keys :: "u64 list \<Rightarrow> nat \<Rightarrow> u64 list \<Rightarrow> nat \<times> u64 list" where
  "read_keys [] i buf = (i, buf)"
| "read_keys (c # cs) i buf =
     (let buf = buf[i := c] in if buf ! 0 \<noteq> 0x1b then (i, buf) else read_keys cs (i + 1) buf)"

text \<open>
  A turn of the receiver thread: it sets the index, waits for keys, and stores what it got. While it waits, the thread of the port
  serves the guest's accesses \<open>ms\<close>, which may move the index; the accesses during an escape sequence are taken to come before its first key.
\<close>

definition arm_receiver :: "UART \<Rightarrow> UART" where
  "arm_receiver u = u\<lparr>index := 3\<rparr>"

definition receive_keys :: "u64 \<Rightarrow> u64 \<Rightarrow> u64 \<Rightarrow> UART \<times> CIU \<Rightarrow> (UART \<times> CIU) result" where
  "receive_keys c0 c1 c2 = (\<lambda>(u, s).
     case read_keys [c0, c1, c2] 0 (UART_Buffer u) of (i, buf) \<Rightarrow>
       let u = u\<lparr>UART_Buffer := buf, LSR := LSR u OR UART_LSR_DR\<rparr> in
       if i \<ge> length buf then Inl OutOfBounds
       else
         (let u = u\<lparr>RBR := buf ! i\<rparr>;
              u = show_reg LSR_OFFSET (LSR u) (show_reg RBR_OFFSET (buf ! i) u) in
          if buf ! 0 = 0x40 then Inr (u, s)
          else if buf ! 0 = 0x01 then Inl ExitError
          else uart_update_irq (u, s)))"

fun uart_serve :: "DeviceMessageBox list \<Rightarrow> UART \<times> CIU \<Rightarrow> (UART \<times> CIU) result" where
  "uart_serve [] r = Inr r"
| "uart_serve (m # ms) r = bind_result (uart_service m r) (uart_serve ms)"

definition uart_receiver :: "DeviceMessageBox list \<Rightarrow> u64 \<Rightarrow> u64 \<Rightarrow> u64 \<Rightarrow> UART \<times> CIU \<Rightarrow> (UART \<times> CIU) result" where
  "uart_receiver ms c0 c1 c2 = (\<lambda>(u, s). bind_result (uart_serve ms (arm_receiver u, s)) (receive_keys c0 c1 c2))"

definition sendsignal :: "UART \<times> CIU \<Rightarrow> (UART \<times> CIU) result" where
  "sendsignal = (\<lambda>(u, s).
     let u = u\<lparr>index := 3, UART_Buffer := (UART_Buffer u)[0 := 0x03], RBR := 0x03, LSR := LSR u OR UART_LSR_DR\<rparr> in
     uart_update_irq (show_reg LSR_OFFSET (LSR u) (show_reg RBR_OFFSET (RBR u) u), s))"

section \<open>The interrupt line\<close>

text \<open>The source the port reports: line status before received data before an empty transmitter.\<close>

definition source_of :: "UART \<Rightarrow> u64" where
  "source_of u =
     (if IER u AND UART_IER_RLSI \<noteq> 0 \<and> LSR u AND UART_LSR_INT_ANY \<noteq> 0 then UART_IIR_RLSI
      else if IER u AND UART_IER_RDI \<noteq> 0 \<and> LSR u AND UART_LSR_DR \<noteq> 0 then UART_IIR_CTI
      else if IER u AND UART_IER_THRI \<noteq> 0 \<and> thr_ipending u then UART_IIR_THRI
      else UART_IIR_NO_INT)"

lemma source_values: "source_of u \<in> {UART_IIR_RLSI, UART_IIR_CTI, UART_IIR_THRI, UART_IIR_NO_INT}"
  by (simp add: source_of_def)

text \<open>The line of the port as the unit sees it, in the summary words of every core.\<close>

definition line_is :: "bool \<Rightarrow> CIU \<Rightarrow> bool" where
  "line_is up s \<longleftrightarrow> (\<forall>c < length (cores s). \<forall>j \<in> summary_words c. bit (word_at s j) CIU_SUM_UART1 = up)"

definition same_enables :: "CIU \<Rightarrow> CIU \<Rightarrow> bool" where
  "same_enables s s' \<longleftrightarrow> length (cores s') = length (cores s) \<and> (\<forall>c < 24. word_at s' (INT_EN0 c) = word_at s (INT_EN0 c))"

lemma update_irq_result:
  assumes "irq_consistent s"
  shows "\<exists>s'. uart_update_irq (u, s) = Inr
      (let u' = u\<lparr>IIR := source_of u OR (IIR u AND 0xF0)\<rparr> in
       if source_of u \<noteq> UART_IIR_NO_INT then show_reg IIR_OFFSET (IIR u') (u'\<lparr>thr_ipending := False\<rparr>) else u', s')
    \<and> irq_consistent s' \<and> same_enables s s' \<and> line_is (source_of u \<noteq> UART_IIR_NO_INT) s'"
proof -
  obtain s' where s': "(if source_of u \<noteq> UART_IIR_NO_INT then generateInterrupt CIU_SUM_UART1 s else clearInterrupt CIU_SUM_UART1 s) = Inr s'"
    "irq_consistent s'" "same_enables s s'" "line_is (source_of u \<noteq> UART_IIR_NO_INT) s'"
    using line_driven [OF assms, of CIU_SUM_UART1 "source_of u \<noteq> UART_IIR_NO_INT"] by (auto simp: same_enables_def line_is_def)
  then show ?thesis
    unfolding uart_update_irq_def source_of_def [symmetric] Let_def by (intro exI [of _ s']) (auto split: if_splits)
qed

section \<open>Properties\<close>

text \<open>
  Property C25. The interrupt line follows the registers. After every update the identification register names the first
  enabled source that is active, or none, and the line is raised for every core exactly when there is one; the
  registers of the interrupt unit stay consistent and the update never fails.
\<close>

theorem uart_line_follows:
  assumes "irq_consistent s"
  shows "\<exists>u' s'. uart_update_irq (u, s) = Inr (u', s') \<and> irq_consistent s' \<and> IIR u' AND 0x0F = source_of u
    \<and> (\<forall>c < length (cores s'). \<forall>j \<in> summary_words c. bit (word_at s' j) CIU_SUM_UART1 = (source_of u \<noteq> UART_IIR_NO_INT))
    \<and> (source_of u \<noteq> UART_IIR_NO_INT \<longrightarrow> Reg_HVA u' IIR_OFFSET = IIR u')"
proof -
  have "(source_of u OR (IIR u AND 0xF0)) AND 0x0F = source_of u"
    using source_values [of u] by (auto simp: bit.conj_disj_distrib2 and.assoc)
  then show ?thesis
    using update_irq_result [OF assms, of u] by (auto simp: Let_def show_reg_def line_is_def)
qed

text \<open>A port after reset, with the interrupts of the receiver and the transmitter enabled.\<close>

definition sample_port :: UART where
  "sample_port = (uart_reset \<lparr>RBR = 0, THR = 0, DLL = 0, IER = 0, DLH = 0, IIR = 0, FCR = 0, LCR = 0, MCR = 0, LSR = 0, MSR = 0,
     SCR = 0, FAR = 0, index = 0, UART_Buffer = [0, 0, 0], Reg_HVA = (\<lambda>_. 0), thr_ipending = False, console = []\<rparr>)\<lparr>IER := 3\<rparr>"

lemma sample_port_fields [simp]:
  "IER sample_port = 3" "LCR sample_port = 0" "LSR sample_port = 0x60" "UART_Buffer sample_port = [0, 0, 0]"
  "thr_ipending sample_port = False" "console sample_port = []" "IIR sample_port = 1"
  by (simp_all add: sample_port_def uart_reset_def uart_update_memory_def show_reg_def Let_def)

theorem uart_line_follows_witness:
  "\<exists>u' s'. uart_update_irq (sample_port\<lparr>thr_ipending := True\<rparr>, reset_CIU) = Inr (u', s') \<and> IIR u' AND 0x0F = UART_IIR_THRI
     \<and> Reg_HVA u' IIR_OFFSET = IIR u'"
  using uart_line_follows [OF reset_consistent, of "sample_port\<lparr>thr_ipending := True\<rparr>"] by (auto simp: source_of_def)

lemma low_register: "register_of addr = RBR_OFFSET \<Longrightarrow> register_of addr \<notin> {1, 2, 3, 4, 5, 6, 7, 8}"
  by simp

text \<open>Receiving an ordinary key, and reading the receive buffer.\<close>

lemma receive_key:
  assumes "irq_consistent s" "0 < length (UART_Buffer u)" "key \<notin> {0x1b, 0x40, 0x01}"
  shows "receive_keys key c1 c2 (u, s) =
    (let u1 = u\<lparr>UART_Buffer := (UART_Buffer u)[0 := key], LSR := LSR u OR UART_LSR_DR, RBR := key\<rparr> in
     uart_update_irq (show_reg LSR_OFFSET (LSR u1) (show_reg RBR_OFFSET key u1), s))"
  using assms(2,3) by (simp add: receive_keys_def Let_def)

lemma read_buffer:
  assumes "register_of addr = RBR_OFFSET" "LCR u AND UART_LCR_DLAB = 0"
  shows "uart_io_read addr (u, s) =
    (if length (UART_Buffer u) \<le> unat (3 - index u) then Inl OutOfBounds
     else
       (let u1 = show_reg RBR_OFFSET (UART_Buffer u ! unat (3 - index u)) u\<lparr>index := index u - 1\<rparr> in
        uart_update_irq
          (if index u - 1 = 0 \<or> UART_Buffer u ! 0 \<noteq> 0x1b
           then show_reg LSR_OFFSET (LSR u AND NOT UART_LSR_DR) (u1\<lparr>LSR := LSR u AND NOT UART_LSR_DR\<rparr>) else u1, s)))"
  using assms by (simp add: uart_io_read_def Let_def show_reg_def)

lemma data_ready_bits:
  "(x OR 1) AND (1 :: u64) \<noteq> 0" "x AND 0x1E = 0 \<Longrightarrow> (x OR 1) AND (0x1E :: u64) = 0"
  "(x AND NOT 1) AND (1 :: u64) = 0" "x AND 0x1E = 0 \<Longrightarrow> (x AND NOT 1) AND (0x1E :: u64) = 0"
  by (simp_all add: bit.conj_disj_distrib2 word64_eq_iff bitblast bit_simps)

text \<open>
  Property C19. A key reaches the guest. The port may serve any accesses while the receiver waits for the key, as long as they
  leave the index of the buffer where the receiver set it. When the guest has then enabled the receiver interrupt and no line error is
  reported, a key other than the three special ones raises interrupt 2 of every core that enables the port's line, and the guest's next
  read of the receive register gets the key, clears the data-ready bit and lowers the line.
\<close>

theorem key_reaches_guest:
  assumes "irq_consistent s" "IER u AND UART_IER_RDI \<noteq> 0" "LSR u AND UART_LSR_INT_ANY = 0" "LCR u AND UART_LCR_DLAB = 0"
    and "length (UART_Buffer u) = BUFFER_SIZE" "key \<notin> {0x1b, 0x40, 0x01}" "register_of addr = RBR_OFFSET"
    and "uart_serve ms (arm_receiver u0, s0) = Inr (u, s)" "index u = 3"
  shows "\<exists>u1 s1 u2 s2. uart_receiver ms key c1 c2 (u0, s0) = Inr (u1, s1) \<and> uart_io_read addr (u1, s1) = Inr (u2, s2)
    \<and> (\<forall>c < length (cores s). bit (word_at s (INT_EN0 (c * 2))) CIU_SUM_UART1 \<longrightarrow> bit (cp0_read (cores s1 ! c) H2_CP0_CAUSE SEL_ZERO) 10)
    \<and> Reg_HVA u2 RBR_OFFSET = key \<and> Reg_HVA u2 LSR_OFFSET AND UART_LSR_DR = 0
    \<and> (\<forall>c < length (cores s). \<not> bit (word_at s2 (INT_SUM0 (c * 2))) CIU_SUM_UART1)"
proof -
  let ?l = "LSR u OR UART_LSR_DR"
  let ?k = "show_reg LSR_OFFSET ?l (show_reg RBR_OFFSET key
      (u\<lparr>UART_Buffer := (UART_Buffer u)[0 := key], LSR := ?l, RBR := key\<rparr>))"
  have src: "source_of ?k = UART_IIR_CTI"
    using assms(2,3) data_ready_bits(1,2) [of "LSR u"] by (simp add: source_of_def show_reg_def)
  obtain s1 where s1: "uart_update_irq (?k, s) = Inr (show_reg IIR_OFFSET (UART_IIR_CTI OR (IIR u AND 0xF0))
        (?k\<lparr>IIR := UART_IIR_CTI OR (IIR u AND 0xF0), thr_ipending := False\<rparr>), s1)" (is "_ = Inr (?u1, _)")
      "irq_consistent s1" "same_enables s s1" "line_is True s1"
    using update_irq_result [OF assms(1), of ?k] unfolding src by (auto simp: Let_def show_reg_def)
  have r: "uart_receiver ms key c1 c2 (u0, s0) = Inr (?u1, s1)"
    using receive_key [OF assms(1) _ assms(6), of u c1 c2] assms(5,8) s1(1) by (simp add: uart_receiver_def Let_def)
  have irq: "bit (cp0_read (cores s1 ! c) H2_CP0_CAUSE SEL_ZERO) 10"
    if "c < length (cores s)" "bit (word_at s (INT_EN0 (c * 2))) CIU_SUM_UART1" for c
    using line_pending [OF s1(2), of c CIU_SUM_UART1] s1(3,4) that assms(1)
    by (auto simp: same_enables_def line_is_def summary_words_def irq_consistent_def)
  let ?d = "?l AND NOT UART_LSR_DR"
  let ?r = "show_reg LSR_OFFSET ?d (show_reg RBR_OFFSET key (?u1\<lparr>index := 2, LSR := ?d\<rparr>))"
  have src2: "source_of ?r = UART_IIR_NO_INT"
    using assms(3) data_ready_bits(2-4) [of ?l] data_ready_bits(2) [of "LSR u"] by (simp add: source_of_def show_reg_def)
  have "uart_io_read addr (?u1, s1) = uart_update_irq (?r, s1)"
    using read_buffer [OF assms(7), of ?u1 s1] assms(4,5,6,9) by (simp add: Let_def show_reg_def)
  then obtain u2 s2 where r2: "uart_io_read addr (?u1, s1) = Inr (u2, s2)" "Reg_HVA u2 = Reg_HVA ?r" "line_is False s2" "same_enables s1 s2"
    using update_irq_result [OF s1(2), of ?r] unfolding src2 by (auto simp: Let_def)
  then show ?thesis
    using r irq s1(3) data_ready_bits(3) [of ?l]
    by (intro exI [of _ ?u1] exI [of _ s1] exI [of _ u2] exI [of _ s2])
       (auto simp: show_reg_def line_is_def same_enables_def summary_words_def)
qed

theorem key_reaches_guest_witness:
  "\<exists>u1 s1 u2 s2. uart_receiver [] 0x61 0 0 (sample_port, reset_CIU) = Inr (u1, s1) \<and> uart_io_read 0x8001180000000C00 (u1, s1) = Inr (u2, s2)
     \<and> Reg_HVA u2 RBR_OFFSET = 0x61"
proof -
  have "register_of 0x8001180000000C00 = RBR_OFFSET" by (simp add: register_of_def)
  then show ?thesis using key_reaches_guest [OF reset_consistent, of "arm_receiver sample_port" "0x61" "0x8001180000000C00" "[]" sample_port reset_CIU 0 0]
    by (auto simp: arm_receiver_def)
qed

text \<open>Reads of the receive register, one after the other.\<close>

fun read_times :: "nat \<Rightarrow> u64 \<Rightarrow> UART \<times> CIU \<Rightarrow> (UART \<times> CIU) result" where
  "read_times 0 addr r = Inr r"
| "read_times (Suc n) addr r = bind_result (uart_io_read addr r) (read_times n addr)"

definition readable :: "u64 \<Rightarrow> UART \<times> CIU \<Rightarrow> bool" where
  "readable k r \<longleftrightarrow> irq_consistent (snd r) \<and> LCR (fst r) AND UART_LCR_DLAB = 0 \<and> length (UART_Buffer (fst r)) = BUFFER_SIZE
     \<and> index (fst r) = k"

lemma update_irq_readable:
  assumes "readable k (u, s)"
  shows "\<exists>r. uart_update_irq (u, s) = Inr r \<and> readable k r"
proof -
  have "irq_consistent s" using assms by (simp add: readable_def)
  from update_irq_result [OF this, of u] assms show ?thesis
    by (fastforce simp: readable_def show_reg_def Let_def)
qed

lemma read_counts_down:
  assumes "register_of addr = RBR_OFFSET" "readable k r" "k \<in> {1, 2, 3}"
  shows "\<exists>r'. uart_io_read addr r = Inr r' \<and> readable (k - 1) r'"
proof -
  obtain u s where r: "r = (u, s)" by (cases r)
  have "unat (3 - k) < 3" using assms(3) by auto
  then have io: "uart_io_read addr r = uart_update_irq
      (let u1 = show_reg RBR_OFFSET (UART_Buffer u ! unat (3 - index u)) u\<lparr>index := index u - 1\<rparr> in
        (if index u - 1 = 0 \<or> UART_Buffer u ! 0 \<noteq> 0x1b
         then show_reg LSR_OFFSET (LSR u AND NOT UART_LSR_DR) (u1\<lparr>LSR := LSR u AND NOT UART_LSR_DR\<rparr>) else u1), s)"
    using read_buffer [OF assms(1), of u s] assms(2) by (simp add: r readable_def Let_def)
  show ?thesis
    unfolding io using assms(2) by (intro update_irq_readable) (simp add: r readable_def show_reg_def Let_def)
qed

lemma read_at_end:
  assumes "register_of addr = RBR_OFFSET" "readable 0 r"
  shows "uart_io_read addr r = Inl OutOfBounds"
  using read_buffer [OF assms(1), of "fst r" "snd r"] assms(2) by (simp add: readable_def)

text \<open>
  The receive buffer is overrun from both sides. The first byte of an escape sequence makes the receiver
  thread fill the buffer and then take the key from behind its end, whatever follows; and after any key, a guest that reads the
  receive register a fourth time reads behind the end of the buffer, since reading does not ask for data ready.
\<close>

lemma receiver_overruns:
  assumes "length (UART_Buffer u) = BUFFER_SIZE" "irq_consistent s" "LCR u AND UART_LCR_DLAB = 0" "register_of addr = RBR_OFFSET"
    and "key \<notin> {0x1b, 0x40, 0x01}"
  shows "uart_receiver [] 0x1b c1 c2 (u, s) = Inl OutOfBounds
    \<and> (\<exists>r r'. uart_receiver [] key c1 c2 (u, s) = Inr r \<and> read_times 3 addr r = Inr r' \<and> read_times 4 addr r = Inl OutOfBounds)"
proof
  obtain b0 b1 b2 where "UART_Buffer u = [b0, b1, b2]"
    using assms(1) by (auto simp: numeral_3_eq_3 length_Suc_conv)
  then show "uart_receiver [] 0x1b c1 c2 (u, s) = Inl OutOfBounds"
    by (simp add: uart_receiver_def arm_receiver_def receive_keys_def Let_def)
next
  let ?a = "arm_receiver u"
  let ?u1 = "?a\<lparr>UART_Buffer := (UART_Buffer u)[0 := key], LSR := LSR u OR UART_LSR_DR, RBR := key\<rparr>"
  have "readable 3 (show_reg LSR_OFFSET (LSR ?u1) (show_reg RBR_OFFSET key ?u1), s)"
    using assms(1-3) by (simp add: readable_def show_reg_def arm_receiver_def)
  from update_irq_readable [OF this] obtain r where r: "uart_receiver [] key c1 c2 (u, s) = Inr r" "readable 3 r"
    using receive_key [OF assms(2) _ assms(5), of ?a c1 c2] assms(1) unfolding Let_def by (fastforce simp: uart_receiver_def arm_receiver_def)
  obtain r1 where r1: "uart_io_read addr r = Inr r1" "readable 2 r1" using read_counts_down [OF assms(4) r(2)] by auto
  obtain r2 where r2: "uart_io_read addr r1 = Inr r2" "readable 1 r2" using read_counts_down [OF assms(4) r1(2)] by auto
  obtain r3 where r3: "uart_io_read addr r2 = Inr r3" "readable 0 r3" using read_counts_down [OF assms(4) r2(2)] by auto
  show "\<exists>r r'. uart_receiver [] key c1 c2 (u, s) = Inr r \<and> read_times 3 addr r = Inr r' \<and> read_times 4 addr r = Inl OutOfBounds"
    using r(1) r1(1) r2(1) r3(1) read_at_end [OF assms(4) r3(2)]
    by (intro exI [of _ r] exI [of _ r3]) (simp add: eval_nat_numeral)
qed

text \<open>
  A guest that reads the receive register before the key has come, data ready or not, moves the index; the key then goes to
  the first place of the buffer and the next read gets what the second place held.
\<close>

lemma early_read_loses_key:
  assumes "irq_consistent s" "LCR u AND UART_LCR_DLAB = 0" "length (UART_Buffer u) = BUFFER_SIZE" "register_of addr = RBR_OFFSET"
    and "key \<notin> {0x1b, 0x40, 0x01}" "mb_RW m \<noteq> ST_WRITE" "mb_addr m = addr"
  shows "\<exists>r r'. uart_receiver [m] key c1 c2 (u, s) = Inr r \<and> uart_io_read addr r = Inr r' \<and> Reg_HVA (fst r') RBR_OFFSET = UART_Buffer u ! 1"
proof -
  let ?b = "UART_Buffer u"
  have "\<exists>u1 s1. uart_io_read addr (arm_receiver u, s) = Inr (u1, s1) \<and> readable 2 (u1, s1) \<and> UART_Buffer u1 = ?b"
    using read_buffer [OF assms(4), of "arm_receiver u" s] assms(2,3) update_irq_result [OF assms(1)]
    by (fastforce simp: arm_receiver_def readable_def show_reg_def Let_def)
  then obtain u1 s1 where 1: "uart_service m (arm_receiver u, s) = Inr (u1, s1)" "readable 2 (u1, s1)" "UART_Buffer u1 = ?b"
    using assms(6,7) by (auto simp: uart_service_def)
  then have c: "irq_consistent s1" by (simp add: readable_def)
  let ?u = "u1\<lparr>UART_Buffer := ?b[0 := key], LSR := LSR u1 OR UART_LSR_DR, RBR := key\<rparr>"
  have k: "receive_keys key c1 c2 (u1, s1) = uart_update_irq (show_reg LSR_OFFSET (LSR ?u) (show_reg RBR_OFFSET key ?u), s1)"
    using receive_key [OF c _ assms(5), of u1 c1 c2] assms(3) 1(3) by (simp add: Let_def)
  obtain u2 s2 where 2: "receive_keys key c1 c2 (u1, s1) = Inr (u2, s2)" "readable 2 (u2, s2)" "UART_Buffer u2 = ?b[0 := key]"
    using update_irq_result [OF c, of "show_reg LSR_OFFSET (LSR ?u) (show_reg RBR_OFFSET key ?u)"] 1(2) assms(3) unfolding k
    by (fastforce simp: readable_def show_reg_def Let_def)
  have "irq_consistent s2" using 2(2) by (simp add: readable_def)
  then have "\<exists>r'. uart_io_read addr (u2, s2) = Inr r' \<and> Reg_HVA (fst r') RBR_OFFSET = ?b ! 1"
    using read_buffer [OF assms(4), of u2 s2] 2(2,3) assms(3) update_irq_result [of s2]
    by (fastforce simp: readable_def show_reg_def Let_def)
  then show ?thesis using 1(1) 2(1) by (auto simp: uart_receiver_def)
qed

section \<open>The console\<close>

text \<open>The console shows the low bytes of what the guest stores to the transmit register, in order.\<close>

fun transmit :: "u64 \<Rightarrow> u64 list \<Rightarrow> UART \<times> CIU \<Rightarrow> (UART \<times> CIU) result" where
  "transmit addr [] r = Inr r"
| "transmit addr (d # ds) r = bind_result (uart_io_write addr d r) (transmit addr ds)"

lemma console_in_order:
  assumes "register_of addr = THR_OFFSET" "irq_consistent s" "LCR u AND UART_LCR_DLAB = 0"
  shows "\<exists>u' s'. transmit addr ds (u, s) = Inr (u', s') \<and> console u' = console u @ map ucast ds"
  using assms(2,3)
proof (induction ds arbitrary: u s)
  case Nil
  then show ?case by simp
next
  case (Cons d ds)
  let ?u = "u\<lparr>THR := d, console := console u @ [ucast d], LSR := (LSR u AND NOT UART_LSR_THRE) OR (UART_LSR_THRE OR UART_LSR_TEMT), thr_ipending := True\<rparr>"
  have "uart_io_write addr d (u, s) = uart_update_irq (?u, s)"
    using assms(1) Cons.prems(2) by (simp add: uart_io_write_def Let_def)
  then obtain u1 s1 where u1: "uart_io_write addr d (u, s) = Inr (u1, s1)" "irq_consistent s1" "LCR u1 = LCR u" "console u1 = console u @ [ucast d]"
    using update_irq_result [OF Cons.prems(1), of ?u] by (auto simp: Let_def show_reg_def)
  then show ?case using Cons.IH [of s1 u1] Cons.prems(2) by auto
qed

end
