(* ===== verification/Virtio.thy ===== *)
theory Virtio
  imports Vhost UART
begin

text \<open>
  The virtio devices: \<^verbatim>\<open>VirtioDevice.cpp\<close>, the registers every device has, with \<^verbatim>\<open>VirtioBlk.cpp\<close>, the disk, and
  \<^verbatim>\<open>Virtionet.cpp\<close>, the network card, which the build leaves out unless asked for.

  The registers are 32-bit words in the device's region, by byte offset; the guest stores to them, and the device's thread
  then acts on the message. Their offsets, the bit of the ring interrupt, the bit of the driver's status and the numbers of the
  features come from headers outside of the sources and are parameters, in the records \<open>mmio\<close> and \<open>features\<close>; so is
  what a walk over the rings needs, in \<open>venv\<close>. The host is big-endian, the registers little-endian. Calls of the
  host (opening files, handing over descriptors, threads) do not change the state; \<open>kicks\<close> records the notifications, and
  \<open>host_features\<close> the offloads and the features the network card hands over when it starts.
\<close>

section \<open>Registers\<close>

abbreviation (input) NETWORK_CARD_ID :: u32 where "NETWORK_CARD_ID \<equiv> 1"
abbreviation (input) BLOCK_DEVICE_ID :: u32 where "BLOCK_DEVICE_ID \<equiv> 2"
abbreviation (input) VDEV_MAGIC_VALUE :: u32 where "VDEV_MAGIC_VALUE \<equiv> 0x76697274"
abbreviation (input) VDEV_VENDOR_ID :: u32 where "VDEV_VENDOR_ID \<equiv> 0x1AF4"
abbreviation (input) VDEV_VERSION :: u32 where "VDEV_VERSION \<equiv> 0x01"
abbreviation (input) RECEIVE_QUEUE :: nat where "RECEIVE_QUEUE \<equiv> 0"
abbreviation (input) TRANSFER_QUEUE :: nat where "TRANSFER_QUEUE \<equiv> 1"
abbreviation (input) CONTROL_QUEUE :: nat where "CONTROL_QUEUE \<equiv> 2"
abbreviation (input) TX_QUEUE_MAX_SIZE :: u32 where "TX_QUEUE_MAX_SIZE \<equiv> 0x0100"
abbreviation (input) RX_QUEUE_MAX_SIZE :: u32 where "RX_QUEUE_MAX_SIZE \<equiv> 0x0100"
abbreviation (input) CONTROL_QUEUE_MAX_SIZE :: u32 where "CONTROL_QUEUE_MAX_SIZE \<equiv> 0x0100"
abbreviation (input) CIU_SUM_GPIO0 :: nat where "CIU_SUM_GPIO0 \<equiv> 16"
abbreviation (input) CIU_SUM_GPIO1 :: nat where "CIU_SUM_GPIO1 \<equiv> 17"

record mmio =
  HOST_FEATURES :: u32
  HOST_FEATURES_SEL :: u32
  GUEST_FEATURES :: u32
  GUEST_FEATURES_SEL :: u32
  QUEUE_SEL :: u32
  QUEUE_NUM :: u32
  QUEUE_ALIGN :: u32
  QUEUE_PFN :: u32
  QUEUE_NOTIFY :: u32
  INTERRUPT_STATUS :: u32
  INTERRUPT_ACK :: u32
  STATUS :: u32
  CONFIG :: u32
  INT_VRING :: u32
  S_DRIVER_OK :: u32

record venv =
  v_abi :: abi
  v_mmap :: mmap_call
  v_ub :: u64
  v_indirect :: "u64 \<Rightarrow> nat \<Rightarrow> vring_desc"
  v_rings :: "nat \<Rightarrow> guest_ring"
  v_mmio :: mmio

text \<open>The bit numbers of the features; the disk's and the network card's are numbered apart.\<close>

record features =
  F_INDIRECT_DESC :: nat
  F_EVENT_IDX :: nat
  BLK_F_BARRIER :: nat
  BLK_F_SIZE_MAX :: nat
  BLK_F_SEG_MAX :: nat
  BLK_F_GEOMETRY :: nat
  BLK_F_RO :: nat
  BLK_F_BLK_SIZE :: nat
  BLK_F_SCSI :: nat
  BLK_F_FLUSH :: nat
  NET_F_CSUM :: nat
  NET_F_GUEST_CSUM :: nat
  NET_F_GUEST_TSO4 :: nat
  NET_F_GUEST_TSO6 :: nat
  NET_F_GUEST_ECN :: nat
  NET_F_GUEST_UFO :: nat
  NET_F_HOST_TSO4 :: nat
  NET_F_HOST_TSO6 :: nat
  NET_F_HOST_ECN :: nat
  NET_F_HOST_UFO :: nat
  TUN_CSUM :: u64
  TUN_TSO4 :: u64
  TUN_TSO6 :: u64
  TUN_TSO_ECN :: u64
  TUN_UFO :: u64

text \<open>\<^verbatim>\<open>0x1 << n\<close> is a signed 32-bit integer, widened with its sign.\<close>

definition flag :: "nat \<Rightarrow> u64" where
  "flag n = scast (push_bit n (1 :: u32))"

definition swap_endianess32 :: "u32 \<Rightarrow> u32" where
  "swap_endianess32 x =
     (push_bit 24 (x AND 0xFF) OR push_bit 8 (x AND 0xFF00)) OR (drop_bit 8 x AND 0xFF00 OR drop_bit 24 x AND 0xFF)"

record VdevQueueInfo =
  QueueNumMax :: u32
  QueueNum :: u32
  QueueAlign :: u32
  QueuePFN :: u32

record VirtioDevice =
  reg_mem :: "u32 \<Rightarrow> u32"
  AckGuestFeatures :: u64
  BackendHostFeatures :: u64
  DeviceStarted :: bool
  SavedQueues :: "VdevQueueInfo list"
  SelectedIndex :: u32
  NumQueues :: nat
  HostClient :: Vhost
  kicks :: "u32 list"
  host_features :: "(u64 \<times> u64) list"

definition put_word :: "u32 \<Rightarrow> u32 \<Rightarrow> VirtioDevice \<Rightarrow> VirtioDevice" where
  "put_word k v d = d\<lparr>reg_mem := (reg_mem d)(k := v)\<rparr>"

text \<open>The words behind the selection register are the information of the selected queue.\<close>

definition info_at :: "mmio \<Rightarrow> VirtioDevice \<Rightarrow> VdevQueueInfo" where
  "info_at m d = \<lparr>QueueNumMax = reg_mem d (QUEUE_SEL m + 4), QueueNum = reg_mem d (QUEUE_SEL m + 8),
     QueueAlign = reg_mem d (QUEUE_SEL m + 12), QueuePFN = reg_mem d (QUEUE_SEL m + 16)\<rparr>"

definition put_info :: "mmio \<Rightarrow> VdevQueueInfo \<Rightarrow> VirtioDevice \<Rightarrow> VirtioDevice" where
  "put_info m q d =
     put_word (QUEUE_SEL m + 16) (QueuePFN q) (put_word (QUEUE_SEL m + 12) (QueueAlign q)
       (put_word (QUEUE_SEL m + 8) (QueueNum q) (put_word (QUEUE_SEL m + 4) (QueueNumMax q) d)))"

definition SetHeader :: "u32 \<Rightarrow> VirtioDevice \<Rightarrow> VirtioDevice" where
  "SetHeader ident d =
     put_word 12 (swap_endianess32 VDEV_VENDOR_ID) (put_word 8 (swap_endianess32 ident)
       (put_word 4 (swap_endianess32 VDEV_VERSION) (put_word 0 (swap_endianess32 VDEV_MAGIC_VALUE) d)))"

text \<open>An index outside of the three queues is an access outside of the array.\<close>

definition SaveQueue :: "mmio \<Rightarrow> u32 \<Rightarrow> VirtioDevice \<Rightarrow> VirtioDevice result" where
  "SaveQueue m i d =
     (if unat i \<ge> length (SavedQueues d) then Inl OutOfBounds
      else Inr (d\<lparr>SavedQueues := (SavedQueues d)[unat i := info_at m d]\<rparr>))"

definition LoadQueue :: "mmio \<Rightarrow> u32 \<Rightarrow> VirtioDevice \<Rightarrow> VirtioDevice result" where
  "LoadQueue m i d =
     (if unat i \<ge> length (SavedQueues d) then Inl OutOfBounds else Inr (put_info m (SavedQueues d ! unat i) d))"

definition InitializeQueues :: "mmio \<Rightarrow> VirtioDevice \<Rightarrow> VirtioDevice result" where
  "InitializeQueues m d =
     (let set_max = (\<lambda>i n d. d\<lparr>SavedQueues := (SavedQueues d)[i := (SavedQueues d ! i)\<lparr>QueueNumMax := swap_endianess32 n\<rparr>]\<rparr>) in
      if length (SavedQueues d) < 3 then Inl OutOfBounds
      else LoadQueue m 0 (set_max CONTROL_QUEUE CONTROL_QUEUE_MAX_SIZE (set_max TRANSFER_QUEUE TX_QUEUE_MAX_SIZE
             (set_max RECEIVE_QUEUE RX_QUEUE_MAX_SIZE d))))"

definition Initialize :: "mmio \<Rightarrow> u32 \<Rightarrow> VirtioDevice \<Rightarrow> VirtioDevice result" where
  "Initialize m ident d = InitializeQueues m (SetHeader ident (d\<lparr>DeviceStarted := False\<rparr>))"

section \<open>Operations of every device\<close>

definition SelHostFeatures :: "mmio \<Rightarrow> u32 \<Rightarrow> VirtioDevice \<Rightarrow> VirtioDevice" where
  "SelHostFeatures m data d =
     put_word (HOST_FEATURES m)
       (if swap_endianess32 data = 0 then swap_endianess32 (ucast (BackendHostFeatures d))
        else swap_endianess32 (ucast (drop_bit 32 (BackendHostFeatures d)))) d"

definition SetGuestFeatures :: "mmio \<Rightarrow> u32 \<Rightarrow> VirtioDevice \<Rightarrow> VirtioDevice" where
  "SetGuestFeatures m data d =
     (let ackfeatures = (ucast (swap_endianess32 data) :: u64) in
      d\<lparr>AckGuestFeatures :=
          (if reg_mem d (GUEST_FEATURES m + 4) = 0 then (AckGuestFeatures d AND NOT 0xFFFFFFFF) OR ackfeatures
           else (AckGuestFeatures d AND 0xFFFFFFFF) OR push_bit 32 ackfeatures)\<rparr>)"

definition UpdateQueue :: "mmio \<Rightarrow> u32 \<Rightarrow> VirtioDevice \<Rightarrow> VirtioDevice result" where
  "UpdateQueue m i d =
     (let idx = swap_endianess32 i in
      bind_result (SaveQueue m (SelectedIndex d) d) (\<lambda>d.
      bind_result (LoadQueue m idx d) (\<lambda>d. Inr (d\<lparr>SelectedIndex := idx\<rparr>))))"

definition UpdateVirtQueue :: "venv \<Rightarrow> u32 \<Rightarrow> VirtioDevice \<times> GPAMap \<Rightarrow> (VirtioDevice \<times> GPAMap) result" where
  "UpdateVirtQueue e data = (\<lambda>(d, gm).
     let info = info_at (v_mmio e) d; v = HostClient d; i = unat (SelectedIndex d) in
     if i \<ge> length (queues v) then Inl OutOfBounds
     else bind_result (createVring (v_mmap e) (v_ub e) (swap_endianess32 (QueueNum info)) (swap_endianess32 data) (queues v ! i) gm)
            (\<lambda>(q, gm). Inr (d\<lparr>HostClient := v\<lparr>queues := (queues v)[i := q]\<rparr>\<rparr>, gm)))"

definition update_table :: "venv \<Rightarrow> VirtioDevice \<times> GPAMap \<Rightarrow> (VirtioDevice \<times> GPAMap) result" where
  "update_table e = (\<lambda>(d, gm).
     bind_result (updateMemoryTable (v_abi e) (v_mmap e) (v_ub e) (v_indirect e) (v_rings e) (HostClient d, gm))
       (\<lambda>(v, gm). Inr (d\<lparr>HostClient := v\<rparr>, gm)))"

definition StartDevice :: "venv \<Rightarrow> VirtioDevice \<times> GPAMap \<Rightarrow> (VirtioDevice \<times> GPAMap) result" where
  "StartDevice e = (\<lambda>(d, gm).
     bind_result (update_table e (d\<lparr>HostClient := (HostClient d)\<lparr>numQueues := NumQueues d\<rparr>\<rparr>, gm))
       (\<lambda>(d, gm). Inr (d\<lparr>DeviceStarted := True\<rparr>, gm)))"

definition NotifyDevice :: "venv \<Rightarrow> u32 \<Rightarrow> VirtioDevice \<times> GPAMap \<Rightarrow> (VirtioDevice \<times> GPAMap) result" where
  "NotifyDevice e data = (\<lambda>(d, gm).
     if \<not> DeviceStarted d then Inr (d, gm)
     else
       (let idx = swap_endianess32 data in
        bind_result (update_table e (d, gm)) (\<lambda>(d, gm).
          if unat idx \<ge> length (queues (HostClient d)) then Inl OutOfBounds
          else Inr (d\<lparr>kicks := kicks d @ [idx]\<rparr>, gm))))"

section \<open>Interrupts of a device\<close>

text \<open>\<open>line\<close> is the line of the device at the interrupt unit.\<close>

definition UpdateInterrupt :: "nat \<Rightarrow> mmio \<Rightarrow> VirtioDevice \<times> CIU \<Rightarrow> (VirtioDevice \<times> CIU) result" where
  "UpdateInterrupt line m = (\<lambda>(d, s).
     bind_result (if reg_mem d (INTERRUPT_STATUS m) > 0 then generateInterrupt line s else clearInterrupt line s)
       (\<lambda>s. Inr (d, s)))"

definition AckInterrupt :: "nat \<Rightarrow> mmio \<Rightarrow> u32 \<Rightarrow> VirtioDevice \<times> CIU \<Rightarrow> (VirtioDevice \<times> CIU) result" where
  "AckInterrupt line m data = (\<lambda>(d, s).
     UpdateInterrupt line m (put_word (INTERRUPT_STATUS m) (reg_mem d (INTERRUPT_STATUS m) AND NOT data) d, s))"

definition GenerateInterrupt :: "nat \<Rightarrow> mmio \<Rightarrow> VirtioDevice \<times> CIU \<Rightarrow> (VirtioDevice \<times> CIU) result" where
  "GenerateInterrupt line m = (\<lambda>(d, s).
     UpdateInterrupt line m (put_word (INTERRUPT_STATUS m) (swap_endianess32 (INT_VRING m)) d, s))"

text \<open>The thread that waits for the host: a wake-up with something to read is an interrupt.\<close>

definition StartReqPolling :: "nat \<Rightarrow> mmio \<Rightarrow> int \<Rightarrow> VirtioDevice \<times> CIU \<Rightarrow> (VirtioDevice \<times> CIU) result" where
  "StartReqPolling line m ret = (if ret > 0 then GenerateInterrupt line m else Inr)"

section \<open>The disk\<close>

text \<open>Lifting an operation on a part of the state.\<close>

definition on_device :: "(VirtioDevice \<Rightarrow> VirtioDevice result) \<Rightarrow> VirtioDevice \<times> GPAMap \<times> CIU \<Rightarrow> (VirtioDevice \<times> GPAMap \<times> CIU) result" where
  "on_device f = (\<lambda>(d, gm, s). bind_result (f d) (\<lambda>d. Inr (d, gm, s)))"

definition on_memory ::
    "(VirtioDevice \<times> GPAMap \<Rightarrow> (VirtioDevice \<times> GPAMap) result) \<Rightarrow> VirtioDevice \<times> GPAMap \<times> CIU \<Rightarrow> (VirtioDevice \<times> GPAMap \<times> CIU) result" where
  "on_memory f = (\<lambda>(d, gm, s). bind_result (f (d, gm)) (\<lambda>(d, gm). Inr (d, gm, s)))"

definition on_lines ::
    "(VirtioDevice \<times> CIU \<Rightarrow> (VirtioDevice \<times> CIU) result) \<Rightarrow> VirtioDevice \<times> GPAMap \<times> CIU \<Rightarrow> (VirtioDevice \<times> GPAMap \<times> CIU) result" where
  "on_lines f = (\<lambda>(d, gm, s). bind_result (f (d, s)) (\<lambda>(d, s). Inr (d, gm, s)))"

definition VblkStart :: "venv \<Rightarrow> VirtioDevice \<times> GPAMap \<Rightarrow> (VirtioDevice \<times> GPAMap) result" where
  "VblkStart e = StartDevice e"

text \<open>The registers whose store needs no action are those the device only reads later; the \<^verbatim>\<open>default\<close> is the first case.\<close>

definition blk_PerformOperation :: "venv \<Rightarrow> u32 \<Rightarrow> u32 \<Rightarrow> VirtioDevice \<times> GPAMap \<times> CIU \<Rightarrow> (VirtioDevice \<times> GPAMap \<times> CIU) result" where
  "blk_PerformOperation e addr data =
     (let m = v_mmio e in
      if addr = GUEST_FEATURES m then on_device (\<lambda>d. Inr (SetGuestFeatures m data d))
      else if addr = GUEST_FEATURES_SEL m then Inr
      else if addr = QUEUE_SEL m then on_device (UpdateQueue m data)
      else if addr = QUEUE_NUM m then Inr
      else if addr = QUEUE_ALIGN m then Inr
      else if addr = QUEUE_PFN m then on_memory (UpdateVirtQueue e data)
      else if addr = QUEUE_NOTIFY m
      then on_memory (\<lambda>(d, gm).
             bind_result (if \<not> DeviceStarted d then VblkStart e (d, gm) else Inr (d, gm)) (NotifyDevice e data))
      else if addr = INTERRUPT_ACK m then on_lines (AckInterrupt CIU_SUM_GPIO0 m data)
      else if addr = STATUS m then Inr
      else on_device (\<lambda>d. Inr (SelHostFeatures m data d)))"

text \<open>A store into the configuration space only prints a line.\<close>

definition blk_io_write :: "venv \<Rightarrow> DeviceMessageBox \<Rightarrow> VirtioDevice \<times> GPAMap \<times> CIU \<Rightarrow> (VirtioDevice \<times> GPAMap \<times> CIU) result" where
  "blk_io_write e b =
     (let addr = ucast (mb_addr b AND VNET_OFFSET_MASK); data = ucast (mb_data b) in
      if addr \<ge> CONFIG (v_mmio e) then Inr else blk_PerformOperation e addr data)"

definition blk_service :: "venv \<Rightarrow> DeviceMessageBox \<Rightarrow> VirtioDevice \<times> GPAMap \<times> CIU \<Rightarrow> (VirtioDevice \<times> GPAMap \<times> CIU) result" where
  "blk_service e b = (if mb_RW b = ST_WRITE then blk_io_write e b else Inr)"

section \<open>The start of the disk\<close>

abbreviation (input) DISK_CAPACITY :: u64 where "DISK_CAPACITY \<equiv> 128 * 1024 * 1024"
abbreviation (input) DISK_SECTORS :: u64 where "DISK_SECTORS \<equiv> 128 * 1024 * 1024 div 512"

record virtio_blk_config =
  capacity :: u64
  size_max :: u32
  seg_max :: u32
  blk_size :: u32

definition InitConfig :: "virtio_blk_config \<Rightarrow> virtio_blk_config" where
  "InitConfig c = c\<lparr>capacity := DISK_SECTORS, blk_size := 512, seg_max := 2, size_max := 4096\<rparr>"

definition blk_GetBackendHostFeatures :: "features \<Rightarrow> VirtioDevice \<Rightarrow> VirtioDevice" where
  "blk_GetBackendHostFeatures f d =
     d\<lparr>BackendHostFeatures := (of_nat (F_INDIRECT_DESC f) OR of_nat (F_EVENT_IDX f)) OR flag (BLK_F_FLUSH f)
        OR flag (BLK_F_SEG_MAX f) OR flag (BLK_F_SIZE_MAX f) OR flag (BLK_F_BLK_SIZE f)\<rparr>"

text \<open>Nothing in the disk calls \<^verbatim>\<open>GetBackendGuestFeatures\<close> or \<^verbatim>\<open>UpdateStatus\<close>; the network card has its own.\<close>

definition blk_GetBackendGuestFeatures :: "features \<Rightarrow> VirtioDevice \<Rightarrow> u64" where
  "blk_GetBackendGuestFeatures f d =
     AckGuestFeatures d AND NOT (flag (BLK_F_BARRIER f)) AND NOT (flag (BLK_F_SIZE_MAX f)) AND NOT (flag (BLK_F_SEG_MAX f))
       AND NOT (flag (BLK_F_GEOMETRY f)) AND NOT (flag (BLK_F_RO f)) AND NOT (flag (BLK_F_BLK_SIZE f))
       AND NOT (flag (BLK_F_SCSI f)) AND NOT (flag (BLK_F_FLUSH f))"

definition blk_UpdateStatus :: "venv \<Rightarrow> u32 \<Rightarrow> VirtioDevice \<times> GPAMap \<Rightarrow> (VirtioDevice \<times> GPAMap) result" where
  "blk_UpdateStatus e stat = (\<lambda>(d, gm).
     if swap_endianess32 stat AND S_DRIVER_OK (v_mmio e) \<noteq> 0 \<and> \<not> DeviceStarted d then VblkStart e (d, gm) else Inr (d, gm))"

definition new_VirtioBlk :: "mmio \<Rightarrow> features \<Rightarrow> VirtioDevice \<times> virtio_blk_config \<Rightarrow> (VirtioDevice \<times> virtio_blk_config) result" where
  "new_VirtioBlk m f = (\<lambda>(d, c).
     bind_result (Initialize m BLOCK_DEVICE_ID (d\<lparr>NumQueues := 1\<rparr>)) (\<lambda>d.
       let v = HostClient d in
       Inr (blk_GetBackendHostFeatures f (d\<lparr>HostClient := new_Vhost False (queues v) (numQueues v)\<rparr>), InitConfig c)))"

section \<open>The network card\<close>

text \<open>The offloads of the tap device, as the word its control call gets.\<close>

definition TapSetOffload :: "features \<Rightarrow> u64 \<Rightarrow> u64" where
  "TapSetOffload f features =
     (let has = (\<lambda>n. drop_bit n features AND 1 \<noteq> 0) in
      if \<not> has (NET_F_GUEST_CSUM f) then 0
      else TUN_CSUM f OR (if has (NET_F_GUEST_TSO4 f) then TUN_TSO4 f else 0)
             OR (if has (NET_F_GUEST_TSO6 f) then TUN_TSO6 f else 0)
             OR (if has (NET_F_GUEST_ECN f) then TUN_TSO_ECN f else 0)
             OR (if has (NET_F_GUEST_UFO f) then TUN_UFO f else 0))"

text \<open>\<open>host\<close> is what the host offers.\<close>

definition net_GetBackendHostFeatures :: "features \<Rightarrow> u64 \<Rightarrow> VirtioDevice \<Rightarrow> VirtioDevice" where
  "net_GetBackendHostFeatures f host d =
     d\<lparr>BackendHostFeatures := host OR flag (NET_F_CSUM f) OR flag (NET_F_HOST_TSO4 f) OR flag (NET_F_HOST_TSO6 f)
        OR flag (NET_F_HOST_ECN f) OR flag (NET_F_HOST_UFO f)\<rparr>"

definition net_GetBackendGuestFeatures :: "features \<Rightarrow> VirtioDevice \<Rightarrow> u64" where
  "net_GetBackendGuestFeatures f d =
     AckGuestFeatures d AND NOT (flag (NET_F_CSUM f)) AND NOT (flag (NET_F_HOST_TSO4 f)) AND NOT (flag (NET_F_HOST_TSO6 f))
       AND NOT (flag (NET_F_HOST_ECN f)) AND NOT (flag (NET_F_HOST_UFO f))
       AND NOT (flag (NET_F_GUEST_CSUM f)) AND NOT (flag (NET_F_GUEST_TSO4 f)) AND NOT (flag (NET_F_GUEST_TSO6 f))
       AND NOT (flag (NET_F_GUEST_ECN f)) AND NOT (flag (NET_F_GUEST_UFO f))"

definition VnetStart :: "venv \<Rightarrow> features \<Rightarrow> VirtioDevice \<times> GPAMap \<Rightarrow> (VirtioDevice \<times> GPAMap) result" where
  "VnetStart e f = (\<lambda>(d, gm).
     StartDevice e
       (d\<lparr>host_features := host_features d @ [(TapSetOffload f (AckGuestFeatures d), net_GetBackendGuestFeatures f d)]\<rparr>, gm))"

definition net_UpdateStatus :: "venv \<Rightarrow> features \<Rightarrow> u32 \<Rightarrow> VirtioDevice \<times> GPAMap \<Rightarrow> (VirtioDevice \<times> GPAMap) result" where
  "net_UpdateStatus e f stat s =
     (if swap_endianess32 stat AND S_DRIVER_OK (v_mmio e) \<noteq> 0 then VnetStart e f s else Inr s)"

definition net_PerformOperation ::
    "venv \<Rightarrow> features \<Rightarrow> u32 \<Rightarrow> u32 \<Rightarrow> VirtioDevice \<times> GPAMap \<times> CIU \<Rightarrow> (VirtioDevice \<times> GPAMap \<times> CIU) result" where
  "net_PerformOperation e f addr data =
     (let m = v_mmio e in
      if addr = GUEST_FEATURES m then on_device (\<lambda>d. Inr (SetGuestFeatures m data d))
      else if addr = GUEST_FEATURES_SEL m then Inr
      else if addr = QUEUE_SEL m then on_device (UpdateQueue m data)
      else if addr = QUEUE_NUM m then Inr
      else if addr = QUEUE_ALIGN m then Inr
      else if addr = QUEUE_PFN m then on_memory (UpdateVirtQueue e data)
      else if addr = QUEUE_NOTIFY m then on_memory (NotifyDevice e data)
      else if addr = INTERRUPT_ACK m then on_lines (AckInterrupt CIU_SUM_GPIO1 m data)
      else if addr = STATUS m then on_memory (net_UpdateStatus e f data)
      else on_device (\<lambda>d. Inr (SelHostFeatures m data d)))"

definition net_io_write :: "venv \<Rightarrow> features \<Rightarrow> DeviceMessageBox \<Rightarrow> VirtioDevice \<times> GPAMap \<times> CIU \<Rightarrow> (VirtioDevice \<times> GPAMap \<times> CIU) result" where
  "net_io_write e f b =
     (let addr = ucast (mb_addr b AND VNET_OFFSET_MASK); data = ucast (mb_data b) in
      if addr \<ge> CONFIG (v_mmio e) then Inr else net_PerformOperation e f addr data)"

definition net_service :: "venv \<Rightarrow> features \<Rightarrow> DeviceMessageBox \<Rightarrow> VirtioDevice \<times> GPAMap \<times> CIU \<Rightarrow> (VirtioDevice \<times> GPAMap \<times> CIU) result" where
  "net_service e f b = (if mb_RW b = ST_WRITE then net_io_write e f b else Inr)"

definition new_VirtioNet :: "mmio \<Rightarrow> features \<Rightarrow> u64 \<Rightarrow> VirtioDevice \<Rightarrow> VirtioDevice result" where
  "new_VirtioNet m f host d =
     bind_result (Initialize m NETWORK_CARD_ID (d\<lparr>NumQueues := 2\<rparr>)) (\<lambda>d.
       let v = HostClient d in
       Inr (net_GetBackendHostFeatures f host (d\<lparr>HostClient := new_Vhost True (queues v) (numQueues v)\<rparr>)))"

section \<open>Negotiation of the features\<close>

text \<open>
  What a driver does with a register: its store goes to the register's word first and the device acts on the message after it.
  \<open>perform\<close> is the operation of either device. The registers are different words.
\<close>

definition registers_apart :: "mmio \<Rightarrow> bool" where
  "registers_apart m = distinct [HOST_FEATURES m, HOST_FEATURES_SEL m, GUEST_FEATURES m, GUEST_FEATURES_SEL m, QUEUE_SEL m, QUEUE_NUM m,
       QUEUE_ALIGN m, QUEUE_PFN m, QUEUE_NOTIFY m, INTERRUPT_STATUS m, INTERRUPT_ACK m, STATUS m, QUEUE_SEL m + 4]"

definition mmio_ok :: "mmio \<Rightarrow> bool" where
  "mmio_ok m = (registers_apart m \<and> HOST_FEATURES_SEL m = HOST_FEATURES m + 4 \<and> GUEST_FEATURES_SEL m = GUEST_FEATURES m + 4
     \<and> QUEUE_NUM m = QUEUE_SEL m + 8 \<and> QUEUE_ALIGN m = QUEUE_SEL m + 12 \<and> QUEUE_PFN m = QUEUE_SEL m + 16)"

type_synonym device = "VirtioDevice \<times> GPAMap \<times> CIU"

definition driver_store :: "(u32 \<Rightarrow> u32 \<Rightarrow> device \<Rightarrow> device result) \<Rightarrow> u32 \<Rightarrow> u32 \<Rightarrow> device \<Rightarrow> device result" where
  "driver_store perform addr data = (\<lambda>(d, s). perform addr data (put_word addr data d, s))"

text \<open>A driver that accepts every feature: for each half, it selects it, reads what the device offers and stores it back.\<close>

definition negotiate_half :: "mmio \<Rightarrow> (u32 \<Rightarrow> u32 \<Rightarrow> device \<Rightarrow> device result) \<Rightarrow> u32 \<Rightarrow> device \<Rightarrow> device result" where
  "negotiate_half m perform half s =
     bind_result (driver_store perform (HOST_FEATURES_SEL m) (swap_endianess32 half) s) (\<lambda>s.
     bind_result (driver_store perform (GUEST_FEATURES_SEL m) (swap_endianess32 half) s) (\<lambda>s.
       driver_store perform (GUEST_FEATURES m) (reg_mem (fst s) (HOST_FEATURES m)) s))"

definition negotiate :: "mmio \<Rightarrow> (u32 \<Rightarrow> u32 \<Rightarrow> device \<Rightarrow> device result) \<Rightarrow> device \<Rightarrow> device result" where
  "negotiate m perform s = bind_result (negotiate_half m perform 0 s) (negotiate_half m perform 1)"

lemma swap_swap [simp]: "swap_endianess32 (swap_endianess32 x) = x"
  by (rule word32_eqI) (simp add: swap_endianess32_def bitblast bit_simps)

lemma swap_zero_iff [simp]: "swap_endianess32 x = 0 \<longleftrightarrow> x = 0"
proof -
  have "swap_endianess32 0 = 0" by (simp add: swap_endianess32_def)
  then show ?thesis using swap_swap [of x] by metis
qed

lemma halves_of_features:
  "(((a AND NOT 0xFFFFFFFF) OR ucast (ucast b :: u32)) AND 0xFFFFFFFF) OR push_bit 32 (ucast (ucast (drop_bit 32 b) :: u32)) = (b :: u64)"
  by (rule word64_eqI) (simp add: bitblast bit_simps)

text \<open>The two registers behave the same in both devices.\<close>

definition feature_registers :: "mmio \<Rightarrow> (u32 \<Rightarrow> u32 \<Rightarrow> device \<Rightarrow> device result) \<Rightarrow> bool" where
  "feature_registers m perform =
     (\<forall>data d s. perform (HOST_FEATURES_SEL m) data (d, s) = Inr (SelHostFeatures m data d, s)
        \<and> perform (GUEST_FEATURES_SEL m) data (d, s) = Inr (d, s)
        \<and> perform (GUEST_FEATURES m) data (d, s) = Inr (SetGuestFeatures m data d, s))"

lemma devices_feature_registers:
  assumes "registers_apart (v_mmio e)"
  shows "feature_registers (v_mmio e) (blk_PerformOperation e)" "feature_registers (v_mmio e) (net_PerformOperation e f)"
  using assms
  by (auto simp: feature_registers_def registers_apart_def blk_PerformOperation_def net_PerformOperation_def on_device_def Let_def)

lemma negotiate_half_ends:
  assumes "feature_registers m perform" "registers_apart m" "GUEST_FEATURES_SEL m = GUEST_FEATURES m + 4"
  shows "\<exists>d'. negotiate_half m perform half (d, s) = Inr (d', s) \<and> BackendHostFeatures d' = BackendHostFeatures d
    \<and> AckGuestFeatures d' =
        (if half = 0 then (AckGuestFeatures d AND NOT 0xFFFFFFFF) OR ucast (ucast (BackendHostFeatures d) :: u32)
         else (AckGuestFeatures d AND 0xFFFFFFFF) OR push_bit 32 (ucast (ucast (drop_bit 32 (BackendHostFeatures d)) :: u32)))"
proof -
  have p: "\<And>data d s. perform (HOST_FEATURES_SEL m) data (d, s) = Inr (SelHostFeatures m data d, s)"
      "\<And>data d s. perform (GUEST_FEATURES_SEL m) data (d, s) = Inr (d, s)"
      "\<And>data d s. perform (GUEST_FEATURES m) data (d, s) = Inr (SetGuestFeatures m data d, s)"
    using assms(1) unfolding feature_registers_def by blast+
  show ?thesis
    using assms(2) by (auto simp: negotiate_half_def driver_store_def p put_word_def SelHostFeatures_def SetGuestFeatures_def
      registers_apart_def Let_def simp flip: assms(3))
qed

lemma negotiation_ends:
  assumes "feature_registers m perform" "registers_apart m" "GUEST_FEATURES_SEL m = GUEST_FEATURES m + 4"
  shows "\<exists>d'. negotiate m perform (d, s) = Inr (d', s) \<and> AckGuestFeatures d' = BackendHostFeatures d"
proof -
  obtain d1 where 1: "negotiate_half m perform 0 (d, s) = Inr (d1, s)" "BackendHostFeatures d1 = BackendHostFeatures d"
      "AckGuestFeatures d1 = (AckGuestFeatures d AND NOT 0xFFFFFFFF) OR ucast (ucast (BackendHostFeatures d) :: u32)"
    using negotiate_half_ends [OF assms, of 0 d s] by auto
  obtain d2 where "negotiate_half m perform 1 (d1, s) = Inr (d2, s)"
      "AckGuestFeatures d2 = (AckGuestFeatures d1 AND 0xFFFFFFFF) OR push_bit 32 (ucast (ucast (drop_bit 32 (BackendHostFeatures d1)) :: u32))"
    using negotiate_half_ends [OF assms, of 1 d1 s] by auto
  then show ?thesis using 1 halves_of_features [of "AckGuestFeatures d" "BackendHostFeatures d"] by (simp add: negotiate_def)
qed

text \<open>
  Property C26. The features survive the negotiation. A driver that reads the two halves of the offered features through the
  selection register and stores them back leaves the disk and the network card with exactly the features they offer, although
  every word is swapped on its way in and out.
\<close>

theorem features_negotiated:
  assumes "mmio_ok (v_mmio e)"
  shows "(\<exists>d'. negotiate (v_mmio e) (blk_PerformOperation e) (d, gm, s) = Inr (d', gm, s) \<and> AckGuestFeatures d' = BackendHostFeatures d)
    \<and> (\<exists>d'. negotiate (v_mmio e) (net_PerformOperation e f) (d, gm, s) = Inr (d', gm, s) \<and> AckGuestFeatures d' = BackendHostFeatures d)"
  using assms devices_feature_registers(1) [of e] devices_feature_registers(2) [of e f] negotiation_ends [of "v_mmio e"] by (simp add: mmio_ok_def)

text \<open>The registers where the kernel's headers have them, and a device with everything zero but its features.\<close>

definition sample_mmio :: mmio where
  "sample_mmio = \<lparr>HOST_FEATURES = 0x10, HOST_FEATURES_SEL = 0x14, GUEST_FEATURES = 0x20, GUEST_FEATURES_SEL = 0x24,
     QUEUE_SEL = 0x30, QUEUE_NUM = 0x38, QUEUE_ALIGN = 0x3c, QUEUE_PFN = 0x40, QUEUE_NOTIFY = 0x50, INTERRUPT_STATUS = 0x60,
     INTERRUPT_ACK = 0x64, STATUS = 0x70, CONFIG = 0x100, INT_VRING = 1, S_DRIVER_OK = 4\<rparr>"

definition sample_device :: VirtioDevice where
  "sample_device = \<lparr>reg_mem = (\<lambda>_. 0), AckGuestFeatures = 0, BackendHostFeatures = 0x130000254, DeviceStarted = False,
     SavedQueues = replicate 3 \<lparr>QueueNumMax = 0x10000, QueueNum = 0, QueueAlign = 0, QueuePFN = 0\<rparr>, SelectedIndex = 0, NumQueues = 1,
     HostClient = new_Vhost False [] 0, kicks = [], host_features = []\<rparr>"

definition sample_venv :: venv where
  "sample_venv = \<lparr>v_abi = sample_abi, v_mmap = (\<lambda>_ _. None), v_ub = 0, v_indirect = (\<lambda>_. ring_desc sample_ring), v_rings = (\<lambda>_. sample_ring), v_mmio = sample_mmio\<rparr>"

lemma sample_mmio_ok [simp]: "mmio_ok sample_mmio" "registers_apart sample_mmio"
  by (simp_all add: mmio_ok_def registers_apart_def sample_mmio_def)

theorem features_negotiated_witness:
  "\<exists>d'. negotiate sample_mmio (blk_PerformOperation sample_venv) (sample_device, sample_map, reset_CIU) = Inr (d', sample_map, reset_CIU)
     \<and> AckGuestFeatures d' = 0x130000254"
  using features_negotiated [of sample_venv sample_device sample_map reset_CIU] by (simp add: sample_venv_def sample_device_def)

section \<open>The selection of a queue\<close>

lemma info_words [simp]:
  "info_at m (put_info m q d) = q" "info_at m (put_word (QUEUE_SEL m) v d) = info_at m d"
  by (simp_all add: info_at_def put_info_def put_word_def)

lemma device_words [simp]:
  "SavedQueues (put_word k v d) = SavedQueues d" "SelectedIndex (put_word k v d) = SelectedIndex d"
  "SavedQueues (put_info m q d) = SavedQueues d" "SelectedIndex (put_info m q d) = SelectedIndex d"
  by (simp_all add: put_word_def put_info_def)

text \<open>Selecting \<open>j\<close>: the registers of the queue in view are kept and those of \<open>j\<close> come into view.\<close>

lemma select_queue:
  assumes "registers_apart (v_mmio e)" "unat (SelectedIndex d) < length (SavedQueues d)"
  shows "if unat j < length (SavedQueues d)
    then \<exists>d'. driver_store (blk_PerformOperation e) (QUEUE_SEL (v_mmio e)) (swap_endianess32 j) (d, gm, s) = Inr (d', gm, s)
      \<and> SelectedIndex d' = j \<and> SavedQueues d' = (SavedQueues d)[unat (SelectedIndex d) := info_at (v_mmio e) d]
      \<and> info_at (v_mmio e) d' = SavedQueues d' ! unat j
    else driver_store (blk_PerformOperation e) (QUEUE_SEL (v_mmio e)) (swap_endianess32 j) (d, gm, s) = Inl OutOfBounds"
proof -
  have "QUEUE_SEL (v_mmio e) \<noteq> GUEST_FEATURES (v_mmio e)" "QUEUE_SEL (v_mmio e) \<noteq> GUEST_FEATURES_SEL (v_mmio e)"
    using assms(1) by (auto simp: registers_apart_def)
  then have "driver_store (blk_PerformOperation e) (QUEUE_SEL (v_mmio e)) (swap_endianess32 j) (d, gm, s) =
      on_device (UpdateQueue (v_mmio e) (swap_endianess32 j)) (put_word (QUEUE_SEL (v_mmio e)) (swap_endianess32 j) d, gm, s)"
    by (simp add: driver_store_def blk_PerformOperation_def Let_def)
  moreover have "info_at m (d\<lparr>SelectedIndex := k\<rparr>) = info_at m d" for m k and d :: VirtioDevice
    by (simp add: info_at_def)
  ultimately show ?thesis using assms(2) by (simp add: on_device_def UpdateQueue_def SaveQueue_def LoadQueue_def Let_def)
qed

text \<open>
  Property C27. The guest sees the registers of each queue as it left them. Selecting another queue and then the first one again
  brings back its size, alignment and page number; an index beyond the three queues, which nothing checks, makes the device
  read outside of its array.
\<close>

theorem queue_selection_roundtrip:
  assumes "registers_apart (v_mmio e)" "length (SavedQueues d) = 3" "unat (SelectedIndex d) < 3"
  shows "if unat j < 3
    then \<exists>d1 d2. driver_store (blk_PerformOperation e) (QUEUE_SEL (v_mmio e)) (swap_endianess32 j) (d, gm, s) = Inr (d1, gm, s)
      \<and> driver_store (blk_PerformOperation e) (QUEUE_SEL (v_mmio e)) (swap_endianess32 (SelectedIndex d)) (d1, gm, s) = Inr (d2, gm, s)
      \<and> SelectedIndex d1 = j \<and> SelectedIndex d2 = SelectedIndex d \<and> info_at (v_mmio e) d2 = info_at (v_mmio e) d
    else driver_store (blk_PerformOperation e) (QUEUE_SEL (v_mmio e)) (swap_endianess32 j) (d, gm, s) = Inl OutOfBounds"
proof (cases "unat j < 3")
  case True
  then obtain d1 where 1: "driver_store (blk_PerformOperation e) (QUEUE_SEL (v_mmio e)) (swap_endianess32 j) (d, gm, s) = Inr (d1, gm, s)"
      "SelectedIndex d1 = j" "SavedQueues d1 = (SavedQueues d)[unat (SelectedIndex d) := info_at (v_mmio e) d]"
      "info_at (v_mmio e) d1 = SavedQueues d1 ! unat j"
    using select_queue [OF assms(1), of d j gm s] assms(2,3) by auto
  have l: "unat (SelectedIndex d1) < length (SavedQueues d1)" "unat (SelectedIndex d) < length (SavedQueues d1)"
    using 1 assms True by simp_all
  then obtain d2 where "driver_store (blk_PerformOperation e) (QUEUE_SEL (v_mmio e)) (swap_endianess32 (SelectedIndex d)) (d1, gm, s) = Inr (d2, gm, s)"
      "SelectedIndex d2 = SelectedIndex d" "SavedQueues d2 = (SavedQueues d1)[unat j := info_at (v_mmio e) d1]"
      "info_at (v_mmio e) d2 = SavedQueues d2 ! unat (SelectedIndex d)"
    using select_queue [OF assms(1) l(1), of "SelectedIndex d" gm s] 1(2) by auto
  then show ?thesis using 1 assms True by simp
next
  case False
  then show ?thesis using select_queue [OF assms(1), of d j gm s] assms(2,3) by simp
qed

theorem queue_selection_roundtrip_witness:
  "driver_store (blk_PerformOperation sample_venv) 0x30 (swap_endianess32 7) (sample_device, sample_map, reset_CIU) = Inl OutOfBounds"
  using queue_selection_roundtrip [of sample_venv sample_device 7 sample_map reset_CIU]
  by (simp add: sample_venv_def sample_device_def) (simp add: sample_mmio_def)

section \<open>The interrupt of a device\<close>

text \<open>
  Property C28. The interrupt of the disk goes up and comes down. When the host has finished a request, interrupt 2 becomes
  pending in every core that enables the disk's line; the guest's acknowledgement lowers the line exactly when it names
  every bit of the status word, and the registers of the interrupt unit stay consistent with the cores throughout.
\<close>

theorem disk_interrupt_cycle:
  assumes "irq_consistent s" "registers_apart (v_mmio e)" "INT_VRING (v_mmio e) \<noteq> 0" "ret > 0"
  shows "\<exists>d1 s1 d2 s2. StartReqPolling CIU_SUM_GPIO0 (v_mmio e) ret (d, s) = Inr (d1, s1)
    \<and> (\<forall>c < length (cores s). bit (word_at s (INT_EN0 (c * 2))) CIU_SUM_GPIO0 \<longrightarrow> bit (cp0_read (cores s1 ! c) H2_CP0_CAUSE SEL_ZERO) 10)
    \<and> blk_PerformOperation e (INTERRUPT_ACK (v_mmio e)) ack (d1, gm, s1) = Inr (d2, gm, s2) \<and> irq_consistent s2
    \<and> (\<forall>c < length (cores s). \<forall>j \<in> summary_words c.
          bit (word_at s2 j) CIU_SUM_GPIO0 = (swap_endianess32 (INT_VRING (v_mmio e)) AND NOT ack \<noteq> 0))"
proof -
  let ?m = "v_mmio e"
  let ?d1 = "put_word (INTERRUPT_STATUS ?m) (swap_endianess32 (INT_VRING ?m)) d"
  let ?up = "swap_endianess32 (INT_VRING ?m) AND NOT ack \<noteq> 0"
  have l: "length (cores s) \<le> 12" using assms(1) by (simp add: irq_consistent_def)
  obtain s1 where s1: "generateInterrupt CIU_SUM_GPIO0 s = Inr s1" "irq_consistent s1" "length (cores s1) = length (cores s)"
      "\<forall>c < 24. word_at s1 (INT_EN0 c) = word_at s (INT_EN0 c)"
      "\<forall>c < length (cores s). \<forall>j \<in> summary_words c. bit (word_at s1 j) CIU_SUM_GPIO0"
    using line_driven [OF assms(1), of CIU_SUM_GPIO0 True] by auto
  obtain s2 where s2: "(if ?up then generateInterrupt CIU_SUM_GPIO0 s1 else clearInterrupt CIU_SUM_GPIO0 s1) = Inr s2"
      "irq_consistent s2" "\<forall>c < length (cores s). \<forall>j \<in> summary_words c. bit (word_at s2 j) CIU_SUM_GPIO0 = ?up"
    using line_driven [OF s1(2), of CIU_SUM_GPIO0 ?up] s1(3) by auto
  have a: "StartReqPolling CIU_SUM_GPIO0 ?m ret (d, s) = Inr (?d1, s1)"
    using s1(1) assms(3,4) by (simp add: StartReqPolling_def GenerateInterrupt_def UpdateInterrupt_def put_word_def word_gt_0)
  have b: "bit (cp0_read (cores s1 ! c) H2_CP0_CAUSE SEL_ZERO) 10"
    if "c < length (cores s)" "bit (word_at s (INT_EN0 (c * 2))) CIU_SUM_GPIO0" for c
    using line_pending [OF s1(2), of c CIU_SUM_GPIO0] s1(3,4,5) that l by (simp add: summary_words_def)
  have "INTERRUPT_ACK ?m \<notin> {GUEST_FEATURES ?m, GUEST_FEATURES_SEL ?m, QUEUE_SEL ?m, QUEUE_NUM ?m, QUEUE_ALIGN ?m, QUEUE_PFN ?m, QUEUE_NOTIFY ?m}"
    using assms(2) unfolding registers_apart_def by auto
  then have "blk_PerformOperation e (INTERRUPT_ACK ?m) ack (?d1, gm, s1) = on_lines (AckInterrupt CIU_SUM_GPIO0 ?m ack) (?d1, gm, s1)"
    by (simp add: blk_PerformOperation_def Let_def)
  moreover have "\<exists>d2. on_lines (AckInterrupt CIU_SUM_GPIO0 ?m ack) (?d1, gm, s1) = Inr (d2, gm, s2)"
    using s2(1) by (auto simp: on_lines_def AckInterrupt_def UpdateInterrupt_def put_word_def word_gt_0 split: if_splits)
  ultimately obtain d2 where c: "blk_PerformOperation e (INTERRUPT_ACK ?m) ack (?d1, gm, s1) = Inr (d2, gm, s2)" by auto
  show ?thesis
    by (rule exI [of _ ?d1], rule exI [of _ s1], rule exI [of _ d2], rule exI [of _ s2]) (use a b c s2(2,3) in blast)
qed

theorem disk_interrupt_cycle_witness:
  "\<exists>d1 s1 d2 s2. StartReqPolling CIU_SUM_GPIO0 sample_mmio 1 (sample_device, reset_CIU) = Inr (d1, s1)
     \<and> blk_PerformOperation sample_venv 0x64 (swap_endianess32 1) (d1, sample_map, s1) = Inr (d2, sample_map, s2) \<and> \<not> bit (word_at s2 (INT_SUM0 0)) 16"
proof -
  have e: "v_mmio sample_venv = sample_mmio" by (simp add: sample_venv_def)
  have v: "INT_VRING sample_mmio = 1" "INTERRUPT_ACK sample_mmio = 0x64" by (simp_all add: sample_mmio_def)
  have z: "swap_endianess32 1 AND NOT (swap_endianess32 1) = 0" by simp
  have a: "registers_apart (v_mmio sample_venv)" "INT_VRING (v_mmio sample_venv) \<noteq> 0" unfolding e v by simp_all
  have n: "0 < length (cores reset_CIU)" "INT_SUM0 0 \<in> summary_words 0" by (simp_all add: reset_CIU_simps summary_words_def)
  obtain d1 s1 d2 s2 where "StartReqPolling CIU_SUM_GPIO0 sample_mmio 1 (sample_device, reset_CIU) = Inr (d1, s1)"
      "blk_PerformOperation sample_venv 0x64 (swap_endianess32 1) (d1, sample_map, s1) = Inr (d2, sample_map, s2)"
      "\<forall>c < length (cores reset_CIU). \<forall>j \<in> summary_words c. \<not> bit (word_at s2 j) CIU_SUM_GPIO0"
    using disk_interrupt_cycle [OF reset_consistent a zero_less_one, of sample_device "swap_endianess32 1" sample_map]
    unfolding e v z by blast
  then show ?thesis using n by blast
qed

end
