(* ===== verification/Board.thy ===== *)
theory Board
  imports ProcessorCorrect Virtio
begin

text \<open>
  The start of the hypervisor and what holds its parts together: the command line, \<^verbatim>\<open>CLParser.cpp\<close> and
  \<^verbatim>\<open>Specifications.cpp\<close>, the board, \<^verbatim>\<open>SystemBoard_IPE.cpp\<close>, the signals of the host, \<^verbatim>\<open>SignalHandler.cpp\<close>, and
  the general registers, \<^verbatim>\<open>GPR_IPE.cpp\<close>.

  A path is the string its pointer points to when it is stored. The files of the host are a function from paths to
  contents; \<open>stored\<close> lists what the start writes into guest memory, as host addresses with bytes. The constructors of the cores, the
  interrupt unit, the port and the disk are those of their theories; the fields \<open>old_\<close> of the record \<open>start_env\<close> are what memory holds
  before them. A core's CP0 registers are in the core and, as what its pointer reaches, in the interrupt unit; \<open>set_core\<close>
  and \<open>set_unit\<close> change both. Creating and joining the threads does not change the state, and a network card is only there in builds that ask for it.
\<close>

section \<open>The command line\<close>

record Specifications =
  numcores :: int
  uboot_path :: string
  kernel_path :: string















section \<open>General registers\<close>

definition gpr_read :: "int \<Rightarrow> (nat \<Rightarrow> u64) \<Rightarrow> u64 result" where
  "gpr_read regid gregs = (if regid < 0 \<or> regid > 31 then Inl ExitError else Inr (gregs (nat regid)))"

definition gpr_write :: "u64 \<Rightarrow> int \<Rightarrow> (nat \<Rightarrow> u64) \<Rightarrow> (nat \<Rightarrow> u64) result" where
  "gpr_write val regid gregs = (if regid < 0 \<or> regid > 31 then Inl ExitError else Inr (gregs(nat regid := val)))"

section \<open>The board\<close>

abbreviation (input) UBOOT_LOAD_ADDRESS :: u64 where "UBOOT_LOAD_ADDRESS \<equiv> 0xFFFFFFFFBFC00000"
abbreviation (input) KERNEL_LOAD_ADDRESS :: u64 where "KERNEL_LOAD_ADDRESS \<equiv> 0xFFFFFFFFA0800000"
abbreviation (input) NPEI_DBG_ADDRESS :: u64 where "NPEI_DBG_ADDRESS \<equiv> 0x80011F0000008510"
abbreviation (input) NPEI_DBG_DATA :: u64 where "NPEI_DBG_DATA \<equiv> 0x0000000014420000"
abbreviation (input) Allocated_memory :: u64 where "Allocated_memory \<equiv> 1024 * 1024 * 1024"

record start_env =
  host :: Host
  files :: "string \<Rightarrow> u8 list option"
  old_asids :: "nat \<Rightarrow> nat \<Rightarrow> u8"
  old_cache :: AddrTranslationCache
  old_time :: u64
  old_tlb :: TLB_IPE
  old_iocache :: AddrTranslationCache
  old_boxes :: "DeviceMessageBox list"
  old_words :: "nat \<Rightarrow> u64"
  old_uart :: UART
  old_disk :: "VirtioDevice \<times> virtio_blk_config"
  registers :: mmio
  feature_bits :: features

type_synonym writes = "(u64 \<times> u8 list) list"

record Board =
  Processors :: "Processor_IPE list"
  CIUnit :: CIU
  UARTunit :: UART
  Disk :: VirtioDevice
  Disk_config :: virtio_blk_config
  stored :: writes
  board_map :: GPAMap

text \<open>The translation for the loader, with the exit when it fails.\<close>

definition load_address :: "Host \<Rightarrow> u64 \<Rightarrow> GPAMap \<Rightarrow> (u64 \<times> GPAMap) result" where
  "load_address h GVA gm =
     bind_result (GVAtoHVA_for_fileloading (mmap h) (undefined_size h) GVA gm)
       (\<lambda>(r, gm). case r of None \<Rightarrow> Inl ExitError | Some HVA \<Rightarrow> Inr (HVA, gm))"

text \<open>The size read is the size of the file; nothing compares it with the region.\<close>

definition loadfile :: "start_env \<Rightarrow> string \<Rightarrow> u64 \<Rightarrow> writes \<Rightarrow> writes result" where
  "loadfile e name loadAddr ws = (case files e name of None \<Rightarrow> Inl ExitError | Some bytes \<Rightarrow> Inr (ws @ [(loadAddr, bytes)]))"

definition loadFirmware :: "start_env \<Rightarrow> Specifications \<Rightarrow> GPAMap \<Rightarrow> (writes \<times> GPAMap) result" where
  "loadFirmware e specs gm =
     bind_result (load_address (host e) UBOOT_LOAD_ADDRESS gm) (\<lambda>(binaryLoadAddr, gm).
     bind_result (load_address (host e) KERNEL_LOAD_ADDRESS gm) (\<lambda>(kernelLoadAddr, gm).
     bind_result (loadfile e (uboot_path specs) binaryLoadAddr []) (\<lambda>ws.
     bind_result (loadfile e (kernel_path specs) kernelLoadAddr ws) (\<lambda>ws. Inr (ws, gm)))))"

text \<open>The bytes of a 64-bit word on the big-endian host.\<close>

definition word_bytes :: "u64 \<Rightarrow> u8 list" where
  "word_bytes v = map (\<lambda>i. ucast (drop_bit (8 * (7 - i)) v)) [0..<8]"

definition initializeMemorySegments :: "start_env \<Rightarrow> writes \<times> GPAMap \<Rightarrow> (writes \<times> GPAMap) result" where
  "initializeMemorySegments e = (\<lambda>(ws, gm).
     bind_result (load_address (host e) NPEI_DBG_ADDRESS gm) (\<lambda>(NPEI_DBG_Addr, gm).
       Inr (ws @ [(NPEI_DBG_Addr, word_bytes NPEI_DBG_DATA)], gm)))"

fun new_Processors :: "start_env \<Rightarrow> nat \<Rightarrow> IOManager \<Rightarrow> GPAMap \<Rightarrow> Processor_IPE list result" where
  "new_Processors e 0 m gm = Inr []"
| "new_Processors e (Suc n) m gm =
     bind_result (new_Processor (host e) (old_asids e) (old_cache e) (old_time e) (old_tlb e) m gm) (\<lambda>p.
     bind_result (new_Processors e n m gm) (\<lambda>ps. Inr (p # ps)))"

definition set_core :: "nat \<Rightarrow> Processor_IPE \<Rightarrow> Board \<Rightarrow> Board" where
  "set_core i p b =
     b\<lparr>Processors := (Processors b)[i := p], CIUnit := (CIUnit b)\<lparr>cores := (cores (CIUnit b))[i := cp0 p]\<rparr>\<rparr>"

definition set_unit :: "CIU \<Rightarrow> Board \<Rightarrow> Board" where
  "set_unit s b = b\<lparr>Processors := map2 (\<lambda>p c. p\<lparr>cp0 := c\<rparr>) (Processors b) (cores s), CIUnit := s\<rparr>"

definition number_core :: "nat \<Rightarrow> Board \<Rightarrow> Board" where
  "number_core i b =
     (let p = Processors b ! i;
          Ebase = cp0_read (cp0 p) H2_CP0_EBASE_1 SEL_ONE;
          Ebase = Ebase AND NOT EBASE_CORENUM_MASK;
          Ebase = Ebase OR of_nat i in
      set_core i (p\<lparr>cp0 := cp0_write Ebase H2_CP0_EBASE_1 SEL_ONE (cp0 p)\<rparr>) b)"

definition new_CIU :: "(nat \<Rightarrow> u64) \<Rightarrow> Processor_IPE list \<Rightarrow> CIU" where
  "new_CIU words ps = \<lparr>word_at = words, cores = map cp0 ps, NMI_flag = map NMI ps, terminated = False\<rparr>"

definition SystemBoard :: "start_env \<Rightarrow> Specifications option \<Rightarrow> Board result" where
  "SystemBoard e spec =
     (case spec of
        None \<Rightarrow> Inl NullDeref
      | Some specs \<Rightarrow>
          (let h = host e; n = nat (numcores specs) in
           bind_result (initialize_GPA_subsections (mmap h) (undefined_size h) Allocated_memory) (\<lambda>gm.
           bind_result (loadFirmware e specs gm) (\<lambda>wg.
           bind_result (initializeMemorySegments e wg) (\<lambda>(ws, gm).
           bind_result (new_IOManager (mmap h) (undefined_size h) (old_iocache e) (old_boxes e) gm) (\<lambda>(m, gm).
           bind_result (new_Processors e n m gm) (\<lambda>ps.
           bind_result (new_VirtioBlk (registers e) (feature_bits e) (old_disk e)) (\<lambda>(disk, config).
           Inr (fold number_core [0..<n]
             \<lparr>Processors = ps, CIUnit = new_CIU (old_words e) ps, UARTunit = uart_reset (old_uart e), Disk = disk,
              Disk_config = config, stored = ws, board_map = gm\<rparr>))))))))) "


section \<open>Signals of the host\<close>

datatype signal = SIGFPE | SIGBUS | SIGSEGV | SIGINT | SIGUSR1

type_synonym threads = "u64 \<Rightarrow> nat option"

definition registerProcessor :: "u64 \<Rightarrow> nat \<Rightarrow> threads \<Rightarrow> threads" where
  "registerProcessor ID core ptrs = ptrs(ID \<mapsto> core)"

definition retreiveProcessor :: "u64 \<Rightarrow> threads \<Rightarrow> nat result" where
  "retreiveProcessor ID ptrs = (case ptrs ID of Some core \<Rightarrow> Inr core | None \<Rightarrow> Inl ExitError)"

text \<open>The address at which the thread goes on, for the one signal a core survives.\<close>

definition sigHandler :: "Host \<Rightarrow> threads \<Rightarrow> u64 \<Rightarrow> signal \<Rightarrow> Board \<Rightarrow> (code_pointer \<times> Board) result" where
  "sigHandler h ptrs ID signo b =
     bind_result (retreiveProcessor ID ptrs) (\<lambda>core.
       if signo = SIGFPE
       then bind_result (handleSigFPE h (Processors b ! core)) (\<lambda>(pc, p). Inr (pc, set_core core p b))
       else Inl ExitError)"

definition Terminator :: "Board \<Rightarrow> Board result" where
  "Terminator b = Inl ExitError"

definition Interruptsignal :: "Board \<Rightarrow> Board result" where
  "Interruptsignal b =
     bind_result (sendsignal (UARTunit b, CIUnit b)) (\<lambda>(u, s). Inr (set_unit s (b\<lparr>UARTunit := u\<rparr>)))"

text \<open>Which handler a signal of thread \<open>ID\<close> runs; the last two do not change where the thread goes on.\<close>

definition registerSignals :: "Host \<Rightarrow> threads \<Rightarrow> u64 \<Rightarrow> signal \<Rightarrow> Board \<Rightarrow> (code_pointer option \<times> Board) result" where
  "registerSignals h ptrs ID signo b =
     (case signo of
        SIGINT \<Rightarrow> bind_result (Interruptsignal b) (\<lambda>b. Inr (None, b))
      | SIGUSR1 \<Rightarrow> bind_result (Terminator b) (\<lambda>b. Inr (None, b))
      | _ \<Rightarrow> bind_result (sigHandler h ptrs ID signo b) (\<lambda>(pc, b). Inr (Some pc, b)))"

definition startCore :: "u64 \<Rightarrow> nat \<Rightarrow> threads \<times> Board \<Rightarrow> threads \<times> Board option" where
  "startCore ID i = (\<lambda>(ptrs, b).
     (registerProcessor ID i ptrs, map_option (\<lambda>p. b\<lparr>Processors := (Processors b)[i := p]\<rparr>) (start_core (Processors b ! i))))"

section \<open>The cores after the start\<close>

definition numbered :: "nat \<Rightarrow> Processor_IPE \<Rightarrow> Processor_IPE" where
  "numbered i p = p\<lparr>cp0 := cp0_write ((cp0_read (cp0 p) H2_CP0_EBASE_1 SEL_ONE AND NOT EBASE_CORENUM_MASK) OR of_nat i) H2_CP0_EBASE_1 SEL_ONE (cp0 p)\<rparr>"

lemma number_core_fields [frame]:
  "UARTunit (number_core i b) = UARTunit b" "stored (number_core i b) = stored b" "board_map (number_core i b) = board_map b"
  "word_at (CIUnit (number_core i b)) = word_at (CIUnit b)" "length (Processors (number_core i b)) = length (Processors b)"
  "Disk (number_core i b) = Disk b"
  by (simp_all add: number_core_def set_core_def Let_def)

lemma number_core_at: "i < length (Processors b) \<Longrightarrow>
    Processors (number_core i b) ! j = (if j = i then numbered i (Processors b ! i) else Processors b ! j)"
  by (simp add: number_core_def set_core_def numbered_def Let_def)

lemma number_core_shared:
  "cores (CIUnit b) = map cp0 (Processors b) \<Longrightarrow> cores (CIUnit (number_core i b)) = map cp0 (Processors (number_core i b))"
  by (simp add: number_core_def set_core_def map_update Let_def)

lemma number_cores:
  assumes "cores (CIUnit b) = map cp0 (Processors b)" "n \<le> length (Processors b)"
  shows "let b' = fold number_core [0..<n] b in
    cores (CIUnit b') = map cp0 (Processors b') \<and> length (Processors b') = length (Processors b)
    \<and> (\<forall>j. Processors b' ! j = (if j < n then numbered j (Processors b ! j) else Processors b ! j))
    \<and> word_at (CIUnit b') = word_at (CIUnit b) \<and> stored b' = stored b \<and> board_map b' = board_map b"
  using assms(2)
proof (induction n)
  case 0
  then show ?case using assms(1) by simp
next
  case (Suc n)
  then show ?case by (simp add: Let_def number_core_shared number_core_at frame less_Suc_eq)
qed

text \<open>A core as its constructor leaves it.\<close>

definition fresh :: "start_env \<Rightarrow> IOManager \<Rightarrow> GPAMap \<Rightarrow> Processor_IPE \<Rightarrow> bool" where
  "fresh e m gm p \<longleftrightarrow> cp0 p = initCP0 \<lparr>reg = (\<lambda>_. 0)\<rparr> \<and> addrCache p = old_cache e
     \<and> ctx p = \<lparr>loadstore = 0, PC = MIPS_REST_VEC, writeData = 0\<rparr> \<and> \<not> NMI p
     \<and> memory_map p = gm"

lemma new_Processors_fresh:
  "new_Processors e n m gm = Inr ps \<Longrightarrow> length ps = n \<and> (\<forall>p \<in> set ps. fresh e m gm p)"
proof (induction n arbitrary: ps)
  case (Suc n)
  then show ?case by (auto simp: bind_result_Inr_iff new_Processor_def fresh_def)
qed simp

text \<open>The steps of a successful start.\<close>

lemma SystemBoardE:
  assumes "SystemBoard e (Some specs) = Inr b"
  obtains gm0 ws0 gm1 ws gm2 m gm ps disk config where
    "initialize_GPA_subsections (mmap (host e)) (undefined_size (host e)) Allocated_memory = Inr gm0"
    "loadFirmware e specs gm0 = Inr (ws0, gm1)" "initializeMemorySegments e (ws0, gm1) = Inr (ws, gm2)"
    "new_IOManager (mmap (host e)) (undefined_size (host e)) (old_iocache e) (old_boxes e) gm2 = Inr (m, gm)"
    "new_Processors e (nat (numcores specs)) m gm = Inr ps"
    "b = fold number_core [0..<nat (numcores specs)]
       \<lparr>Processors = ps, CIUnit = new_CIU (old_words e) ps, UARTunit = uart_reset (old_uart e), Disk = disk,
        Disk_config = config, stored = ws, board_map = gm\<rparr>"
  using assms by (auto simp: SystemBoard_def bind_result_Inr_iff Let_def)

lemma started_cores:
  assumes "SystemBoard e (Some specs) = Inr b"
  shows "\<exists>m ps. length ps = nat (numcores specs) \<and> length (Processors b) = length ps \<and> cores (CIUnit b) = map cp0 (Processors b)
    \<and> word_at (CIUnit b) = old_words e \<and> (\<forall>i < length ps. fresh e m (board_map b) (ps ! i) \<and> Processors b ! i = numbered i (ps ! i))"
proof -
  obtain gm0 ws0 gm1 ws gm2 m gm ps disk config where
    *: "new_Processors e (nat (numcores specs)) m gm = Inr ps"
    "b = fold number_core [0..<nat (numcores specs)]
       \<lparr>Processors = ps, CIUnit = new_CIU (old_words e) ps, UARTunit = uart_reset (old_uart e), Disk = disk,
        Disk_config = config, stored = ws, board_map = gm\<rparr>"
    using assms by (rule SystemBoardE) blast
  have ps: "length ps = nat (numcores specs)" "\<forall>p \<in> set ps. fresh e m gm p" using new_Processors_fresh [OF *(1)] by blast+
  let ?b = "\<lparr>Processors = ps, CIUnit = new_CIU (old_words e) ps, UARTunit = uart_reset (old_uart e), Disk = disk,
        Disk_config = config, stored = ws, board_map = gm\<rparr>"
  have "cores (CIUnit ?b) = map cp0 (Processors ?b)" "nat (numcores specs) \<le> length (Processors ?b)"
    using ps(1) by (simp_all add: new_CIU_def)
  from number_cores [OF this] have "cores (CIUnit b) = map cp0 (Processors b)" "length (Processors b) = length ps"
    "\<forall>i < length ps. Processors b ! i = numbered i (ps ! i)" "word_at (CIUnit b) = old_words e" "board_map b = gm"
    unfolding *(2) [symmetric] Let_def ps(1) by (simp_all add: new_CIU_def ps(1))
  then show ?thesis using ps by (intro exI [of _ m] exI [of _ ps]) simp
qed

text \<open>What the numbers make of the reset values, for every number the command line allows.\<close>

lemma numbered_reset:
  "i < 16 \<Longrightarrow> (let c = cp0_write ((cp0_read (initCP0 \<lparr>reg = (\<lambda>_. 0)\<rparr>) H2_CP0_EBASE_1 SEL_ONE AND NOT EBASE_CORENUM_MASK) OR of_nat i)
       H2_CP0_EBASE_1 SEL_ONE (initCP0 \<lparr>reg = (\<lambda>_. 0)\<rparr>) in
     corenum c = of_nat i \<and> get_KSU c = KERNEL_MODE \<and> cp0_read c H2_CP0_CAUSE SEL_ZERO = 0 \<and> \<not> isInterruptPending c)"
proof -
  have "list_all (\<lambda>i. let c = cp0_write ((cp0_read (initCP0 \<lparr>reg = (\<lambda>_. 0)\<rparr>) H2_CP0_EBASE_1 SEL_ONE AND NOT EBASE_CORENUM_MASK) OR of_nat i)
       H2_CP0_EBASE_1 SEL_ONE (initCP0 \<lparr>reg = (\<lambda>_. 0)\<rparr>) in
     corenum c = of_nat i \<and> get_KSU c = KERNEL_MODE \<and> cp0_read c H2_CP0_CAUSE SEL_ZERO = 0 \<and> \<not> isInterruptPending c) [0..<16]"
    by code_simp
  then show "i < 16 \<Longrightarrow> ?thesis" unfolding list_all_iff by simp
qed

section \<open>Properties\<close>

text \<open>
  Property C24. Of the cores of a started board only the first runs. Every core has its number in EBase, is in kernel mode without an
  interrupt pending, and, unless it is core 0, waits until its NMI is raised. With at most twelve cores and cleared
  registers the interrupt unit starts consistent with them.
\<close>

theorem only_first_core_starts:
  assumes "SystemBoard e (Some specs) = Inr b" "numcores specs < 16"
  shows "length (Processors b) = nat (numcores specs)
    \<and> (\<forall>i < length (Processors b). corenum (cp0 (Processors b ! i)) = of_nat i \<and> get_KSU (cp0 (Processors b ! i)) = KERNEL_MODE
        \<and> (start_core (Processors b ! i) = None) = (i \<noteq> 0) \<and> start_core (setNMI (Processors b ! i)) \<noteq> None)
    \<and> (length (Processors b) \<le> 12 \<and> (\<forall>k. old_words e k = 0) \<longrightarrow> irq_consistent (CIUnit b))"
proof -
  obtain m ps where *: "length ps = nat (numcores specs)" "length (Processors b) = length ps" "cores (CIUnit b) = map cp0 (Processors b)"
    "word_at (CIUnit b) = old_words e" "\<forall>i < length ps. fresh e m (board_map b) (ps ! i) \<and> Processors b ! i = numbered i (ps ! i)"
    using started_cores [OF assms(1)] by blast
  have n: "length ps < 16" using *(1) assms(2) by simp
  have c: "corenum (cp0 (Processors b ! i)) = of_nat i \<and> get_KSU (cp0 (Processors b ! i)) = KERNEL_MODE
      \<and> cp0_read (cp0 (Processors b ! i)) H2_CP0_CAUSE SEL_ZERO = 0 \<and> \<not> NMI (Processors b ! i)" if "i < length ps" for i
    using numbered_reset [of i] *(5) n that by (simp add: numbered_def fresh_def Let_def)
  moreover have "(of_nat i :: u32) = 0 \<longleftrightarrow> i = 0" if "i < length ps" for i
    using n that by (auto simp: word_of_nat_eq_0_iff dest: dvd_imp_le)
  moreover have "irq_ok (CIUnit b) i" if "i < length ps" "\<forall>k. old_words e k = 0" for i
    using c [OF that(1)] that *(2,3,4) by (simp add: irq_ok_def pending_def Let_def)
  ultimately show ?thesis using *(1,2,3)
    by (simp add: start_core_def setNMI_def set_pc_def irq_consistent_def Let_def)
qed

text \<open>
  Property C40. The command line admits up to fifteen cores, but the interrupt unit has registers for twelve: with more, the first
  line a device raises or lowers makes the unit access beyond its arrays.
\<close>

theorem too_many_cores:
  assumes "SystemBoard e (Some specs) = Inr b" "12 < numcores specs" "line < 64"
  shows "generateInterrupt line (CIUnit b) = Inl OutOfBounds \<and> clearInterrupt line (CIUnit b) = Inl OutOfBounds"
proof -
  have l: "12 < length (cores (CIUnit b))" using started_cores [OF assms(1)] assms(2) by auto
  define n where "n = length (cores (CIUnit b))"
  have split: "for_cores f (xs @ ys) s = bind_result (for_cores f xs s) (for_cores f ys)" for f xs ys s
    by (induction xs arbitrary: s) (auto simp: bind_result_def split: sum.splits)
  have n: "[0..<n] = [0..<12] @ 12 # [13..<n]"
    using l upt_add_eq_append [of 0 12 "n - 12"] upt_conv_Cons [of 12 n] by (simp add: n_def)
  have "for_cores (drive_core up line) [0..<n] (CIUnit b) = Inl OutOfBounds" for up
  proof -
    obtain s' where "for_cores (drive_core up line) [0..<12] (CIUnit b) = Inr s'"
      using for_cores_drive [of 12 line "CIUnit b" 0 up] l assms(3) by auto
    moreover have "drive_core up line 12 s' = Inl OutOfBounds"
      by (cases up) (simp_all add: drive_core_def raise_core_def lower_core_def updateInterrupt_def)
    ultimately show ?thesis unfolding n split by simp
  qed
  from this [of True] this [of False] show ?thesis
    by (simp add: generateInterrupt_def clearInterrupt_def drive_core_def n_def)
qed

section \<open>The firmware\<close>

text \<open>What a translation may add to the table of regions, but never change.\<close>

definition extends :: "GPAMap \<Rightarrow> GPAMap \<Rightarrow> bool" where
  "extends s s' \<longleftrightarrow> (\<forall>k v. GPAtoHVAMap_IPE s k = Some v \<and> val_HVA v \<noteq> 0 \<longrightarrow> GPAtoHVAMap_IPE s' k = Some v)"

lemma extends_refl [simp]: "extends s s"
  by (simp add: extends_def)

lemma extends_trans: "extends s t \<Longrightarrow> extends t u \<Longrightarrow> extends s u"
  by (simp add: extends_def)

lemma GPA_to_HVA_extends: "GPA_to_HVA mm ub a s = Inr (h, s') \<Longrightarrow> extends s s'"
  by (auto simp: GPA_to_HVA_def translate_GPA_to_HVA_def add_IO_Region_def bind_result_Inr_iff add_region_Inr(3) extends_def Let_def
      split: option.splits if_splits prod.splits)

lemma load_address_result:
  assumes "load_address h GVA s = Inr (HVA, s')"
  shows "\<exists>pa. GVAtoGPA_for_fileloading GVA = Some pa \<and> GPA_to_HVA (mmap h) (undefined_size h) pa s = Inr (HVA, s')" "extends s s'"
  using assms GPA_to_HVA_extends
  by (fastforce simp: load_address_def GVAtoHVA_for_fileloading_def bind_result_Inr_iff split: option.splits)+

lemma device_addresses_extends: "device_addresses mm ub GVAs s = Inr (hs, s') \<Longrightarrow> extends s s'"
proof (induction GVAs arbitrary: s hs)
  case (Cons a as)
  then show ?case
    by (auto simp: GVAtoHVA_for_fileloading_def bind_result_Inr_iff split: option.splits)
      (meson GPA_to_HVA_extends extends_trans)
qed simp

lemma load_addresses:
  "GVAtoGPA_for_fileloading UBOOT_LOAD_ADDRESS = Some 0x1FC00000" "GVAtoGPA_for_fileloading KERNEL_LOAD_ADDRESS = Some 0x800000"
  by code_simp+

text \<open>The two regions the firmware goes to.\<close>

lemma firmware_region:
  assumes "initialize_GPA_subsections mm ub Allocated_memory = Inr s" "mmap_ok mm" "key = 0 \<or> key = 0x10000000"
  shows "\<exists>v. GPAtoHVAMap_IPE s key = Some v \<and> val_HVA v \<noteq> 0"
proof -
  have "size_at s key = ram_size_at (unat (Allocated_memory)) (unat key)"
    by (rule initialize_size [OF assms(1)]) (use assms(3) in auto)
  then have "size_at s key \<noteq> None" using assms(3) by (auto simp: ram_size_at_def)
  moreover have "map_wf s" by (rule map_wf_initialize [OF assms(1,2)])
  ultimately show ?thesis by (fastforce simp: size_at_def map_wf_def within_def)
qed

lemma firmware_split: "get_base_and_offset 0x1FC00000 = (0x10000000, 0xFC00000)" "get_base_and_offset 0x800000 = (0, 0x800000)"
  by code_simp+

lemma stays_translated:
  assumes "get_base_and_offset a = (key, off)" "GPAtoHVAMap_IPE s key = Some v" "val_HVA v \<noteq> 0" "extends s t"
    and "GPA_to_HVA mm ub a s = Inr (h, s')" "extends t u"
  shows "GPA_to_HVA mm ub a u = Inr (h, u) \<and> s' = s"
proof -
  have "GPAtoHVAMap_IPE u key = Some v" using assms(2,3,4,6) by (simp add: extends_def)
  then show ?thesis using GPA_to_HVA_hit [OF assms(1) _ assms(3)] assms(2,5) by simp
qed

lemma firmware_stored:
  assumes "SystemBoard e (Some specs) = Inr b" "mmap_ok (mmap (host e))"
  shows "\<exists>uboot kernel hu hk hn. files e (uboot_path specs) = Some uboot \<and> files e (kernel_path specs) = Some kernel
    \<and> stored b = [(hu, uboot), (hk, kernel), (hn, word_bytes NPEI_DBG_DATA)]
    \<and> GPA_to_HVA (mmap (host e)) (undefined_size (host e)) 0x1FC00000 (board_map b) = Inr (hu, board_map b)
    \<and> GPA_to_HVA (mmap (host e)) (undefined_size (host e)) 0x800000 (board_map b) = Inr (hk, board_map b)"
proof -
  obtain gm0 ws0 gm1 ws gm2 m gm ps disk config where
    *: "initialize_GPA_subsections (mmap (host e)) (undefined_size (host e)) Allocated_memory = Inr gm0"
    "loadFirmware e specs gm0 = Inr (ws0, gm1)" "initializeMemorySegments e (ws0, gm1) = Inr (ws, gm2)"
    "new_IOManager (mmap (host e)) (undefined_size (host e)) (old_iocache e) (old_boxes e) gm2 = Inr (m, gm)"
    "new_Processors e (nat (numcores specs)) m gm = Inr ps"
    "b = fold number_core [0..<nat (numcores specs)]
       \<lparr>Processors = ps, CIUnit = new_CIU (old_words e) ps, UARTunit = uart_reset (old_uart e), Disk = disk,
        Disk_config = config, stored = ws, board_map = gm\<rparr>"
    using assms(1) by (rule SystemBoardE)
  have b: "stored b = ws" "board_map b = gm"
    using number_cores [of "\<lparr>Processors = ps, CIUnit = new_CIU (old_words e) ps, UARTunit = uart_reset (old_uart e), Disk = disk,
        Disk_config = config, stored = ws, board_map = gm\<rparr>" "nat (numcores specs)"] new_Processors_fresh [OF *(5)]
    unfolding *(6) [symmetric] by (simp_all add: new_CIU_def Let_def)
  obtain hu hk gma uboot kernel where l: "load_address (host e) UBOOT_LOAD_ADDRESS gm0 = Inr (hu, gma)"
      "load_address (host e) KERNEL_LOAD_ADDRESS gma = Inr (hk, gm1)" "files e (uboot_path specs) = Some uboot"
      "files e (kernel_path specs) = Some kernel" "ws0 = [(hu, uboot), (hk, kernel)]"
    using *(2) by (auto simp: loadFirmware_def loadfile_def bind_result_Inr_iff split: option.splits)
  obtain hn where n: "load_address (host e) NPEI_DBG_ADDRESS gm1 = Inr (hn, gm2)" "ws = ws0 @ [(hn, word_bytes NPEI_DBG_DATA)]"
    using *(3) by (auto simp: initializeMemorySegments_def bind_result_Inr_iff)
  have "extends gm2 gm" using *(4) device_addresses_extends
    by (auto simp: new_IOManager_def bind_result_Inr_iff simp del: device_addresses.simps)
  then have x: "extends gma gm" "extends gm0 gma" "extends gm1 gm"
    using load_address_result(2) [OF l(1)] load_address_result(2) [OF l(2)] load_address_result(2) [OF n(1)] extends_trans by blast+
  have u: "GPA_to_HVA (mmap (host e)) (undefined_size (host e)) 0x1FC00000 gm0 = Inr (hu, gma)"
    and k: "GPA_to_HVA (mmap (host e)) (undefined_size (host e)) 0x800000 gma = Inr (hk, gm1)"
    using load_address_result(1) [OF l(1)] load_address_result(1) [OF l(2)] load_addresses by auto
  obtain v where v: "GPAtoHVAMap_IPE gm0 0x10000000 = Some v" "val_HVA v \<noteq> 0" using firmware_region [OF *(1) assms(2)] by blast
  obtain w where w: "GPAtoHVAMap_IPE gm0 0 = Some w" "val_HVA w \<noteq> 0" using firmware_region [OF *(1) assms(2)] by blast
  have w': "GPAtoHVAMap_IPE gma 0 = Some w" using w x(2) by (simp add: extends_def)
  have "GPA_to_HVA (mmap (host e)) (undefined_size (host e)) 0x1FC00000 gm = Inr (hu, gm)"
    using stays_translated [OF firmware_split(1) v x(2) u x(1)] by simp
  moreover have "GPA_to_HVA (mmap (host e)) (undefined_size (host e)) 0x800000 gm = Inr (hk, gm)"
    using stays_translated [OF firmware_split(2) w' w(2) extends_refl k x(1)] by simp
  ultimately show ?thesis using l(3,4,5) n(2) b by auto
qed

text \<open>
  Property C18. A core starts in the bootloader. The start writes the two files and one register of the chip, and nothing
  else, into guest memory; whatever has been mapped since, the first translation of the reset vector gives the host address the bootloader
  was written to, and the kernel is where its physical address translates to.
\<close>

theorem reset_vector_is_bootloader:
  assumes "SystemBoard e (Some specs) = Inr b" "mmap_ok (mmap (host e))" "numcores specs < 16" "i < length (Processors b)"
    and "\<not> fst (Check_cache (old_cache e) MIPS_REST_VEC \<lparr>loadstore = LD_READ, PC = MIPS_REST_VEC, writeData = 0\<rparr>)"
  shows "\<exists>uboot kernel hu hk hn p. files e (uboot_path specs) = Some uboot \<and> files e (kernel_path specs) = Some kernel
    \<and> stored b = [(hu, uboot), (hk, kernel), (hn, word_bytes NPEI_DBG_DATA)]
    \<and> PC (ctx (Processors b ! i)) = MIPS_REST_VEC
    \<and> addrTranslation (host e) MIPS_REST_VEC (set_LDST LD_READ (Processors b ! i)) = Inr (True, hu, p)
    \<and> GPA_to_HVA (mmap (host e)) (undefined_size (host e)) 0x800000 (board_map b) = Inr (hk, board_map b)"
proof -
  obtain uboot kernel hu hk hn where *: "files e (uboot_path specs) = Some uboot" "files e (kernel_path specs) = Some kernel"
    "stored b = [(hu, uboot), (hk, kernel), (hn, word_bytes NPEI_DBG_DATA)]"
    "GPA_to_HVA (mmap (host e)) (undefined_size (host e)) 0x1FC00000 (board_map b) = Inr (hu, board_map b)"
    "GPA_to_HVA (mmap (host e)) (undefined_size (host e)) 0x800000 (board_map b) = Inr (hk, board_map b)"
    using firmware_stored [OF assms(1,2)] by blast
  obtain m ps where ps: "fresh e m (board_map b) (ps ! i)" "Processors b ! i = numbered i (ps ! i)" "i < 16"
    using started_cores [OF assms(1)] assms(3,4) by auto
  let ?p = "set_LDST LD_READ (Processors b ! i)"
  have p: "get_KSU (cp0 ?p) = KERNEL_MODE" "addrCache ?p = old_cache e" "memory_map ?p = board_map b"
    "ctx ?p = \<lparr>loadstore = LD_READ, PC = MIPS_REST_VEC, writeData = 0\<rparr>"
    using ps numbered_reset [of i] by (simp_all add: fresh_def numbered_def set_LDST_def Let_def)
  have "mmu_GVAtoGPA (cp0 ?p) (tlb ?p) MIPS_REST_VEC (junk_address (host e)) (ctx ?p) = Inr (True, 0x1FC00000, cp0 ?p, setProt ST_WRITE (ctx ?p))"
    using kernel_unmapped [OF p(1), of MIPS_REST_VEC] load_addresses(1) by blast
  then have "\<exists>q. addrTranslation (host e) MIPS_REST_VEC ?p = Inr (True, hu, q)"
    using assms(5) *(4) p(2,3,4) by (cases "Check_cache (old_cache e) MIPS_REST_VEC (ctx ?p)") (simp add: addrTranslation_def GVAtoHVA_def)
  moreover have "PC (ctx (Processors b ! i)) = MIPS_REST_VEC" using ps by (simp add: fresh_def numbered_def)
  ultimately show ?thesis using * by blast
qed

section \<open>A start\<close>

definition sample_host :: Host where
  "sample_host = \<lparr>mmap = first_fit, undefined_size = 0xFFFFFFFFFFFFFFFF, junk_address = 0, avail = (\<lambda>_. True), host_word = (\<lambda>_. 0),
     fuel = 0, rand = 0, clk = 0, accepts = (\<lambda>_ _. True), negative_time = 0, CVMSEGBase = 0\<rparr>"

definition sample_features :: features where
  "sample_features = \<lparr>F_INDIRECT_DESC = 28, F_EVENT_IDX = 29, BLK_F_BARRIER = 0, BLK_F_SIZE_MAX = 1, BLK_F_SEG_MAX = 2, BLK_F_GEOMETRY = 4,
     BLK_F_RO = 5, BLK_F_BLK_SIZE = 6, BLK_F_SCSI = 7, BLK_F_FLUSH = 9, NET_F_CSUM = 0, NET_F_GUEST_CSUM = 1, NET_F_GUEST_TSO4 = 7,
     NET_F_GUEST_TSO6 = 8, NET_F_GUEST_ECN = 9, NET_F_GUEST_UFO = 10, NET_F_HOST_TSO4 = 11, NET_F_HOST_TSO6 = 12, NET_F_HOST_ECN = 13,
     NET_F_HOST_UFO = 14, TUN_CSUM = 1, TUN_TSO4 = 2, TUN_TSO6 = 4, TUN_TSO_ECN = 8, TUN_UFO = 16\<rparr>"

definition sample_env :: start_env where
  "sample_env = \<lparr>host = sample_host, files = (\<lambda>name. if name = ''u-boot'' then Some [1, 2] else if name = ''vmlinux'' then Some [3, 4, 5] else None),
     old_asids = (\<lambda>_ _. 0), old_cache = replicate INS_CACHE_SIZE \<lparr>ce_GVA = 0, ce_HVA = 0, ce_prot = 0\<rparr>, old_time = 0, old_tlb = blank_tlb,
     old_iocache = [], old_boxes = [], old_words = (\<lambda>_. 0), old_uart = sample_port,
     old_disk = (sample_device, \<lparr>capacity = 0, size_max = 0, seg_max = 0, blk_size = 0\<rparr>), registers = sample_mmio, feature_bits = sample_features\<rparr>"

definition sample_specs :: "int \<Rightarrow> Specifications" where
  "sample_specs n = \<lparr>numcores = n, uboot_path = ''u-boot'', kernel_path = ''vmlinux''\<rparr>"

lemma sample_simps [simp]:
  "host sample_env = sample_host" "mmap sample_host = first_fit" "undefined_size sample_host = 0xFFFFFFFFFFFFFFFF" "avail sample_host = (\<lambda>_. True)"
  "files sample_env ''u-boot'' = Some [1, 2]" "files sample_env ''vmlinux'' = Some [3, 4, 5]" "old_words sample_env = (\<lambda>_. 0)"
  "uboot_path (sample_specs n) = ''u-boot''" "kernel_path (sample_specs n) = ''vmlinux''" "numcores (sample_specs n) = n"
  by (simp_all add: sample_env_def sample_host_def sample_specs_def)

lemma sample_device_addresses:
  "list_all (\<lambda>GVA. case GVAtoGPA_for_fileloading GVA of None \<Rightarrow> False | Some pa \<Rightarrow>
      (case find_index (fst (get_base_and_offset pa)) of None \<Rightarrow> False | Some i \<Rightarrow> section_size 0xFFFFFFFFFFFFFFFF i \<noteq> 0))
    [NPEI_DBG_ADDRESS, UART1_BASE_ADDR, CIU_BASE_ADDR, VBLK_BASE_ADDR]"
  by code_simp

lemma sample_gva_translates:
  assumes "GVA \<in> {NPEI_DBG_ADDRESS, UART1_BASE_ADDR, CIU_BASE_ADDR, VBLK_BASE_ADDR}" "top_of (mappings s) \<le> 2 ^ 45"
  shows "\<exists>h s'. GVAtoHVA_for_fileloading first_fit 0xFFFFFFFFFFFFFFFF GVA s = Inr (Some h, s') \<and> top_of (mappings s') \<le> top_of (mappings s) + 2 ^ 27"
proof -
  have "GVA \<in> set [NPEI_DBG_ADDRESS, UART1_BASE_ADDR, CIU_BASE_ADDR, VBLK_BASE_ADDR]" using assms(1) by simp
  then obtain pa i where "GVAtoGPA_for_fileloading GVA = Some pa" "find_index (fst (get_base_and_offset pa)) = Some i"
      "section_size 0xFFFFFFFFFFFFFFFF i \<noteq> 0"
    using sample_device_addresses unfolding list_all_iff by (fastforce split: option.splits)
  then show ?thesis using first_fit_translates [of s pa i "0xFFFFFFFFFFFFFFFF"] assms(2)
    by (auto simp: GVAtoHVA_for_fileloading_def)
qed

lemma sample_processors: "\<exists>ps. new_Processors sample_env n m gm = Inr ps"
proof (induction n)
  case (Suc n)
  obtain blk where "new_TranslationBlock (\<lambda>_. True) = Inr blk" using new_block [of "\<lambda>_. True"] by auto
  then show ?case using Suc by (auto simp: new_Processor_def new_BlockCache_def)
qed simp

lemma sample_loads:
  assumes "GVAtoGPA_for_fileloading GVA = Some pa" "get_base_and_offset pa = (key, off)" "GPAtoHVAMap_IPE s key = Some v" "val_HVA v \<noteq> 0"
  shows "load_address h GVA s = Inr (val_HVA v + off, s)"
  using assms GPA_to_HVA_hit [OF assms(2-4)] by (simp add: load_address_def GVAtoHVA_for_fileloading_def)

lemma sample_starts: "\<exists>b. SystemBoard sample_env (Some (sample_specs n)) = Inr b"
proof -
  let ?u = "0xFFFFFFFFFFFFFFFF :: u64"
  obtain gm0 where 0: "initialize_GPA_subsections first_fit ?u Allocated_memory = Inr gm0" "top_of (mappings gm0) \<le> 2 ^ 40"
    using first_fit_starts by auto
  obtain v w where "GPAtoHVAMap_IPE gm0 0x10000000 = Some v" "val_HVA v \<noteq> 0" "GPAtoHVAMap_IPE gm0 0 = Some w" "val_HVA w \<noteq> 0"
    using firmware_region [OF 0(1) first_fit_ok] by blast
  then obtain ws where 1: "loadFirmware sample_env (sample_specs n) gm0 = Inr (ws, gm0)"
    using sample_loads [OF load_addresses(1) firmware_split(1)] sample_loads [OF load_addresses(2) firmware_split(2)]
    by (simp add: loadFirmware_def loadfile_def)
  obtain h1 gm1 where "GVAtoHVA_for_fileloading first_fit ?u NPEI_DBG_ADDRESS gm0 = Inr (Some h1, gm1)" and t1: "top_of (mappings gm1) \<le> 2 ^ 41"
    using sample_gva_translates [of NPEI_DBG_ADDRESS gm0] 0(2) by auto
  then obtain ws1 where 2: "initializeMemorySegments sample_env (ws, gm0) = Inr (ws1, gm1)"
    by (simp add: initializeMemorySegments_def load_address_def)
  obtain h2 gm2 where d2: "GVAtoHVA_for_fileloading first_fit ?u UART1_BASE_ADDR gm1 = Inr (Some h2, gm2)" "top_of (mappings gm2) \<le> 2 ^ 42"
    using sample_gva_translates [of UART1_BASE_ADDR gm1] t1 by auto
  obtain h3 gm3 where d3: "GVAtoHVA_for_fileloading first_fit ?u CIU_BASE_ADDR gm2 = Inr (Some h3, gm3)" "top_of (mappings gm3) \<le> 2 ^ 43"
    using sample_gva_translates [of CIU_BASE_ADDR gm2] d2(2) by auto
  obtain h4 gm4 where d4: "GVAtoHVA_for_fileloading first_fit ?u VBLK_BASE_ADDR gm3 = Inr (Some h4, gm4)"
    using sample_gva_translates [of VBLK_BASE_ADDR gm3] d3(2) by auto
  obtain m where 3: "new_IOManager first_fit ?u (old_iocache sample_env) (old_boxes sample_env) gm1 = Inr (m, gm4)"
    using d2(1) d3(1) d4 by (simp add: new_IOManager_def)
  obtain ps where 4: "new_Processors sample_env (nat n) m gm4 = Inr ps" using sample_processors by blast
  obtain disk config where 5: "new_VirtioBlk (registers sample_env) (feature_bits sample_env) (old_disk sample_env) = Inr (disk, config)"
    by (simp add: sample_env_def sample_device_def new_VirtioBlk_def Initialize_def InitializeQueues_def SetHeader_def LoadQueue_def
        put_word_def Let_def)
  show ?thesis using 0(1) 1 2 3 4 5 by (simp add: SystemBoard_def)
qed

theorem only_first_core_starts_witness:
  "\<exists>b. SystemBoard sample_env (Some (sample_specs 4)) = Inr b \<and> length (Processors b) = 4 \<and> start_core (Processors b ! 3) = None
     \<and> irq_consistent (CIUnit b)"
proof -
  obtain b where b: "SystemBoard sample_env (Some (sample_specs 4)) = Inr b" using sample_starts by blast
  show ?thesis using only_first_core_starts [OF b] b by auto
qed

theorem too_many_cores_witness:
  "\<exists>b. SystemBoard sample_env (Some (sample_specs 13)) = Inr b \<and> generateInterrupt CIU_SUM_UART1 (CIUnit b) = Inl OutOfBounds"
proof -
  obtain b where b: "SystemBoard sample_env (Some (sample_specs 13)) = Inr b" using sample_starts by blast
  show ?thesis using too_many_cores [OF b, of CIU_SUM_UART1] b by auto
qed

theorem reset_vector_is_bootloader_witness:
  "\<exists>b hu p. SystemBoard sample_env (Some (sample_specs 1)) = Inr b \<and> (hu, [1, 2]) \<in> set (stored b)
     \<and> addrTranslation sample_host MIPS_REST_VEC (set_LDST LD_READ (Processors b ! 0)) = Inr (True, hu, p)"
proof -
  obtain b where b: "SystemBoard sample_env (Some (sample_specs 1)) = Inr b" using sample_starts by blast
  have n: "0 < length (Processors b)" using started_cores [OF b] by auto
  have c: "\<not> fst (Check_cache (old_cache sample_env) MIPS_REST_VEC \<lparr>loadstore = LD_READ, PC = MIPS_REST_VEC, writeData = 0\<rparr>)"
    by code_simp
  show ?thesis using reset_vector_is_bootloader [OF b _ _ n c] b first_fit_ok by fastforce
qed

section \<open>Arguments\<close>





section \<open>A key of the host interrupts a core\<close>

lemma updateInterrupt_status:
  "updateInterrupt c s = Inr s' \<Longrightarrow> length (cores s') = length (cores s) \<and> (\<forall>k < length (cores s). cp0_read (cores s' ! k) H2_CP0_STATUS 0 = cp0_read (cores s ! k) H2_CP0_STATUS 0)"
  by (auto simp: updateInterrupt_def Let_def nth_list_update cp0_read_def cp0_write_def slot_def split: if_splits)

lemma drive_core_status:
  "drive_core up n c s = Inr s' \<Longrightarrow> length (cores s') = length (cores s) \<and> (\<forall>k < length (cores s). cp0_read (cores s' ! k) H2_CP0_STATUS 0 = cp0_read (cores s ! k) H2_CP0_STATUS 0)"
  using updateInterrupt_status by (cases up) (fastforce simp: drive_core_def raise_core_def lower_core_def)+

lemma for_cores_status:
  "for_cores (drive_core up n) cs s = Inr s' \<Longrightarrow> length (cores s') = length (cores s) \<and> (\<forall>k < length (cores s). cp0_read (cores s' ! k) H2_CP0_STATUS 0 = cp0_read (cores s ! k) H2_CP0_STATUS 0)"
proof (induction cs arbitrary: s)
  case (Cons c cs)
  then show ?case using drive_core_status [of up n c s] by (auto simp: bind_result_Inr_iff)
qed simp

lemma generateInterrupt_status:
  "generateInterrupt n s = Inr s' \<Longrightarrow> k < length (cores s) \<Longrightarrow> cp0_read (cores s' ! k) H2_CP0_STATUS 0 = cp0_read (cores s ! k) H2_CP0_STATUS 0"
  using for_cores_status [of True n "[0..<length (cores s)]" s s'] by (simp add: generateInterrupt_def drive_core_def)

lemma receiver_raises_line:
  assumes "source_of u = UART_IIR_CTI" "generateInterrupt CIU_SUM_UART1 s = Inr s'"
  shows "\<exists>u'. uart_update_irq (u, s) = Inr (u', s') \<and> RBR u' = RBR u"
proof -
  have "\<exists>f. (\<forall>s. uart_update_irq (u, s) = bind_result (generateInterrupt CIU_SUM_UART1 s) (\<lambda>s. Inr (f, s))) \<and> RBR f = RBR u"
    using assms(1) by (auto simp: uart_update_irq_def source_of_def Let_def show_reg_def split: if_splits)
  then show ?thesis using assms(2) by auto
qed

lemma pending_enabled:
  assumes "bit (cp0_read c H2_CP0_CAUSE SEL_ZERO) 10" "bit (cp0_read c H2_CP0_STATUS 0) 10" "cp0_read c H2_CP0_STATUS 0 AND 7 = 1"
  shows "isInterruptPending c"
proof -
  have "bit (cp0_read c H2_CP0_CAUSE SEL_ZERO AND (cp0_read c H2_CP0_STATUS 0 AND 0xFF00)) 10" using assms(1,2) by (simp add: bit_simps)
  then have "cp0_read c H2_CP0_CAUSE SEL_ZERO AND (cp0_read c H2_CP0_STATUS 0 AND 0xFF00) \<noteq> 0" by auto
  then show ?thesis using assms(3) by (simp add: isInterruptPending_def cp0_read_def Let_def word_gt_0)
qed

text \<open>
  Property C7. From the keyboard to the interrupt handler. When the user of the hypervisor types Ctrl-C, the port receives the
  character and every core that has the port's line and interrupt 2 enabled has an interrupt pending; when it asks for its next block, it
  saves its program counter in EPC and goes to the kernel with interrupts off. The interrupt unit stays consistent with the cores.
\<close>

theorem ctrl_c_interrupts_core:
  assumes "irq_consistent (CIUnit b)" "cores (CIUnit b) = map cp0 (Processors b)"
    and "IER (UARTunit b) AND UART_IER_RDI \<noteq> 0" "LSR (UARTunit b) AND UART_LSR_INT_ANY = 0"
    and "i < length (Processors b)" "bit (word_at (CIUnit b) (INT_EN0 (i * 2))) CIU_SUM_UART1"
    and "bit (cp0_read (cp0 (Processors b ! i)) H2_CP0_STATUS 0) 10" "cp0_read (cp0 (Processors b ! i)) H2_CP0_STATUS 0 AND 7 = 1"
  shows "\<exists>b'. Interruptsignal b = Inr b' \<and> RBR (UARTunit b') = 0x03 \<and> irq_consistent (CIUnit b') \<and> cores (CIUnit b') = map cp0 (Processors b')
    \<and> isInterruptPending (cp0 (Processors b' ! i))
    \<and> (\<forall>h q. NewBlock h (Processors b' ! i) = Inr q \<longrightarrow> cp0_read (cp0 q) H2_CP0_EPC 0 = PC (ctx (Processors b ! i))
        \<and> get_KSU (cp0 q) = KERNEL_MODE \<and> \<not> isInterruptPending (cp0 q))"
proof -
  let ?u = "UARTunit b" and ?s = "CIUnit b"
  let ?l = "LSR ?u OR UART_LSR_DR"
  let ?k = "show_reg LSR_OFFSET ?l (show_reg RBR_OFFSET 0x03
      (?u\<lparr>index := 3, UART_Buffer := (UART_Buffer ?u)[0 := 0x03], RBR := 0x03, LSR := ?l\<rparr>))"
  have src: "source_of ?k = UART_IIR_CTI"
    using assms(3,4) data_ready_bits(1,2) [of "LSR ?u"] by (simp add: source_of_def show_reg_def)
  obtain s where s: "generateInterrupt CIU_SUM_UART1 ?s = Inr s" "irq_consistent s" "length (cores s) = length (cores ?s)"
      "\<forall>c < 24. word_at s (INT_EN0 c) = word_at ?s (INT_EN0 c)" "\<forall>c < length (cores ?s). \<forall>j \<in> summary_words c. bit (word_at s j) CIU_SUM_UART1"
    using line_driven [OF assms(1), of CIU_SUM_UART1 True] by auto
  obtain u where u: "uart_update_irq (?k, ?s) = Inr (u, s)" "RBR u = 0x03"
    using receiver_raises_line [OF src s(1)] by (auto simp: show_reg_def)
  let ?b = "set_unit s (b\<lparr>UARTunit := u\<rparr>)"
  have b: "Interruptsignal b = Inr ?b" using u(1) by (simp add: Interruptsignal_def sendsignal_def Let_def)
  have len: "length (cores s) = length (Processors b)" "length (cores ?s) = length (Processors b)" using s(3) assms(2) by simp_all
  have shared: "cores (CIUnit ?b) = map cp0 (Processors ?b)" using len(1) by (simp add: set_unit_def comp_def map_nth flip: zip_map1 list.map_comp) (auto intro!: nth_equalityI)
  have p: "Processors ?b ! i = (Processors b ! i)\<lparr>cp0 := cores s ! i\<rparr>" using len assms(5) by (simp add: set_unit_def)
  have "length (cores ?s) \<le> 12" using assms(1) by (simp add: irq_consistent_def)
  then have "bit (cp0_read (cores s ! i) H2_CP0_CAUSE SEL_ZERO) 10"
    using line_pending [OF s(2), of i CIU_SUM_UART1] s(3,4,5) assms(5,6) len by (auto simp: summary_words_def)
  moreover have "cp0_read (cores s ! i) H2_CP0_STATUS 0 = cp0_read (cp0 (Processors b ! i)) H2_CP0_STATUS 0"
    using generateInterrupt_status [OF s(1), of i] assms(2,5) len by simp
  ultimately have "isInterruptPending (cp0 (Processors ?b ! i))" using pending_enabled [of "cores s ! i"] assms(7,8) p by simp
  moreover have "PC (ctx (Processors ?b ! i)) = PC (ctx (Processors b ! i))" using p by simp
  ultimately show ?thesis using b u(2) s(2) shared interrupt_taken
    by (intro exI [of _ ?b]) (auto simp: set_unit_def)
qed

text \<open>A board of one core that has enabled its interrupts and the port's line.\<close>

lemma sample_board:
  "\<exists>b :: Board. irq_consistent (CIUnit b) \<and> cores (CIUnit b) = map cp0 (Processors b) \<and> UARTunit b = sample_port \<and> length (Processors b) = 1
     \<and> bit (word_at (CIUnit b) (INT_EN0 0)) CIU_SUM_UART1 \<and> cp0_read (cp0 (Processors b ! 0)) H2_CP0_STATUS 0 = 0x401
     \<and> PC (ctx (Processors b ! 0)) = MIPS_REST_VEC"
proof -
  obtain b m ps where b: "SystemBoard sample_env (Some (sample_specs 1)) = Inr b" "length ps = 1" "length (Processors b) = 1"
    "cores (CIUnit b) = map cp0 (Processors b)" "\<forall>k. word_at (CIUnit b) k = 0" "fresh sample_env m (board_map b) (ps ! 0)" "Processors b ! 0 = numbered 0 (ps ! 0)"
    using sample_starts [of 1] started_cores [of sample_env "sample_specs 1"] by fastforce
  define p where "p = (Processors b ! 0)\<lparr>cp0 := cp0_write 0x401 H2_CP0_STATUS 0 (cp0 (Processors b ! 0))\<rparr>"
  have c: "cp0_read (cp0 (Processors b ! 0)) H2_CP0_CAUSE SEL_ZERO = 0"
    using numbered_reset [of 0] b(6,7) by (simp add: numbered_def fresh_def Let_def)
  have p: "cp0_read (cp0 p) H2_CP0_CAUSE SEL_ZERO = 0" "cp0_read (cp0 p) H2_CP0_STATUS 0 = 0x401" "PC (ctx p) = MIPS_REST_VEC"
    using c b(6,7) by (simp_all add: p_def fresh_def numbered_def cp0_read_def cp0_write_def slot_def ReservedBits_def)
  let ?b = "b\<lparr>Processors := [p], CIUnit := (CIUnit b)\<lparr>cores := [cp0 p], word_at := (\<lambda>_. 0)(INT_EN0 0 := 0x800000000)\<rparr>, UARTunit := sample_port\<rparr>"
  have "irq_consistent (CIUnit ?b)" using p(1) by (simp add: irq_consistent_def irq_ok_def pending_def register_defs)
  then show ?thesis using p(2,3) by (intro exI [of _ ?b]) (simp add: bit_simps)
qed

theorem ctrl_c_interrupts_core_witness:
  "\<exists>b b'. Interruptsignal b = Inr b' \<and> RBR (UARTunit b') = 0x03 \<and> isInterruptPending (cp0 (Processors b' ! 0))
     \<and> (\<forall>h q. NewBlock h (Processors b' ! 0) = Inr q \<longrightarrow> cp0_read (cp0 q) H2_CP0_EPC 0 = MIPS_REST_VEC)"
proof -
  obtain b :: Board where b: "irq_consistent (CIUnit b)" "cores (CIUnit b) = map cp0 (Processors b)" "UARTunit b = sample_port" "length (Processors b) = 1"
     "bit (word_at (CIUnit b) (INT_EN0 0)) CIU_SUM_UART1" "cp0_read (cp0 (Processors b ! 0)) H2_CP0_STATUS 0 = 0x401" "PC (ctx (Processors b ! 0)) = MIPS_REST_VEC"
    using sample_board by blast
  have "IER (UARTunit b) AND UART_IER_RDI \<noteq> 0" "LSR (UARTunit b) AND UART_LSR_INT_ANY = 0" "0 < length (Processors b)"
    "bit (word_at (CIUnit b) (INT_EN0 (0 * 2))) CIU_SUM_UART1" "bit (cp0_read (cp0 (Processors b ! 0)) H2_CP0_STATUS 0) 10"
    "cp0_read (cp0 (Processors b ! 0)) H2_CP0_STATUS 0 AND 7 = 1"
    using b(3-6) by simp_all
  from ctrl_c_interrupts_core [where i = 0, OF b(1,2) this] b(7) show ?thesis by auto
qed

end
