(* ===== verification/MemSim.thy ===== *)
theory MemSim
  imports BlockSim Board
begin

text \<open>
  Loads and stores from end to end. The emitted words hand over to the hypervisor with the address in the image, a core's
  \<open>handleRequest\<close> translates it, and the words after the hand-over access host memory at the translated address.

  Host memory is a function from addresses to bytes; what the host's load and store instructions compute is a parameter,
  \<open>Mem_ISA\<close>, with the laws of the locale \<open>mem_isa\<close>: an access of \<open>n\<close> bytes concerns these \<open>n\<close> bytes only, depends on nothing
  but them, and a doubleword that has been stored is loaded back. Translated code and the core work on the same array \<^verbatim>\<open>guestData\<close>:
  \<open>enter\<close> reads the fields of a core from the cells of the image and \<open>resume\<close> writes them back. \<open>code_run\<close> runs emitted words together
  with the hypervisor that handles their requests.
\<close>

section \<open>Host memory\<close>

type_synonym memory = "u64 \<Rightarrow> u8"

record Mem_ISA =
  ld_value :: "u32 \<Rightarrow> u64 \<Rightarrow> u64 \<Rightarrow> memory \<Rightarrow> u64"  \<comment> \<open>opcode, address, old rt\<close>
  st_bytes :: "u32 \<Rightarrow> u64 \<Rightarrow> u64 \<Rightarrow> memory \<Rightarrow> memory"  \<comment> \<open>opcode, address; rt\<close>

definition load_op :: "u32 \<Rightarrow> bool" where
  "load_op op \<longleftrightarrow> op \<in> {26, 27, 32, 33, 34, 35, 36, 37, 38, 39, 55}"

definition store_op :: "u32 \<Rightarrow> bool" where
  "store_op op \<longleftrightarrow> op \<in> {40, 41, 42, 43, 44, 45, 46, 63}"

text \<open>A word of the host that may access memory. The image lies elsewhere, and only \<open>step\<close> reaches it.\<close>

definition access_step :: "Host_ISA \<Rightarrow> Mem_ISA \<Rightarrow> u32 \<Rightarrow> HostMips.Host \<times> memory \<Rightarrow> (HostMips.Host \<times> memory) option" where
  "access_step M N w s =
     (case s of (h, m) \<Rightarrow>
       case step M w h of
         Some h' \<Rightarrow> Some (h', m)
       | None \<Rightarrow>
           (let op = EXTBITS w 26 31; rt = unat (EXTBITS w 16 20);
                a = get_hreg h (unat (EXTBITS w 21 25)) + sext16 (EXTBITS w 0 15) in
            if load_op op then Some (set_hreg rt (ld_value N op a (get_hreg h rt) m) h, m)
            else if store_op op then Some (h, st_bytes N op a (get_hreg h rt) m)
            else None))"

fun access_run :: "Host_ISA \<Rightarrow> Mem_ISA \<Rightarrow> u32 list \<Rightarrow> HostMips.Host \<times> memory \<Rightarrow> (HostMips.Host \<times> memory) option" where
  "access_run M N [] s = Some s"
| "access_run M N (w # ws) s = (case access_step M N w s of None \<Rightarrow> None | Some s' \<Rightarrow> access_run M N ws s')"

section \<open>The hand-over\<close>

definition enter :: "HostMips.Host \<Rightarrow> Processor_IPE \<Rightarrow> Processor_IPE" where
  "enter h p = p\<lparr>cp0 := \<lparr>reg = (\<lambda>i. cell h (520 + 8 * i))\<rparr>,
     ctx := \<lparr>loadstore = cell h 168, PC = cell h 0, writeData = cell h 64\<rparr>, controlMark := cell h 104,
     currentBlockStartAddr := cell h 176, currentBlockEndAddr := cell h 184, tlbData := cell h 56,
     transAddr := cell h 48, LLBit := cell h 32\<rparr>"

text \<open>What the registers of the host hold when the code goes on is up to the hypervisor's own code.\<close>

definition resume :: "(nat \<Rightarrow> u64) \<Rightarrow> Processor_IPE \<Rightarrow> HostMips.Host \<Rightarrow> HostMips.Host" where
  "resume r p h = \<lparr>hreg = r, cell = (\<lambda>k.
     if 520 \<le> k \<and> 8 dvd k then reg (cp0 p) ((k - 520) div 8)
     else if k = 168 then loadstore (ctx p) else if k = 0 then PC (ctx p) else if k = 64 then writeData (ctx p)
     else if k = 104 then controlMark p else if k = 176 then currentBlockStartAddr p
     else if k = 184 then currentBlockEndAddr p else if k = 56 then tlbData p
     else if k = 48 then transAddr p else if k = 32 then LLBit p
     else cell h k)\<rparr>"

text \<open>
  A run of translated code from its word \<open>i\<close>. A word that accesses memory or computes is done by the host; from a jump or a branch on, \<open>exec\<close>
  runs to the end, an exit or a hand-over. A request is handled, and when the core goes on behind the
  hand-over so does the run; otherwise it ends there, with the core as the request finds it. \<open>ra\<close> gives the addresses of the words, \<open>r\<close> the
  registers of the host after a request, and \<open>n\<close> bounds the number of words.
\<close>

fun code_run ::
    "Host_ISA \<Rightarrow> Mem_ISA \<Rightarrow> Processor.Host \<Rightarrow> (nat \<Rightarrow> nat \<Rightarrow> u64) \<Rightarrow> (nat \<Rightarrow> u64) \<Rightarrow> nat \<Rightarrow> u32 list \<Rightarrow> nat \<Rightarrow>
     HostMips.Host \<times> memory \<times> Processor_IPE \<Rightarrow> (outcome \<times> HostMips.Host \<times> memory \<times> Processor_IPE) option" where
  "code_run M N k r ra 0 ws i s = None"
| "code_run M N k r ra (Suc n) ws i (h, m, p) =
     (case (if i < length ws then access_step M N (ws ! i) (h, m) else None) of
        Some (h, m) \<Rightarrow> code_run M N k r ra n ws (i + 1) (h, m, p)
      | None \<Rightarrow>
          (case exec M (Suc n) ws i h of
             Some (Call j, h) \<Rightarrow>
               (case handleRequest k (ra j) (enter h p) of
                  Inr (Some q) \<Rightarrow>
                    if retAddr q = CodeAt (ra j) then code_run M N k r ra n ws j (resume (r j) q h, m, q)
                    else Some (Call j, h, m, enter h p)
                | _ \<Rightarrow> Some (Call j, h, m, enter h p))
           | Some (res, h) \<Rightarrow> Some (res, h, m, p)
           | None \<Rightarrow> None))"

text \<open>The core as it finds the request of a load (\<open>st\<close> is false) or a store.\<close>

definition requesting :: "bool \<Rightarrow> u32 \<Rightarrow> u64 \<Rightarrow> HostMips.Host \<Rightarrow> Processor_IPE \<Rightarrow> Processor_IPE" where
  "requesting st w t9 h p = (enter (h\<lparr>cell := request_cells st (IInfo_of w) h\<rparr>) p)\<lparr>retAddr := CodeAt t9\<rparr>"

definition guest_address :: "u32 \<Rightarrow> (nat \<Rightarrow> u64) \<Rightarrow> u64" where
  "guest_address w g = g (unat (EXTBITS w 21 25)) + sext16 (EXTBITS w 0 15)"

section \<open>The emitted words\<close>

lemma memory_type:
  assumes "load_op (EXTBITS w 26 31) \<or> store_op (EXTBITS w 26 31)"
  shows "getType (ucast (EXTBITS w 26 31)) = ITYPE"
  using assms by (auto simp: load_op_def store_op_def getType_def)

lemma find_load:
  assumes "load_op (EXTBITS w 26 31)"
  shows "findInstrCase (IInfo_of w) D pc = Inr (unprev_I_Load (IInfo_of w))"
  using assms unfolding load_op_def
  by (elim insertE emptyE) (simp_all add: find_entry opcode_funs_array_def opcode_defs)

lemma find_store:
  assumes "store_op (EXTBITS w 26 31)"
  shows "findInstrCase (IInfo_of w) D pc = Inr (unprev_I_Store (IInfo_of w))"
  using assms unfolding store_op_def
  by (elim insertE emptyE) (simp_all add: find_entry opcode_funs_array_def opcode_defs)

lemma access_run_step:
  assumes "step M w h = Some h'"
  shows "access_run M N (w # ws) (h, m) = access_run M N ws (h', m)"
  using assms by (simp add: access_step_def)

lemma access_op: "load_op op \<or> store_op op \<Longrightarrow> op AND 0x3f = op"
  by (auto simp: load_op_def store_op_def)

lemma load_not_store: "load_op op \<Longrightarrow> \<not> store_op op"
  by (auto simp: load_op_def store_op_def)

lemma access_word:
  assumes "load_op op \<or> store_op op" "unat (rs AND 0x1f) \<noteq> 12"
  shows "step M (encodeI op rs rt 0) h = None"
proof -
  have "op \<notin> {28, 31, 0}" "\<not> immediate_op op" using assms(1) by (auto simp: load_op_def store_op_def immediate_op_def)
  then show ?thesis
    using assms(2) by (simp add: step_def Let_def access_op [OF assms(1)] op_classes)
qed

lemma guest_resume:
  assumes "j < 32"
  shows "guest (resume r q h) j = guest h j" "cell (resume r q h) (gpr_cell j) = guest h j"
  using assms by (simp_all add: guest_def resume_def gpr_cell_def)

lemma requesting_is:
  assumes "cell h' = request_cells st (IInfo_of w) h"
  shows "(enter h' p)\<lparr>retAddr := CodeAt t9\<rparr> = requesting st w t9 h p"
  by (simp add: requesting_def enter_def assms)

lemma requesting_fields:
  assumes "getType (ucast (EXTBITS w 26 31)) = ITYPE"
  shows "controlMark (requesting st w t9 h p) = 0" "tlbData (requesting st w t9 h p) = guest_address w (guest h)"
    "retAddr (requesting st w t9 h p) = CodeAt t9" "loadstore (ctx (requesting st w t9 h p)) = (if st then 1 else 0)"
  using assms by (simp_all add: requesting_def enter_def request_cells_def guest_address_def I_fields Let_def)

text \<open>The hypervisor's part: the request of an access is served when its address translates.\<close>

lemma request_served:
  assumes "getType (ucast (EXTBITS w 26 31)) = ITYPE" "cell h' = request_cells st (IInfo_of w) h"
    and "\<not> isIOaddr (guest_address w (guest h))"
    and "addrTranslation k (guest_address w (guest h)) (requesting st w t9 h p) = Inr (True, HVA, q)"
  shows "handleRequest k t9 (enter h' p) = Inr (Some (q\<lparr>transAddr := HVA\<rparr>))" "retAddr q = CodeAt t9"
proof -
  note f = requesting_fields [OF assms(1), of _ t9 h p]
  show "handleRequest k t9 (enter h' p) = Inr (Some (q\<lparr>transAddr := HVA\<rparr>))"
    using assms(3,4) by (simp add: handleRequest_def requesting_is [OF assms(2)] f(1,2) handleLDST_def Let_def)
  show "retAddr q = CodeAt t9"
    using addrTranslation_flow [OF assms(4)] requesting_fields(3) [OF assms(1)] by (simp add: same_flow_def)
qed

text \<open>The words after the hand-over.\<close>

lemma run_tail:
  assumes "load_op op \<or> store_op op"
  shows "access_run M N (encodeI 55 12 13 48 # encodeI 55 12 14 (200 + 8 * ucast (rt :: 5 word)) # encodeI op 13 14 0 # ws) (x, m) =
    (let y = set_hreg 14 (cell x (gpr_cell (unat rt))) (set_hreg 13 (cell x 48) x);
         a = cell x 48; v = cell x (gpr_cell (unat rt)) in
     access_run M N ws (if load_op op then (set_hreg 14 (ld_value N op a v m) y, m) else (y, st_bytes N op a v m)))"
proof -
  have w: "step M (encodeI op 13 14 0) y = None" for y by (rule access_word [OF assms]) simp
  have "access_step M N (encodeI op 13 14 0) (y, m) =
      (if load_op op then Some (set_hreg 14 (ld_value N op (get_hreg y 13) (get_hreg y 14) m) y, m)
       else Some (y, st_bytes N op (get_hreg y 13) (get_hreg y 14) m))" for y
    using assms by (auto simp: access_step_def w access_op [OF assms] Let_def)
  then show ?thesis unfolding access_run_step [OF step_ld] by (simp add: Let_def)
qed

text \<open>
  The code of an access in its three parts: the request, the hand-over and the access at the address the hypervisor has left.
\<close>

definition access_effect :: "Mem_ISA \<Rightarrow> u32 \<Rightarrow> u64 \<Rightarrow> (nat \<Rightarrow> u64) \<times> memory \<Rightarrow> (nat \<Rightarrow> u64) \<times> memory" where
  "access_effect N w a s =
     (case s of (c, m) \<Rightarrow>
       (let op = EXTBITS w 26 31; rt = gpr_cell (unat (EXTBITS w 16 20)) in
        if load_op op then (c(rt := ld_value N op a (c rt) m), m) else (c, st_bytes N op a (c rt) m)))"

definition access_ins :: "u32 \<Rightarrow> bool" where
  "access_ins w \<longleftrightarrow> load_op (EXTBITS w 26 31) \<and> EXTBITS w 16 20 \<noteq> 0 \<or> store_op (EXTBITS w 26 31)"

lemma access_ins_op:
  assumes "access_ins w"
  shows "load_op (EXTBITS w 26 31) \<or> store_op (EXTBITS w 26 31)" "getType (ucast (EXTBITS w 26 31)) = ITYPE"
  using assms memory_type [of w] by (auto simp: access_ins_def)

lemma access_parts:
  assumes M: "mips_isa M" and w: "access_ins w"
  shows "\<exists>A B. findInstrCase (IInfo_of w) D pc = Inr (A @ encodeR 0 24 0 25 0 9 # 0 # B)
    \<and> length A = (if store_op (EXTBITS w 26 31) then 10 else 8)
    \<and> (\<forall>h. \<exists>h'. run M A h = Some h' \<and> cell h' = request_cells (store_op (EXTBITS w 26 31)) (IInfo_of w) h)
    \<and> (\<forall>x m. \<exists>h2 m2. access_run M N B (x, m) = Some (h2, m2) \<and> (cell h2, m2) = access_effect N w (cell x 48) (cell x, m))"
proof -
  let ?op = "EXTBITS w 26 31" and ?p = "IInfo_of w" and ?rt = "ucast (EXTBITS w 16 20) :: 5 word"
  let ?st = "store_op ?op"
  let ?A = "take (if ?st then 10 else 8) (common_in_LS ?p (if ?st then 1 else 0))"
  let ?B = "[encodeI 55 12 13 48, encodeI 55 12 14 (200 + 8 * ucast ?rt), encodeI ?op 13 14 0]
    @ (if ?st then [] else [encodeI 63 12 14 (200 + 8 * ucast ?rt)])"
  note op = access_ins_op [OF w]
  have rt: "I_rt ?p = ?rt" "unat ?rt = unat (EXTBITS w 16 20)" using field_less(1) [of ?rt] by (simp_all add: I_fields [OF op(2)])
  have words: "findInstrCase ?p D pc = Inr (?A @ encodeR 0 24 0 25 0 9 # 0 # ?B)"
  proof (cases ?st)
    case True
    then show ?thesis using find_store [of w D pc] rt(1)
      by (simp add: unprev_I_Store_def common_in_LS_def Let_def)
  next
    case False
    then have "load_op ?op" "?rt \<noteq> 0" using w by (auto simp: access_ins_def word_unat_eq_iff rt(2))
    then show ?thesis using False find_load [of w D pc] rt(1)
      by (simp add: unprev_I_Load_def common_in_LS_def Let_def)
  qed
  have "\<exists>h2 m2. access_run M N ?B (x, m) = Some (h2, m2) \<and> (cell h2, m2) = access_effect N w (cell x 48) (cell x, m)" for x m
  proof (cases ?st)
    case True
    then have nl: "\<not> load_op ?op" using load_not_store by blast
    show ?thesis
      using True nl unfolding run_tail [OF op(1)] append.simps append_Nil2 if_P [OF True] Let_def if_not_P [OF nl]
      by (simp add: access_effect_def rt(2))
  next
    case False
    then have l: "load_op ?op" using op(1) by blast
    show ?thesis
      unfolding append.simps if_not_P [OF False] run_tail [OF op(1)] Let_def if_P [OF l] access_run_step [OF step_sd] gpr_offset
      using l by (simp add: access_effect_def rt(2) Let_def)
  qed
  moreover have "length ?A = (if ?st then 10 else 8)" by (auto simp: common_in_LS_def Let_def)
  ultimately show ?thesis using words run_request [OF M, of ?st ?p] by blast
qed

section \<open>Running code in its place\<close>

text \<open>Words that a run passes, wherever they stand in the code.\<close>

type_synonym state = "HostMips.Host \<times> memory \<times> Processor_IPE"

definition passes ::
    "Host_ISA \<Rightarrow> Mem_ISA \<Rightarrow> Processor.Host \<Rightarrow> (nat \<Rightarrow> nat \<Rightarrow> u64) \<Rightarrow> (nat \<Rightarrow> u64) \<Rightarrow> nat \<Rightarrow> u32 list \<Rightarrow> state \<Rightarrow> state \<Rightarrow> bool" where
  "passes M N k r ra i ws s s' \<longleftrightarrow> (\<forall>pre post n res. length pre = i \<longrightarrow>
     code_run M N k r ra n (pre @ ws @ post) (i + length ws) s' = Some res \<longrightarrow>
     code_run M N k r ra (length ws + n) (pre @ ws @ post) i s = Some res)"

lemma passesD:
  assumes "passes M N k r ra i ws s s'" "length pre = i" "code_run M N k r ra n (pre @ ws @ post) (i + length ws) s' = Some res"
  shows "code_run M N k r ra (length ws + n) (pre @ ws @ post) i s = Some res"
  using assms unfolding passes_def by blast

lemma passes_append:
  assumes "passes M N k r ra i ws s s'" "passes M N k r ra (i + length ws) vs s' s''"
  shows "passes M N k r ra i (ws @ vs) s s''"
  unfolding passes_def
proof (intro allI impI)
  fix pre post n res
  assume i: "length (pre :: u32 list) = i" and e: "code_run M N k r ra n (pre @ (ws @ vs) @ post) (i + length (ws @ vs)) s'' = Some res"
  have "code_run M N k r ra (length vs + n) ((pre @ ws) @ vs @ post) (i + length ws) s' = Some res"
    by (rule passesD [OF assms(2)]) (use i e in \<open>simp_all add: add.assoc\<close>)
  then show "code_run M N k r ra (length (ws @ vs) + n) (pre @ (ws @ vs) @ post) i s = Some res"
    using passesD [OF assms(1) i, of "length vs + n" "vs @ post" res] by (simp add: add.assoc)
qed

lemma exec_fuel:
  assumes "exec M n ws i h = Some res"
  shows "exec M (n + d) ws i h = Some res"
  using assms
proof (induction n arbitrary: i h)
  case (Suc n)
  then show ?case by (auto simp: exec.simps(2) Let_def split: if_splits option.splits)
qed simp

lemma code_run_fuel:
  assumes "code_run M N k r ra n ws i s = Some res"
  shows "code_run M N k r ra (n + d) ws i s = Some res"
  using assms
proof (induction n arbitrary: i s)
  case (Suc n)
  obtain h m p where s: "s = (h, m, p)" by (cases s)
  show ?case
  proof (cases "if i < length ws then access_step M N (ws ! i) (h, m) else None")
    case (Some t)
    then show ?thesis using Suc by (cases t) (simp add: s)
  next
    case None
    then obtain o1 h1 where e: "exec M (Suc n) ws i h = Some (o1, h1)"
      using Suc.prems by (simp only: s code_run.simps option.case) (auto split: option.splits)
    then have "exec M (Suc (n + d)) ws i h = Some (o1, h1)" using exec_fuel [OF e, of d] by simp
    then show ?thesis using Suc.prems Suc.IH None e
      by (simp only: s code_run.simps add_Suc option.case prod.case) (auto split: outcome.splits sum.splits option.splits if_splits)
  qed
qed simp

lemma passes_words:
  assumes "access_run M N ws (h, m) = Some (h', m')"
  shows "passes M N k r ra i ws (h, m, p) (h', m', p)"
  using assms
proof (induction ws arbitrary: h m i)
  case Nil
  then show ?case by (simp add: passes_def)
next
  case (Cons w ws)
  then obtain h1 m1 where 1: "access_step M N w (h, m) = Some (h1, m1)" "access_run M N ws (h1, m1) = Some (h', m')"
    by (auto split: option.splits)
  have "passes M N k r ra i [w] (h, m, p) (h1, m1, p)" using 1(1) by (auto simp: passes_def nth_append)
  moreover have "passes M N k r ra (Suc i) ws (h1, m1, p) (h', m', p)" by (rule Cons.IH [OF 1(2)])
  ultimately show ?case using passes_append [of M N k r ra i "[w]"] by fastforce
qed

lemma run_access: "run M ws h = Some h' \<Longrightarrow> access_run M N ws (h, m) = Some (h', m)"
  by (induction ws arbitrary: h) (auto simp: access_step_def split: option.splits)

text \<open>A hand-over behind which the core goes on, and one behind which it does not.\<close>

lemma hand_over:
  assumes i: "length pre = i"
  shows "code_run M N k r ra (Suc n) (pre @ encodeR 0 24 0 25 0 9 # 0 # post) i (h, m, p) =
    (case handleRequest k (ra (i + 2)) (enter h p) of
       Inr (Some q) \<Rightarrow>
         if retAddr q = CodeAt (ra (i + 2))
         then code_run M N k r ra n (pre @ encodeR 0 24 0 25 0 9 # 0 # post) (i + 2) (resume (r (i + 2)) q h, m, q)
         else Some (Call (i + 2), h, m, enter h p)
     | _ \<Rightarrow> Some (Call (i + 2), h, m, enter h p))"
proof -
  let ?ws = "pre @ encodeR 0 24 0 25 0 9 # 0 # post"
  have "step M (encodeR 0 24 0 25 0 9) h = None" by (rule step_jump) simp_all
  then have "access_step M N (encodeR 0 24 0 25 0 9) (h, m) = None"
    by (simp add: access_step_def Let_def load_op_def store_op_def)
  then have a: "(if i < length ?ws then access_step M N (?ws ! i) (h, m) else None) = None" using i by auto
  have "exec M (Suc n) ?ws i h = Some (Call (i + 2), h)"
    using exec_call [of M "[]" h h "Suc n" pre post] by (simp add: i)
  then show ?thesis by (simp only: code_run.simps a option.case prod.case outcome.case)
qed

lemma passes_request:
  assumes "run M A h = Some h'" "handleRequest k (ra (i + length A + 2)) (enter h' p) = Inr (Some q)"
    and "retAddr q = CodeAt (ra (i + length A + 2))"
    and "access_run M N B (resume (r (i + length A + 2)) q h', m) = Some (h2, m2)"
  shows "passes M N k r ra i (A @ encodeR 0 24 0 25 0 9 # 0 # B) (h, m, p) (h2, m2, q)"
proof -
  let ?J = "[encodeR 0 24 0 25 0 9, 0]" and ?s = "(resume (r (i + length A + 2)) q h', m, q)"
  have "passes M N k r ra (i + length A) ?J (h', m, p) ?s"
    unfolding passes_def
  proof (intro allI impI)
    fix pre post n res
    assume i: "length (pre :: u32 list) = i + length A" and e: "code_run M N k r ra n (pre @ ?J @ post) (i + length A + length ?J) ?s = Some res"
    have "code_run M N k r ra (Suc n) (pre @ ?J @ post) (i + length A) (h', m, p) = Some res"
      using hand_over [OF i, of M N k r ra n post h' m p] e assms(2,3) by simp
    from code_run_fuel [OF this, of 1] show "code_run M N k r ra (length ?J + n) (pre @ ?J @ post) (i + length A) (h', m, p) = Some res"
      by simp
  qed
  then have "passes M N k r ra (i + length A) (?J @ B) (h', m, p) (h2, m2, q)"
    using passes_words [OF assms(4), of k r ra "i + length A + 2" q] by (intro passes_append) simp_all
  then show ?thesis
    using passes_append [OF passes_words [OF run_access [OF assms(1)]]] by fastforce
qed

text \<open>An access whose address the core translates.\<close>

lemma rt_less: "unat (EXTBITS w 16 20) < 32"
  using field_less(1) [of "ucast (EXTBITS w 16 20)"] by simp

lemma resume_request:
  assumes "cell h' = request_cells st i h"
  shows "cell (resume r q h') = cell (resume r q h)"
  by (intro ext) (simp add: resume_def assms request_cells_def Let_def)

lemma passes_access:
  assumes M: "mips_isa M" and w: "access_ins w" and cs: "findInstrCase (IInfo_of w) D pc = Inr cs"
    and t: "\<not> isIOaddr (guest_address w (guest h))"
      "addrTranslation k (guest_address w (guest h)) (requesting (store_op (EXTBITS w 26 31)) w (ra j) h p) = Inr (True, HVA, q)"
    and j: "j = i + (if store_op (EXTBITS w 26 31) then 12 else 10)"
  shows "\<exists>h2 m2. passes M N k r ra i cs (h, m, p) (h2, m2, q\<lparr>transAddr := HVA\<rparr>)
    \<and> (cell h2, m2) = access_effect N w HVA (cell (resume (r j) (q\<lparr>transAddr := HVA\<rparr>) h), m)"
proof -
  let ?q = "q\<lparr>transAddr := HVA\<rparr>"
  obtain A B where parts: "findInstrCase (IInfo_of w) D pc = Inr (A @ encodeR 0 24 0 25 0 9 # 0 # B)"
      "length A = (if store_op (EXTBITS w 26 31) then 10 else 8)"
      "\<exists>h'. run M A h = Some h' \<and> cell h' = request_cells (store_op (EXTBITS w 26 31)) (IInfo_of w) h"
    and B: "\<forall>x. \<exists>h2 m2. access_run M N B (x, m) = Some (h2, m2) \<and> (cell h2, m2) = access_effect N w (cell x 48) (cell x, m)"
    using access_parts [OF M w, of D pc N] by metis
  obtain h' where A: "cs = A @ encodeR 0 24 0 25 0 9 # 0 # B" "i + length A + 2 = j"
      "run M A h = Some h'" "cell h' = request_cells (store_op (EXTBITS w 26 31)) (IInfo_of w) h"
    using parts cs j by auto
  note served = request_served [OF access_ins_op(2) [OF w] A(4) t]
  obtain h2 m2 where h2: "access_run M N B (resume (r j) ?q h', m) = Some (h2, m2)"
      "(cell h2, m2) = access_effect N w (cell (resume (r j) ?q h') 48) (cell (resume (r j) ?q h'), m)"
    using B by blast
  have "cell (resume (r j) ?q h') 48 = HVA" by (simp add: resume_def)
  then have "(cell h2, m2) = access_effect N w HVA (cell (resume (r j) ?q h), m)"
    using h2(2) resume_request [OF A(4)] by simp
  moreover have "passes M N k r ra i cs (h, m, p) (h2, m2, ?q)"
    unfolding A(1) by (rule passes_request [OF A(3)]) (use served h2(1) A(2) in simp_all)
  ultimately show ?thesis by blast
qed

section \<open>What the host's accesses touch\<close>

text \<open>The accesses that read or write all bytes of their size; the partial ones of unaligned words are not among them.\<close>

definition size_of :: "u32 \<Rightarrow> nat" where
  "size_of op =
     (if op \<in> {32, 36, 40} then 1 else if op \<in> {33, 37, 41} then 2 else if op \<in> {35, 39, 43} then 4
      else if op \<in> {55, 63} then 8 else 0)"

abbreviation whole :: "u32 \<Rightarrow> bool" where
  "whole op \<equiv> 0 < size_of op"

locale mem_isa =
  fixes N :: Mem_ISA
  assumes ld_local: "load_op op \<Longrightarrow> whole op \<Longrightarrow> (\<And>i. i < size_of op \<Longrightarrow> m (a + of_nat i) = m' (a' + of_nat i)) \<Longrightarrow>
        ld_value N op a v m = ld_value N op a' v m'"
    and st_local: "store_op op \<Longrightarrow> whole op \<Longrightarrow> i < size_of op \<Longrightarrow>
        st_bytes N op a v m (a + of_nat i) = st_bytes N op a' v m' (a' + of_nat i)"
    and st_frame: "store_op op \<Longrightarrow> whole op \<Longrightarrow> size_of op \<le> unat (x - a) \<Longrightarrow> st_bytes N op a v m x = m x"
    and ld_sd: "ld_value N 55 a old (st_bytes N 63 a v m) = v"
begin

text \<open>
  Memory placed elsewhere by \<open>H\<close>, without overlaps and keeping the bytes of an access together: an access at the
  place of an address is the access at the address of the memory seen through \<open>H\<close>.
\<close>

lemma load_placed:
  assumes "load_op op" "whole op" "\<And>i. i < size_of op \<Longrightarrow> H (a + of_nat i) = H a + of_nat i"
  shows "ld_value N op (H a) v m = ld_value N op a v (\<lambda>b. m (H b))"
  using assms by (intro ld_local) simp_all

lemma store_placed:
  assumes "store_op op" "whole op" "\<And>i. i < size_of op \<Longrightarrow> H (a + of_nat i) = H a + of_nat i"
    and "\<And>i. i < size_of op \<Longrightarrow> H b = H (a + of_nat i) \<Longrightarrow> b = a + of_nat i"
  shows "st_bytes N op (H a) v m (H b) = st_bytes N op a v (\<lambda>b. m (H b)) b"
proof (cases "unat (b - a) < size_of op")
  case True
  have b: "b = a + of_nat (unat (b - a))" by simp
  then have "H b = H a + of_nat (unat (b - a))" using assms(3) [OF True] by simp
  then show ?thesis using st_local [OF assms(1,2) True, of "H a" v m a "\<lambda>b. m (H b)"] b by simp
next
  case False
  have "\<not> unat (H b - H a) < size_of op"
  proof
    assume l: "unat (H b - H a) < size_of op"
    have "H b = H a + of_nat (unat (H b - H a))" by simp
    then have "b = a + of_nat (unat (H b - H a))" using assms(3,4) [OF l] by simp
    then have "unat (b - a) = unat (H b - H a)" by (metis add_diff_cancel_left' of_nat_unat ucast_id)
    then show False using l False by simp
  qed
  then show ?thesis using st_frame [OF assms(1,2), of "H b" "H a"] st_frame [OF assms(1,2), of b a] False by simp
qed

text \<open>Bytes that are not at the place of the access keep their value.\<close>

lemma store_elsewhere:
  assumes "store_op op" "whole op" "\<And>i. i < size_of op \<Longrightarrow> x \<noteq> a + of_nat i"
  shows "st_bytes N op a v m x = m x"
proof (rule st_frame [OF assms(1,2)], rule ccontr)
  assume "\<not> size_of op \<le> unat (x - a)"
  then show False using assms(3) [of "unat (x - a)"] by simp
qed

end

text \<open>An instance, with the most significant byte first.\<close>

definition ref_byte :: "nat \<Rightarrow> u64 \<Rightarrow> nat \<Rightarrow> u8" where
  "ref_byte n v i = ucast (drop_bit (8 * (n - 1 - i)) v)"

definition ref_word :: "u8 list \<Rightarrow> u64" where
  "ref_word bs = foldl (\<lambda>v b. push_bit 8 v OR ucast b) 0 bs"

definition ref_mem :: Mem_ISA where
  "ref_mem = \<lparr>ld_value = (\<lambda>op a v m.
       let n = size_of op; x = ref_word (map (\<lambda>i. m (a + of_nat i)) [0..<n]) in
       if op \<in> {32, 33, 35} then signed_take_bit (8 * n - 1) x else x),
     st_bytes = (\<lambda>op a v m x. if unat (x - a) < size_of op then ref_byte (size_of op) v (unat (x - a)) else m x)\<rparr>"

lemma size_of_le: "size_of op \<le> 8"
  by (simp add: size_of_def)

lemma unat_offset [simp]: "i < size_of op \<Longrightarrow> unat (of_nat i :: u64) = i"
  using size_of_le [of op] by (simp add: unat_of_nat take_bit_nat_eq_self)

lemma ref_bytes_word: "ref_word (map (ref_byte 8 v) [0..<8]) = v"
proof -
  have "[0..<8] = [0, 1, 2, 3, 4, 5, 6, 7 :: nat]" by (simp add: upt_rec)
  then show ?thesis
    unfolding ref_word_def ref_byte_def by (intro word64_eqI) (simp add: bitblast bit_simps)
qed

interpretation ref_mem: mem_isa ref_mem
proof unfold_locales
  fix op a a' v and m m' :: memory
  assume "\<And>i. i < size_of op \<Longrightarrow> m (a + of_nat i) = m' (a' + of_nat i :: u64)"
  then have e: "map (\<lambda>i. m (a + of_nat i)) [0..<size_of op] = map (\<lambda>i. m' (a' + of_nat i)) [0..<size_of op]" by simp
  show "ld_value ref_mem op a v m = ld_value ref_mem op a' v m'" unfolding ref_mem_def Mem_ISA.simps Let_def e ..
next
  fix a old v and m :: memory
  have i: "unat (of_nat i :: u64) = i" if "i < 8" for i using that by (simp add: unat_of_nat take_bit_nat_eq_self)
  have "ld_value ref_mem 55 a old M = ref_word (map (\<lambda>i. M (a + of_nat i)) [0..<8])" for M :: memory
    by (simp add: ref_mem_def size_of_def Let_def)
  moreover have "map (\<lambda>i. st_bytes ref_mem 63 a v m (a + of_nat i)) [0..<8] = map (ref_byte 8 v) [0..<8]"
    by (rule map_cong) (simp_all add: ref_mem_def size_of_def i)
  ultimately show "ld_value ref_mem 55 a old (st_bytes ref_mem 63 a v m) = v"
    by (simp only: ref_bytes_word)
qed (simp_all add: ref_mem_def)

section \<open>The guest's memory\<close>

text \<open>The guest's RAM as the guest addresses it, and an access of the guest to it, in one step.\<close>

definition guest_memory :: "GPAMap \<Rightarrow> memory \<Rightarrow> memory" where
  "guest_memory s m = (\<lambda>b. m (ram_HVA s b))"

definition guest_access :: "Mem_ISA \<Rightarrow> u32 \<Rightarrow> u64 \<Rightarrow> (nat \<Rightarrow> u64) \<times> memory \<Rightarrow> (nat \<Rightarrow> u64) \<times> memory" where
  "guest_access N w gpa s =
     (case s of (g, gm) \<Rightarrow>
       (let op = EXTBITS w 26 31; rt = unat (EXTBITS w 16 20) in
        if load_op op then (g(rt := ld_value N op gpa (g rt) gm), gm)
        else (g, st_bytes N op gpa (g rt) gm)))"

text \<open>The core finds the host address of a guest physical address: in its address cache, or by the MMU.\<close>

definition finds :: "Processor.Host \<Rightarrow> Processor_IPE \<Rightarrow> u64 \<Rightarrow> u64 \<Rightarrow> bool" where
  "finds k p va gpa \<longleftrightarrow>
     Check_cache (addrCache p) va (ctx p) = (True, ram_HVA (memory_map p) gpa)
     \<or> \<not> fst (Check_cache (addrCache p) va (ctx p)) \<and> va AND CVMSEG_MASK \<noteq> CVMSEG_BASE_ADDR
       \<and> (case mmu_GVAtoGPA (cp0 p) (tlb p) va (junk_address k) (ctx p) of
            Inr (ok, pa, c, x) \<Rightarrow> ok \<and> pa = gpa | _ \<Rightarrow> False)"

lemma finds_translates:
  assumes "finds k p va gpa" "ram_map ram (memory_map p)" "ram \<le> 0x400000000" "ram_address ram (unat gpa)"
  shows "\<exists>q. addrTranslation k va p = Inr (True, ram_HVA (memory_map p) gpa, q) \<and> memory_map q = memory_map p"
proof (cases "fst (Check_cache (addrCache p) va (ctx p))")
  case True
  then have "Check_cache (addrCache p) va (ctx p) = (True, ram_HVA (memory_map p) gpa)"
    using assms(1) by (auto simp: finds_def)
  then show ?thesis by (simp add: addrTranslation_def)
next
  case False
  then obtain c x where m: "mmu_GVAtoGPA (cp0 p) (tlb p) va (junk_address k) (ctx p) = Inr (True, gpa, c, x)"
    and v: "va AND CVMSEG_MASK \<noteq> CVMSEG_BASE_ADDR"
    using assms(1) by (auto simp: finds_def split: sum.splits)
  obtain a where "Check_cache (addrCache p) va (ctx p) = (False, a)"
    using False by (cases "Check_cache (addrCache p) va (ctx p)") simp
  then show ?thesis
    using v ram_HVA_is [OF assms(2-4), of "mmap k" "undefined_size k"] by (simp add: addrTranslation_def GVAtoHVA_def m Let_def)
qed

text \<open>The bytes of an aligned access lie together on the host's side: no access crosses the end of a region.\<close>

lemma aligned_together:
  assumes "take_bit e a = 0" "i < 2 ^ e" "e \<le> 28"
  shows "ram_HVA s (a + of_nat i) = ram_HVA s a + of_nat i"
proof -
  let ?w = "of_nat i :: u64"
  have "take_bit e ?w = ?w" using assms(2) by (simp add: take_bit_of_nat take_bit_nat_eq_self)
  then have w: "j < e" if "bit ?w j" for j using that by (metis bit_take_bit_iff)
  have w': "j < e" if "bit i j" "j < 64" for j using w [of j] that by (simp add: bit_simps)
  have a: "\<not> bit a j" if "j < e" for j using that assms(1) bit_take_bit_iff [of e a j] by simp
  have join: "x + ?w = x OR ?w" if "\<And>j. j < e \<Longrightarrow> \<not> bit x j" for x
  proof -
    have "x AND ?w = 0" by (rule bit_word_eqI) (use that w in \<open>auto simp: bit_and_iff\<close>)
    then show ?thesis using word_plus_and_or [of x ?w] by simp
  qed
  have m: "MEM_ADDR_OFFSET_MASK = mask 28" "MEM_ADDR_BASE_MASK = NOT (mask 28)" by (simp_all add: mask_numeral)
  have "(a OR ?w) AND NOT (mask 28) = a AND NOT (mask 28)"
    by (rule bit_word_eqI) (use assms(3) in \<open>auto simp: bit_simps dest!: w'\<close>)
  moreover have "(a OR ?w) AND mask 28 = (a AND mask 28) OR ?w"
    by (rule bit_word_eqI) (use assms(3) in \<open>auto simp: bit_simps dest: w'\<close>)
  moreover have "(a AND mask 28) + ?w = (a AND mask 28) OR ?w" using a by (intro join) (simp add: bit_simps)
  moreover have "a + ?w = a OR ?w" using a by (intro join) simp
  ultimately show ?thesis unfolding ram_HVA_def m by (simp add: add.assoc)
qed

lemma access_together:
  assumes "whole op" "unat a mod size_of op = 0" "i < size_of op"
  shows "ram_HVA s (a + of_nat i) = ram_HVA s a + of_nat i"
proof -
  have "size_of op \<in> {2 ^ 0, 2 ^ 1, 2 ^ 2, 2 ^ 3}" using assms(1) by (auto simp: size_of_def split: if_splits)
  then obtain e :: nat where e: "size_of op = 2 ^ e" "e \<le> 3"
    by (elim insertE emptyE) (erule that; simp)+
  have "unat (take_bit e a) = 0" unfolding unsigned_take_bit_eq using assms(2) by (simp add: e(1) take_bit_eq_mod)
  then show ?thesis using assms(3) e by (intro aligned_together [of e]) (simp_all add: unat_eq_zero)
qed

text \<open>The access at the host's side is the access of the guest to its memory.\<close>

lemma effect_registers:
  assumes "access_ins w" "(cell h2, m2) = access_effect N w a (cell x, m)"
  shows "guest h2 = fst (guest_access N w a (guest x, m))" "m2 = snd (guest_access N w a (guest x, m))"
    "(\<forall>r < 32. c \<noteq> gpr_cell r) \<Longrightarrow> cell h2 c = cell x c"
  using assms rt_less [of w]
  by (auto simp: access_effect_def guest_access_def guest_def fun_eq_iff Let_def split: if_splits)

lemma access_simulated:
  assumes N: "mem_isa N" and s: "ram_map ram s" "ram \<le> 0x400000000"
    and w: "access_ins w" "whole (EXTBITS w 26 31)"
    and gpa: "unat gpa mod size_of (EXTBITS w 26 31) = 0" "\<forall>i < size_of (EXTBITS w 26 31). ram_address ram (unat (gpa + of_nat i))"
  shows "fst (guest_access N w (ram_HVA s gpa) (g, m)) = fst (guest_access N w gpa (g, guest_memory s m))"
    "ram_address ram (unat b) \<Longrightarrow> guest_memory s (snd (guest_access N w (ram_HVA s gpa) (g, m))) b
      = snd (guest_access N w gpa (g, guest_memory s m)) b"
    "\<forall>(a, n) \<in> set (mappings s). \<not> (unat a \<le> unat x \<and> unat x < unat a + unat n) \<Longrightarrow> snd (guest_access N w (ram_HVA s gpa) (g, m)) x = m x"
proof -
  let ?op = "EXTBITS w 26 31"
  note H = access_together [OF w(2) gpa(1), where s = s]
  have ram: "ram_address ram (unat (gpa + of_nat i))" if "i < size_of ?op" for i using gpa(2) that by blast
  have l: "load_op ?op \<Longrightarrow> ld_value N ?op (ram_HVA s gpa) v m = ld_value N ?op gpa v (guest_memory s m)" for v
    unfolding guest_memory_def by (rule mem_isa.load_placed [OF N _ w(2) H])
  then show "fst (guest_access N w (ram_HVA s gpa) (g, m)) = fst (guest_access N w gpa (g, guest_memory s m))"
    by (simp add: guest_access_def Let_def)
  have st: "store_op ?op" if "\<not> load_op ?op" using that w(1) by (auto simp: access_ins_def)
  show "guest_memory s (snd (guest_access N w (ram_HVA s gpa) (g, m))) b = snd (guest_access N w gpa (g, guest_memory s m)) b"
    if "ram_address ram (unat b)"
  proof (cases "load_op ?op")
    case False
    have "st_bytes N ?op (ram_HVA s gpa) v m (ram_HVA s b) = st_bytes N ?op gpa v (\<lambda>b. m (ram_HVA s b)) b" for v
      using ram_HVA_inj [OF s that] ram by (intro mem_isa.store_placed [OF N st [OF False] w(2) H]) blast+
    then show ?thesis using False by (simp add: guest_access_def guest_memory_def Let_def)
  qed (simp add: guest_access_def Let_def)
  show "snd (guest_access N w (ram_HVA s gpa) (g, m)) x = m x"
    if x: "\<forall>(a, n) \<in> set (mappings s). \<not> (unat a \<le> unat x \<and> unat x < unat a + unat n)"
  proof (cases "load_op ?op")
    case False
    have "st_bytes N ?op (ram_HVA s gpa) v m x = m x" for v
    proof (rule mem_isa.store_elsewhere [OF N st [OF False] w(2)])
      fix i assume i: "i < size_of ?op"
      show "x \<noteq> ram_HVA s gpa + of_nat i"
        using ram_HVA_mapped [OF s ram [OF i]] x unfolding H [OF i] by blast
    qed
    then show ?thesis using False by (simp add: guest_access_def Let_def)
  qed (simp add: guest_access_def Let_def)
qed

section \<open>Properties\<close>

text \<open>
  Property C14. A translated load or store reaches the guest's RAM. For an aligned access to RAM whose address the core
  finds, after any run of the memory map, the emitted words, the hypervisor's request and the host's access amount to
  one access of the guest to its own memory at the guest physical address: the registers change as that access says, so do the
  bytes of the RAM, and no host memory outside the mappings changes.
\<close>

theorem guest_memory_simulation:
  assumes M: "mips_isa M" and N: "mem_isa N" and k: "mmap_ok (mmap k)"
    and gm: "map_reachable (mmap k) (undefined_size k) ram (memory_map p)" "unat ram \<le> 0x400000000"
    and w: "access_ins w" "whole (EXTBITS w 26 31)"
    and gpa: "unat gpa mod size_of (EXTBITS w 26 31) = 0"
      "\<forall>i < size_of (EXTBITS w 26 31). ram_address (unat ram) (unat (gpa + of_nat i))"
    and t: "\<not> isIOaddr (guest_address w (guest h))"
      "finds k (requesting (store_op (EXTBITS w 26 31)) w t9 h p) (guest_address w (guest h)) gpa"
  shows "\<exists>cs h2 m2 q. findInstrCase (IInfo_of w) D pc = Inr cs
    \<and> code_run M N k r ra (Suc (length cs)) cs 0 (h, m, p) = Some (End, h2, m2, q)
    \<and> memory_map q = memory_map p
    \<and> (\<forall>j < 32. guest h2 j = fst (guest_access N w gpa (guest h, guest_memory (memory_map p) m)) j)
    \<and> (\<forall>b. ram_address (unat ram) (unat b) \<longrightarrow> guest_memory (memory_map p) m2 b
        = snd (guest_access N w gpa (guest h, guest_memory (memory_map p) m)) b)
    \<and> (\<forall>x. (\<forall>(a, n) \<in> set (mappings (memory_map p)). \<not> (unat a \<le> unat x \<and> unat x < unat a + unat n)) \<longrightarrow> m2 x = m x)"
proof -
  let ?st = "store_op (EXTBITS w 26 31)" and ?s = "memory_map p" and ?va = "guest_address w (guest h)"
  let ?j = "if ?st then 12 else 10 :: nat"
  have s: "ram_map (unat ram) ?s" using reachable_ram_map [OF gm(1) k gm(2)] .
  have "memory_map (requesting ?st w a h p) = ?s" for a by (simp add: requesting_def enter_def)
  moreover have "finds k (requesting ?st w (ra ?j) h p) ?va gpa" using t(2) by (simp add: finds_def requesting_def)
  moreover have "ram_address (unat ram) (unat gpa)" using gpa(2) w(2) by (auto dest: spec [of _ 0])
  ultimately obtain q where q: "addrTranslation k ?va (requesting ?st w (ra ?j) h p) = Inr (True, ram_HVA ?s gpa, q)" "memory_map q = ?s"
    using finds_translates [of k "requesting ?st w (ra ?j) h p" ?va gpa "unat ram"] s gm(2) by metis
  obtain cs where cs: "findInstrCase (IInfo_of w) D pc = Inr cs" using access_parts [OF M w(1), of D pc N] by blast
  let ?q = "q\<lparr>transAddr := ram_HVA ?s gpa\<rparr>"
  let ?x = "resume (r ?j) ?q h"
  obtain h2 m2 where h2: "passes M N k r ra 0 cs (h, m, p) (h2, m2, ?q)"
    and e: "(cell h2, m2) = access_effect N w (ram_HVA ?s gpa) (cell ?x, m)"
    using passes_access [where ra = ra and j = ?j and i = 0 and r = r and m = m and N = N, OF M w(1) cs t(1) q(1)] by auto
  have "code_run M N k r ra (length cs + 1) ([] @ cs @ []) 0 (h, m, p) = Some (End, h2, m2, ?q)"
    by (rule passesD [OF h2]) (simp_all add: exec.simps(2))
  then have run: "code_run M N k r ra (Suc (length cs)) cs 0 (h, m, p) = Some (End, h2, m2, ?q)" by simp
  note sim = access_simulated [OF N s gm(2) w gpa]
  have g: "\<forall>j < 32. guest ?x j = guest h j" by (simp add: guest_resume)
  have "fst (guest_access N w a (guest ?x, m')) j = fst (guest_access N w a (guest h, m')) j \<and> snd (guest_access N w a (guest ?x, m')) = snd (guest_access N w a (guest h, m'))"
    if "j < 32" for j a m'
    using g that rt_less [of w] by (simp add: guest_access_def Let_def)
  note same = this
  have "guest h2 j = fst (guest_access N w gpa (guest h, guest_memory ?s m)) j" if "j < 32" for j
    using effect_registers(1) [OF w(1) e] sim(1) same [OF that] by simp
  moreover have m2: "m2 = snd (guest_access N w (ram_HVA ?s gpa) (guest h, m))"
    using effect_registers(2) [OF w(1) e] same [of 0] by simp
  ultimately show ?thesis using cs run q(2) sim(2,3) unfolding m2 by fastforce
qed

text \<open>A core in kernel mode with an empty address cache, about to store \<open>r2\<close> at the unmapped kernel address in \<open>r3\<close>.\<close>

definition store_word :: u32 where
  "store_word = 0xFC620100"

definition sample_guest :: HostMips.Host where
  "sample_guest = \<lparr>hreg = (\<lambda>_. 0), cell = (\<lambda>k. if k = 216 then 0xAB else if k = 224 then 0xFFFFFFFF80000000 else 0)\<rparr>"

lemma store_word_fields:
  "EXTBITS store_word 26 31 = 63" "EXTBITS store_word 16 20 = 2" "guest_address store_word (guest sample_guest) = 0xFFFFFFFF80000100"
  "guest sample_guest 2 = 0xAB"
  by (simp_all add: store_word_def EXTBITS_def guest_address_def guest_def sample_guest_def gpr_cell_def sext16_def)

lemma sample_finds:
  "finds sample_host (requesting True store_word ra sample_guest (sample_core 0 pc (Clear_cache [])\<lparr>memory_map := s\<rparr>)) 0xFFFFFFFF80000100 0x100"
proof -
  let ?p = "requesting True store_word ra sample_guest (sample_core 0 pc (Clear_cache [])\<lparr>memory_map := s\<rparr>)"
  have ty: "getType (ucast (EXTBITS store_word 26 31)) = ITYPE" by (rule memory_type) (simp add: store_word_fields store_op_def)
  have "ac_look (addrCache ?p) a (getLDST (ctx ?p)) = None" for a by (simp add: requesting_def enter_def)
  then have c: "\<not> fst (Check_cache (addrCache ?p) a (ctx ?p))" for a
    using ac_look_iff [of "addrCache ?p" a "ctx ?p"] by (metis option.distinct(1) prod.collapse)
  have "cp0 ?p = \<lparr>reg = (\<lambda>_. 0)\<rparr>"
    by (simp add: requesting_def enter_def request_cells_def sample_guest_def)
  then have "mmu_GVAtoGPA (cp0 ?p) t 0xFFFFFFFF80000100 a x = Inr (True, 0x100, \<lparr>reg = (\<lambda>_. 0)\<rparr>, setProt ST_WRITE x)" for t a x
    by (simp add: mmu_GVAtoGPA_def verify_priviliges_def get_KSU_def find_address_space_size_def get_segment_number_def
        look_staic_translation_32bit_def cp0_read_def Let_def)
  then show ?thesis using c by (simp add: finds_def)
qed

theorem guest_memory_simulation_witness:
  "\<exists>s ws h2 m2 q. initialize_GPA_subsections first_fit 0xFFFFFFFFFFFFFFFF 0x40000000 = Inr s
     \<and> findInstrCase (IInfo_of store_word) None 0 = Inr ws
     \<and> code_run ref_isa ref_mem sample_host (\<lambda>_ _. 0) (\<lambda>i. 0x1000 + of_nat (4 * i)) (Suc (length ws)) ws 0
           (sample_guest, \<lambda>_. 0, sample_core 0 0 (Clear_cache [])\<lparr>memory_map := s\<rparr>) = Some (End, h2, m2, q)
     \<and> m2 (ram_HVA s 0x106) = 0 \<and> m2 (ram_HVA s 0x107) = 0xAB"
proof -
  obtain s where s: "initialize_GPA_subsections first_fit 0xFFFFFFFFFFFFFFFF 0x40000000 = Inr s"
    using first_fit_starts by blast
  let ?p = "sample_core 0 0 (Clear_cache [])\<lparr>memory_map := s\<rparr>" and ?m = "\<lambda>_. 0 :: u8"
    and ?ra = "\<lambda>i. 0x1000 + of_nat (4 * i) :: u64"
  have n: "size_of 63 = 8" "store_op 63" "\<not> load_op 63" by (simp_all add: size_of_def store_op_def load_op_def)
  have i: "unat (0x100 + of_nat i :: u64) = 0x100 + i" if "i < 8" for i
    using that by (simp add: unat_word_ariths unat_of_nat take_bit_nat_eq_self)
  have ram: "\<forall>i < 8. ram_address (unat (0x40000000 :: u64)) (unat (0x100 + of_nat i :: u64))" by (simp add: i ram_address_def)
  have "map_reachable (mmap sample_host) (undefined_size sample_host) 0x40000000 (memory_map ?p)"
    using map_reachable.start [OF s] by simp
  from guest_memory_simulation [OF ref.mips_isa_axioms ref_mem.mem_isa_axioms _ this, of store_word "0x100" sample_guest 0 None 0 "\<lambda>_ _. 0" ?ra ?m]
  obtain ws h2 m2 q where r: "findInstrCase (IInfo_of store_word) None 0 = Inr ws"
      "code_run ref_isa ref_mem sample_host (\<lambda>_ _. 0) ?ra (Suc (length ws)) ws 0 (sample_guest, ?m, ?p) = Some (End, h2, m2, q)"
      "\<forall>b. ram_address (unat (0x40000000 :: u64)) (unat b) \<longrightarrow> m2 (ram_HVA s b) = st_bytes ref_mem 63 0x100 0xAB (guest_memory s ?m) b"
    using first_fit_ok sample_finds [where ra = 0 and pc = 0 and s = s] ram
    by (auto simp: store_word_fields access_ins_def n guest_access_def Let_def guest_memory_def isIOaddr_def)
  have "st_bytes ref_mem 63 0x100 0xAB (guest_memory s ?m) 0x106 = 0" "st_bytes ref_mem 63 0x100 0xAB (guest_memory s ?m) 0x107 = 0xAB"
    by (simp_all add: ref_mem_def n ref_byte_def)
  then have "m2 (ram_HVA s 0x106) = 0" "m2 (ram_HVA s 0x107) = 0xAB" using r(3) by (simp_all add: ram_address_def)
  then show ?thesis using s r(1,2) by blast
qed

end
