(* ===== verification/Coherence.thy ===== *)
theory Coherence
  imports Board
begin

text \<open>
  The address cache and the translation it stands for. Addresses of one page of 4 KB translate alike, so an entry of the cache
  answers for the whole page what the MMU and the memory map would answer; this lasts as long as the TLB and the
  registers of the system coprocessor do, which is the limit that \<open>cached_page_ignores_mode\<close> shows.
\<close>

section \<open>Translation of a page\<close>

lemma same_page_drop_12: "same_page a b \<longleftrightarrow> drop_bit 12 a = drop_bit 12 b"
proof -
  have "x AND GVA_BASE_MASK = push_bit 12 (drop_bit 12 x)" "drop_bit 12 (x AND GVA_BASE_MASK) = drop_bit 12 x" for x :: u64
    by (rule word64_eqI; simp add: bitblast bit_simps)+
  then show ?thesis unfolding same_page_def by metis
qed

lemma same_page_drop:
  assumes "same_page a b" "12 \<le> k"
  shows "drop_bit k a = drop_bit k b"
proof -
  have "drop_bit k x = drop_bit (k - 12) (drop_bit 12 x)" for x :: u64 using assms(2) by (simp add: drop_bit_drop_bit)
  then show ?thesis using assms(1) unfolding same_page_drop_12 by metis
qed

lemma same_page_less:
  assumes "same_page a b" "take_bit 12 m = mask 12"
  shows "m < a \<longleftrightarrow> m < b"
proof -
  have "m < x \<longleftrightarrow> drop_bit 12 m < drop_bit 12 x" for x :: u64
  proof -
    have s: "unat y = unat (drop_bit 12 y) * 4096 + unat (take_bit 12 y)" for y :: u64
      by (simp add: drop_bit_eq_div take_bit_eq_mod unat_div_distrib unat_mod_distrib div_mult_mod_eq)
    have l: "unat (take_bit 12 x) < 4096" using take_bit_nat_less_exp [of 12 "unat x"] by (simp add: unsigned_take_bit_eq)
    have M: "unat (take_bit 12 m) = 4095" by (simp add: assms(2) mask_numeral)
    have less: "M * 4096 + 4095 < X * 4096 + r \<longleftrightarrow> M < X" if "r < 4096" for M X r :: nat using that by auto
    show ?thesis unfolding word_less_nat_alt by (subst s [of m], subst s [of x]) (simp only: M less [OF l])
  qed
  then show ?thesis using same_page_drop [OF assms(1), of 12] by simp
qed

lemma verify_page: "same_page a b \<Longrightarrow> verify_priviliges c a = verify_priviliges c b"
proof -
  assume p: "same_page a b"
  have d: "drop_bit 32 a = drop_bit 32 b" "drop_bit 29 a = drop_bit 29 b" "drop_bit 62 a = drop_bit 62 b"
    using same_page_drop [OF p] by simp_all
  have "XUSEG_MAX_VALID_ADDR < a \<longleftrightarrow> XUSEG_MAX_VALID_ADDR < b" "XSSEG_MAX_VALID_ADDR < a \<longleftrightarrow> XSSEG_MAX_VALID_ADDR < b"
    "XKSEG_MAX_VALID_ADDR < a \<longleftrightarrow> XKSEG_MAX_VALID_ADDR < b"
    by (rule same_page_less [OF p]; simp add: mask_numeral)+
  then show ?thesis by (simp add: verify_priviliges_def find_address_space_size_def get_segment_number_def d)
qed

text \<open>What is left of an address in its page: the frame of \<open>g\<close> with the offset of \<open>b\<close>.\<close>

definition in_page :: "u64 \<Rightarrow> u64 \<Rightarrow> u64" where
  "in_page g b = (g AND GVA_BASE_MASK) OR (b AND 0xFFF)"

lemma masked_page:
  assumes "same_page a b" "m AND 0xFFF = 0xFFF"
  shows "in_page (a AND m) b = b AND m" "(a AND m) AND 0xFFF = a AND 0xFFF"
proof -
  have "(x AND m) AND GVA_BASE_MASK = (x AND GVA_BASE_MASK) AND m" for x :: u64 by (simp only: ac_simps)
  then have "(a AND m) AND GVA_BASE_MASK = (b AND m) AND GVA_BASE_MASK"
    using assms(1) unfolding same_page_def by metis
  moreover have "b AND 0xFFF = (b AND m) AND 0xFFF" using assms(2) by (metis and.assoc)
  moreover have "(x AND GVA_BASE_MASK) OR (x AND 0xFFF) = x" for x :: u64
    by (rule word64_eqI) (simp add: bitblast bit_simps)
  ultimately show "in_page (a AND m) b = b AND m" unfolding in_page_def by metis
  show "(a AND m) AND 0xFFF = a AND 0xFFF" using assms(2) by (metis and.assoc)
qed

lemma static_page:
  assumes "same_page a b"
  shows "look_staic_translation_32bit c b = map_option (\<lambda>g. in_page g b) (look_staic_translation_32bit c a)"
    "look_staic_translation_64bit c b = map_option (\<lambda>g. in_page g b) (look_staic_translation_64bit c a)"
    "look_staic_translation_32bit c a = Some g \<or> look_staic_translation_64bit c a = Some g \<Longrightarrow> g AND 0xFFF = a AND 0xFFF"
proof -
  have d: "get_segment_number b n = get_segment_number a n" for n
    using same_page_drop [OF assms] by (simp add: get_segment_number_def)
  note m = masked_page [OF assms, of "0x1FFFFFFF"] masked_page [OF assms, of "0xFFFFFFFF"] masked_page [OF assms, of "0x1FFFFFFFFFFFF"]
  show "look_staic_translation_32bit c b = map_option (\<lambda>g. in_page g b) (look_staic_translation_32bit c a)"
    using m(1,3) unfolding look_staic_translation_32bit_def d Let_def by simp
  show "look_staic_translation_64bit c b = map_option (\<lambda>g. in_page g b) (look_staic_translation_64bit c a)"
    using m(5) unfolding look_staic_translation_64bit_def d Let_def by simp
  show "look_staic_translation_32bit c a = Some g \<or> look_staic_translation_64bit c a = Some g \<Longrightarrow> g AND 0xFFF = a AND 0xFFF"
    using m(2,4,6) unfolding look_staic_translation_32bit_def look_staic_translation_64bit_def Let_def by (auto split: if_splits)
qed

text \<open>The TLB has no smaller pages, whatever has been written to PageMask.\<close>

lemma page_mask_low: "n < 13 \<Longrightarrow> bit (page_mask e) n"
proof -
  assume "n < 13"
  moreover have m: "MIN_PAGE_MASK = mask 13" by (simp add: mask_numeral)
  ultimately show ?thesis unfolding page_mask_def m by (simp add: bit_or_iff bit_mask_iff)
qed

lemma odd_page_same:
  assumes "same_page a b"
  shows "odd_page b e = odd_page a e"
proof -
  let ?P = "\<lambda>n. bit (ucast (drop_bit 1 (page_mask e)) :: u32) n"
  have "\<forall>n < 12. ?P n" by (simp add: bit_ucast_iff bit_drop_bit_eq page_mask_low)
  then have "length (filter ?P [0..<12]) = 12" by (subst filter_True) auto
  moreover have "[0..<32] = [0..<12] @ [12..<32 :: nat]" using upt_add_eq_append [of 0 12 20] by (simp del: upt_rec_numeral)
  ultimately have n: "12 \<le> popcount32 (drop_bit 1 (page_mask e))" unfolding popcount32_def by (simp del: upt_rec_numeral)
  have "bit x k = bit (drop_bit 12 x) (k - 12)" if "12 \<le> k" for x :: u64 and k using that by (simp add: bit_drop_bit_eq)
  then show ?thesis using assms n unfolding odd_page_def same_page_drop_12 by metis
qed

lemma entry_matches_same:
  assumes "same_page a b"
  shows "entry_matches asid r b e = entry_matches asid r a e"
proof -
  have "x AND NOT (page_mask e) = (x AND GVA_BASE_MASK) AND NOT (page_mask e)" for x
  proof -
    have "NOT (page_mask e) = GVA_BASE_MASK AND NOT (page_mask e)"
      unfolding page_mask_def by (rule word64_eqI) (simp add: bitblast bit_simps)
    then show ?thesis by (metis and.assoc)
  qed
  then have "b AND NOT (page_mask e) = a AND NOT (page_mask e)" using assms unfolding same_page_def by metis
  then show ?thesis by (simp add: entry_matches_def)
qed

lemma frame_page:
  assumes "same_page a b" "f AND drop_bit 1 (page_mask e) = 0"
  shows "f OR (b AND drop_bit 1 (page_mask e)) = in_page (f OR (a AND drop_bit 1 (page_mask e))) b"
    "(f OR (a AND drop_bit 1 (page_mask e))) AND 0xFFF = a AND 0xFFF"
proof -
  let ?d = "drop_bit 1 (page_mask e)"
  have d: "?d AND 0xFFF = 0xFFF"
    unfolding page_mask_def by (rule word64_eqI) (simp add: bitblast bit_simps)
  have "f AND 0xFFF = (f AND ?d) AND 0xFFF" using d by (metis and.assoc)
  then have f: "f AND 0xFFF = 0" using assms(2) by simp
  have split: "(f OR z) AND m = (f AND m) OR (z AND m)" for z m by (simp add: bit.conj_disj_distrib2)
  show "(f OR (a AND ?d)) AND 0xFFF = a AND 0xFFF"
    using masked_page(2) [OF assms(1) d] by (simp only: split f or.left_neutral)
  have "f AND GVA_BASE_MASK = f"
  proof -
    have "(f AND GVA_BASE_MASK) OR (f AND 0xFFF) = f" by (rule word64_eqI) (simp add: bitblast bit_simps)
    then show ?thesis using f by simp
  qed
  then have "in_page (f OR (a AND ?d)) b = f OR in_page (a AND ?d) b"
    unfolding in_page_def split by (simp only: or.assoc)
  then show "f OR (b AND ?d) = in_page (f OR (a AND ?d)) b"
    using masked_page(1) [OF assms(1) d] by simp
qed

text \<open>
  A success of the MMU holds for the page: with a right the page grants, another address of it translates to the same frame
  at its own offset, in whatever context.
\<close>

lemma mmu_page:
  assumes s: "mmu_GVAtoGPA c t a g x = Inr (True, pa, c', x')" "loadstore x \<in> {0, 1}"
    and wf: "list_all entry_wf t" and p: "same_page a b" and r: "loadstore y \<le> getProt x'"
  shows "mmu_GVAtoGPA c t b g' y = Inr (True, in_page pa b, c, setProt (getProt x') y)"
    "pa AND 0xFFF = a AND 0xFFF" "c' = c" "loadstore x \<le> getProt x'" "getProt x' \<in> {0, 1}"
proof -
  have d: "find_address_space_size b = find_address_space_size a"
    using same_page_drop [OF p] by (simp add: find_address_space_size_def)
  have v: "verify_priviliges c a" using s(1) by (auto simp: mmu_GVAtoGPA_def split: if_splits)
  then have vb: "verify_priviliges c b" using verify_page [OF p] by simp
  let ?st = "\<lambda>v. if find_address_space_size a = 0 then look_staic_translation_32bit c v else look_staic_translation_64bit c v"
  have stb: "?st b = map_option (\<lambda>g. in_page g b) (?st a)" using static_page(1,2) [OF p] by simp
  have all: "mmu_GVAtoGPA c t b g' y = Inr (True, in_page pa b, c, setProt (getProt x') y) \<and> pa AND 0xFFF = a AND 0xFFF \<and> c' = c
    \<and> loadstore x \<le> getProt x' \<and> getProt x' \<in> {0, 1}"
  proof (cases "?st a")
    case (Some h)
    then have m: "pa = h" "c' = c" "x' = setProt ST_WRITE x" using s(1) v by (auto simp: mmu_GVAtoGPA_def Let_def)
    then show ?thesis
      using Some v vb stb static_page(3) [OF p, of c h] s(2)
      by (auto simp: mmu_GVAtoGPA_def Let_def d getProt_def setProt_def split: if_splits)
  next
    case None
    then have tl: "tlb_GVAtoGPA t c a g x = Inr (True, pa, c', x')" using s(1) v by (auto simp: mmu_GVAtoGPA_def Let_def)
    let ?R = "\<lambda>v. ucast (drop_bit REGION_OFFSET v AND REGION_MASK) :: u8" and ?i = "tlb_first t c a"
    have "entry_matches (get_ASID c) k b = entry_matches (get_ASID c) k a" for k using entry_matches_same [OF p] by (intro ext)
    then have ib: "tlb_first t c b = ?i" using same_page_drop [OF p, of 62] by simp
    have i: "?i < length t" "access_allowed a x (t ! ?i)"
      using tl s(2) tlb_lookup_fault [where tlb = t and c = c and GVA = a and ctx = x and GPA = g, OF refl] unfolding tlb_GVAtoGPA_def Let_def
      by (auto split: if_splits simp: getLDST_def)
    have e: "(True, pa, c', x') = (True, page_frame a (t ! ?i) OR (a AND drop_bit 1 (page_mask (t ! ?i))), c,
        setProt (ucast (page_dirty a (t ! ?i))) x)"
      using trans [OF tl [symmetric] tlb_lookup_hit [OF refl i, where GPA = g]] by (rule sum.inject(2) [THEN iffD1])
    have o: "page_valid b (t ! ?i) = page_valid a (t ! ?i)" "page_dirty b (t ! ?i) = page_dirty a (t ! ?i)" "page_frame b (t ! ?i) = page_frame a (t ! ?i)"
      using odd_page_same [OF p] by (simp_all add: page_valid_def page_dirty_def page_frame_def)
    have one: "z = 0 \<or> z = 1" for z :: "1 word" using unsigned_less [of z, where 'a = nat] by (auto simp: word_unat_eq_iff)
    have D: "getProt x' = ucast (page_dirty a (t ! ?i))" using e by (simp add: getProt_def setProt_def)
    have "access_allowed b y (t ! ?i)"
      using i(2) o r one [of "page_dirty a (t ! ?i)"] unfolding D by (auto simp: getLDST_def)
    then have "tlb_GVAtoGPA t c b g' y = Inr (True, page_frame a (t ! ?i) OR (b AND drop_bit 1 (page_mask (t ! ?i))), c, setProt (getProt x') y)"
      using tlb_lookup_hit [where idx = ?i and tlb = t and c = c and GVA = b and ctx = y and GPA = g'] ib i(1) o D by simp
    moreover have "page_frame a (t ! ?i) AND drop_bit 1 (page_mask (t ! ?i)) = 0"
      using list_all_at [OF wf i(1)] by (simp add: entry_wf_def page_frame_def)
    note frame_page [OF p this]
    moreover have "loadstore x \<le> getProt x'" "getProt x' \<in> {0, 1}"
      using i(2) s(2) one [of "page_dirty a (t ! ?i)"] unfolding D by (auto simp: getLDST_def)
    ultimately show ?thesis using None stb vb e by (simp add: mmu_GVAtoGPA_def Let_def d)
  qed
  then show "mmu_GVAtoGPA c t b g' y = Inr (True, in_page pa b, c, setProt (getProt x') y)"
    "pa AND 0xFFF = a AND 0xFFF" "c' = c" "loadstore x \<le> getProt x'" "getProt x' \<in> {0, 1}" by blast+
qed

lemma mmu_success:
  assumes "mmu_GVAtoGPA c t a g x = Inr (True, pa, c', x')" "loadstore x \<in> {0, 1}" "list_all entry_wf t"
  shows "pa AND 0xFFF = a AND 0xFFF" "c' = c"
  using mmu_page [OF assms, of a "setProt (getProt x') x"] by (simp_all add: same_page_def setProt_def)

section \<open>The memory map of a page\<close>

text \<open>The map holds the host address \<open>H\<close> for a guest physical address.\<close>

definition known :: "GPAMap \<Rightarrow> u64 \<Rightarrow> u64 \<Rightarrow> bool" where
  "known s pa H \<longleftrightarrow> (case get_base_and_offset pa of (key, offset) \<Rightarrow>
     translate_GPA_to_HVA s key \<noteq> 0 \<and> H = translate_GPA_to_HVA s key + offset)"

lemma known_GPA: "known s pa H \<Longrightarrow> GPA_to_HVA m ub pa s = Inr (H, s)"
  by (auto simp: known_def GPA_to_HVA_def)

lemma GPA_known:
  assumes "GPA_to_HVA m ub pa s = Inr (H, s')" "mmap_ok m"
  shows "known s' pa H" "known s pb K \<Longrightarrow> known s' pb K"
proof -
  obtain key off where k: "get_base_and_offset pa = (key, off)" by (cases "get_base_and_offset pa")
  have "known s' pa H \<and> (known s pb K \<longrightarrow> known s' pb K)"
  proof (cases "translate_GPA_to_HVA s key = 0")
    case True
    then obtain i n d where r: "add_region m n key i s = Inr (d, s')" "H = d + off"
      using assms(1) by (auto simp: GPA_to_HVA_def k add_IO_Region_def Let_def bind_result_Inr_iff split: option.splits)
    have "d \<noteq> 0" using add_region_Inr(1) [OF r(1)] assms(2) unfolding mmap_ok_def by blast
    moreover have "translate_GPA_to_HVA s' j = (if j = key then d else translate_GPA_to_HVA s j)" for j
      by (simp add: translate_GPA_to_HVA_def add_region_Inr(3) [OF r(1)])
    ultimately show ?thesis using True r(2) k by (auto simp: known_def split: prod.splits)
  next
    case False
    then show ?thesis using assms(1) by (auto simp: GPA_to_HVA_def known_def k)
  qed
  then show "known s' pa H" "known s pb K \<Longrightarrow> known s' pb K" by blast+
qed

lemma page_offset: "(a :: u64) - (a AND GVA_BASE_MASK) = a AND 0xFFF"
proof -
  have "(a AND GVA_BASE_MASK) OR (a AND 0xFFF) = a" "(a AND GVA_BASE_MASK) AND (a AND 0xFFF) = 0"
    by (rule word64_eqI; simp add: bitblast bit_simps)+
  then show ?thesis using word_plus_and_or [of "a AND GVA_BASE_MASK" "a AND 0xFFF"] by (simp add: algebra_simps)
qed

lemma in_page_fields:
  "drop_bit 48 (in_page g b) = drop_bit 48 g"
  "k AND 0xFFF = 0 \<Longrightarrow> in_page g b AND k = g AND k"
  "m AND 0xFFF = 0xFFF \<Longrightarrow> in_page g b AND m = (g AND m) - (g AND 0xFFF) + (b AND 0xFFF)"
proof -
  show "drop_bit 48 (in_page g b) = drop_bit 48 g"
    unfolding in_page_def by (rule word64_eqI) (simp add: bitblast bit_simps)
  have split: "in_page g b AND z = ((g AND GVA_BASE_MASK) AND z) OR ((b AND 0xFFF) AND z)" for z
    unfolding in_page_def by (simp add: bit.conj_disj_distrib2)
  show "in_page g b AND k = g AND k" if "k AND 0xFFF = 0"
  proof -
    have "(b AND 0xFFF) AND k = b AND (k AND 0xFFF)" "(g AND GVA_BASE_MASK) AND k = g AND (k AND GVA_BASE_MASK)" by (simp_all only: ac_simps)
    moreover have "k AND GVA_BASE_MASK = k" using page_offset [of k] that by simp
    ultimately show ?thesis using that by (simp add: split)
  qed
  show "in_page g b AND m = (g AND m) - (g AND 0xFFF) + (b AND 0xFFF)" if "m AND 0xFFF = 0xFFF"
  proof -
    have o: "(x AND 0xFFF) AND m = x AND 0xFFF" for x using that by (metis and.assoc and.commute)
    have a: "(g AND GVA_BASE_MASK) AND m = (g AND m) AND GVA_BASE_MASK" by (simp only: ac_simps)
    have d: "(g AND m) AND GVA_BASE_MASK = (g AND m) - (g AND 0xFFF)"
    proof -
      have "(g AND m) AND 0xFFF = (g AND 0xFFF) AND m" by (simp only: ac_simps)
      then show ?thesis using page_offset [of "g AND m"] unfolding o by (metis add.commute diff_eq_eq)
    qed
    have "((g AND m) AND GVA_BASE_MASK) AND (b AND 0xFFF) = 0" by (rule word64_eqI) (simp add: bitblast bit_simps)
    then have "((g AND m) AND GVA_BASE_MASK) OR (b AND 0xFFF) = ((g AND m) AND GVA_BASE_MASK) + (b AND 0xFFF)"
      using word_plus_and_or [of "(g AND m) AND GVA_BASE_MASK" "b AND 0xFFF"] by simp
    then show ?thesis by (simp only: split o a d)
  qed
qed

lemma known_page:
  assumes "known s pa H" "pa AND 0xFFF = a AND 0xFFF"
  shows "known s (in_page pa b) (H - (a - (a AND GVA_BASE_MASK)) + (b - (b AND GVA_BASE_MASK)))"
proof -
  have "get_base_and_offset (in_page pa b) =
      (fst (get_base_and_offset pa), snd (get_base_and_offset pa) - (a AND 0xFFF) + (b AND 0xFFF))"
    using assms(2) by (simp add: get_base_and_offset_def in_page_fields)
  then show ?thesis using assms(1) unfolding page_offset by (auto simp: known_def algebra_simps split: prod.splits)
qed

section \<open>Coherence\<close>

text \<open>What a hit may answer: what the MMU and the memory map answer, in every context with the same kind of access.\<close>

definition answers :: "CP0_IPE \<Rightarrow> TLB_IPE \<Rightarrow> GPAMap \<Rightarrow> u64 \<Rightarrow> u64 \<Rightarrow> u64 \<Rightarrow> bool" where
  "answers c t s a st H \<longleftrightarrow> (st \<in> {0, 1} \<longrightarrow> a AND CVMSEG_MASK \<noteq> CVMSEG_BASE_ADDR \<and>
     (\<exists>pa prot. (\<forall>g x. loadstore x = st \<longrightarrow> mmu_GVAtoGPA c t a g x = Inr (True, pa, c, setProt prot x)) \<and> known s pa H))"

definition coherent :: "Processor_IPE \<Rightarrow> bool" where
  "coherent p \<longleftrightarrow> cache_wf (addrCache p) \<and> ac.sound (answers (cp0 p) (tlb p) (memory_map p)) (addrCache p)"

lemma coherent_ctx [simp]: "coherent (p\<lparr>ctx := x\<rparr>) = coherent p"
  by (simp add: coherent_def)

lemma coherent_Clear: "addrCache p = Clear_cache ac \<Longrightarrow> coherent p"
  by (simp add: coherent_def ac.sound_def)

lemma coherent_hit:
  assumes "coherent p" "Check_cache (addrCache p) a (ctx p) = (True, H)" "loadstore (ctx p) \<in> {0, 1}"
  shows "a AND CVMSEG_MASK \<noteq> CVMSEG_BASE_ADDR"
    "\<exists>pa prot. (\<forall>g. mmu_GVAtoGPA (cp0 p) (tlb p) a g (ctx p) = Inr (True, pa, cp0 p, setProt prot (ctx p))) \<and> known (memory_map p) pa H"
proof -
  have "ac_look (addrCache p) a (loadstore (ctx p)) = Some H"
    using assms(2) ac_look_iff [of "addrCache p" a "ctx p"] by (simp add: getLDST_def)
  then have "answers (cp0 p) (tlb p) (memory_map p) a (loadstore (ctx p)) H"
    using assms(1) unfolding coherent_def ac.sound_def by blast
  then show "a AND CVMSEG_MASK \<noteq> CVMSEG_BASE_ADDR"
    "\<exists>pa prot. (\<forall>g. mmu_GVAtoGPA (cp0 p) (tlb p) a g (ctx p) = Inr (True, pa, cp0 p, setProt prot (ctx p))) \<and> known (memory_map p) pa H"
    using assms(3) unfolding answers_def by blast+
qed

lemma coherent_update:
  assumes c: "coherent p" and wf: "list_all entry_wf (tlb p)" and mm: "mmap_ok m" and ls: "loadstore x \<in> {0, 1}"
    and a: "a AND CVMSEG_MASK \<noteq> CVMSEG_BASE_ADDR"
    and s: "mmu_GVAtoGPA (cp0 p) (tlb p) a g x = Inr (True, pa, d, x')" "GPA_to_HVA m ub pa (memory_map p) = Inr (H, gm)"
  shows "coherent (p\<lparr>cp0 := d, ctx := y, memory_map := gm, addrCache := Update_cache a H (getProt x') (addrCache p)\<rparr>)"
proof -
  let ?c = "cp0 p" and ?t = "tlb p"
  have d: "d = ?c" by (rule mmu_success(2) [OF s(1) ls wf])
  have w: "cache_wf (addrCache p)" using c by (simp add: coherent_def)
  have old: "answers ?c ?t gm b st K" if "ac_look (addrCache p) b st = Some K" for b st K
    using c that GPA_known(2) [OF s(2) mm] unfolding coherent_def ac.sound_def answers_def by blast
  have "answers ?c ?t gm b st (H - (a - (a AND GVA_BASE_MASK)) + (b - (b AND GVA_BASE_MASK)))"
    if p: "same_page a b" "st \<le> getProt x'" for b st
    unfolding answers_def
  proof (intro impI conjI exI allI)
    have "b AND CVMSEG_MASK = (b AND GVA_BASE_MASK) AND CVMSEG_MASK" for b :: u64
      by (rule word64_eqI) (simp add: bitblast bit_simps)
    then show "b AND CVMSEG_MASK \<noteq> CVMSEG_BASE_ADDR" using a p(1) unfolding same_page_def by metis
  next
    fix g' y assume "loadstore (y :: Context_IPE) = st"
    then show "mmu_GVAtoGPA ?c ?t b g' y = Inr (True, in_page pa b, ?c, setProt (getProt x') y)"
      using mmu_page(1) [OF s(1) ls wf p(1)] p(2) by simp
  next
    show "known gm (in_page pa b) (H - (a - (a AND GVA_BASE_MASK)) + (b - (b AND GVA_BASE_MASK)))"
      by (rule known_page [OF GPA_known(1) [OF s(2) mm] mmu_success(1) [OF s(1) ls wf]])
  qed
  then have "ac.sound (answers ?c ?t gm) (Update_cache a H (getProt x') (addrCache p))"
    using old ac.look_insD [OF w] unfolding ac.sound_def by blast
  then show ?thesis using w by (simp add: coherent_def d)
qed

lemma coherent_translation:
  assumes "coherent p" "list_all entry_wf (tlb p)" "mmap_ok (mmap h)" "loadstore (ctx p) \<in> {0, 1}"
    and "addrTranslation h a p = Inr (True, H, q)"
  shows "coherent q" "cp0 q = cp0 p" "tlb q = tlb p"
proof -
  have "coherent q \<and> cp0 q = cp0 p \<and> tlb q = tlb p"
  proof (cases "fst (Check_cache (addrCache p) a (ctx p)) \<or> a AND CVMSEG_MASK = CVMSEG_BASE_ADDR")
    case True
    then have "q = p" using assms(5) by (auto simp: addrTranslation_def split: prod.splits bool.splits)
    then show ?thesis using assms(1) by simp
  next
    case False
    then obtain pa d x gm where
      m: "mmu_GVAtoGPA (cp0 p) (tlb p) a (junk_address h) (ctx p) = Inr (True, pa, d, x)" "GPA_to_HVA (mmap h) (undefined_size h) pa (memory_map p) = Inr (H, gm)"
      and q: "q = p\<lparr>cp0 := d, ctx := x, memory_map := gm, addrCache := Update_cache a H (getProt x) (addrCache p)\<rparr>"
      using assms(5) by (auto simp: addrTranslation_def GVAtoHVA_def Let_def bind_result_Inr_iff split: prod.splits bool.splits if_splits)
    have "d = cp0 p" by (rule mmu_success(2) [OF m(1) assms(4,2)])
    then show ?thesis using coherent_update [OF assms(1-4) _ m] False by (simp add: q)
  qed
  then show "coherent q" "cp0 q = cp0 p" "tlb q = tlb p" by blast+
qed

section \<open>Properties\<close>

text \<open>The answers of two translations are alike: everything but what the cache and its context hold.\<close>

definition same_answer :: "(bool \<times> u64 \<times> Processor_IPE) result \<Rightarrow> (bool \<times> u64 \<times> Processor_IPE) result \<Rightarrow> bool" where
  "same_answer r r' =
     (case (r, r') of
        (Inr (ok, a, q), Inr (ok', a', q')) \<Rightarrow> ok = ok' \<and> a = a' \<and> cp0 q = cp0 q' \<and> tlb q = tlb q' \<and> memory_map q = memory_map q'
          \<and> PC (ctx q) = PC (ctx q')
      | (Inl e, Inl e') \<Rightarrow> e = e'
      | _ \<Rightarrow> False)"

inductive after_run :: "Host \<Rightarrow> Processor_IPE \<Rightarrow> Processor_IPE \<Rightarrow> bool" for h p where
  cleared: "after_run h p (p\<lparr>addrCache := Clear_cache ac\<rparr>)"
| answered: "after_run h p q \<Longrightarrow> loadstore x \<in> {0, 1} \<Longrightarrow> addrTranslation h a (q\<lparr>ctx := x\<rparr>) = Inr (True, H, r) \<Longrightarrow> after_run h p r"

lemma after_run_coherent:
  assumes "after_run h p q" "mmap_ok (mmap h)" "list_all entry_wf (tlb p)"
  shows "coherent q \<and> cp0 q = cp0 p \<and> tlb q = tlb p"
  using assms(1)
proof induction
  case (cleared ac)
  then show ?case by (simp add: coherent_Clear [of _ ac])
next
  case (answered q x a H r)
  then have "coherent (q\<lparr>ctx := x\<rparr>)" by simp
  then show ?case using coherent_translation [of "q\<lparr>ctx := x\<rparr>" h a H r] answered assms(2,3) by simp
qed

lemma coherent_same_answer:
  assumes "coherent p" "loadstore (ctx p) \<in> {0, 1}"
  shows "same_answer (addrTranslation h a p) (addrTranslation h a (p\<lparr>addrCache := Clear_cache ac\<rparr>))"
proof -
  have n: "ac_look (Clear_cache ac) a (getLDST (ctx p)) = None" by simp
  obtain k where k: "Check_cache (Clear_cache ac) a (ctx p) = (False, k)"
    using n ac_look_iff [of "Clear_cache ac" a "ctx p"] by (cases "Check_cache (Clear_cache ac) a (ctx p)") auto
  show ?thesis
  proof (cases "Check_cache (addrCache p) a (ctx p)")
    case (Pair hit H)
    show ?thesis
    proof (cases hit)
      case True
      then have H: "Check_cache (addrCache p) a (ctx p) = (True, H)" using Pair by simp
      obtain pa prot where "\<forall>g. mmu_GVAtoGPA (cp0 p) (tlb p) a g (ctx p) = Inr (True, pa, cp0 p, setProt prot (ctx p))" "known (memory_map p) pa H"
        using coherent_hit(2) [OF assms(1) H assms(2)] by blast
      then show ?thesis
        using H k coherent_hit(1) [OF assms(1) H assms(2)] known_GPA
        by (simp add: addrTranslation_def GVAtoHVA_def same_answer_def setProt_def Let_def)
    next
      case False
      then show ?thesis using Pair k
        by (auto simp: addrTranslation_def same_answer_def Let_def bind_result_def split: sum.splits)
    qed
  qed
qed

text \<open>
  Property C13. The address cache is transparent. After any run of successful translations since the cache was cleared, with
  the TLB and the coprocessor's registers as they were, a translation gives the same answer, success or
  exception, with the content the cache has as with none: the same host address, registers and memory map.
\<close>

theorem cache_transparent:
  assumes "after_run h p q" "mmap_ok (mmap h)" "list_all entry_wf (tlb p)" "loadstore x \<in> {0, 1}"
  shows "same_answer (addrTranslation h a (q\<lparr>ctx := x\<rparr>)) (addrTranslation h a (q\<lparr>ctx := x, addrCache := Clear_cache ac\<rparr>))"
proof -
  have "coherent (q\<lparr>ctx := x\<rparr>)" using after_run_coherent [OF assms(1-3)] by simp
  from coherent_same_answer [OF this, of h a ac] assms(4) show ?thesis by simp
qed

theorem cache_transparent_witness:
  "\<exists>s q H r r'. initialize_GPA_subsections first_fit 0xFFFFFFFFFFFFFFFF 0x40000000 = Inr s
     \<and> after_run sample_host (sample_core 0 0 []\<lparr>memory_map := s\<rparr>) q
     \<and> Check_cache (addrCache q) 0xFFFFFFFF80001010 (ctx q) = (True, H)
     \<and> addrTranslation sample_host 0xFFFFFFFF80001010 q = Inr (True, H, r)
     \<and> addrTranslation sample_host 0xFFFFFFFF80001010 (q\<lparr>addrCache := Clear_cache []\<rparr>) = Inr (True, H, r')"
proof -
  obtain s where s: "initialize_GPA_subsections first_fit 0xFFFFFFFFFFFFFFFF 0x40000000 = Inr s"
    using first_fit_starts by blast
  have "ram_map (unat (0x40000000 :: u64)) s" by (rule ram_map_initialize [OF first_fit_ok s]) simp
  from ram_HVA_is [OF this, of "0x1000" first_fit "0xFFFFFFFFFFFFFFFF"]
  have g: "GPA_to_HVA first_fit 0xFFFFFFFFFFFFFFFF 0x1000 s = Inr (ram_HVA s 0x1000, s)" by (simp add: ram_address_def)
  let ?p = "sample_core 0 0 []\<lparr>memory_map := s\<rparr>" and ?x = "\<lparr>loadstore = 0, PC = 0, writeData = 0\<rparr>"
  let ?clear = "?p\<lparr>addrCache := Clear_cache []\<rparr>"
  have k: "get_KSU \<lparr>reg = (\<lambda>_. 0)\<rparr> = KERNEL_MODE" by (simp add: get_KSU_def)
  have m: "mmu_GVAtoGPA \<lparr>reg = (\<lambda>_. 0)\<rparr> blank_tlb 0xFFFFFFFF80001000 j ?x = Inr (True, 0x1000, \<lparr>reg = (\<lambda>_. 0)\<rparr>, setProt ST_WRITE ?x)" for j
    using kernel_unmapped [OF k, of "0xFFFFFFFF80001000" blank_tlb j ?x] by simp
  have "ac_look (Clear_cache []) 0xFFFFFFFF80001000 (getLDST ?x) = None" by simp
  then obtain j where "Check_cache (Clear_cache []) 0xFFFFFFFF80001000 ?x = (False, j)"
    using ac_look_iff [of "Clear_cache []" "0xFFFFFFFF80001000" ?x] by (cases "Check_cache (Clear_cache []) 0xFFFFFFFF80001000 ?x") auto
  then obtain q where q: "addrTranslation sample_host 0xFFFFFFFF80001000 (?clear\<lparr>ctx := ?x\<rparr>) = Inr (True, ram_HVA s 0x1000, q)"
      "addrCache q = Update_cache 0xFFFFFFFF80001000 (ram_HVA s 0x1000) 1 (Clear_cache [])" "loadstore (ctx q) = 1"
    by (simp add: addrTranslation_def GVAtoHVA_def m g Let_def setProt_def getProt_def)
  have run: "after_run sample_host ?p q"
    by (rule after_run.answered [OF after_run.cleared _ q(1)]) simp
  have "ac_look (addrCache q) 0xFFFFFFFF80001010 (getLDST (ctx q)) = Some (ram_HVA s 0x1000 + 0x10)"
    using ac.look_ins_hit [of "Clear_cache []" "0xFFFFFFFF80001000" "0xFFFFFFFF80001010" "getLDST (ctx q)" 1 "ram_HVA s 0x1000"] q(3)
    by (simp add: q(2) same_page_def getLDST_def)
  then have h: "Check_cache (addrCache q) 0xFFFFFFFF80001010 (ctx q) = (True, ram_HVA s 0x1000 + 0x10)" by (simp add: ac_look_iff)
  then have t: "addrTranslation sample_host 0xFFFFFFFF80001010 q = Inr (True, ram_HVA s 0x1000 + 0x10, q)" by (simp add: addrTranslation_def)
  have "list_all entry_wf (tlb ?p)" by (simp add: blank_tlb_def list_all_iff entry_wf_def blank_entry_def)
  from cache_transparent [OF run _ this, of "ctx q" "0xFFFFFFFF80001010" "[]"] first_fit_ok q(3)
  have "same_answer (addrTranslation sample_host 0xFFFFFFFF80001010 q) (addrTranslation sample_host 0xFFFFFFFF80001010 (q\<lparr>addrCache := Clear_cache []\<rparr>))"
    by simp
  then obtain r' where "addrTranslation sample_host 0xFFFFFFFF80001010 (q\<lparr>addrCache := Clear_cache []\<rparr>) = Inr (True, ram_HVA s 0x1000 + 0x10, r')"
    by (auto simp: same_answer_def t split: sum.splits)
  then show ?thesis using s run h t by blast
qed

end
