(* ===== verification/MemBlock.thy ===== *)
theory MemBlock
  imports MemSim Coherence
begin

text \<open>
  Blocks that access memory. The guest's side is a machine over its registers and its RAM that runs a line of instructions
  until it ends or until an access has no translation. The emitted words, the hypervisor's requests and the host's accesses follow it:
  through to the exit of the block, or to the request of the access that faults, with the registers, the memory and the
  program counter of exactly the instructions before it. The faults are those of the accesses; overflow traps of the arithmetic
  are not represented on either side.
\<close>

section \<open>The guest's side\<close>

text \<open>The architecture's translation of an address, for the registers and the TLB of a core.\<close>

definition va_pa :: "CP0_IPE \<Rightarrow> TLB_IPE \<Rightarrow> bool \<Rightarrow> u64 \<Rightarrow> u64 option" where
  "va_pa c t st va =
     (case mmu_GVAtoGPA c t va 0 \<lparr>loadstore = of_bool st, PC = 0, writeData = 0\<rparr> of
        Inr (ok, pa, _, _) \<Rightarrow> if ok then Some pa else None
      | Inl _ \<Rightarrow> None)"

text \<open>A line of instructions: how many are done, and the registers and the memory after them.\<close>

fun guest_line ::
    "Host_ISA \<Rightarrow> Mem_ISA \<Rightarrow> (bool \<Rightarrow> u64 \<Rightarrow> u64 option) \<Rightarrow> u32 list \<Rightarrow> (nat \<Rightarrow> u64) \<times> memory \<Rightarrow>
     nat \<times> (nat \<Rightarrow> u64) \<times> memory" where
  "guest_line M N tr [] s = (0, s)"
| "guest_line M N tr (w # ws) (g, gm) =
     (if access_ins w
      then (case tr (store_op (EXTBITS w 26 31)) (guest_address w g) of
              None \<Rightarrow> (0, g, gm)
            | Some pa \<Rightarrow> (case guest_line M N tr ws (guest_access N w pa (g, gm)) of (n, s) \<Rightarrow> (Suc n, s)))
      else (case guest_line M N tr ws (guest_step M w g, gm) of (n, s) \<Rightarrow> (Suc n, s)))"

text \<open>
  What is asked of the line: instructions of the covered kinds, and accesses of whole, aligned data that go to RAM
  where they go anywhere, and not through the windows of the devices and of the core's scratch memory.
\<close>

definition in_ram :: "nat \<Rightarrow> u32 \<Rightarrow> u64 \<Rightarrow> bool" where
  "in_ram ram w pa \<longleftrightarrow> unat pa mod size_of (EXTBITS w 26 31) = 0
     \<and> (\<forall>i < size_of (EXTBITS w 26 31). ram_address ram (unat (pa + of_nat i)))"

fun ram_line ::
    "Host_ISA \<Rightarrow> Mem_ISA \<Rightarrow> (bool \<Rightarrow> u64 \<Rightarrow> u64 option) \<Rightarrow> nat \<Rightarrow> u32 list \<Rightarrow> (nat \<Rightarrow> u64) \<times> memory \<Rightarrow> bool" where
  "ram_line M N tr ram [] s \<longleftrightarrow> True"
| "ram_line M N tr ram (w # ws) (g, gm) \<longleftrightarrow>
     (if access_ins w
      then whole (EXTBITS w 26 31) \<and> \<not> isIOaddr (guest_address w g) \<and> guest_address w g AND CVMSEG_MASK \<noteq> CVMSEG_BASE_ADDR
        \<and> (case tr (store_op (EXTBITS w 26 31)) (guest_address w g) of
             None \<Rightarrow> True
           | Some pa \<Rightarrow> in_ram ram w pa \<and> ram_line M N tr ram ws (guest_access N w pa (g, gm)))
      else covered w \<and> ram_line M N tr ram ws (guest_step M w g, gm))"

lemma guest_line_take:
  assumes "guest_line M N tr ws s = (n, s')"
  shows "n \<le> length ws" "guest_line M N tr (take n ws) s = (n, s')"
    "ram_line M N tr ram ws s \<Longrightarrow> ram_line M N tr ram (take n ws) s"
    "n < length ws \<Longrightarrow> access_ins (ws ! n) \<and> tr (store_op (EXTBITS (ws ! n) 26 31)) (guest_address (ws ! n) (fst s')) = None"
    "n < length ws \<Longrightarrow> ram_line M N tr ram ws s \<Longrightarrow> whole (EXTBITS (ws ! n) 26 31) \<and> \<not> isIOaddr (guest_address (ws ! n) (fst s'))
      \<and> guest_address (ws ! n) (fst s') AND CVMSEG_MASK \<noteq> CVMSEG_BASE_ADDR"
proof -
  have "n \<le> length ws \<and> guest_line M N tr (take n ws) s = (n, s') \<and> (ram_line M N tr ram ws s \<longrightarrow> ram_line M N tr ram (take n ws) s)
    \<and> (n < length ws \<longrightarrow> access_ins (ws ! n) \<and> tr (store_op (EXTBITS (ws ! n) 26 31)) (guest_address (ws ! n) (fst s')) = None
      \<and> (ram_line M N tr ram ws s \<longrightarrow> whole (EXTBITS (ws ! n) 26 31) \<and> \<not> isIOaddr (guest_address (ws ! n) (fst s'))
        \<and> guest_address (ws ! n) (fst s') AND CVMSEG_MASK \<noteq> CVMSEG_BASE_ADDR))"
    using assms
  proof (induction ws arbitrary: s n)
    case (Cons w ws)
    obtain g gm where s: "s = (g, gm)" by (cases s)
    show ?case
    proof (cases "access_ins w \<and> tr (store_op (EXTBITS w 26 31)) (guest_address w g) = None")
      case True
      then show ?thesis using Cons.prems by (auto simp: s)
    next
      case False
      define s1 where "s1 = (if access_ins w then guest_access N w (the (tr (store_op (EXTBITS w 26 31)) (guest_address w g))) (g, gm)
        else (guest_step M w g, gm))"
      obtain n' where n': "guest_line M N tr ws s1 = (n', s')" "n = Suc n'"
        using False Cons.prems by (auto simp: s s1_def split: prod.splits if_splits)
      then show ?thesis using Cons.IH [OF n'(1)] False by (auto simp: s s1_def split: if_splits)
    qed
  qed simp
  then show "n \<le> length ws" "guest_line M N tr (take n ws) s = (n, s')"
    "ram_line M N tr ram ws s \<Longrightarrow> ram_line M N tr ram (take n ws) s"
    "n < length ws \<Longrightarrow> access_ins (ws ! n) \<and> tr (store_op (EXTBITS (ws ! n) 26 31)) (guest_address (ws ! n) (fst s')) = None"
    "n < length ws \<Longrightarrow> ram_line M N tr ram ws s \<Longrightarrow> whole (EXTBITS (ws ! n) 26 31) \<and> \<not> isIOaddr (guest_address (ws ! n) (fst s'))
      \<and> guest_address (ws ! n) (fst s') AND CVMSEG_MASK \<noteq> CVMSEG_BASE_ADDR" by blast+
qed

text \<open>An access depends on the RAM only.\<close>

definition same_ram :: "nat \<Rightarrow> memory \<Rightarrow> memory \<Rightarrow> bool" where
  "same_ram ram gm gm' \<longleftrightarrow> (\<forall>b. ram_address ram (unat b) \<longrightarrow> gm b = gm' b)"

lemma guest_access_cong:
  assumes N: "mem_isa N" and w: "access_ins w" "whole (EXTBITS w 26 31)" "in_ram ram w pa" and m: "same_ram ram gm gm'"
  shows "fst (guest_access N w pa (g, gm)) = fst (guest_access N w pa (g, gm'))"
    "same_ram ram (snd (guest_access N w pa (g, gm))) (snd (guest_access N w pa (g, gm')))"
proof -
  let ?op = "EXTBITS w 26 31"
  have st: "store_op ?op" if "\<not> load_op ?op" using that w(1) by (auto simp: access_ins_def)
  have "gm (pa + of_nat i) = gm' (pa + of_nat i)" if "i < size_of ?op" for i
    using m w(3) that by (simp add: same_ram_def in_ram_def)
  then have "load_op ?op \<Longrightarrow> ld_value N ?op pa v gm = ld_value N ?op pa v gm'" for v
    using w(2) by (intro mem_isa.ld_local [OF N]) auto
  then show "fst (guest_access N w pa (g, gm)) = fst (guest_access N w pa (g, gm'))"
    by (simp add: guest_access_def Let_def)
  have "st_bytes N ?op pa v gm b = st_bytes N ?op pa v gm' b" if "\<not> load_op ?op" "ram_address ram (unat b)" for v b
  proof (cases "unat (b - pa) < size_of ?op")
    case True
    then show ?thesis using mem_isa.st_local [OF N st [OF that(1)] w(2) True, of pa v gm pa gm'] by simp
  next
    case False
    then show ?thesis using mem_isa.st_frame [OF N st [OF that(1)] w(2), of b pa] m that(2) by (simp add: same_ram_def)
  qed
  then show "same_ram ram (snd (guest_access N w pa (g, gm))) (snd (guest_access N w pa (g, gm')))"
    using m by (auto simp: guest_access_def Let_def same_ram_def)
qed

section \<open>The core during a block\<close>

text \<open>
  The image and the core between two instructions: the registers of the system coprocessor are \<open>c\<close>, the TLB is \<open>t\<close>, the memory map
  \<open>s\<close>, the program counter is at \<open>pc\<close>, the end of the block at \<open>e\<close>, and the address cache agrees with all that.
\<close>

definition core_at :: "CP0_IPE \<Rightarrow> TLB_IPE \<Rightarrow> GPAMap \<Rightarrow> u64 \<Rightarrow> u64 \<Rightarrow> HostMips.Host \<Rightarrow> Processor_IPE \<Rightarrow> bool" where
  "core_at c t s pc e h p \<longleftrightarrow> cp0 (enter h p) = c \<and> tlb p = t \<and> memory_map p = s \<and> coherent (enter h p) \<and> cell h 0 = pc \<and> cell h 184 = e"

lemma enter_fields [simp]:
  "tlb (enter h p) = tlb p" "memory_map (enter h p) = memory_map p" "addrCache (enter h p) = addrCache p"
  "cp0 (enter h p) = \<lparr>reg = (\<lambda>i. cell h (520 + 8 * i))\<rparr>" "currentBlockEndAddr (enter h p) = cell h 184" "PC (ctx (enter h p)) = cell h 0"
  by (simp_all add: enter_def)

lemma requesting_core [simp]:
  "tlb (requesting st w a h p) = tlb p" "memory_map (requesting st w a h p) = memory_map p"
  "addrCache (requesting st w a h p) = addrCache p" "cp0 (requesting st w a h p) = cp0 (enter h p)"
  "currentBlockEndAddr (requesting st w a h p) = cell h 184" "PC (ctx (requesting st w a h p)) = cell h 0"
  by (simp_all add: requesting_def request_cells_def Let_def)

lemma coherent_cong:
  "cp0 p = cp0 q \<Longrightarrow> tlb p = tlb q \<Longrightarrow> memory_map p = memory_map q \<Longrightarrow> addrCache p = addrCache q \<Longrightarrow> coherent p = coherent q"
  by (simp add: coherent_def)

lemma core_at_cells:
  assumes "core_at c t s pc e h p" "\<forall>j. 520 \<le> j \<or> j = 184 \<longrightarrow> cell h' j = cell h j"
  shows "core_at c t s (cell h' 0) e h' p"
proof -
  have "cp0 (enter h' p) = cp0 (enter h p)" using assms(2) by simp
  then show ?thesis using assms coherent_cong [of "enter h' p" "enter h p"] by (simp add: core_at_def)
qed

text \<open>A translation by the MMU depends on the kind of the access only, and the core finds what the architecture says.\<close>

lemma mmu_ctx:
  assumes "mmu_GVAtoGPA c t a g x = Inr (True, pa, c', x')" "loadstore x \<in> {0, 1}" "list_all entry_wf t" "loadstore y = loadstore x"
  shows "mmu_GVAtoGPA c t a g' y = Inr (True, pa, c, setProt (getProt x') y)"
proof -
  have ref: "same_page a a" by (simp add: same_page_def)
  have r: "loadstore y \<le> getProt x'"
    using mmu_page(4) [OF assms(1-3) ref, of "setProt (getProt x') x"] assms(4) by (simp add: setProt_def)
  have "in_page pa a = pa"
  proof -
    have "(pa AND GVA_BASE_MASK) OR (pa AND 0xFFF) = pa" by (rule word64_eqI) (simp add: bitblast bit_simps)
    then show ?thesis using mmu_success(1) [OF assms(1-3)] by (simp add: in_page_def)
  qed
  then show ?thesis using mmu_page(1) [OF assms(1-3) ref r] by simp
qed

lemma va_pa_mmu:
  assumes "va_pa c t st va = Some pa" "list_all entry_wf t" "loadstore y = of_bool st"
  shows "\<exists>prot. mmu_GVAtoGPA c t va g y = Inr (True, pa, c, setProt prot y)"
proof -
  let ?x = "\<lparr>loadstore = of_bool st, PC = 0, writeData = 0\<rparr>"
  obtain c' x' where "mmu_GVAtoGPA c t va 0 ?x = Inr (True, pa, c', x')"
    using assms(1) by (auto simp: va_pa_def split: sum.splits if_splits)
  from mmu_ctx [OF this _ assms(2)] assms(3) show ?thesis by auto
qed

lemma mmu_va_pa:
  assumes "mmu_GVAtoGPA c t va g y = Inr (True, pa, c', x')" "list_all entry_wf t" "loadstore y = of_bool st"
  shows "va_pa c t st va = Some pa"
  using mmu_ctx [OF assms(1) _ assms(2), of "\<lparr>loadstore = of_bool st, PC = 0, writeData = 0\<rparr>" 0] assms(3)
  by (simp add: va_pa_def)

lemma core_finds:
  assumes p: "coherent p" "loadstore (ctx p) = of_bool st" "list_all entry_wf (tlb p)"
    and s: "ram_map ram (memory_map p)" "ram \<le> 0x400000000"
    and v: "va_pa (cp0 p) (tlb p) st va = Some pa" "va AND CVMSEG_MASK \<noteq> CVMSEG_BASE_ADDR" "ram_address ram (unat pa)"
  shows "finds k p va pa"
proof (cases "Check_cache (addrCache p) va (ctx p)")
  case (Pair hit H)
  have ls: "loadstore (ctx p) \<in> {0, 1}" using p(2) by simp
  obtain prot where m: "mmu_GVAtoGPA (cp0 p) (tlb p) va g (ctx p) = Inr (True, pa, cp0 p, setProt prot (ctx p))" for g
    using va_pa_mmu [OF v(1) p(3,2)] mmu_ctx [OF _ ls p(3) refl] by metis
  show ?thesis
  proof (cases hit)
    case True
    then have h: "Check_cache (addrCache p) va (ctx p) = (True, H)" using Pair by simp
    obtain pa' where "known (memory_map p) pa' H" "pa' = pa" using coherent_hit(2) [OF p(1) h ls] m by auto
    then have "H = ram_HVA (memory_map p) pa"
      using known_GPA [of "memory_map p" pa H "\<lambda>_ _. None" 0] ram_HVA_is [OF s v(3), of "\<lambda>_ _. None" 0] by simp
    then show ?thesis using h by (simp add: finds_def)
  next
    case False
    then show ?thesis using Pair m v(2) by (simp add: finds_def)
  qed
qed

section \<open>One instruction\<close>

lemma covered_not_access:
  assumes "covered w"
  shows "\<not> access_ins w"
proof -
  let ?op = "EXTBITS w 26 31"
  consider "immediate_op ?op" | "?op = 0" | "?op = 28 \<or> ?op = 31"
    using assms by (auto simp: covered_def arith_ins_def op_classes Let_def)
  then show ?thesis
  proof cases
    case 1
    then show ?thesis unfolding immediate_op_def
      by (elim insertE emptyE) (simp_all add: access_ins_def load_op_def store_op_def)
  next
    case 3
    then show ?thesis by (elim disjE) (simp_all add: access_ins_def load_op_def store_op_def)
  qed (simp add: access_ins_def load_op_def store_op_def)
qed

lemma line_covered:
  assumes M: "mips_isa M" and c: "core_at c t s pc e h p" and w: "covered w"
  shows "\<exists>cs h2. findInstrCase (IInfo_of w) None e = Inr cs \<and> passes M N k r ra i (cs @ update_pc) (h, m, p) (h2, m, p)
    \<and> core_at c t s (pc + 4) e h2 p \<and> guest h2 = guest_step M w (guest h)"
proof -
  obtain cs h1 where h1: "findInstrCase (IInfo_of w) None e = Inr cs" "run M cs h = Some h1" "guest h1 = guest_step M w (guest h)"
    and c1: "\<forall>j. (\<forall>r < 32. j \<noteq> gpr_cell r) \<longrightarrow> cell h1 j = cell h j"
    using run_covered [OF M w, of e h] by blast
  obtain h2 where h2: "run M update_pc h1 = Some h2" "cell h2 = (cell h1)(0 := cell h1 0 + 4)"
    using run_update_pc [OF M] by blast
  have "run M (cs @ update_pc) h = Some h2" by (simp only: run_append h1(2) h2(1) option.case)
  then have p: "passes M N k r ra i (cs @ update_pc) (h, m, p) (h2, m, p)" by (rule passes_words [OF run_access])
  have "\<forall>j. 520 \<le> j \<or> j = 184 \<longrightarrow> cell h2 j = cell h j" "cell h2 0 = pc + 4"
    using c1 c by (auto simp: h2(2) gpr_cell_def core_at_def)
  then have "core_at c t s (pc + 4) e h2 p" using core_at_cells [OF c, of h2] by simp
  moreover have "guest h2 = guest h1" by (rule guest_low) (simp add: h2(2))
  ultimately show ?thesis using h1 p by auto
qed

lemma resume_cells:
  assumes "cp0 q = cp0 (enter h p)"
  shows "520 \<le> j \<Longrightarrow> cell (resume r q h) j = cell h j" "guest (resume r q h) = guest h"
proof -
  have high: "cell (resume r q h) j = cell h j" if "520 \<le> j" for j
  proof (cases "8 dvd j")
    case True
    then have "8 dvd j - 520" using that by (simp add: dvd_diff_nat)
    then have "520 + 8 * ((j - 520) div 8) = j" using that by simp
    then show ?thesis using assms by (simp add: resume_def)
  qed (use that in \<open>simp add: resume_def\<close>)
  then show "520 \<le> j \<Longrightarrow> cell (resume r q h) j = cell h j" .
  have "cell (resume r q h) (gpr_cell n) = cell h (gpr_cell n)" for n
    using high [of "gpr_cell n"] by (cases "520 \<le> gpr_cell n") (simp_all add: resume_def gpr_cell_def)
  then show "guest (resume r q h) = guest h" by (simp add: guest_def fun_eq_iff)
qed

lemma line_access:
  assumes M: "mips_isa M" and N: "mem_isa N" and k: "mmap_ok (mmap k)"
    and c: "core_at c t s pc e h p" and t: "list_all entry_wf t" and s: "ram_map ram s" "ram \<le> 0x400000000"
    and w: "access_ins w" "whole (EXTBITS w 26 31)" "\<not> isIOaddr (guest_address w (guest h))"
      "guest_address w (guest h) AND CVMSEG_MASK \<noteq> CVMSEG_BASE_ADDR"
    and pa: "va_pa c t (store_op (EXTBITS w 26 31)) (guest_address w (guest h)) = Some pa" "in_ram ram w pa"
  shows "\<exists>cs h2 m2 q. findInstrCase (IInfo_of w) None e = Inr cs \<and> passes M N k r ra i (cs @ update_pc) (h, m, p) (h2, m2, q)
    \<and> core_at c t s (pc + 4) e h2 q \<and> guest h2 = fst (guest_access N w pa (guest h, guest_memory s m))
    \<and> same_ram ram (guest_memory s m2) (snd (guest_access N w pa (guest h, guest_memory s m)))"
proof -
  let ?op = "EXTBITS w 26 31" and ?va = "guest_address w (guest h)" and ?H = "ram_HVA s pa"
  let ?st = "store_op ?op"
  define j where "j = i + (if ?st then 12 else 10)"
  let ?req = "requesting ?st w (ra j) h p"
  have aligned: "unat pa mod size_of ?op = 0" "\<forall>i < size_of ?op. ram_address ram (unat (pa + of_nat i))"
    using pa(2) by (simp_all add: in_ram_def)
  then have ram: "ram_address ram (unat pa)" using w(2) by (auto dest: spec [of _ 0])
  have core: "cp0 ?req = c" "tlb ?req = t" "memory_map ?req = s" "coherent ?req" "loadstore (ctx ?req) = of_bool ?st"
    using c coherent_cong [of ?req "enter h p"] requesting_fields(4) [OF access_ins_op(2) [OF w(1)], of ?st "ra j" h p]
    by (simp_all add: core_at_def)
  have "finds k ?req ?va pa" by (rule core_finds) (use core t s pa(1) w(4) ram in simp_all)
  then obtain q1 where q1: "addrTranslation k ?va ?req = Inr (True, ?H, q1)" "memory_map q1 = s"
    using finds_translates [of k ?req ?va pa ram] core(3) s ram by auto
  have q1c: "coherent q1" "cp0 q1 = c" "tlb q1 = t"
    using coherent_translation [OF core(4) _ k _ q1(1)] core t by simp_all
  have flow: "PC (ctx q1) = cell h 0" "currentBlockEndAddr q1 = cell h 184"
    using addrTranslation_flow [OF q1(1)] by (simp_all add: same_flow_def)
  let ?q = "q1\<lparr>transAddr := ?H\<rparr>"
  let ?x = "resume (r j) ?q h"
  obtain cs where cs: "findInstrCase (IInfo_of w) None e = Inr cs" using access_parts [OF M w(1), of None e N] by blast
  obtain h1 m2 where h1: "passes M N k r ra i cs (h, m, p) (h1, m2, ?q)" "(cell h1, m2) = access_effect N w ?H (cell ?x, m)"
    using passes_access [where ra = ra and j = j and i = i and r = r and m = m and N = N, OF M w(1) cs w(3) q1(1) j_def] by auto
  obtain h2 where h2: "run M update_pc h1 = Some h2" "cell h2 = (cell h1)(0 := cell h1 0 + 4)"
    using run_update_pc [OF M] by blast
  have same: "cp0 ?q = cp0 (enter h p)" using q1c(2) c by (simp add: core_at_def)
  note keep = effect_registers [OF w(1) h1(2)]
  have gpr: "\<forall>r < 32. n \<noteq> gpr_cell r" if "520 \<le> n \<or> n = 184 \<or> n = 0" for n using that by (auto simp: gpr_cell_def)
  have cells: "cell h2 n = cell h n" if "520 \<le> n \<or> n = 184" for n
    using that keep(3) [of n] gpr [of n] resume_cells(1) [OF same, of n "r j"] flow(2) by (auto simp: h2(2) resume_def)
  have "cell h2 0 = pc + 4" using keep(3) [of 0] gpr [of 0] c flow(1) by (simp add: h2(2) resume_def core_at_def)
  moreover have "cp0 (enter h2 ?q) = c" using cells c by (simp add: core_at_def)
  moreover have "coherent (enter h2 ?q)"
    using q1c coherent_cong [of "enter h2 ?q" q1] calculation(2) by simp
  ultimately have at: "core_at c t s (pc + 4) e h2 ?q" using cells [of 184] c q1(2) q1c(3) by (simp add: core_at_def)
  have "guest h2 = guest h1" by (rule guest_low) (simp add: h2(2))
  then have g: "guest h2 = fst (guest_access N w ?H (guest h, m))" "m2 = snd (guest_access N w ?H (guest h, m))"
    using keep(1,2) resume_cells(2) [OF same] by simp_all
  have p: "passes M N k r ra i (cs @ update_pc) (h, m, p) (h2, m2, ?q)"
    by (rule passes_append [OF h1(1) passes_words [OF run_access [OF h2(1)]]])
  note sim = access_simulated [OF N s w(1,2) aligned]
  have "same_ram ram (guest_memory s m2) (snd (guest_access N w pa (guest h, guest_memory s m)))"
    using sim(2) by (simp add: same_ram_def g(2))
  moreover have "guest h2 = fst (guest_access N w pa (guest h, guest_memory s m))" using g(1) sim(1) by simp
  ultimately show ?thesis using cs p at by blast
qed

section \<open>A line\<close>

lemma line_simulated:
  assumes M: "mips_isa M" and N: "mem_isa N" and k: "mmap_ok (mmap k)"
    and t: "list_all entry_wf t" and s: "ram_map ram s" "ram \<le> 0x400000000"
    and "core_at c t s pc e h p" "ram_line M N (va_pa c t) ram ws (guest h, gm)" "same_ram ram (guest_memory s m) gm"
    and "guest_line M N (va_pa c t) ws (guest h, gm) = (length ws, g, gm')"
  shows "\<exists>cs h2 m2 q. translate_each (map IInfo_of ws) e = Inr cs \<and> passes M N k r ra i cs (h, m, p) (h2, m2, q)
    \<and> core_at c t s (pc + of_nat (4 * length ws)) e h2 q \<and> guest h2 = g \<and> same_ram ram (guest_memory s m2) gm'"
  using assms(7-)
proof (induction ws arbitrary: pc h p m gm i)
  case Nil
  then show ?case by (auto simp: passes_def)
next
  case (Cons w ws)
  let ?tr = "va_pa c t"
  obtain s1 cs1 h1 m1 p1 where one: "findInstrCase (IInfo_of w) None e = Inr cs1" "passes M N k r ra i (cs1 @ update_pc) (h, m, p) (h1, m1, p1)"
      "core_at c t s (pc + 4) e h1 p1" "guest h1 = fst s1" "same_ram ram (guest_memory s m1) (snd s1)"
    and rest: "guest_line M N ?tr ws s1 = (length ws, g, gm')" "ram_line M N ?tr ram ws s1"
  proof (cases "access_ins w")
    case True
    let ?va = "guest_address w (guest h)" and ?st = "store_op (EXTBITS w 26 31)"
    obtain pa where pa: "?tr ?st ?va = Some pa" using Cons.prems(4) True by (auto split: option.splits)
    obtain w: "whole (EXTBITS w 26 31)" "\<not> isIOaddr ?va" "?va AND CVMSEG_MASK \<noteq> CVMSEG_BASE_ADDR" "in_ram ram w pa"
        "ram_line M N ?tr ram ws (guest_access N w pa (guest h, gm))"
      using Cons.prems(2) True by (simp add: pa)
    obtain cs1 h1 m1 p1 where one: "findInstrCase (IInfo_of w) None e = Inr cs1" "passes M N k r ra i (cs1 @ update_pc) (h, m, p) (h1, m1, p1)"
      "core_at c t s (pc + 4) e h1 p1" "guest h1 = fst (guest_access N w pa (guest h, guest_memory s m))"
      "same_ram ram (guest_memory s m1) (snd (guest_access N w pa (guest h, guest_memory s m)))"
      using line_access [OF M N k Cons.prems(1) t s True w(1-3) pa w(4), of r ra i m] by blast
    have "fst (guest_access N w pa (guest h, guest_memory s m)) = fst (guest_access N w pa (guest h, gm))"
      "same_ram ram (snd (guest_access N w pa (guest h, guest_memory s m))) (snd (guest_access N w pa (guest h, gm)))"
      by (rule guest_access_cong [OF N True w(1,4) Cons.prems(3)])+
    then have "guest h1 = fst (guest_access N w pa (guest h, gm))" "same_ram ram (guest_memory s m1) (snd (guest_access N w pa (guest h, gm)))"
      using one(4,5) by (simp_all add: same_ram_def)
    moreover have "guest_line M N ?tr ws (guest_access N w pa (guest h, gm)) = (length ws, g, gm')"
      using Cons.prems(4) True by (simp add: pa split: prod.splits)
    ultimately show ?thesis using that [OF one(1-3), of "guest_access N w pa (guest h, gm)"] w(5) by blast
  next
    case False
    then have w: "covered w" "ram_line M N ?tr ram ws (guest_step M w (guest h), gm)" using Cons.prems(2) by simp_all
    have "guest_line M N ?tr ws (guest_step M w (guest h), gm) = (length ws, g, gm')"
      using Cons.prems(4) False by (simp split: prod.splits)
    then show ?thesis
      using line_covered [OF M Cons.prems(1) w(1), of N k r ra i m] that [where ?s1.0 = "(guest_step M w (guest h), gm)"] w(2) Cons.prems(3)
      by fastforce
  qed
  have "s1 = (guest h1, snd s1)" using one(4) by simp
  then obtain cs h2 m2 q where ih: "translate_each (map IInfo_of ws) e = Inr cs" "passes M N k r ra (i + length (cs1 @ update_pc)) cs (h1, m1, p1) (h2, m2, q)"
    "core_at c t s (pc + 4 + of_nat (4 * length ws)) e h2 q" "guest h2 = g" "same_ram ram (guest_memory s m2) gm'"
    using Cons.IH [OF one(3), of "snd s1" m1] one(5) rest by metis
  have "passes M N k r ra i ((cs1 @ update_pc) @ cs) (h, m, p) (h2, m2, q)" by (rule passes_append [OF one(2) ih(2)])
  then show ?case using one(1) ih by (simp add: algebra_simps) blast
qed

section \<open>Faults\<close>

lemma delivered:
  assumes "cause_ExcCode ty x \<noteq> None" "\<not> bit (cp0_read c H2_CP0_STATUS 0) 1"
  shows "\<exists>pc d. Perform_Exception c va ty x = Inr (pc, d) \<and> cp0_read d H2_CP0_BADVADDR 0 = va \<and> in_handler (PC x) d"
    "\<exists>pc d. TLB_Excep c va ty x = Inr (pc, d) \<and> cp0_read d H2_CP0_BADVADDR 0 = va \<and> in_handler (PC x) d"
proof -
  have *: "\<exists>pc d. Perform_Exception c' va ty x = Inr (pc, d) \<and> cp0_read d H2_CP0_BADVADDR 0 = va \<and> in_handler (PC x) d"
    if "\<not> bit (cp0_read c' H2_CP0_STATUS 0) 1" for c'
  proof -
    obtain pc d where d: "Perform_Exception c' va ty x = Inr (pc, d)" using assms(1) Perform_Exception_total by blast
    then show ?thesis using Perform_Exception_regs(1) [OF d] exception_in_handler(2) [OF d that] by blast
  qed
  show "\<exists>pc d. Perform_Exception c va ty x = Inr (pc, d) \<and> cp0_read d H2_CP0_BADVADDR 0 = va \<and> in_handler (PC x) d"
    using * assms(2) .
  show "\<exists>pc d. TLB_Excep c va ty x = Inr (pc, d) \<and> cp0_read d H2_CP0_BADVADDR 0 = va \<and> in_handler (PC x) d"
    unfolding TLB_Excep_def using assms(2) by (intro *) (simp add: TLB_fill_other)
qed

lemma mmu_fault:
  assumes "va_pa c t st va = None" "list_all entry_wf t" "loadstore y = of_bool st" "\<not> bit (cp0_read c H2_CP0_STATUS 0) 1"
  shows "\<exists>vec d x. mmu_GVAtoGPA c t va g y = Inr (False, vec, d, x) \<and> cp0_read d H2_CP0_BADVADDR 0 = va \<and> in_handler (PC y) d"
proof -
  have no: "mmu_GVAtoGPA c t va g y \<noteq> Inr (True, z)" for z
    using mmu_va_pa [OF _ assms(2,3)] assms(1) by (cases z) auto
  have ls: "loadstore y \<in> {0, 1}" using assms(3) by simp
  have fin: "\<exists>vec d x. bind_result r (\<lambda>(pc, d). Inr (False, pc, d, x')) = Inr (False, vec, d, x)
      \<and> cp0_read d H2_CP0_BADVADDR 0 = va \<and> in_handler (PC y) d"
    if "\<exists>pc d. r = Inr (pc, d) \<and> cp0_read d H2_CP0_BADVADDR 0 = va \<and> in_handler (PC y) d" for r and x' :: Context_IPE
    using that by auto
  show ?thesis
  proof (cases "verify_priviliges c va")
    case False
    have "cause_ExcCode (ucast (ucast ADEL + getLDST y)) y \<noteq> None" using ls by (auto simp: cause_ExcCode_def getLDST_def)
    from delivered(1) [OF this assms(4)] False show ?thesis by (simp only: mmu_GVAtoGPA_def if_True not_False_eq_True fin)
  next
    case True
    then have "mmu_GVAtoGPA c t va g y = tlb_GVAtoGPA t c va g y"
      using no by (cases "if find_address_space_size va = 0 then look_staic_translation_32bit c va else look_staic_translation_64bit c va")
        (auto simp: mmu_GVAtoGPA_def Let_def simp del: if_split)
    moreover have "\<exists>vec d x. tlb_GVAtoGPA t c va g y = Inr (False, vec, d, x) \<and> cp0_read d H2_CP0_BADVADDR 0 = va \<and> in_handler (PC y) d"
    proof (cases "tlb_first t c va < length t")
      case True
      let ?e = "t ! tlb_first t c va"
      have f: "\<not> access_allowed va y ?e"
        using tlb_lookup_hit [OF refl True, where ctx = y and GPA = g] no calculation by auto
      let ?x = "setProt (ucast (page_dirty va ?e)) y" and ?ty = "if page_valid va ?e then TLB_MOD else TLB_INV"
      have x: "cause_ExcCode ?ty ?x \<noteq> None" "PC ?x = PC y" by (simp_all add: cause_ExcCode_def setProt_def)
      show ?thesis
        unfolding tlb_lookup_fault [OF refl True f, where GPA = g] Let_def
        by (rule fin) (use delivered(2) [OF x(1) assms(4), of va] in \<open>simp only: x(2)\<close>)
    next
      case False
      then have m: "tlb_first t c va = length t" using first_index_le [of _ t] by (simp add: le_antisym)
      have x: "cause_ExcCode (if getLDST y = ST_WRITE then TLBS else TLBL) y \<noteq> None" by (simp add: cause_ExcCode_def)
      show ?thesis
        unfolding tlb_lookup_miss [OF m ls, where GPA = g]
        by (rule fin) (use delivered(2) [OF x assms(4), of va] in simp)
    qed
    ultimately show ?thesis by simp
  qed
qed

text \<open>
  How a core takes the fault of an access at \<open>pc\<close>: the translation has entered the exception with this address and
  the address of the access saved, and when the request returns, it does so to the code of the program counter, with the saved address kept.
\<close>

definition faults :: "Processor.Host \<Rightarrow> u64 \<Rightarrow> u64 \<Rightarrow> u64 \<Rightarrow> Processor_IPE \<Rightarrow> bool" where
  "faults k t9 va pc p \<longleftrightarrow>
     (\<exists>vec q. addrTranslation k va (p\<lparr>retAddr := CodeAt t9\<rparr>) = Inr (False, vec, q)
        \<and> cp0_read (cp0 q) H2_CP0_BADVADDR 0 = va \<and> in_handler pc (cp0 q))
     \<and> (\<forall>q. handleRequest k t9 p = Inr (Some q) \<longrightarrow> at_block (PC (ctx q)) q \<and> in_handler pc (cp0 q))"

lemma request_faults:
  assumes c: "core_at c t s pc e h p" and t: "list_all entry_wf t" and x: "\<not> bit (cp0_read c H2_CP0_STATUS 0) 1"
    and w: "access_ins w" "\<not> isIOaddr (guest_address w (guest h))" "guest_address w (guest h) AND CVMSEG_MASK \<noteq> CVMSEG_BASE_ADDR"
    and tr: "va_pa c t (store_op (EXTBITS w 26 31)) (guest_address w (guest h)) = None"
    and h: "cell h' = request_cells (store_op (EXTBITS w 26 31)) (IInfo_of w) h"
  shows "faults k t9 (guest_address w (guest h)) pc (enter h' p)"
    "handleRequest k t9 (enter h' p) = Inr (Some q) \<Longrightarrow> retAddr q \<noteq> CodeAt t9"
proof -
  let ?st = "store_op (EXTBITS w 26 31)" and ?va = "guest_address w (guest h)"
  let ?req = "requesting ?st w t9 h p"
  note f = requesting_fields [OF access_ins_op(2) [OF w(1)], of ?st t9 h p]
  have core: "cp0 ?req = c" "tlb ?req = t" "coherent ?req" "PC (ctx ?req) = pc" "loadstore (ctx ?req) = of_bool ?st"
    using c coherent_cong [of ?req "enter h p"] f(4) by (simp_all add: core_at_def)
  obtain vec d x where m: "mmu_GVAtoGPA c t ?va (junk_address k) (ctx ?req) = Inr (False, vec, d, x)"
      "cp0_read d H2_CP0_BADVADDR 0 = ?va" "in_handler pc d"
    using mmu_fault [OF tr t core(5) x, of "junk_address k"] core(4) by auto
  obtain hit H where cc: "Check_cache (addrCache ?req) ?va (ctx ?req) = (hit, H)" by (cases "Check_cache (addrCache ?req) ?va (ctx ?req)")
  have "\<not> hit"
  proof
    assume hit
    then have "Check_cache (addrCache ?req) ?va (ctx ?req) = (True, H)" using cc by simp
    from coherent_hit(2) [OF core(3) this] core(1,2,5) m(1) show False by auto
  qed
  then have tl: "addrTranslation k ?va ?req = Inr (False, vec, ?req\<lparr>cp0 := d, ctx := x\<rparr>)"
    using cc w(3) m(1) core(1,2) by (simp add: addrTranslation_def GVAtoHVA_def Let_def requesting_def)
  have req: "(enter h' p)\<lparr>retAddr := CodeAt t9\<rparr> = ?req" by (rule requesting_is [OF h])
  have hr: "handleRequest k t9 (enter h' p) = handleLDST k ?req"
    using f(1) by (simp add: handleRequest_def req)
  have lands: "at_block (PC (ctx q)) q \<and> in_handler pc (cp0 q)" if "handleRequest k t9 (enter h' p) = Inr (Some q)" for q
  proof -
    have "fetchNextBlock k (set_pc vec (?req\<lparr>cp0 := d, ctx := x, LLBit := 0\<rparr>)) = Inr q"
      using that tl f(2) w(2) unfolding hr by (auto simp: handleLDST_def Let_def bind_result_Inr_iff split: if_splits)
    then show ?thesis using fetchNextBlock_at fetch_in_handler m(3) by (fastforce simp: set_pc_def)
  qed
  then show "faults k t9 ?va pc (enter h' p)" using tl m(2,3) by (auto simp: faults_def req)
  show "retAddr q \<noteq> CodeAt t9" if "handleRequest k t9 (enter h' p) = Inr (Some q)"
    using lands [OF that] by (auto simp: at_block_def)
qed

lemma access_faults:
  assumes M: "mips_isa M" and c: "core_at c t s pc e h p" and t: "list_all entry_wf t" and x: "\<not> bit (cp0_read c H2_CP0_STATUS 0) 1"
    and w: "access_ins w" "\<not> isIOaddr (guest_address w (guest h))" "guest_address w (guest h) AND CVMSEG_MASK \<noteq> CVMSEG_BASE_ADDR"
    and tr: "va_pa c t (store_op (EXTBITS w 26 31)) (guest_address w (guest h)) = None"
    and cs: "findInstrCase (IInfo_of w) None e = Inr cs"
  shows "\<exists>j h' p'. guest h' = guest h \<and> faults k (ra j) (guest_address w (guest h)) pc p'
    \<and> (\<forall>pre post n. length pre = i \<longrightarrow> code_run M N k r ra (length cs + n) (pre @ cs @ post) i (h, m, p) = Some (Call j, h', m, p'))"
proof -
  let ?st = "store_op (EXTBITS w 26 31)"
  obtain A B where A: "cs = A @ encodeR 0 24 0 25 0 9 # 0 # B"
      "\<exists>h'. run M A h = Some h' \<and> cell h' = request_cells ?st (IInfo_of w) h"
    using access_parts [OF M w(1), of None e N] cs by auto
  obtain h' where h': "run M A h = Some h'" "cell h' = request_cells ?st (IInfo_of w) h" using A(2) by blast
  define j where "j = i + length A + 2"
  note f = request_faults [OF c t x w tr h'(2), of k "ra j"]
  have g: "guest h' = guest h" by (rule guest_low) (simp add: h'(2) request_cells_def Let_def)
  have "code_run M N k r ra (length cs + n) (pre @ cs @ post) i (h, m, p) = Some (Call j, h', m, enter h' p)" if "length pre = i" for pre post n
  proof -
    have "code_run M N k r ra (Suc (Suc (length B + n))) ((pre @ A) @ encodeR 0 24 0 25 0 9 # 0 # (B @ post)) (i + length A) (h', m, p)
        = Some (Call j, h', m, enter h' p)"
      using f(2) that by (subst hand_over) (auto simp: j_def split: sum.splits option.splits)
    then have "code_run M N k r ra (length A + Suc (Suc (length B + n))) (pre @ A @ encodeR 0 24 0 25 0 9 # 0 # B @ post) i (h, m, p)
        = Some (Call j, h', m, enter h' p)"
      by (intro passesD [OF passes_words [OF run_access [OF h'(1)]] that]) (simp only: append_assoc append_Cons)
    moreover have "length cs + n = length A + Suc (Suc (length B + n))" "pre @ cs @ post = pre @ A @ encodeR 0 24 0 25 0 9 # 0 # B @ post"
      by (simp_all add: A(1))
    ultimately show ?thesis by (simp only:)
  qed
  then show ?thesis using f(1) g by blast
qed

section \<open>Whole blocks\<close>

lemma translate_each_append:
  "translate_each (xs @ ys) e = bind_result (translate_each xs e) (\<lambda>a. bind_result (translate_each ys e) (\<lambda>b. Inr (a @ b)))"
  by (induction xs) (auto simp: bind_result_def split: sum.splits)

lemma line_translates:
  assumes "mips_isa M" "\<forall>w \<in> set ws. covered w \<or> access_ins w"
  shows "\<exists>cs. translate_each (map IInfo_of ws) e = Inr cs"
  using assms(2)
proof (induction ws)
  case (Cons w ws)
  have "\<exists>cs. findInstrCase (IInfo_of w) None e = Inr cs"
    using Cons.prems run_covered [OF assms(1), of w e] access_parts [OF assms(1), of w None e] by fastforce
  then show ?case using Cons by auto
qed simp

lemma block_translates:
  assumes "mips_isa M" "\<forall>w \<in> set ws. covered w \<or> access_ins w" "control b" "regular b e" "covered d"
  shows "\<exists>cs. doBlockTranslation (map IInfo_of (ws @ [b, d])) e = Inr cs"
proof -
  obtain cs where cs: "translate_each (map IInfo_of ws) e = Inr cs" using line_translates [OF assms(1,2)] by blast
  obtain vs where vs: "findInstrCase (IInfo_of b) (Some (IInfo_of d)) e = Inr vs"
    using block_end [OF assms(1,3,5,4), of "\<lparr>hreg = (\<lambda>_. 0), cell = (\<lambda>_. e)\<rparr>"] by auto
  then show ?thesis using cs by (simp add: doBlockTranslation_def nth_append Let_def)
qed

lemma exec_code_run:
  assumes "exec M n ws i h = Some (Exit, h')"
  shows "code_run M N k r ra n ws i (h, m, p) = Some (Exit, h', m, p)"
  using assms
proof (induction n arbitrary: i h)
  case (Suc n)
  have len: "i < length ws" using Suc.prems by (auto simp: exec.simps(2) split: if_splits)
  show ?case
  proof (cases "step M (ws ! i) h")
    case (Some h1)
    then have "exec M n ws (i + 1) h1 = Some (Exit, h')" using Suc.prems exec_step [OF Some len refl] by simp
    then show ?thesis using Suc.IH len Some by (simp add: access_step_def)
  next
    case None
    have "EXTBITS (ws ! i) 26 31 = 0 \<or> branch_op (ws ! i)"
      using Suc.prems None len by (auto simp: exec.simps(2) Let_def split: if_splits)
    then have "\<not> load_op (EXTBITS (ws ! i) 26 31)" "\<not> store_op (EXTBITS (ws ! i) 26 31)"
      by (auto simp: branch_op_def load_op_def store_op_def)
    then have "access_step M N (ws ! i) (h, m) = None" using None by (simp add: access_step_def Let_def)
    then have "(if i < length ws then access_step M N (ws ! i) (h, m) else None) = None" by simp
    then show ?thesis using Suc.prems by (simp only: code_run.simps option.case prod.case outcome.case)
  qed
qed simp

section \<open>A sample block\<close>

text \<open>
  \<^verbatim>\<open>sd r2,0x100(r3)\<close>, then a load, then a jump with link and an empty slot, run by a core in kernel mode with an empty TLB. The load
  is \<^verbatim>\<open>ld r4,0x100(r3)\<close> from the same unmapped address, or \<^verbatim>\<open>ld r4,0x100(r0)\<close> from a mapped one.
\<close>

definition sample_image :: HostMips.Host where
  "sample_image = \<lparr>hreg = (\<lambda>_. 0), cell = (\<lambda>k. if k = 0 then 0x1000 else if k = 184 then 0x1008 else if k = 216 then 0xAB
     else if k = 224 then 0xFFFFFFFF80000000 else 0)\<rparr>"

definition load_word :: u32 where
  "load_word = 0xDC640100"

definition low_word :: u32 where
  "low_word = 0xDC040100"

definition sample_code :: "u64 \<Rightarrow> u32" where
  "sample_code a = (if a = 0x1008 then 0x0c000400 else 0)"

lemma sample_words:
  "EXTBITS load_word 26 31 = 55" "EXTBITS load_word 16 20 = 4" "EXTBITS low_word 26 31 = 55" "EXTBITS low_word 16 20 = 4"
  "guest_address store_word g = g 3 + 0x100" "guest_address load_word g = g 3 + 0x100" "guest_address low_word g = g 0 + 0x100"
  by (simp_all add: load_word_def low_word_def store_word_def EXTBITS_def guest_address_def sext16_def)

lemma sample_access: "access_ins store_word" "access_ins load_word" "access_ins low_word"
  by (simp_all add: access_ins_def store_word_fields sample_words load_op_def store_op_def)

lemma sample_image_regs: "guest sample_image 0 = 0" "guest sample_image 2 = 0xAB" "guest sample_image 3 = 0xFFFFFFFF80000000"
  by (simp_all add: guest_def sample_image_def gpr_cell_def)

lemma sample_cp0: "cp0 (enter sample_image p) = \<lparr>reg = (\<lambda>_. 0)\<rparr>"
  by (simp add: sample_image_def)

lemma sample_va_pa:
  "va_pa \<lparr>reg = (\<lambda>_. 0)\<rparr> t st 0xFFFFFFFF80000100 = Some 0x100" "va_pa \<lparr>reg = (\<lambda>_. 0)\<rparr> blank_tlb st 0x100 = None"
proof -
  have k: "get_KSU \<lparr>reg = (\<lambda>_. 0)\<rparr> = KERNEL_MODE" by (simp add: get_KSU_def)
  show "va_pa \<lparr>reg = (\<lambda>_. 0)\<rparr> t st 0xFFFFFFFF80000100 = Some 0x100"
    using kernel_unmapped [OF k, of "0xFFFFFFFF80000100" t 0] by (simp add: va_pa_def)
  have miss: "tlb_first blank_tlb \<lparr>reg = (\<lambda>_. 0)\<rparr> 0x100 = length blank_tlb"
    by (subst first_index_none) (auto simp: blank_tlb_def entry_matches_def blank_entry_def)
  have "mmu_GVAtoGPA \<lparr>reg = (\<lambda>_. 0)\<rparr> blank_tlb 0x100 0 x = tlb_GVAtoGPA blank_tlb \<lparr>reg = (\<lambda>_. 0)\<rparr> 0x100 0 x" for x
    by (simp add: mmu_GVAtoGPA_def verify_priviliges_def k find_address_space_size_def get_segment_number_def
        look_staic_translation_32bit_def cp0_read_def Let_def)
  then show "va_pa \<lparr>reg = (\<lambda>_. 0)\<rparr> blank_tlb st 0x100 = None"
    using tlb_lookup_miss [OF miss, of "\<lparr>loadstore = of_bool st, PC = 0, writeData = 0\<rparr>" 0]
    by (auto simp: va_pa_def bind_result_def split: sum.splits)
qed

lemma sample_in_ram: "in_ram 0x40000000 store_word 0x100" "in_ram 0x40000000 load_word 0x100"
proof -
  have "unat (0x100 + of_nat i :: u64) = 0x100 + i" if "i < 8" for i
    using that by (simp add: unat_word_ariths unat_of_nat take_bit_nat_eq_self)
  then show "in_ram 0x40000000 store_word 0x100" "in_ram 0x40000000 load_word 0x100"
    by (simp_all add: in_ram_def store_word_fields sample_words size_of_def ram_address_def)
qed

lemma sample_block:
  "control (sample_code 0x1008)" "regular (sample_code 0x1008) 0x1008" "covered (sample_code 0x100c)"
  by (simp_all add: sample_code_def control_def jumps_def regular_def sext32_def EXTBITS_def covered_def arith_ins_def op_classes)

lemma sample_ticks: "(guest_tick ref_isa sample_code ^^ 2) (at_pc g 0x1008) = at_pc (g(31 := 0x1010)) 0x1000"
proof -
  have w: "EXTBITS (0x0c000400 :: u32) 26 31 = 3" "EXTBITS (0x0c000400 :: u32) 0 25 = 0x400" by (simp_all add: EXTBITS_def)
  have nop: "guest_step ref_isa 0 g = g" for g by (simp add: guest_step_def)
  have z: "\<not> control 0" by (rule covered_not_control(1)) (simp add: covered_def arith_ins_def EXTBITS_def op_classes)
  have n: "control 0x0c000400" using sample_block(1) by (simp add: sample_code_def)
  have l: "\<not> likely_op 0x0c000400" by (simp add: likely_op_def w)
  have c: "sample_code 0x1008 = 0x0c000400" "sample_code 0x100c = 0" by (simp_all add: sample_code_def)
  have one: "guest_tick ref_isa sample_code (at_pc g 0x1008)
      = \<lparr>greg = g(31 := 0x1010), pc_now = 0x100c, pc_next = 0x1000, annul = False\<rparr>"
    using n l by (simp add: guest_tick_def c Let_def linked_def target_def jumps_def w)
  show ?thesis
    unfolding numeral_2_eq_2 funpow.simps comp_apply id_apply one using z by (simp add: guest_tick_def c Let_def nop)
qed

definition sample_memory_core :: "GPAMap \<Rightarrow> Processor_IPE" where
  "sample_memory_core s = sample_core 0 0 (Clear_cache [])\<lparr>memory_map := s\<rparr>"

lemma sample_memory_core:
  "memory_map (sample_memory_core s) = s" "tlb (sample_memory_core s) = blank_tlb" "coherent (enter sample_image (sample_memory_core s))"
  "list_all entry_wf (tlb (sample_memory_core s))"
  by (simp_all add: sample_memory_core_def coherent_Clear [of _ "[]"] blank_tlb_def list_all_iff entry_wf_def blank_entry_def)

lemma sample_line:
  assumes "ld = load_word \<or> ld = low_word"
  shows "ram_line ref_isa ref_mem (va_pa \<lparr>reg = (\<lambda>_. 0)\<rparr> blank_tlb) 0x40000000 [store_word, ld] (guest sample_image, gm)"
    "guest_line ref_isa ref_mem (va_pa \<lparr>reg = (\<lambda>_. 0)\<rparr> blank_tlb) [store_word, ld] (guest sample_image, gm) =
      (if ld = load_word then 2 else 1, if ld = load_word then (guest sample_image)(4 := 0xAB) else guest sample_image, st_bytes ref_mem 63 0x100 0xAB gm)"
proof -
  have ops: "store_op 63" "\<not> load_op 63" "\<not> store_op 55" "load_op 55" "size_of 63 = 8" "size_of 55 = 8"
    by (simp_all add: store_op_def load_op_def size_of_def)
  have d: "low_word \<noteq> load_word" by (simp add: load_word_def low_word_def)
  have st: "guest_access ref_mem store_word 0x100 (guest sample_image, gm) = (guest sample_image, st_bytes ref_mem 63 0x100 0xAB gm)"
    by (simp add: guest_access_def store_word_fields ops sample_image_regs)
  have ld: "guest_access ref_mem load_word 0x100 (g, st_bytes ref_mem 63 0x100 0xAB gm) = (g(4 := 0xAB), st_bytes ref_mem 63 0x100 0xAB gm)" for g
    by (simp add: guest_access_def sample_words ops ref_mem.ld_sd)
  show "ram_line ref_isa ref_mem (va_pa \<lparr>reg = (\<lambda>_. 0)\<rparr> blank_tlb) 0x40000000 [store_word, ld] (guest sample_image, gm)"
    using assms sample_in_ram
    by (auto simp: sample_access store_word_fields sample_words ops sample_image_regs sample_va_pa st isIOaddr_def)
  show "guest_line ref_isa ref_mem (va_pa \<lparr>reg = (\<lambda>_. 0)\<rparr> blank_tlb) [store_word, ld] (guest sample_image, gm) =
      (if ld = load_word then 2 else 1, if ld = load_word then (guest sample_image)(4 := 0xAB) else guest sample_image, st_bytes ref_mem 63 0x100 0xAB gm)"
    using assms d
    by (auto simp: sample_access store_word_fields sample_words ops sample_image_regs sample_va_pa st ld)
qed

section \<open>Properties\<close>

text \<open>
  Property C1. A block with loads and stores is simulated. When the guest's line of instructions runs through on its
  registers and its RAM, the translated block, with a request for every access, runs to its exit and leaves the registers and the program
  counter where the architecture's machine with delayed branches is after the control transfer and its slot, the RAM as the line has it, and
  the request for the next block set. The core's address cache need only agree with the MMU at the start.
\<close>

theorem memory_block_simulation:
  assumes M: "mips_isa M" and N: "mem_isa N" and k: "mmap_ok (mmap k)"
    and s: "map_reachable (mmap k) (undefined_size k) ram (memory_map p)" "unat ram \<le> 0x400000000"
    and t: "list_all entry_wf (tlb p)" and p: "coherent (enter h p)"
    and ws: "ram_line M N (va_pa (cp0 (enter h p)) (tlb p)) (unat ram) ws (guest h, guest_memory (memory_map p) m)"
      "guest_line M N (va_pa (cp0 (enter h p)) (tlb p)) ws (guest h, guest_memory (memory_map p) m) = (length ws, g, gm)"
    and b: "control (code e)" "regular (code e) e" "covered (code (e + 4))"
    and h: "cell h 184 = e"
  shows "\<exists>cs h' m' q. doBlockTranslation (map IInfo_of (ws @ [code e, code (e + 4)])) e = Inr cs
    \<and> code_run M N k r ra (length cs) cs 0 (h, m, p) = Some (Exit, h', m', q) \<and> cell h' 104 = 1
    \<and> (guest_tick M code ^^ 2) (at_pc g e) = at_pc (guest h') (cell h' 0)
    \<and> same_ram (unat ram) (guest_memory (memory_map p) m') gm"
proof -
  let ?c = "cp0 (enter h p)" and ?s = "memory_map p"
  have rm: "ram_map (unat ram) ?s" using reachable_ram_map [OF s(1) k s(2)] .
  have at: "core_at ?c (tlb p) ?s (cell h 0) e h p" using p h by (simp add: core_at_def)
  obtain cs h1 m1 q where cs: "translate_each (map IInfo_of ws) e = Inr cs" "passes M N k r ra 0 cs (h, m, p) (h1, m1, q)"
    and h1: "cell h1 184 = e" "guest h1 = g" "same_ram (unat ram) (guest_memory ?s m1) gm"
    using line_simulated [OF M N k t rm s(2) at ws(1) _ ws(2), of m r ra 0] by (auto simp: same_ram_def core_at_def)
  obtain vs where vs: "findInstrCase (IInfo_of (code e)) (Some (IInfo_of (code (e + 4)))) e = Inr vs"
    and l: "leaves M vs h1 (let g = linked (code e) (guest h1) (e + 4) in
        if likely_op (code e) \<and> \<not> holds M (code e) (guest h1) then g else guest_step M (code (e + 4)) g) (target M (code e) (guest h1) (e + 4))"
    using block_end [OF M b(1,3,2) h1(1)] by blast
  obtain h' where h': "exec M (length vs) (cs @ vs) (length cs) h1 = Some (Exit, h')" "cell h' 104 = 1"
      "guest h' = (let g' = linked (code e) g (e + 4) in if likely_op (code e) \<and> \<not> holds M (code e) g then g' else guest_step M (code (e + 4)) g')"
      "cell h' 0 = target M (code e) g (e + 4)"
    using l unfolding leaves_def h1(2) by blast
  have "code_run M N k r ra (length cs + length vs) ([] @ cs @ vs) 0 (h, m, p) = Some (Exit, h', m1, q)"
    by (rule passesD [OF cs(2)]) (use exec_code_run [OF h'(1)] in simp_all)
  moreover have "doBlockTranslation (map IInfo_of (ws @ [code e, code (e + 4)])) e = Inr (cs @ vs)"
    using cs(1) vs by (simp add: doBlockTranslation_def nth_append Let_def)
  moreover have "(guest_tick M code ^^ 2) (at_pc g e) = at_pc (guest h') (cell h' 0)"
    using b(1) covered_not_control(1) [OF b(3)] h'(3,4) by (simp add: guest_tick_def numeral_2_eq_2 Let_def)
  ultimately show ?thesis using h'(2) h1(3) by auto
qed

theorem memory_block_simulation_witness:
  "\<exists>s cs h' m' q. initialize_GPA_subsections first_fit 0xFFFFFFFFFFFFFFFF 0x40000000 = Inr s
     \<and> doBlockTranslation (map IInfo_of [store_word, load_word, 0x0c000400, 0]) 0x1008 = Inr cs
     \<and> code_run ref_isa ref_mem sample_host (\<lambda>_ _. 0) of_nat (length cs) cs 0 (sample_image, \<lambda>_. 0, sample_memory_core s) = Some (Exit, h', m', q)
     \<and> guest h' 4 = 0xAB \<and> guest h' 31 = 0x1010 \<and> cell h' 0 = 0x1000 \<and> m' (ram_HVA s 0x107) = 0xAB"
proof -
  obtain s where s: "initialize_GPA_subsections first_fit 0xFFFFFFFFFFFFFFFF 0x40000000 = Inr s"
    using first_fit_starts by blast
  let ?p = "sample_memory_core s" and ?m = "\<lambda>_. 0 :: u8" and ?ws = "[store_word, load_word]"
  let ?g = "(guest sample_image)(4 := 0xAB)" and ?gm = "st_bytes ref_mem 63 0x100 0xAB (guest_memory s (\<lambda>_. 0))"
  have e: "cell sample_image 184 = 0x1008" by (simp add: sample_image_def)
  have r: "map_reachable (mmap sample_host) (undefined_size sample_host) 0x40000000 (memory_map ?p)"
    using map_reachable.start [OF s] by (simp add: sample_memory_core)
  have l: "ram_line ref_isa ref_mem (va_pa (cp0 (enter sample_image ?p)) (tlb ?p)) (unat (0x40000000 :: u64)) ?ws (guest sample_image, guest_memory (memory_map ?p) ?m)"
    "guest_line ref_isa ref_mem (va_pa (cp0 (enter sample_image ?p)) (tlb ?p)) ?ws (guest sample_image, guest_memory (memory_map ?p) ?m) = (length ?ws, ?g, ?gm)"
    using sample_line [of load_word "guest_memory s ?m"] by (simp_all only: sample_cp0 sample_memory_core) simp_all
  have k: "mmap_ok (mmap sample_host)" "unat (0x40000000 :: u64) \<le> 0x400000000" using first_fit_ok by simp_all
  have c: "control (sample_code 0x1008)" "regular (sample_code 0x1008) 0x1008" "covered (sample_code (0x1008 + 4))"
    using sample_block by simp_all
  obtain cs h' m' q where b: "doBlockTranslation (map IInfo_of (?ws @ [sample_code 0x1008, sample_code (0x1008 + 4)])) 0x1008 = Inr cs"
      "code_run ref_isa ref_mem sample_host (\<lambda>_ _. 0) of_nat (length cs) cs 0 (sample_image, ?m, ?p) = Some (Exit, h', m', q)"
      "(guest_tick ref_isa sample_code ^^ 2) (at_pc ?g 0x1008) = at_pc (guest h') (cell h' 0)"
      "same_ram (unat (0x40000000 :: u64)) (guest_memory (memory_map ?p) m') ?gm"
    using memory_block_simulation [OF ref.mips_isa_axioms ref_mem.mem_isa_axioms k(1) r k(2) sample_memory_core(4,3) l c e] by blast
  have "(guest_tick ref_isa sample_code ^^ 2) (at_pc ?g 0x1008) = at_pc (?g(31 := 0x1010)) 0x1000" by (rule sample_ticks)
  then have "guest h' 4 = 0xAB" "guest h' 31 = 0x1010" "cell h' 0 = 0x1000" using b(3) by (auto dest: sym)
  moreover have "m' (ram_HVA s 0x107) = 0xAB"
    using b(4) by (simp add: same_ram_def guest_memory_def sample_memory_core ram_address_def ref_mem_def size_of_def ref_byte_def)
  ultimately show ?thesis using s b(1,2) by (auto simp: sample_code_def)
qed

text \<open>
  Property C2. Faults of loads and stores are precise. When an access of the line has no translation, the run of the block ends
  with its request: the registers and the RAM are those after exactly the instructions before it, the exception the hypervisor delivers saves
  the address of that instruction and of the access, and a request that returns goes on at the code of the handler.
\<close>

theorem precise_faults:
  assumes M: "mips_isa M" and N: "mem_isa N" and k: "mmap_ok (mmap k)"
    and s: "map_reachable (mmap k) (undefined_size k) ram (memory_map p)" "unat ram \<le> 0x400000000"
    and t: "list_all entry_wf (tlb p)" and p: "coherent (enter h p)"
    and ws: "ram_line M N (va_pa (cp0 (enter h p)) (tlb p)) (unat ram) ws (guest h, guest_memory (memory_map p) m)"
      "guest_line M N (va_pa (cp0 (enter h p)) (tlb p)) ws (guest h, guest_memory (memory_map p) m) = (n, g, gm)"
      "n < length ws" "\<forall>w \<in> set ws. covered w \<or> access_ins w"
    and cs: "doBlockTranslation (map IInfo_of (ws @ [b, d])) e = Inr cs"
    and h: "cell h 0 = pc" "cell h 184 = e" "\<not> bit (cell h (cp0_cell H2_CP0_STATUS 0)) 1"
  shows "\<exists>j h' m' p'. code_run M N k r ra (length cs) cs 0 (h, m, p) = Some (Call j, h', m', p') \<and> guest h' = g
    \<and> same_ram (unat ram) (guest_memory (memory_map p) m') gm
    \<and> faults k (ra j) (guest_address (ws ! n) g) (pc + of_nat (4 * n)) p'"
proof -
  let ?c = "cp0 (enter h p)" and ?s = "memory_map p" and ?pre = "take n ws" and ?w = "ws ! n"
  let ?tr = "va_pa ?c (tlb p)"
  have rm: "ram_map (unat ram) ?s" using reachable_ram_map [OF s(1) k s(2)] .
  have at: "core_at ?c (tlb p) ?s pc e h p" using p h by (simp add: core_at_def)
  have x: "\<not> bit (cp0_read ?c H2_CP0_STATUS 0) 1" using h(3) by (simp add: cp0_read_def slot_def cp0_cell_def)
  have line: "guest_line M N ?tr ?pre (guest h, guest_memory ?s m) = (length ?pre, g, gm)"
    using guest_line_take(1,2) [OF ws(2)] by simp
  note w = guest_line_take(4,5) [OF ws(2,3)]
  obtain a h1 m1 q where a: "translate_each (map IInfo_of ?pre) e = Inr a" "passes M N k r ra 0 a (h, m, p) (h1, m1, q)"
    and h1: "core_at ?c (tlb p) ?s (pc + of_nat (4 * length ?pre)) e h1 q" "guest h1 = g" "same_ram (unat ram) (guest_memory ?s m1) gm"
    using line_simulated [OF M N k t rm s(2) at guest_line_take(3) [OF ws(2,1)] _ line, of m r ra 0] by (auto simp: same_ram_def)
  obtain v where v: "findInstrCase (IInfo_of ?w) None e = Inr v" using access_parts [OF M, of ?w None e N] w by blast
  obtain rest where rest: "translate_each (map IInfo_of (drop (Suc n) ws)) e = Inr rest"
    using line_translates [OF M, of "drop (Suc n) ws" e] ws(4) by (meson in_set_dropD)
  have "map IInfo_of ws = map IInfo_of ?pre @ IInfo_of ?w # map IInfo_of (drop (Suc n) ws)"
    using ws(3) by (subst id_take_nth_drop [of n ws]) simp_all
  then have each: "translate_each (map IInfo_of ws) e = Inr (a @ v @ update_pc @ rest)"
    using a(1) v rest by (simp add: translate_each_append)
  obtain vs where cs_is: "cs = a @ v @ update_pc @ rest @ vs"
    using cs each by (auto simp: doBlockTranslation_def nth_append Let_def bind_result_Inr_iff)
  obtain j h' p' where f: "guest h' = guest h1" "faults k (ra j) (guest_address ?w (guest h1)) (pc + of_nat (4 * length ?pre)) p'"
    "\<forall>pre post n. length pre = length a \<longrightarrow> code_run M N k r ra (length v + n) (pre @ v @ post) (length a) (h1, m1, q) = Some (Call j, h', m1, p')"
    using access_faults [OF M h1(1) t x _ _ _ _ v, of k ra "length a" N r m1] w ws(1) h1(2) by auto
  have "code_run M N k r ra (length a + (length v + length (update_pc @ rest @ vs))) ([] @ a @ (v @ update_pc @ rest @ vs)) 0 (h, m, p)
      = Some (Call j, h', m1, p')"
    by (rule passesD [OF a(2)]) (use f(3) in simp_all)
  then show ?thesis using f(1,2) h1(2,3) ws(3) by (auto simp: cs_is)
qed

theorem precise_faults_witness:
  "\<exists>s cs j h' m' p'. initialize_GPA_subsections first_fit 0xFFFFFFFFFFFFFFFF 0x40000000 = Inr s
     \<and> doBlockTranslation (map IInfo_of [store_word, low_word, 0x0c000400, 0]) 0x1008 = Inr cs
     \<and> code_run ref_isa ref_mem sample_host (\<lambda>_ _. 0) of_nat (length cs) cs 0 (sample_image, \<lambda>_. 0, sample_memory_core s) = Some (Call j, h', m', p')
     \<and> guest h' 4 = 0 \<and> m' (ram_HVA s 0x107) = 0xAB \<and> faults sample_host (of_nat j) 0x100 0x1004 p'"
proof -
  obtain s where s: "initialize_GPA_subsections first_fit 0xFFFFFFFFFFFFFFFF 0x40000000 = Inr s"
    using first_fit_starts by blast
  let ?p = "sample_memory_core s" and ?m = "\<lambda>_. 0 :: u8" and ?ws = "[store_word, low_word]"
  let ?gm = "st_bytes ref_mem 63 0x100 0xAB (guest_memory s (\<lambda>_. 0))"
  have h: "cell sample_image 0 = 0x1000" "cell sample_image 184 = 0x1008" "\<not> bit (cell sample_image (cp0_cell H2_CP0_STATUS 0)) 1"
    by (simp_all add: sample_image_def cp0_cell_def)
  have d: "low_word \<noteq> load_word" by (simp add: load_word_def low_word_def)
  have r: "map_reachable (mmap sample_host) (undefined_size sample_host) 0x40000000 (memory_map ?p)"
    using map_reachable.start [OF s] by (simp add: sample_memory_core)
  have l: "ram_line ref_isa ref_mem (va_pa (cp0 (enter sample_image ?p)) (tlb ?p)) (unat (0x40000000 :: u64)) ?ws (guest sample_image, guest_memory (memory_map ?p) ?m)"
    "guest_line ref_isa ref_mem (va_pa (cp0 (enter sample_image ?p)) (tlb ?p)) ?ws (guest sample_image, guest_memory (memory_map ?p) ?m) = (1, guest sample_image, ?gm)"
    using sample_line [of low_word "guest_memory s ?m"] d by (simp_all only: sample_cp0 sample_memory_core) simp_all
  have k: "mmap_ok (mmap sample_host)" "unat (0x40000000 :: u64) \<le> 0x400000000" using first_fit_ok by simp_all
  have acc: "1 < length ?ws" "\<forall>w \<in> set ?ws. covered w \<or> access_ins w" using sample_access by simp_all
  obtain cs where cs: "doBlockTranslation (map IInfo_of (?ws @ [0x0c000400, 0])) 0x1008 = Inr cs"
    using block_translates [OF ref.mips_isa_axioms acc(2) sample_block(1-3)] by (auto simp: sample_code_def)
  obtain j h' m' p' where f: "code_run ref_isa ref_mem sample_host (\<lambda>_ _. 0) of_nat (length cs) cs 0 (sample_image, ?m, ?p) = Some (Call j, h', m', p')"
      "guest h' = guest sample_image" "same_ram (unat (0x40000000 :: u64)) (guest_memory (memory_map ?p) m') ?gm"
      "faults sample_host (of_nat j) (guest_address (?ws ! 1) (guest sample_image)) (0x1000 + of_nat (4 * 1)) p'"
    using precise_faults [OF ref.mips_isa_axioms ref_mem.mem_isa_axioms k(1) r k(2) sample_memory_core(4,3) l acc cs h] by blast
  have "guest h' 4 = 0" by (simp add: f(2)) (simp add: guest_def sample_image_def gpr_cell_def)
  moreover have "m' (ram_HVA s 0x107) = 0xAB"
    using f(3) by (simp add: same_ram_def guest_memory_def sample_memory_core ram_address_def ref_mem_def size_of_def ref_byte_def)
  moreover have "faults sample_host (of_nat j) 0x100 0x1004 p'" using f(4) by (simp add: sample_words sample_image_regs)
  ultimately show ?thesis using s cs f(1) by auto
qed

end
