(* ===== verification/HashTable.thy ===== *)
theory HashTable
  imports Prelude
begin

text \<open>
  The table of chains of \<^verbatim>\<open>HashTable.cpp\<close>. No other file of the program uses it any more.

  A pointer to a node is the node with the chain behind it, null, or a pointer that leads to no node (\<open>Wild\<close>): the array that
  \<^verbatim>\<open>ht_create\<close> allocates is not cleared, so its pointers are whatever the memory held, \<open>old\<close>. Following a wild pointer is
  the error \<open>OutOfBounds\<close>. Chains that the old memory holds are taken to be finite and without nodes in common. A null pointer to the table is
  \<open>None\<close>. The size is cut to the 32 bits of its field.
\<close>

datatype ht_node = Null | Wild | Node u64 u32 ht_node

record HashTable =
  ht_table :: "ht_node list"
  ht_size :: u32

definition hash :: "u64 \<Rightarrow> u64" where
  "hash hashval = (let hashval = drop_bit 17 hashval XOR hashval in drop_bit 8 hashval XOR hashval)"

definition indexof :: "u64 \<Rightarrow> u32 \<Rightarrow> nat result" where
  "indexof hashval sz = (if sz = 0 then Inl DivByZero else Inr (unat (hashval mod ucast sz)))"

definition ht_create :: "(nat \<Rightarrow> ht_node) \<Rightarrow> u64 \<Rightarrow> HashTable" where
  "ht_create old sz = \<lparr>ht_table = map old [0..<unat sz], ht_size = ucast sz\<rparr>"

text \<open>The bucket of a key, an access to the array.\<close>

definition bucket :: "HashTable \<Rightarrow> u64 \<Rightarrow> nat result" where
  "bucket ht key =
     bind_result (indexof (hash key) (ht_size ht)) (\<lambda>i. if i < length (ht_table ht) then Inr i else Inl OutOfBounds)"

text \<open>The walk along a chain, and its unlinking of the first node with the key.\<close>

fun chain_get :: "u64 \<Rightarrow> ht_node \<Rightarrow> u32 option result" where
  "chain_get key Null = Inr None"
| "chain_get key Wild = Inl OutOfBounds"
| "chain_get key (Node k v n) = (if k = key then Inr (Some v) else chain_get key n)"

fun chain_remove :: "u64 \<Rightarrow> ht_node \<Rightarrow> ht_node result" where
  "chain_remove key Null = Inr Null"
| "chain_remove key Wild = Inl OutOfBounds"
| "chain_remove key (Node k v n) = (if k = key then Inr n else bind_result (chain_remove key n) (\<lambda>n. Inr (Node k v n)))"

definition ht_get :: "HashTable option \<Rightarrow> u64 \<Rightarrow> u32 option result" where
  "ht_get ht key =
     (case ht of
        None \<Rightarrow> Inr None
      | Some ht \<Rightarrow> bind_result (bucket ht key) (\<lambda>i. chain_get key (ht_table ht ! i)))"

definition ht_put :: "HashTable option \<Rightarrow> u64 \<Rightarrow> u32 \<Rightarrow> HashTable option result" where
  "ht_put ht key val =
     (case ht of
        None \<Rightarrow> Inr None
      | Some ht \<Rightarrow> bind_result (bucket ht key)
          (\<lambda>i. Inr (Some (ht\<lparr>ht_table := (ht_table ht)[i := Node key val (ht_table ht ! i)]\<rparr>))))"

definition ht_remove :: "HashTable option \<Rightarrow> u64 \<Rightarrow> HashTable option result" where
  "ht_remove ht key =
     (case ht of
        None \<Rightarrow> Inr None
      | Some ht \<Rightarrow> bind_result (bucket ht key)
          (\<lambda>i. bind_result (chain_remove key (ht_table ht ! i)) (\<lambda>n. Inr (Some (ht\<lparr>ht_table := (ht_table ht)[i := n]\<rparr>)))))"

section \<open>Runs\<close>

datatype ht_op = Put u64 u32 | Get u64 | Remove u64

text \<open>The answers of the lookups of a run.\<close>

fun ht_run :: "ht_op list \<Rightarrow> HashTable option \<Rightarrow> u32 option list result" where
  "ht_run [] ht = Inr []"
| "ht_run (Put k v # ops) ht = bind_result (ht_put ht k v) (ht_run ops)"
| "ht_run (Get k # ops) ht = bind_result (ht_get ht k) (\<lambda>r. bind_result (ht_run ops ht) (\<lambda>rs. Inr (r # rs)))"
| "ht_run (Remove k # ops) ht = bind_result (ht_remove ht k) (ht_run ops)"

text \<open>
  The same run on a map from keys to the stack of their values. A key that is not on the map is looked up behind its stack, where
  the keys in \<open>bad\<close> lead to a fault.
\<close>

fun stack_run :: "u64 set \<Rightarrow> ht_op list \<Rightarrow> (u64 \<Rightarrow> u32 list) \<Rightarrow> u32 option list result" where
  "stack_run bad [] m = Inr []"
| "stack_run bad (Put k v # ops) m = stack_run bad ops (m(k := v # m k))"
| "stack_run bad (Get k # ops) m =
     (if m k = [] \<and> k \<in> bad then Inl OutOfBounds
      else bind_result (stack_run bad ops m) (\<lambda>rs. Inr ((case m k of [] \<Rightarrow> None | v # vs \<Rightarrow> Some v) # rs)))"
| "stack_run bad (Remove k # ops) m =
     (if m k = [] \<and> k \<in> bad then Inl OutOfBounds else stack_run bad ops (m(k := tl (m k))))"

text \<open>The values of a key in its chain, and how the chain ends.\<close>

fun values_of :: "u64 \<Rightarrow> ht_node \<Rightarrow> u32 list" where
  "values_of key (Node k v n) = (if k = key then v # values_of key n else values_of key n)"
| "values_of key _ = []"

fun ends_wild :: "ht_node \<Rightarrow> bool" where
  "ends_wild Null = False"
| "ends_wild Wild = True"
| "ends_wild (Node k v n) = ends_wild n"

definition refines :: "HashTable \<Rightarrow> u64 set \<Rightarrow> (u64 \<Rightarrow> u32 list) \<Rightarrow> bool" where
  "refines ht bad m \<longleftrightarrow>
     (\<forall>k. \<exists>i. bucket ht k = Inr i \<and> m k = values_of k (ht_table ht ! i) \<and> (k \<in> bad \<longleftrightarrow> ends_wild (ht_table ht ! i)))"

lemma chain_get_values:
  "chain_get k c = (if values_of k c = [] \<and> ends_wild c then Inl OutOfBounds
     else Inr (case values_of k c of [] \<Rightarrow> None | v # vs \<Rightarrow> Some v))"
  by (induction c) auto

lemma bind_Inr_fails: "bind_result r (\<lambda>x. Inr (f x)) = Inl e \<longleftrightarrow> r = Inl e"
  by (cases r) simp_all

lemma chain_remove_fails: "chain_remove k c = Inl e \<longleftrightarrow> e = OutOfBounds \<and> values_of k c = [] \<and> ends_wild c"
  by (induction c) (auto simp: bind_Inr_fails)

lemma chain_remove_values:
  "chain_remove k c = Inr c' \<Longrightarrow>
     values_of k' c' = (if k' = k then tl (values_of k c) else values_of k' c) \<and> ends_wild c' = ends_wild c"
proof (induction c arbitrary: c')
  case (Node j v n)
  show ?case
  proof (cases "j = k")
    case False
    then obtain n' where "chain_remove k n = Inr n'" "c' = Node j v n'" using Node.prems by (auto simp: bind_result_Inr_iff)
    then show ?thesis using Node.IH [of n'] False by (cases "k' = k") simp_all
  qed (use Node.prems in simp)
qed simp_all

lemma bucket_update: "bucket (ht\<lparr>ht_table := (ht_table ht)[i := c]\<rparr>) k = bucket ht k"
  by (simp add: bucket_def)

lemma bucket_range: "bucket ht k = Inr i \<Longrightarrow> i < length (ht_table ht)"
  by (auto simp: bucket_def bind_result_Inr_iff split: if_splits)

lemma refinesE:
  assumes "refines ht bad m"
  obtains i where "bucket ht k = Inr i" "m k = values_of k (ht_table ht ! i)" "k \<in> bad \<longleftrightarrow> ends_wild (ht_table ht ! i)"
  using assms by (auto simp: refines_def)

text \<open>An update of a chain that changes the values of its key only, and not its end.\<close>

lemma refines_update:
  assumes "refines ht bad m" "bucket ht k = Inr i"
    and "\<And>k'. values_of k' c = (if k' = k then vs else values_of k' (ht_table ht ! i))"
    and "ends_wild c = ends_wild (ht_table ht ! i)"
  shows "refines (ht\<lparr>ht_table := (ht_table ht)[i := c]\<rparr>) bad (m(k := vs))"
  unfolding refines_def
proof
  fix k'
  obtain j where j: "bucket ht k' = Inr j" "m k' = values_of k' (ht_table ht ! j)" "k' \<in> bad \<longleftrightarrow> ends_wild (ht_table ht ! j)"
    by (rule refinesE [OF assms(1)])
  show "\<exists>j. bucket (ht\<lparr>ht_table := (ht_table ht)[i := c]\<rparr>) k' = Inr j
      \<and> (m(k := vs)) k' = values_of k' (ht_table (ht\<lparr>ht_table := (ht_table ht)[i := c]\<rparr>) ! j)
      \<and> (k' \<in> bad \<longleftrightarrow> ends_wild (ht_table (ht\<lparr>ht_table := (ht_table ht)[i := c]\<rparr>) ! j))"
    using j assms(2-4) bucket_range [OF j(1)] bucket_range [OF assms(2)] by (auto simp: bucket_update nth_list_update)
qed

lemma run_refines: "refines ht bad m \<Longrightarrow> ht_run ops (Some ht) = stack_run bad ops m"
proof (induction ops arbitrary: ht m)
  case (Cons op ops)
  show ?case
  proof (cases op)
    case (Put k v)
    obtain i where i: "bucket ht k = Inr i" "m k = values_of k (ht_table ht ! i)" by (rule refinesE [OF Cons.prems])
    have "refines (ht\<lparr>ht_table := (ht_table ht)[i := Node k v (ht_table ht ! i)]\<rparr>) bad (m(k := v # m k))"
      by (rule refines_update [OF Cons.prems i(1)]) (simp_all add: i(2))
    then show ?thesis using Cons.IH i(1) by (simp add: Put ht_put_def fun_upd_def)
  next
    case (Get k)
    obtain i where i: "bucket ht k = Inr i" "m k = values_of k (ht_table ht ! i)" "k \<in> bad \<longleftrightarrow> ends_wild (ht_table ht ! i)"
      by (rule refinesE [OF Cons.prems])
    then show ?thesis using Cons.IH [OF Cons.prems] by (simp add: Get ht_get_def chain_get_values)
  next
    case (Remove k)
    obtain i where i: "bucket ht k = Inr i" "m k = values_of k (ht_table ht ! i)" "k \<in> bad \<longleftrightarrow> ends_wild (ht_table ht ! i)"
      by (rule refinesE [OF Cons.prems])
    show ?thesis
    proof (cases "chain_remove k (ht_table ht ! i)")
      case (Inl e)
      then show ?thesis using i chain_remove_fails [of k "ht_table ht ! i" e] by (simp add: Remove ht_remove_def)
    next
      case (Inr n)
      have "refines (ht\<lparr>ht_table := (ht_table ht)[i := n]\<rparr>) bad (m(k := tl (m k)))"
        using chain_remove_values [OF Inr] i(2) by (intro refines_update [OF Cons.prems i(1)]) simp_all
      moreover have "m k = [] \<longrightarrow> k \<notin> bad" using chain_remove_fails [of k "ht_table ht ! i" OutOfBounds] Inr i(2,3) by simp
      ultimately show ?thesis using Cons.IH i(1) Inr by (auto simp: Remove ht_remove_def fun_upd_def)
    qed
  qed
qed simp

lemma unat_widen: "unat (ucast x :: u64) = unat (x :: u32)"
proof -
  have "unat x < 2 ^ 32" by (rule order_less_le_trans [OF unsigned_less]) simp
  then show ?thesis by (simp add: unsigned_ucast_eq take_bit_nat_eq_self)
qed

text \<open>The place of a key in a fresh array, and the pointer the memory holds there.\<close>

definition home_of :: "u64 \<Rightarrow> u64 \<Rightarrow> nat" where
  "home_of sz k = unat (hash k) mod (unat sz mod 2 ^ 32)"

lemma bucket_create:
  assumes "ucast sz \<noteq> (0 :: u32)"
  shows "bucket (ht_create old sz) k = Inr (home_of sz k)" "home_of sz k < unat sz"
proof -
  have u: "unat (ucast (ucast sz :: u32) :: u64) = unat sz mod 2 ^ 32"
    unfolding unat_widen by (simp add: unsigned_ucast_eq take_bit_eq_mod)
  have "0 < unat sz mod 2 ^ 32" using assms by (simp add: unat_gt_0 [symmetric] unsigned_ucast_eq take_bit_eq_mod)
  then have "home_of sz k < unat sz mod 2 ^ 32" by (simp add: home_of_def)
  moreover have "unat sz mod 2 ^ 32 \<le> unat sz" by simp
  ultimately show "home_of sz k < unat sz" by linarith
  then show "bucket (ht_create old sz) k = Inr (home_of sz k)"
    using assms u by (simp add: bucket_def indexof_def ht_create_def home_of_def unat_mod_distrib)
qed

text \<open>
  Property C37. A table is a map from keys to stacks, on top of whatever the memory of its array held. The lookups of any run of
  insertions, lookups and removals on a new table give what they give on a map that starts with the values found in the old
  memory at the key's place: the value inserted last and not removed, then the old ones; a lookup or removal that passes them all faults
  when the old chain there ends in a wild pointer. On cleared memory the map starts empty and nothing faults. With a size whose low
  32 bits are zero the first operation divides by zero.
\<close>

theorem hash_table_is_stacks:
  "ht_run ops (Some (ht_create old sz)) =
     (if ucast sz = (0 :: u32) then (if ops = [] then Inr [] else Inl DivByZero)
      else stack_run {k. ends_wild (old (home_of sz k))} ops (\<lambda>k. values_of k (old (home_of sz k))))"
proof (cases "ucast sz = (0 :: u32)")
  case True
  then have "bucket (ht_create old sz) k = Inl DivByZero" for k by (simp add: bucket_def indexof_def ht_create_def)
  then show ?thesis using True
    by (cases "(ops, Some (ht_create old sz))" rule: ht_run.cases) (auto simp: ht_put_def ht_get_def ht_remove_def)
next
  case False
  have "refines (ht_create old sz) {k. ends_wild (old (home_of sz k))} (\<lambda>k. values_of k (old (home_of sz k)))"
    using bucket_create [OF False] by (simp add: refines_def ht_create_def)
  then show ?thesis using False run_refines by simp
qed

text \<open>A lookup in a new table follows what its memory held, and faults there.\<close>

lemma fresh_lookup_faults:
  "ucast sz \<noteq> (0 :: u32) \<Longrightarrow> old (home_of sz k) = Wild \<Longrightarrow> ht_get (Some (ht_create old sz)) k = Inl OutOfBounds"
  using bucket_create(1) [of sz old k] bucket_create(2) [of sz k] by (simp add: ht_get_def ht_create_def)

end
