(* ===== verification/HostCalls.thy ===== *)
theory HostCalls
  imports Virtio
begin

text \<open>
  What the hypervisor asks of the host for its devices: \<^verbatim>\<open>EventNotifier.cpp\<close>, the event descriptors by which a queue and the
  host notify each other, \<^verbatim>\<open>TapInterface.cpp\<close>, the network interface of the host, and the calls of \<^verbatim>\<open>Vhost.cpp\<close>,
  \<^verbatim>\<open>VirtioDevice.cpp\<close>, \<^verbatim>\<open>VirtioBlk.cpp\<close> and \<^verbatim>\<open>Virtionet.cpp\<close> that open the host's drivers and hand the queues to them.

  A call of the host is a value of \<open>call\<close>, a control call carries its \<open>request\<close>; the history is the list of the calls made with their
  replies. The host, of type \<open>os\<close>, answers a call from the history, so that it can be any deterministic machine. An operation takes the
  history and gives its value and the new history; it gives no value when the process ends in it (\<^verbatim>\<open>exit\<close>, \<^verbatim>\<open>err\<close>, a
  program that replaces it), and nothing at all when it waits forever. Messages, the creation of threads and the freeing of memory are
  not modelled. The flags of the interface and of the events come from headers of the host and are parameters.
\<close>

section \<open>Calls of the host\<close>

datatype request =
    TUNGETFEATURES
  | TUNSETIFF u16 string
  | TUNSETOFFLOAD u64
  | TUNSETSNDBUF int
  | VHOST_SET_OWNER
  | VHOST_SET_MEM_TABLE u32 "vhost_memory_region list"
  | VHOST_GET_FEATURES
  | VHOST_SET_FEATURES u64
  | VHOST_SET_VRING_NUM u32 u32
  | VHOST_SET_VRING_BASE u32 u32
  | VHOST_SET_VRING_ADDR u32 u64 u64 u64
  | VHOST_SET_VRING_KICK u32 int
  | VHOST_SET_VRING_CALL u32 int
  | VHOST_NET_SET_BACKEND u32 int

datatype call =
    Open string
  | Close int
  | Ioctl int request
  | Set_nonblocking int
  | Fork
  | Execv string "string list"
  | Waitpid int
  | Exit int
  | Access string
  | System string
  | Mmap u64
  | Munmap u64 u64
  | Eventfd
  | Eventfd_write int int
  | Epoll_create
  | Epoll_add int int
  | Epoll_wait int
  | Read int

text \<open>A reply: the value returned, and what the host stores through the pointers of the call, a word, a descriptor or a name.\<close>

record reply =
  r_ret :: int
  r_word :: u64
  r_fd :: int
  r_name :: string

type_synonym history = "(call \<times> reply) list"
type_synonym os = "history \<Rightarrow> call \<Rightarrow> reply"
type_synonym 'a io = "history \<Rightarrow> ('a option \<times> history) option"

definition return_io :: "'a \<Rightarrow> 'a io" where
  "return_io x t = Some (Some x, t)"

definition bind_io :: "'a io \<Rightarrow> ('a \<Rightarrow> 'b io) \<Rightarrow> 'b io" where
  "bind_io m f t =
     (case m t of None \<Rightarrow> None | Some (None, t) \<Rightarrow> Some (None, t) | Some (Some x, t) \<Rightarrow> f x t)"

definition ends_io :: "'a io" where
  "ends_io t = Some (None, t)"

definition sys :: "os \<Rightarrow> call \<Rightarrow> reply io" where
  "sys h c t = Some (Some (h t c), t @ [(c, h t c)])"

lemma return_io_simps [simp]: "return_io x t = Some (Some x, t)" "ends_io t = Some (None, t)"
  by (simp_all add: return_io_def ends_io_def)

lemma bind_io_simps [simp]:
  "bind_io (return_io x) f t = f x t" "bind_io ends_io f' t = Some (None, t)" "bind_io (sys h c) g t = g (h t c) (t @ [(c, h t c)])"
  by (simp_all add: bind_io_def sys_def)

lemma bind_io_assoc [simp]: "bind_io (bind_io m f) g = bind_io m (\<lambda>x. bind_io (f x) g)"
  by (auto simp: bind_io_def fun_eq_iff split: option.splits)

lemma bind_io_if [simp]: "bind_io (if b then m else n) f = (if b then bind_io m f else bind_io n f)"
  by simp

lemma bind_io_run: "m t = Some (Some x, t') \<Longrightarrow> bind_io m f t = f x t'"
  by (simp add: bind_io_def)

section \<open>Event notifiers\<close>

text \<open>\<open>EPOLLIN\<close> is the flag of an event that can be read; the members are what the memory held until they are set.\<close>

record EventNotifier =
  Eventfd_of :: int
  pollfd :: int

definition new_EventNotifier :: "os \<Rightarrow> EventNotifier io" where
  "new_EventNotifier h =
     bind_io (sys h Eventfd) (\<lambda>r. return_io \<lparr>Eventfd_of = r_ret r, pollfd = -1\<rparr>)"

definition delete_EventNotifier :: "os \<Rightarrow> EventNotifier \<Rightarrow> unit io" where
  "delete_EventNotifier h n =
     bind_io (sys h (Close (Eventfd_of n))) (\<lambda>_.
       if pollfd n \<noteq> -1 then bind_io (sys h (Close (pollfd n))) (\<lambda>_. return_io ()) else return_io ())"

definition getfd :: "EventNotifier \<Rightarrow> int" where
  "getfd n = Eventfd_of n"

definition write_event :: "os \<Rightarrow> EventNotifier \<Rightarrow> int \<Rightarrow> unit io" where
  "write_event h n value = bind_io (sys h (Eventfd_write (Eventfd_of n) value)) (\<lambda>_. return_io ())"

definition enablePolling :: "os \<Rightarrow> EventNotifier \<Rightarrow> (int \<times> EventNotifier) io" where
  "enablePolling h n =
     bind_io (sys h Epoll_create) (\<lambda>r. let fd = r_ret r in
       if fd < 0 then return_io (-1, n)
       else bind_io (sys h (Epoll_add fd (Eventfd_of n))) (\<lambda>r.
         if r_ret r = -1 then return_io (-1, n) else return_io (0, n\<lparr>pollfd := fd\<rparr>)))"

definition poll :: "os \<Rightarrow> u64 \<Rightarrow> EventNotifier \<Rightarrow> int io" where
  "poll h EPOLLIN n =
     bind_io (sys h (Epoll_wait (pollfd n))) (\<lambda>e.
       if r_ret e > 0 \<and> r_word e AND EPOLLIN \<noteq> 0 \<and> Eventfd_of n = r_fd e
       then bind_io (sys h (Read (Eventfd_of n))) (\<lambda>r. return_io (r_ret r))
       else return_io (r_ret e))"

section \<open>The shared part of a queue\<close>

text \<open>
  The members of \<^verbatim>\<open>VirtQueue\<close> that only the host uses: where the parts of the ring are, and the notifiers. The layout of a ring,
  from its size, its address and the alignment, is defined by a header outside of the sources.
\<close>

record vring =
  ring_num :: u32
  ring_desc_addr :: u64
  ring_avail_addr :: u64
  ring_used_addr :: u64

type_synonym vring_init = "u32 \<Rightarrow> u64 \<Rightarrow> u32 \<Rightarrow> vring"

record shared_queue =
  Vring :: vring
  HostNotifier :: EventNotifier
  GuestNotifier :: EventNotifier

definition create_shared :: "mmap_call \<Rightarrow> u64 \<Rightarrow> vring_init \<Rightarrow> u32 \<Rightarrow> u32 \<Rightarrow> u32 \<Rightarrow> VirtQueue \<times> shared_queue \<times> GPAMap \<Rightarrow>
    (VirtQueue \<times> shared_queue \<times> GPAMap) result" where
  "create_shared mmap ub init_ring num page align = (\<lambda>(q, w, gm).
     bind_result (createVring mmap ub num page q gm)
       (\<lambda>(q, gm). Inr (q, w\<lparr>Vring := init_ring num (vq_HVA q) align\<rparr>, gm)))"

definition new_VirtQueue :: "os \<Rightarrow> vring \<Rightarrow> shared_queue io" where
  "new_VirtQueue h old =
     bind_io (new_EventNotifier h) (\<lambda>host. bind_io (new_EventNotifier h) (\<lambda>guest.
       return_io \<lparr>Vring = old, HostNotifier = host, GuestNotifier = guest\<rparr>))"

definition setLastAvailIdx :: "u16 \<Rightarrow> VirtQueue \<Rightarrow> VirtQueue" where
  "setLastAvailIdx idx q = q\<lparr>last_avail_idx := idx\<rparr>"

definition getVring :: "shared_queue \<Rightarrow> vring" where
  "getVring w = Vring w"

definition getHostNotifierFd :: "shared_queue \<Rightarrow> int" where
  "getHostNotifierFd w = getfd (HostNotifier w)"

definition getGuestNotifierFd :: "shared_queue \<Rightarrow> int" where
  "getGuestNotifierFd w = getfd (GuestNotifier w)"

definition NotifyHost :: "os \<Rightarrow> shared_queue \<Rightarrow> int \<Rightarrow> unit io" where
  "NotifyHost h w value = write_event h (HostNotifier w) value"

definition EnableGuestPolling :: "os \<Rightarrow> shared_queue \<Rightarrow> shared_queue io" where
  "EnableGuestPolling h w =
     bind_io (enablePolling h (GuestNotifier w)) (\<lambda>(_, n). return_io (w\<lparr>GuestNotifier := n\<rparr>))"

definition PollGuest :: "os \<Rightarrow> u64 \<Rightarrow> shared_queue \<Rightarrow> int io" where
  "PollGuest h EPOLLIN w = poll h EPOLLIN (GuestNotifier w)"

section \<open>The client of the vhost driver\<close>

record host_client =
  Vhostfd :: int
  hostFeatures :: u64
  guestFeatures :: u64

fun strstr :: "string \<Rightarrow> string \<Rightarrow> bool" where
  "strstr [] sub = (sub = [])"
| "strstr (c # s) sub = (take (length sub) (c # s) = sub \<or> strstr s sub)"

text \<open>
  The table is a mapping of the host of \<open>table_size\<close> bytes, a size that comes from a header. A failed call leaves the descriptor open.
\<close>

definition Vhost_Initialize :: "os \<Rightarrow> u64 \<Rightarrow> string \<Rightarrow> Vhost \<times> host_client \<Rightarrow> (int \<times> Vhost \<times> host_client) io" where
  "Vhost_Initialize h table_size path = (\<lambda>(v, c).
     bind_io (sys h (Open path)) (\<lambda>r. let fd = r_ret r in
       if fd < 0 then return_io (-1, v, c)
       else bind_io (sys h (Ioctl fd VHOST_SET_OWNER)) (\<lambda>r.
         if r_ret r < 0 then return_io (-1, v, c)
         else bind_io (sys h (Mmap table_size)) (\<lambda>r.
           if r_ret r = -1 then ends_io
           else return_io (0, new_Vhost (strstr path ''net'') (queues v) (numQueues v), c\<lparr>Vhostfd := fd\<rparr>)))))"

definition delete_Vhost :: "os \<Rightarrow> u64 \<Rightarrow> u64 \<Rightarrow> host_client \<Rightarrow> unit io" where
  "delete_Vhost h table table_size c =
     bind_io (sys h (Munmap table table_size)) (\<lambda>_. bind_io (sys h (Close (Vhostfd c))) (\<lambda>_. return_io ()))"

text \<open>The queues from \<open>i\<close> on, while there are any.\<close>

fun setBackend :: "os \<Rightarrow> host_client \<Rightarrow> int \<Rightarrow> nat list \<Rightarrow> int io" where
  "setBackend h c fd [] = return_io 0"
| "setBackend h c fd (i # is) =
     bind_io (sys h (Ioctl (Vhostfd c) (VHOST_NET_SET_BACKEND (of_nat i) fd))) (\<lambda>r.
       if r_ret r < 0 then return_io (-1) else setBackend h c fd is)"

definition setQueues :: "VirtQueue list \<Rightarrow> nat \<Rightarrow> Vhost \<Rightarrow> Vhost" where
  "setQueues qs num v = v\<lparr>queues := qs, numQueues := num\<rparr>"

definition getFeatures :: "os \<Rightarrow> host_client \<Rightarrow> (u64 \<times> host_client) io" where
  "getFeatures h c =
     bind_io (sys h (Ioctl (Vhostfd c) VHOST_GET_FEATURES)) (\<lambda>r.
       let c = (if r_ret r < 0 then c else c\<lparr>hostFeatures := r_word r\<rparr>) in return_io (hostFeatures c, c))"

definition setFeatures :: "os \<Rightarrow> u64 \<Rightarrow> host_client \<Rightarrow> host_client io" where
  "setFeatures h features c =
     (let c = c\<lparr>guestFeatures := features\<rparr> in
      bind_io (sys h (Ioctl (Vhostfd c) (VHOST_SET_FEATURES (guestFeatures c)))) (\<lambda>_. return_io c))"

definition setVringAddr :: "os \<Rightarrow> host_client \<Rightarrow> vring \<Rightarrow> nat \<Rightarrow> int io" where
  "setVringAddr h c ring idx =
     bind_io (sys h (Ioctl (Vhostfd c)
         (VHOST_SET_VRING_ADDR (of_nat idx) (ring_desc_addr ring) (ring_avail_addr ring) (ring_used_addr ring))))
       (\<lambda>r. if r_ret r < 0 then return_io (-1) else return_io 0)"

text \<open>The function ends without a value when every call has succeeded; the value of \<^verbatim>\<open>setVringAddr\<close> is not looked at.\<close>

definition InitVring :: "os \<Rightarrow> host_client \<Rightarrow> shared_queue \<Rightarrow> nat \<Rightarrow> int option io" where
  "InitVring h c w idx =
     (let ring = getVring w in
      bind_io (sys h (Ioctl (Vhostfd c) (VHOST_SET_VRING_NUM (of_nat idx) (ring_num ring)))) (\<lambda>r.
      if r_ret r \<noteq> 0 then return_io (Some (-1))
      else bind_io (sys h (Ioctl (Vhostfd c) (VHOST_SET_VRING_BASE (of_nat idx) 0))) (\<lambda>r.
      if r_ret r \<noteq> 0 then return_io (Some (-1))
      else bind_io (setVringAddr h c ring idx) (\<lambda>_.
           bind_io (sys h (Ioctl (Vhostfd c) (VHOST_SET_VRING_KICK (of_nat idx) (getHostNotifierFd w)))) (\<lambda>r.
      if r_ret r \<noteq> 0 then return_io (Some (-1))
      else bind_io (sys h (Ioctl (Vhostfd c) (VHOST_SET_VRING_CALL (of_nat idx) (getGuestNotifierFd w)))) (\<lambda>r.
      if r_ret r \<noteq> 0 then return_io (Some (-1)) else return_io None))))))"

section \<open>The start of a device\<close>

text \<open>The queues with their numbers, in order; what \<^verbatim>\<open>InitVring\<close> returns is dropped.\<close>

fun InitVirtQueues :: "os \<Rightarrow> host_client \<Rightarrow> (nat \<times> shared_queue) list \<Rightarrow> unit io" where
  "InitVirtQueues h c [] = return_io ()"
| "InitVirtQueues h c ((i, w) # qs) = bind_io (InitVring h c w i) (\<lambda>_. InitVirtQueues h c qs)"

text \<open>
  The walk over the rings with the call at its end: \<open>published\<close> is emptied before the walk, so that it then tells whether this walk hands
  the table over.
\<close>

definition hand_over_table :: "os \<Rightarrow> venv \<Rightarrow> host_client \<Rightarrow> VirtioDevice \<times> GPAMap \<Rightarrow> (VirtioDevice \<times> GPAMap) result io" where
  "hand_over_table h e c = (\<lambda>(d, gm).
     case update_table e (d\<lparr>HostClient := (HostClient d)\<lparr>published := None\<rparr>\<rparr>, gm) of
       Inl err \<Rightarrow> return_io (Inl err)
     | Inr (d', gm) \<Rightarrow>
         (case published (HostClient d') of
            None \<Rightarrow> return_io (Inr (d'\<lparr>HostClient := (HostClient d')\<lparr>published := published (HostClient d)\<rparr>\<rparr>, gm))
          | Some (n, rs) \<Rightarrow>
              bind_io (sys h (Ioctl (Vhostfd c) (VHOST_SET_MEM_TABLE n rs))) (\<lambda>_. return_io (Inr (d', gm)))))"

definition shared_StartDevice ::
    "os \<Rightarrow> venv \<Rightarrow> host_client \<Rightarrow> shared_queue list \<Rightarrow> int \<Rightarrow> VirtioDevice \<times> GPAMap \<Rightarrow> (VirtioDevice \<times> GPAMap) result io" where
  "shared_StartDevice h e c ws Backendfd = (\<lambda>(d, gm).
     bind_io (InitVirtQueues h c (zip [0..<NumQueues d] ws)) (\<lambda>_.
     bind_io (hand_over_table h e c (d\<lparr>HostClient := setQueues (queues (HostClient d)) (NumQueues d) (HostClient d)\<rparr>, gm)) (\<lambda>r.
       case r of
         Inl err \<Rightarrow> return_io (Inl err)
       | Inr (d, gm) \<Rightarrow>
           bind_io (setBackend h c Backendfd [0..<NumQueues d]) (\<lambda>_. return_io (Inr (d\<lparr>DeviceStarted := True\<rparr>, gm))))))"

definition shared_NotifyDevice ::
    "os \<Rightarrow> venv \<Rightarrow> host_client \<Rightarrow> shared_queue list \<Rightarrow> u32 \<Rightarrow> VirtioDevice \<times> GPAMap \<Rightarrow> (VirtioDevice \<times> GPAMap) result io" where
  "shared_NotifyDevice h e c ws data = (\<lambda>(d, gm).
     if \<not> DeviceStarted d then return_io (Inr (d, gm))
     else
       (let idx = swap_endianess32 data in
        bind_io (hand_over_table h e c (d, gm)) (\<lambda>r.
          case r of
            Inl err \<Rightarrow> return_io (Inl err)
          | Inr (d, gm) \<Rightarrow>
              if unat idx \<ge> length ws then return_io (Inl OutOfBounds)
              else bind_io (NotifyHost h (ws ! unat idx) (sint idx)) (\<lambda>_. return_io (Inr (d\<lparr>kicks := kicks d @ [idx]\<rparr>, gm))))))"

section \<open>The disk\<close>

abbreviation (input) VHOST_BLK_PATH :: string where "VHOST_BLK_PATH \<equiv> ''/dev/vhost-blk''"
abbreviation (input) DISK_PATH :: string where "DISK_PATH \<equiv> ''./disk.img''"

definition OpenDisk :: "os \<Rightarrow> int io" where
  "OpenDisk h =
     bind_io (sys h (Access DISK_PATH)) (\<lambda>r.
     bind_io (if r_ret r \<noteq> 0
              then sys h (System ''dd if=/dev/zero of=./disk.img bs=512 count=262144 &> /dev/null'')
              else return_io r) (\<lambda>_.
     bind_io (sys h (Open DISK_PATH)) (\<lambda>r. if r_ret r = -1 then ends_io else return_io (r_ret r))))"

definition blk_InitHostClient :: "os \<Rightarrow> u64 \<Rightarrow> features \<Rightarrow> VirtioDevice \<times> host_client \<Rightarrow> (VirtioDevice \<times> host_client) io" where
  "blk_InitHostClient h table_size f = (\<lambda>(d, c).
     let ready = (\<lambda>v c. return_io (blk_GetBackendHostFeatures f (d\<lparr>HostClient := v\<rparr>), c)) in
     bind_io (Vhost_Initialize h table_size VHOST_BLK_PATH (HostClient d, c)) (\<lambda>(r, v, c).
       if r < 0
       then bind_io (sys h (System ''insmod /lib/modules/2.6.32.27-Cavium-Octeon/drivers/vhost/vhost_blk.ko'')) (\<lambda>_.
            bind_io (Vhost_Initialize h table_size VHOST_BLK_PATH (v, c)) (\<lambda>(r, v, c).
              if r < 0 then bind_io (sys h (Exit 1)) (\<lambda>_. ends_io) else ready v c))
       else ready v c))"

definition delete_VirtioBlk :: "os \<Rightarrow> int \<Rightarrow> unit io" where
  "delete_VirtioBlk h Backendfd = bind_io (sys h (Close Backendfd)) (\<lambda>_. return_io ())"

section \<open>The network interface of the host\<close>

abbreviation (input) TUN_PATH :: string where "TUN_PATH \<equiv> ''/dev/net/tun''"
abbreviation (input) TAP_DEVICE_NAME :: string where "TAP_DEVICE_NAME \<equiv> ''tun%d''"
abbreviation (input) NETWORK_SCRIPT :: string where "NETWORK_SCRIPT \<equiv> ''./networkup''"
abbreviation (input) VHOST_NET_PATH :: string where "VHOST_NET_PATH \<equiv> ''/dev/vhost-net''"

record tun_abi =
  IFF_TAP :: u16
  IFF_NO_PI :: u16
  IFF_VNET_HDR :: u16
  IFNAMSIZ :: nat

record TapInterface =
  tap_fd :: int
  HeaderLen :: int
  VnetHdr :: bool
  DeviceName :: string

definition TapOpen :: "os \<Rightarrow> tun_abi \<Rightarrow> TapInterface \<Rightarrow> (int \<times> TapInterface) io" where
  "TapOpen h a tap =
     bind_io (sys h (Open TUN_PATH)) (\<lambda>r. let fd = r_ret r in
       if fd < 0 then return_io (-1, tap)
       else bind_io (sys h (Ioctl fd TUNGETFEATURES)) (\<lambda>r.
         let vnet = (r_ret r = 0 \<and> r_word r AND ucast (IFF_VNET_HDR a) \<noteq> 0);
             flags = (IFF_TAP a OR IFF_NO_PI a) OR (if vnet then IFF_VNET_HDR a else 0);
             tap = tap\<lparr>VnetHdr := vnet\<rparr> in
         bind_io (sys h (Ioctl fd (TUNSETIFF flags TAP_DEVICE_NAME))) (\<lambda>r.
           if r_ret r \<noteq> 0 then bind_io (sys h (Close fd)) (\<lambda>_. return_io (-1, tap))
           else bind_io (sys h (Set_nonblocking fd)) (\<lambda>_.
             return_io (0, tap\<lparr>DeviceName := take (IFNAMSIZ a) (r_name r), tap_fd := fd\<rparr>)))))"

text \<open>The parent waits until the host names its child, perhaps forever; in the child the program is replaced, or it exits.\<close>

partial_function (option) wait_for :: "os \<Rightarrow> int \<Rightarrow> unit io" where
  "wait_for h pid t =
     (let r = h t (Waitpid pid); t = t @ [(Waitpid pid, r)] in
      if r_ret r \<noteq> pid then wait_for h pid t else Some (Some (), t))"

definition TapLaunchScript :: "os \<Rightarrow> TapInterface \<Rightarrow> unit io" where
  "TapLaunchScript h tap =
     bind_io (sys h Fork) (\<lambda>r. let pid = r_ret r in
       if pid = 0
       then bind_io (sys h (Execv NETWORK_SCRIPT [NETWORK_SCRIPT, DeviceName tap])) (\<lambda>r.
              if r_ret r = -1 then bind_io (sys h (Exit 1)) (\<lambda>_. ends_io) else ends_io)
       else wait_for h pid)"

definition set_offload :: "os \<Rightarrow> features \<Rightarrow> u64 \<Rightarrow> TapInterface \<Rightarrow> int io" where
  "set_offload h f features tap =
     bind_io (sys h (Ioctl (tap_fd tap) (TUNSETOFFLOAD (TapSetOffload f features))))
       (\<lambda>r. if r_ret r \<noteq> 0 then return_io (-1) else return_io 0)"

definition TapSetSendBuff :: "os \<Rightarrow> int \<Rightarrow> TapInterface \<Rightarrow> int io" where
  "TapSetSendBuff h sz tap =
     bind_io (sys h (Ioctl (tap_fd tap) (TUNSETSNDBUF sz))) (\<lambda>r. if r_ret r \<noteq> 0 then return_io (-1) else return_io 0)"

abbreviation (input) INT_MAX :: int where "INT_MAX \<equiv> 2147483647"

text \<open>No result of the three steps is looked at.\<close>

definition Tap_Initialize :: "os \<Rightarrow> tun_abi \<Rightarrow> TapInterface \<Rightarrow> TapInterface io" where
  "Tap_Initialize h a tap =
     bind_io (TapOpen h a tap) (\<lambda>(_, tap).
     bind_io (TapLaunchScript h tap) (\<lambda>_.
     bind_io (TapSetSendBuff h INT_MAX tap) (\<lambda>_. return_io tap)))"

definition new_TapInterface :: "os \<Rightarrow> tun_abi \<Rightarrow> TapInterface \<Rightarrow> TapInterface io" where
  "new_TapInterface h a old = Tap_Initialize h a old"

definition delete_TapInterface :: "os \<Rightarrow> TapInterface \<Rightarrow> unit io" where
  "delete_TapInterface h tap = bind_io (sys h (Close (tap_fd tap))) (\<lambda>_. return_io ())"

definition getTapfd :: "TapInterface \<Rightarrow> int" where
  "getTapfd tap = tap_fd tap"

definition getHeaderLen :: "TapInterface \<Rightarrow> int" where
  "getHeaderLen tap = HeaderLen tap"

definition IsVnetHdrSupport :: "TapInterface \<Rightarrow> bool" where
  "IsVnetHdrSupport tap = VnetHdr tap"

definition setHeaderLen :: "int \<Rightarrow> TapInterface \<Rightarrow> TapInterface" where
  "setHeaderLen len tap = tap\<lparr>HeaderLen := len\<rparr>"

section \<open>The network card\<close>

text \<open>A failure to open the driver is not looked at: the client is then what the memory held.\<close>

definition net_InitHostClient :: "os \<Rightarrow> u64 \<Rightarrow> features \<Rightarrow> VirtioDevice \<times> host_client \<Rightarrow> (VirtioDevice \<times> host_client) io" where
  "net_InitHostClient h table_size f = (\<lambda>(d, c).
     bind_io (Vhost_Initialize h table_size VHOST_NET_PATH (HostClient d, c)) (\<lambda>(_, v, c).
     bind_io (getFeatures h c) (\<lambda>(host, c).
       return_io (net_GetBackendHostFeatures f host (d\<lparr>HostClient := v\<rparr>), c))))"

definition shared_VnetStart ::
    "os \<Rightarrow> venv \<Rightarrow> features \<Rightarrow> TapInterface \<Rightarrow> host_client \<Rightarrow> shared_queue list \<Rightarrow> int \<Rightarrow> VirtioDevice \<times> GPAMap \<Rightarrow>
     ((VirtioDevice \<times> GPAMap) result \<times> host_client) io" where
  "shared_VnetStart h e f tap c ws Backendfd = (\<lambda>(d, gm).
     bind_io (set_offload h f (AckGuestFeatures d) tap) (\<lambda>_.
     bind_io (setFeatures h (net_GetBackendGuestFeatures f d) c) (\<lambda>c.
     bind_io (shared_StartDevice h e c ws Backendfd (d, gm)) (\<lambda>r. return_io (r, c)))))"

text \<open>
  The thread of a queue that waits for the host: it enables the polling and then goes through the rounds of its loop, which never ends;
  \<open>k\<close> is how many of them are run.
\<close>

fun polling_rounds :: "os \<Rightarrow> u64 \<Rightarrow> nat \<Rightarrow> mmio \<Rightarrow> shared_queue \<Rightarrow> nat \<Rightarrow> VirtioDevice \<times> CIU \<Rightarrow> (VirtioDevice \<times> CIU) result io" where
  "polling_rounds h EPOLLIN line m w 0 s = return_io (Inr s)"
| "polling_rounds h EPOLLIN line m w (Suc k) s =
     bind_io (PollGuest h EPOLLIN w) (\<lambda>ret.
       case StartReqPolling line m ret s of
         Inl err \<Rightarrow> return_io (Inl err)
       | Inr s \<Rightarrow> polling_rounds h EPOLLIN line m w k s)"

definition polling_agent :: "os \<Rightarrow> u64 \<Rightarrow> nat \<Rightarrow> mmio \<Rightarrow> shared_queue \<Rightarrow> nat \<Rightarrow> VirtioDevice \<times> CIU \<Rightarrow> (VirtioDevice \<times> CIU) result io" where
  "polling_agent h EPOLLIN line m w k s =
     bind_io (EnableGuestPolling h w) (\<lambda>w. polling_rounds h EPOLLIN line m w k s)"

section \<open>Construction\<close>

text \<open>Both constructors, with the descriptor of the backend; a network card's interface has a destructor of its own.\<close>

definition shared_new_VirtioBlk ::
    "os \<Rightarrow> u64 \<Rightarrow> mmio \<Rightarrow> features \<Rightarrow> VirtioDevice \<times> virtio_blk_config \<times> host_client \<Rightarrow>
     (VirtioDevice \<times> virtio_blk_config \<times> host_client \<times> int) result io" where
  "shared_new_VirtioBlk h table_size m f = (\<lambda>(d, config, c).
     case Initialize m BLOCK_DEVICE_ID (d\<lparr>NumQueues := 1\<rparr>) of
       Inl err \<Rightarrow> return_io (Inl err)
     | Inr d \<Rightarrow>
         bind_io (OpenDisk h) (\<lambda>fd.
         bind_io (blk_InitHostClient h table_size f (d, c)) (\<lambda>(d, c). return_io (Inr (d, InitConfig config, c, fd)))))"

definition shared_new_VirtioNet ::
    "os \<Rightarrow> tun_abi \<Rightarrow> u64 \<Rightarrow> mmio \<Rightarrow> features \<Rightarrow> TapInterface \<Rightarrow> VirtioDevice \<times> host_client \<Rightarrow>
     (VirtioDevice \<times> host_client \<times> TapInterface \<times> int) result io" where
  "shared_new_VirtioNet h a table_size m f old = (\<lambda>(d, c).
     case Initialize m NETWORK_CARD_ID (d\<lparr>NumQueues := 2\<rparr>) of
       Inl err \<Rightarrow> return_io (Inl err)
     | Inr d \<Rightarrow>
         bind_io (new_TapInterface h a old) (\<lambda>tap.
         bind_io (net_InitHostClient h table_size f (d, c)) (\<lambda>(d, c). return_io (Inr (d, c, tap, getTapfd tap)))))"

definition delete_VirtioNet :: "os \<Rightarrow> TapInterface \<Rightarrow> unit io" where
  "delete_VirtioNet h tap = delete_TapInterface h tap"

end
