(* ===== verification/HostCorrect.thy ===== *)
theory HostCorrect
  imports HostCalls
begin

text \<open>
  What the calls of \<^verbatim>\<open>HostCalls\<close> achieve: the view the vhost driver has of a device after its start, the descriptors that are
  open after an operation, what a notification adds to an event counter, and the interrupts of the thread that waits for the host.
\<close>

section \<open>The driver's view of a queue\<close>

text \<open>
  What the driver has been told of queue \<open>i\<close>, read off the history: the control calls on its descriptor that it has accepted.
\<close>

record ring_view =
  rv_num :: "u32 option"
  rv_base :: "u32 option"
  rv_addr :: "(u64 \<times> u64 \<times> u64) option"
  rv_kick :: "int option"
  rv_call :: "int option"
  rv_backend :: "int option"

fun ring_request :: "u32 \<Rightarrow> request \<Rightarrow> ring_view \<Rightarrow> ring_view" where
  "ring_request i (VHOST_SET_VRING_NUM j n) v = (if j = i then v\<lparr>rv_num := Some n\<rparr> else v)"
| "ring_request i (VHOST_SET_VRING_BASE j n) v = (if j = i then v\<lparr>rv_base := Some n\<rparr> else v)"
| "ring_request i (VHOST_SET_VRING_ADDR j x y z) v = (if j = i then v\<lparr>rv_addr := Some (x, y, z)\<rparr> else v)"
| "ring_request i (VHOST_SET_VRING_KICK j fd) v = (if j = i then v\<lparr>rv_kick := Some fd\<rparr> else v)"
| "ring_request i (VHOST_SET_VRING_CALL j fd) v = (if j = i then v\<lparr>rv_call := Some fd\<rparr> else v)"
| "ring_request i (VHOST_NET_SET_BACKEND j fd) v = (if j = i then v\<lparr>rv_backend := Some fd\<rparr> else v)"
| "ring_request i _ v = v"

fun table_request :: "request \<Rightarrow> (u32 \<times> vhost_memory_region list) option \<Rightarrow> (u32 \<times> vhost_memory_region list) option" where
  "table_request (VHOST_SET_MEM_TABLE n rs) v = Some (n, rs)"
| "table_request _ v = v"

definition accepted :: "int \<Rightarrow> (request \<Rightarrow> 'v \<Rightarrow> 'v) \<Rightarrow> call \<times> reply \<Rightarrow> 'v \<Rightarrow> 'v" where
  "accepted fd f = (\<lambda>(c, r) v. case c of Ioctl fd' q \<Rightarrow> if fd' = fd \<and> r_ret r = 0 then f q v else v | _ \<Rightarrow> v)"

definition driver_view :: "int \<Rightarrow> u32 \<Rightarrow> history \<Rightarrow> ring_view" where
  "driver_view fd i t = fold (accepted fd (ring_request i)) t
     \<lparr>rv_num = None, rv_base = None, rv_addr = None, rv_kick = None, rv_call = None, rv_backend = None\<rparr>"

definition driver_table :: "int \<Rightarrow> history \<Rightarrow> (u32 \<times> vhost_memory_region list) option" where
  "driver_table fd t = fold (accepted fd table_request) t None"

text \<open>The requests for a queue in the order of \<^verbatim>\<open>InitVring\<close>, and a history continued by requests on one descriptor.\<close>

definition ring_requests :: "nat \<Rightarrow> shared_queue \<Rightarrow> request list" where
  "ring_requests i w =
     [VHOST_SET_VRING_NUM (of_nat i) (ring_num (Vring w)), VHOST_SET_VRING_BASE (of_nat i) 0,
      VHOST_SET_VRING_ADDR (of_nat i) (ring_desc_addr (Vring w)) (ring_avail_addr (Vring w)) (ring_used_addr (Vring w)),
      VHOST_SET_VRING_KICK (of_nat i) (getHostNotifierFd w), VHOST_SET_VRING_CALL (of_nat i) (getGuestNotifierFd w)]"

fun answered :: "os \<Rightarrow> int \<Rightarrow> request list \<Rightarrow> history \<Rightarrow> history" where
  "answered h fd [] t = t"
| "answered h fd (q # qs) t = answered h fd qs (t @ [(Ioctl fd q, h t (Ioctl fd q))])"

definition accepts :: "os \<Rightarrow> int \<Rightarrow> bool" where
  "accepts h fd \<longleftrightarrow> (\<forall>t q. r_ret (h t (Ioctl fd q)) = 0)"

lemma answered_append: "answered h fd (ps @ qs) t = answered h fd qs (answered h fd ps t)"
  by (induction ps arbitrary: t) simp_all

lemma fold_answered:
  assumes "accepts h fd"
  shows "fold (accepted fd f) (answered h fd qs t) v = fold f qs (fold (accepted fd f) t v)"
  using assms by (induction qs arbitrary: t) (simp_all add: accepted_def accepts_def)

lemma answered_extends: "\<exists>u. answered h fd qs t = t @ u \<and> map fst u = map (Ioctl fd) qs"
proof (induction qs arbitrary: t)
  case (Cons q qs)
  from Cons.IH [of "t @ [(Ioctl fd q, h t (Ioctl fd q))]"] show ?case by auto
qed simp

lemma InitVring_accepted:
  assumes "accepts h (Vhostfd c)"
  shows "InitVring h c w i t = Some (Some None, answered h (Vhostfd c) (ring_requests i w) t)"
  using assms by (simp add: InitVring_def getVring_def setVringAddr_def ring_requests_def accepts_def Let_def)

lemma InitVirtQueues_accepted:
  assumes "accepts h (Vhostfd c)"
  shows "InitVirtQueues h c qs t = Some (Some (), answered h (Vhostfd c) (concat (map (\<lambda>(i, w). ring_requests i w) qs)) t)"
  by (induction qs arbitrary: t) (auto simp: bind_io_def InitVring_accepted [OF assms] answered_append)

lemma setBackend_accepted:
  assumes "accepts h (Vhostfd c)"
  shows "setBackend h c fd is t = Some (Some 0, answered h (Vhostfd c) (map (\<lambda>i. VHOST_NET_SET_BACKEND (of_nat i) fd) is) t)"
  using assms by (induction "is" arbitrary: t) (simp_all add: accepts_def)

lemma queue_index: "i < 2 ^ 32 \<Longrightarrow> j < 2 ^ 32 \<Longrightarrow> (of_nat i :: u32) = of_nat j \<longleftrightarrow> i = j"
  by (simp add: word_of_nat_eq_iff take_bit_nat_eq_self)

lemma view_of_rings:
  assumes "distinct (map fst qs)" "\<forall>j \<in> fst ` set qs. j < 2 ^ 32" "i < 2 ^ 32"
  shows "fold (ring_request (of_nat i)) (concat (map (\<lambda>(i, w). ring_requests i w) qs)) v =
    (case map_of qs i of
       None \<Rightarrow> v
     | Some w \<Rightarrow> v\<lparr>rv_num := Some (ring_num (Vring w)), rv_base := Some 0,
         rv_addr := Some (ring_desc_addr (Vring w), ring_avail_addr (Vring w), ring_used_addr (Vring w)),
         rv_kick := Some (getHostNotifierFd w), rv_call := Some (getGuestNotifierFd w)\<rparr>)"
  using assms
proof (induction qs arbitrary: v)
  case (Cons p qs)
  obtain j w where p: "p = (j, w)" by (cases p)
  have j: "(of_nat j :: u32) = of_nat i \<longleftrightarrow> j = i" using Cons.prems p by (intro queue_index) auto
  have "map_of qs j = None" using Cons.prems(1) p by (simp add: map_of_eq_None_iff)
  then show ?case using Cons.IH Cons.prems p j by (auto simp: ring_requests_def split: option.splits)
qed simp

lemma view_of_backends:
  assumes "\<forall>j \<in> set is. j < 2 ^ 32" "i < 2 ^ 32"
  shows "fold (ring_request (of_nat i)) (map (\<lambda>j. VHOST_NET_SET_BACKEND (of_nat j) fd) is) v =
    (if i \<in> set is then v\<lparr>rv_backend := Some fd\<rparr> else v)"
  using assms
proof (induction "is" arbitrary: v)
  case (Cons j js)
  have "(of_nat j :: u32) = of_nat i \<longleftrightarrow> j = i" using Cons.prems by (intro queue_index) auto
  then show ?case using Cons by auto
qed simp

lemma table_of_rings: "fold table_request (concat (map (\<lambda>(i, w). ring_requests i w) qs)) v = v"
  by (induction qs arbitrary: v) (auto simp: ring_requests_def)

lemma table_of_backends: "fold table_request (map (\<lambda>j. VHOST_NET_SET_BACKEND (of_nat j) fd) is) v = v"
  by (induction "is" arbitrary: v) simp_all

lemma map_of_numbered: "map_of (zip [0..<n] ws) i = (if i < n \<and> i < length ws then Some (ws ! i) else None)"
proof (cases "i < n \<and> i < length ws")
  case True
  then have "(i, ws ! i) \<in> set (zip [0..<n] ws)" by (auto simp: in_set_zip intro!: exI [of _ i])
  then show ?thesis using True by (simp add: map_of_is_SomeI map_fst_zip_take)
next
  case False
  then have "i \<notin> fst ` set (zip [0..<n] ws)" by (auto simp: in_set_zip)
  then have "map_of (zip [0..<n] ws) i = None" by (simp only: map_of_eq_None_iff not_False_eq_True)
  then show ?thesis using False by simp
qed

section \<open>The queues are handed over\<close>

definition before_walk :: "VirtioDevice \<Rightarrow> VirtioDevice" where
  "before_walk d = d\<lparr>HostClient := (HostClient d)\<lparr>numQueues := NumQueues d, published := None\<rparr>\<rparr>"

definition full_view :: "shared_queue \<Rightarrow> int option \<Rightarrow> ring_view" where
  "full_view w b = \<lparr>rv_num = Some (ring_num (Vring w)), rv_base = Some 0,
     rv_addr = Some (ring_desc_addr (Vring w), ring_avail_addr (Vring w), ring_used_addr (Vring w)),
     rv_kick = Some (getHostNotifierFd w), rv_call = Some (getGuestNotifierFd w), rv_backend = b\<rparr>"

lemma StartDevice_accepted:
  assumes "accepts h (Vhostfd c)" "update_table e (before_walk d, gm) = Inr (d1, gm1)" "published (HostClient d1) = Some (n, rs)"
  shows "shared_StartDevice h e c ws b (d, gm) t = Some (Some (Inr (d1\<lparr>DeviceStarted := True\<rparr>, gm1)),
    answered h (Vhostfd c) (map (\<lambda>i. VHOST_NET_SET_BACKEND (of_nat i) b) [0..<NumQueues d1])
      (answered h (Vhostfd c)
        (concat (map (\<lambda>(i, w). ring_requests i w) (zip [0..<NumQueues d] ws)) @ [VHOST_SET_MEM_TABLE n rs]) t))"
  using assms(2,3)
  by (simp add: shared_StartDevice_def setQueues_def hand_over_table_def before_walk_def bind_io_run [of "InitVirtQueues h c qs" for qs, OF InitVirtQueues_accepted [OF assms(1)]]
      bind_io_run [of "setBackend h c b qs" for qs, OF setBackend_accepted [OF assms(1)]] answered_append)

text \<open>
  Property C17. The host is given a device in the right order. When the host accepts the requests and the walk over the rings
  has a table to hand over, the start of a device ends with the device started; before the first backend is set the driver knows
  of every queue its size, the addresses of its three parts and both notifiers, and holds the table of the walk; after that
  only backends are set, one for every queue.
\<close>

theorem queues_handed_over:
  assumes "accepts h (Vhostfd c)" "NumQueues d \<le> length ws" "length ws \<le> 3"
    and "update_table e (before_walk d, gm) = Inr (d1, gm1)" "published (HostClient d1) = Some (n, rs)" "NumQueues d1 = NumQueues d"
  shows "\<exists>u w. shared_StartDevice h e c ws b (d, gm) t = Some (Some (Inr (d1\<lparr>DeviceStarted := True\<rparr>, gm1)), t @ u @ w)
    \<and> driver_table (Vhostfd c) (t @ u) = Some (n, rs)
    \<and> (\<forall>i < NumQueues d. driver_view (Vhostfd c) (of_nat i) (t @ u) =
          full_view (ws ! i) (rv_backend (driver_view (Vhostfd c) (of_nat i) t)))
    \<and> map fst w = map (\<lambda>i. Ioctl (Vhostfd c) (VHOST_NET_SET_BACKEND (of_nat i) b)) [0..<NumQueues d]
    \<and> (\<forall>i < NumQueues d. driver_view (Vhostfd c) (of_nat i) (t @ u @ w) = full_view (ws ! i) (Some b))"
proof -
  let ?fd = "Vhostfd c" and ?bs = "map (\<lambda>i. VHOST_NET_SET_BACKEND (of_nat i) b) [0..<NumQueues d]"
  let ?rs = "concat (map (\<lambda>(i, w). ring_requests i w) (zip [0..<NumQueues d] ws)) @ [VHOST_SET_MEM_TABLE n rs]"
  obtain u where u: "answered h ?fd ?rs t = t @ u" using answered_extends [of h ?fd ?rs t] by blast
  obtain w where w: "answered h ?fd ?bs (t @ u) = (t @ u) @ w" "map fst w = map (Ioctl ?fd) ?bs"
    using answered_extends [of h ?fd ?bs "t @ u"] by blast
  have v: "driver_view ?fd (of_nat i) (t @ u) = full_view (ws ! i) (rv_backend (driver_view ?fd (of_nat i) t))" if "i < NumQueues d" for i
  proof -
    have "distinct (map fst (zip [0..<NumQueues d] ws))" using assms(2) by (simp add: map_fst_zip_take)
    moreover have "\<forall>j \<in> fst ` set (zip [0..<NumQueues d] ws). j < 2 ^ 32" "i < 2 ^ 32"
      using assms(2,3) that by (auto simp: in_set_zip)
    note view = view_of_rings [OF calculation this]
    show ?thesis
      using that assms(2) fold_answered [OF assms(1), of "ring_request (of_nat i)" ?rs t]
      unfolding u driver_view_def fold_append comp_def view by (simp add: map_of_numbered full_view_def)
  qed
  have f: "driver_view ?fd (of_nat i) ((t @ u) @ w) = full_view (ws ! i) (Some b)" if "i < NumQueues d" for i
  proof -
    have "\<forall>j \<in> set [0..<NumQueues d]. j < 2 ^ 32" "i < 2 ^ 32" using assms(2,3) that by auto
    then show ?thesis
      using that v [OF that] fold_answered [OF assms(1), of "ring_request (of_nat i)" ?bs "t @ u"] unfolding w
      by (simp add: driver_view_def view_of_backends full_view_def del: fold_append append_assoc)
  qed
  have "driver_table ?fd (t @ u) = Some (n, rs)"
    using fold_answered [OF assms(1), of table_request ?rs t] unfolding u by (simp add: driver_table_def table_of_rings)
  moreover have "shared_StartDevice h e c ws b (d, gm) t = Some (Some (Inr (d1\<lparr>DeviceStarted := True\<rparr>, gm1)), (t @ u) @ w)"
    using StartDevice_accepted [OF assms(1,4,5)] assms(6) u w(1) by simp
  ultimately show ?thesis using v f w(2) by (intro exI [of _ u] exI [of _ w]) (simp add: comp_def)
qed

text \<open>A host that answers every call with zero, and a disk with one new request in its queue.\<close>

definition sample_os :: os where
  "sample_os = (\<lambda>_ _. \<lparr>r_ret = 0, r_word = 0, r_fd = 0, r_name = ''''\<rparr>)"

definition sample_shared :: shared_queue where
  "sample_shared = \<lparr>Vring = \<lparr>ring_num = 8, ring_desc_addr = 0x1000, ring_avail_addr = 0x1080, ring_used_addr = 0x2000\<rparr>,
     HostNotifier = \<lparr>Eventfd_of = 5, pollfd = -1\<rparr>, GuestNotifier = \<lparr>Eventfd_of = 6, pollfd = -1\<rparr>\<rparr>"

definition sample_disk :: VirtioDevice where
  "sample_disk = sample_device\<lparr>HostClient := new_Vhost False [sample_queue] 1\<rparr>"

lemma sample_walk:
  "\<exists>v n rs. update_table sample_venv (before_walk sample_disk, sample_map) = Inr (sample_disk\<lparr>HostClient := v\<rparr>, sample_map) \<and> published v = Some (n, rs)"
proof -
  have b: "before_walk sample_disk = sample_disk" by (simp add: before_walk_def sample_disk_def sample_device_def new_Vhost_def)
  show ?thesis unfolding b
    using sample_blk_walk [of "\<lambda>_. ring_desc sample_ring"]
    by (auto simp: update_table_def sample_venv_def sample_disk_def sample_device_def updateMemoryTable_def on_queue_def new_Vhost_def
        Let_def setMemoryTable_def)
qed

theorem queues_handed_over_witness:
  "\<exists>d' t'. shared_StartDevice sample_os sample_venv \<lparr>Vhostfd = 4, hostFeatures = 0, guestFeatures = 0\<rparr> [sample_shared] 3 (sample_disk, sample_map) [] =
       Some (Some (Inr (d', sample_map)), t') \<and> DeviceStarted d' \<and> rv_kick (driver_view 4 0 t') = Some 5 \<and> rv_backend (driver_view 4 0 t') = Some 3"
proof -
  let ?c = "\<lparr>Vhostfd = 4, hostFeatures = 0, guestFeatures = 0\<rparr>"
  obtain v n rs where v: "update_table sample_venv (before_walk sample_disk, sample_map) = Inr (sample_disk\<lparr>HostClient := v\<rparr>, sample_map)"
      "published v = Some (n, rs)" using sample_walk by blast
  have a: "accepts sample_os (Vhostfd ?c)" by (simp add: accepts_def sample_os_def)
  have n: "NumQueues sample_disk = 1" by (simp add: sample_disk_def sample_device_def)
  show ?thesis
    using queues_handed_over [OF a, of sample_disk "[sample_shared]", OF _ _ v(1), of n rs 3 "[]"] v(2) n
    by (fastforce simp: full_view_def sample_shared_def getHostNotifierFd_def getfd_def)
qed

text \<open>A host that refuses every request: the device counts as started, and the driver knows nothing.\<close>

lemma refused_queues_ignored:
  assumes "\<forall>t q. r_ret (h t (Ioctl (Vhostfd c) q)) = -1"
    and "update_table e (before_walk d, gm) = Inr (d1, gm1)" "published (HostClient d1) = Some (n, rs)"
  shows "\<exists>u. shared_StartDevice h e c ws b (d, gm) t = Some (Some (Inr (d1\<lparr>DeviceStarted := True\<rparr>, gm1)), t @ u)
    \<and> (\<forall>i. driver_view (Vhostfd c) i (t @ u) = driver_view (Vhostfd c) i t)"
proof -
  have "\<exists>u. InitVring h c w i t = Some (Some (Some (-1)), t @ [u]) \<and> r_ret (snd u) = -1" for w i t
    using assms(1) by (simp add: InitVring_def getVring_def Let_def)
  then have 1: "\<exists>u. InitVirtQueues h c qs t = Some (Some (), t @ u) \<and> (\<forall>x \<in> set u. r_ret (snd x) = -1)" for qs t
  proof (induction qs arbitrary: t)
    case (Cons q qs)
    obtain i w where q: "q = (i, w)" by (cases q)
    obtain u where u: "InitVring h c w i t = Some (Some (Some (-1)), t @ [u])" "r_ret (snd u) = -1" using Cons.prems by blast
    obtain u' where "InitVirtQueues h c qs (t @ [u]) = Some (Some (), (t @ [u]) @ u')" "\<forall>x \<in> set u'. r_ret (snd x) = -1"
      using Cons.IH [OF Cons.prems] by blast
    then show ?case using u q by (intro exI [of _ "u # u'"]) (auto simp: bind_io_def)
  qed simp
  obtain u where u: "InitVirtQueues h c (zip [0..<NumQueues d] ws) t = Some (Some (), t @ u)" "\<forall>x \<in> set u. r_ret (snd x) = -1"
    using 1 by blast
  have 2: "\<exists>r w. setBackend h c b is t = Some (Some r, t @ w) \<and> (\<forall>x \<in> set w. r_ret (snd x) = -1)" for "is" t
    using assms(1) by (cases "is") simp_all
  let ?m = "(Ioctl (Vhostfd c) (VHOST_SET_MEM_TABLE n rs), h (t @ u) (Ioctl (Vhostfd c) (VHOST_SET_MEM_TABLE n rs)))"
  obtain r w where w: "setBackend h c b [0..<NumQueues d1] ((t @ u) @ [?m]) = Some (Some r, ((t @ u) @ [?m]) @ w)" "\<forall>x \<in> set w. r_ret (snd x) = -1"
    using 2 by blast
  have "shared_StartDevice h e c ws b (d, gm) t = Some (Some (Inr (d1\<lparr>DeviceStarted := True\<rparr>, gm1)), t @ (u @ [?m] @ w))"
    using assms(2,3) u(1) w(1)
    by (simp add: shared_StartDevice_def setQueues_def hand_over_table_def before_walk_def bind_io_run [of "InitVirtQueues h c qs" for qs, OF u(1)] bind_io_run [of "setBackend h c b [0..<NumQueues d1]"])
  moreover have "fold (accepted fd f) u v = v" if "\<forall>x \<in> set u. r_ret (snd x) = -1" for fd f u and v :: ring_view
    using that by (induction u) (auto simp: accepted_def split: call.splits)
  ultimately show ?thesis using u(2) w(2) assms(1) by (intro exI [of _ "u @ [?m] @ w"]) (auto simp: driver_view_def accepted_def)
qed

text \<open>The calls do not change what the device becomes: the constructors and the start agree with the ones of \<^verbatim>\<open>Virtio\<close>.\<close>

lemma strstr_blk [simp]: "\<not> strstr VHOST_BLK_PATH ''net''" "strstr VHOST_NET_PATH ''net''"
  by simp_all

lemma Vhost_Initialize_cases:
  assumes "Vhost_Initialize h sz path (v, c) t = Some (Some (r, v', c'), t')"
  shows "r = -1 \<and> v' = v \<and> c' = c \<or> r = 0 \<and> v' = new_Vhost (strstr path ''net'') (queues v) (numQueues v)"
  using assms by (auto simp: Vhost_Initialize_def Let_def split: if_splits)

lemma bind_io_Some_iff:
  "bind_io m f t = Some (Some y, t') \<longleftrightarrow> (\<exists>x u. m t = Some (Some x, u) \<and> f x u = Some (Some y, t'))"
  by (auto simp: bind_io_def split: option.splits)

lemma shared_disk_state:
  assumes "shared_new_VirtioBlk h sz m f (d, config, c) t = Some (Some (Inr (d', config', c', fd)), t')"
  shows "new_VirtioBlk m f (d, config) = Inr (d', config')"
proof -
  obtain d0 u w where 1: "Initialize m BLOCK_DEVICE_ID (d\<lparr>NumQueues := 1\<rparr>) = Inr d0"
      "blk_InitHostClient h sz f (d0, c) u = Some (Some (d', c'), w)" "config' = InitConfig config"
    using assms by (auto simp: shared_new_VirtioBlk_def bind_io_Some_iff split: sum.splits)
  have "\<exists>v. d' = blk_GetBackendHostFeatures f (d0\<lparr>HostClient := v\<rparr>) \<and> v = new_Vhost False (queues (HostClient d0)) (numQueues (HostClient d0))"
    using 1(2)
    by (auto simp: blk_InitHostClient_def bind_io_Some_iff Let_def sys_def simp del: bind_io_simps strstr.simps split: if_splits
        dest!: Vhost_Initialize_cases)
  then show ?thesis using 1 by (auto simp: new_VirtioBlk_def Let_def)
qed

lemma shared_start_state:
  assumes "published (HostClient d) = None" "accepts h (Vhostfd c)"
  shows "\<exists>t'. shared_StartDevice h e c ws b (d, gm) t = Some (Some (StartDevice e (d, gm)), t')"
proof -
  have b: "before_walk d = d\<lparr>HostClient := (HostClient d)\<lparr>numQueues := NumQueues d\<rparr>\<rparr>"
    using assms(1) by (simp add: before_walk_def)
  have p: "d1\<lparr>HostClient := (HostClient d1)\<lparr>published := published (HostClient d)\<rparr>\<rparr> = d1" if "published (HostClient d1) = None" for d1 :: VirtioDevice
    using that assms(1) by simp
  show ?thesis
    using b p by (auto simp: shared_StartDevice_def setQueues_def hand_over_table_def StartDevice_def before_walk_def bind_io_def sys_def
        InitVirtQueues_accepted [OF assms(2)] setBackend_accepted [OF assms(2)] split: sum.splits option.splits prod.splits)
qed

section \<open>Descriptors\<close>

text \<open>The descriptors a history leaves open; a host gives out descriptors that are not open.\<close>

fun opens :: "call \<Rightarrow> bool" where
  "opens (Open _) = True"
| "opens Eventfd = True"
| "opens Epoll_create = True"
| "opens _ = False"

definition fd_step :: "call \<times> reply \<Rightarrow> int set \<Rightarrow> int set" where
  "fd_step = (\<lambda>(c, r) S.
     if opens c then (if r_ret r \<ge> 0 then insert (r_ret r) S else S) else (case c of Close fd \<Rightarrow> S - {fd} | _ \<Rightarrow> S))"

definition open_fds :: "history \<Rightarrow> int set" where
  "open_fds t = fold fd_step t {}"

definition fresh_fds :: "os \<Rightarrow> bool" where
  "fresh_fds h \<longleftrightarrow> (\<forall>t c. opens c \<longrightarrow> r_ret (h t c) \<notin> open_fds t)"

lemma open_fds_simps [simp]: "open_fds [] = {}" "open_fds (t @ u) = fold fd_step u (open_fds t)"
  by (simp_all add: open_fds_def)

text \<open>Opening the interface leaves its descriptor open, or nothing.\<close>

lemma TapOpen_descriptors:
  assumes "fresh_fds h"
  shows "\<exists>r tap' t'. TapOpen h a tap t = Some (Some (r, tap'), t')
    \<and> (if r = 0 then tap_fd tap' \<notin> open_fds t \<and> open_fds t' = insert (tap_fd tap') (open_fds t)
       else r = -1 \<and> tap_fd tap' = tap_fd tap \<and> open_fds t' = open_fds t)"
  using assms by (auto simp: TapOpen_def Let_def fd_step_def fresh_fds_def)

text \<open>A driver whose owner cannot be set stays open.\<close>

lemma refused_owner_leaks:
  assumes "fd = r_ret (h t (Open path))" "0 \<le> fd" "\<forall>t. r_ret (h t (Ioctl fd VHOST_SET_OWNER)) < 0"
  shows "\<exists>t'. Vhost_Initialize h sz path (v, c) t = Some (Some (-1, v, c), t') \<and> open_fds t' = insert fd (open_fds t)"
  using assms by (simp add: Vhost_Initialize_def Let_def fd_step_def)

text \<open>
  A notifier of a queue, from its construction over the polling to its destruction, leaves what was open before, except when its event
  cannot be added to the polling: then the descriptor of the polling stays open.
\<close>

lemma notifier_descriptors:
  assumes "fresh_fds h" "r_ret (h t Eventfd) \<ge> 0"
    and "t1 = t @ [(Eventfd, h t Eventfd)]" "p = h t1 Epoll_create"
    and "a = h (t1 @ [(Epoll_create, p)]) (Epoll_add (r_ret p) (r_ret (h t Eventfd)))"
  shows "\<exists>r t'. bind_io (new_EventNotifier h) (\<lambda>n. bind_io (enablePolling h n) (\<lambda>(r, n).
      bind_io (delete_EventNotifier h n) (\<lambda>_. return_io r))) t = Some (Some r, t')
    \<and> open_fds t' = open_fds t \<union> (if r_ret p \<ge> 0 \<and> r_ret a = -1 then {r_ret p} else {})"
proof -
  have "r_ret p \<notin> open_fds t1" "r_ret (h t Eventfd) \<notin> open_fds t" using assms(1,4) by (auto simp: fresh_fds_def)
  then show ?thesis
    using assms(2-5) by (auto simp: new_EventNotifier_def enablePolling_def delete_EventNotifier_def Let_def fd_step_def insert_Diff_if)
qed

section \<open>The interface that cannot be opened\<close>

lemma wait_for_ends: "r_ret (h t (Waitpid pid)) = pid \<Longrightarrow> wait_for h pid t = Some (Some (), t @ [(Waitpid pid, h t (Waitpid pid))])"
  by (subst wait_for.simps) (simp add: Let_def)

text \<open>A parent whose wait is interrupted for ever does not return.\<close>

lemma wait_for_returns:
  assumes "wait_for h pid t = Some y"
  shows "\<exists>u. r_ret (h u (Waitpid pid)) = pid"
proof -
  have "(\<lambda>h pid t y. \<exists>u. r_ret (h u (Waitpid pid)) = pid) h pid t y"
    by (rule wait_for.raw_induct [OF _ assms]) (auto simp: Let_def split: if_splits)
  then show ?thesis .
qed

text \<open>
  Without the driver of the interface the constructor goes on: it starts the script with whatever name the memory holds, and sets the
  buffer of a descriptor nobody has opened, which the device then takes for its backend.
\<close>

lemma missing_interface_ignored:
  assumes "r_ret (h t (Open TUN_PATH)) < 0" "\<forall>t. r_ret (h t Fork) = pid" "pid \<noteq> 0" "\<forall>t. r_ret (h t (Waitpid pid)) = pid"
  shows "\<exists>u. new_TapInterface h a old t = Some (Some old, t @ u) \<and> getTapfd old = tap_fd old
    \<and> map fst u = [Open TUN_PATH, Fork, Waitpid pid, Ioctl (tap_fd old) (TUNSETSNDBUF INT_MAX)]"
  using assms
  by (simp add: new_TapInterface_def Tap_Initialize_def TapOpen_def TapLaunchScript_def TapSetSendBuff_def getTapfd_def
      bind_io_run [of "wait_for h pid", OF wait_for_ends] Let_def)

section \<open>Notifications\<close>

text \<open>
  The counter of an event descriptor as the host documents it: a write that succeeds adds its value, a read of its eight bytes takes
  everything, and the descriptor can be read when the counter is positive.
\<close>

definition count_step :: "int \<Rightarrow> call \<times> reply \<Rightarrow> nat \<Rightarrow> nat" where
  "count_step fd = (\<lambda>(c, r) n.
     case c of
       Eventfd_write fd' v \<Rightarrow> if fd' = fd \<and> r_ret r = 0 then n + unat (word_of_int v :: u64) else n
     | Read fd' \<Rightarrow> if fd' = fd \<and> r_ret r = 8 then 0 else n
     | _ \<Rightarrow> n)"

definition event_count :: "int \<Rightarrow> history \<Rightarrow> nat" where
  "event_count fd t = fold (count_step fd) t 0"

lemma event_count_simps [simp]:
  "event_count fd [] = 0" "event_count fd (t @ [x]) = count_step fd x (event_count fd t)"
  "event_count fd (t @ [x, y]) = count_step fd y (count_step fd x (event_count fd t))"
  by (simp_all add: event_count_def)

lemma hand_over_table_count:
  assumes "hand_over_table h e c s t = Some (Some r, t')"
  shows "event_count fd t' = event_count fd t"
  using assms by (auto simp: hand_over_table_def count_step_def split: sum.splits option.splits prod.splits)

text \<open>
  The device writes the number of the queue. A kick of queue 1 adds one to its counter; a kick of the first queue, the only one
  of the disk, adds nothing.
\<close>

lemma kick_counts:
  assumes "shared_NotifyDevice h e c ws (swap_endianess32 idx) (d, gm) t = Some (Some (Inr s), t')" "DeviceStarted d" "length ws \<le> 3"
    and "\<forall>t v. r_ret (h t (Eventfd_write (getHostNotifierFd (ws ! unat idx)) v)) = 0"
  shows "event_count (getHostNotifierFd (ws ! unat idx)) t' = event_count (getHostNotifierFd (ws ! unat idx)) t + unat idx"
proof -
  obtain d1 gm1 t1 where 1: "hand_over_table h e c (d, gm) t = Some (Some (Inr (d1, gm1)), t1)"
    using assms(1,2) by (auto simp: shared_NotifyDevice_def bind_io_def Let_def split: option.splits sum.splits)
  have "unat idx < length ws"
    using assms(1,2) by (auto simp: shared_NotifyDevice_def Let_def bind_io_run [of "hand_over_table h e c (d, gm)", OF 1] split: if_splits)
  then have "unat idx < 3" using assms(3) by simp
  then have "uint idx < 3" unfolding unat_eq_nat_uint by linarith
  then have "signed_take_bit 31 (uint idx) = uint idx"
    by (intro signed_take_bit_int_eq_self) (rule order_trans [OF _ uint_ge_0], simp_all)
  then have "sint idx = uint idx" by (simp add: sint_uint)
  moreover have "take_bit 64 (uint idx) = uint idx" using \<open>uint idx < 3\<close> by (intro take_bit_int_eq_self) simp_all
  ultimately have "uint (word_of_int (sint idx) :: u64) = uint idx" unfolding uint_word_of_int_eq by simp
  then have "unat (word_of_int (sint idx) :: u64) = unat idx" unfolding unat_eq_nat_uint by simp
  then show ?thesis
    using assms(1,2,4) hand_over_table_count [OF 1]
    by (auto simp: shared_NotifyDevice_def Let_def bind_io_run [of "hand_over_table h e c (d, gm)", OF 1] NotifyHost_def write_event_def count_step_def getHostNotifierFd_def getfd_def split: if_splits)
qed

lemma first_queue_kick_adds_nothing:
  assumes "shared_NotifyDevice h e c ws 0 (d, gm) t = Some (Some (Inr s), t')" "DeviceStarted d"
  shows "event_count fd t' = event_count fd t"
proof -
  have z: "swap_endianess32 0 = 0" by simp
  obtain d1 gm1 t1 where 1: "hand_over_table h e c (d, gm) t = Some (Some (Inr (d1, gm1)), t1)"
    using assms by (auto simp: shared_NotifyDevice_def bind_io_def Let_def split: option.splits sum.splits)
  then show ?thesis
    using assms hand_over_table_count [OF 1]
    by (auto simp: shared_NotifyDevice_def bind_io_run [of "hand_over_table h e c (d, gm)", OF 1] Let_def NotifyHost_def write_event_def count_step_def z
        split: if_splits)
qed

section \<open>The interrupts of the host\<close>

text \<open>One round that found something: the line is up, and every core that enables it has its interrupt pending.\<close>

definition line_up :: "nat \<Rightarrow> CIU \<Rightarrow> CIU \<Rightarrow> bool" where
  "line_up line s s' \<longleftrightarrow> irq_consistent s' \<and> length (cores s') = length (cores s)
     \<and> (\<forall>c < 24. word_at s' (INT_EN0 c) = word_at s (INT_EN0 c))
     \<and> (\<forall>c < length (cores s). bit (word_at s (INT_EN0 (c * 2))) line \<longrightarrow> bit (cp0_read (cores s' ! c) H2_CP0_CAUSE SEL_ZERO) 10)"

lemma polling_raises:
  assumes "irq_consistent s" "line < 64" "INT_VRING m \<noteq> 0" "ret > 0"
  shows "\<exists>d' s'. StartReqPolling line m ret (d, s) = Inr (d', s') \<and> line_up line s s'"
proof -
  have l: "length (cores s) \<le> 12" using assms(1) by (simp add: irq_consistent_def)
  obtain s' where s': "generateInterrupt line s = Inr s'" "irq_consistent s'" "length (cores s') = length (cores s)"
      "\<forall>c < 24. word_at s' (INT_EN0 c) = word_at s (INT_EN0 c)"
      "\<forall>c < length (cores s). \<forall>j \<in> summary_words c. bit (word_at s' j) line"
    using line_driven [OF assms(1,2), of True] by auto
  have "bit (cp0_read (cores s' ! c) H2_CP0_CAUSE SEL_ZERO) 10" if "c < length (cores s)" "bit (word_at s (INT_EN0 (c * 2))) line" for c
    using line_pending [OF s'(2), of c line] s'(3,4,5) that l by (simp add: summary_words_def)
  then have "line_up line s s'" using s'(2-4) unfolding line_up_def by blast
  moreover have "StartReqPolling line m ret (d, s) = Inr (put_word (INTERRUPT_STATUS m) (swap_endianess32 (INT_VRING m)) d, s')"
    using s'(1) assms(3,4) by (simp add: StartReqPolling_def GenerateInterrupt_def UpdateInterrupt_def put_word_def word_gt_0)
  ultimately show ?thesis by blast
qed

lemma line_up_trans:
  assumes "line_up line s s'" "line_up line s' s''"
  shows "line_up line s s''"
proof -
  have "length (cores s') \<le> 12" using assms(1) by (simp add: line_up_def irq_consistent_def)
  then show ?thesis using assms by (simp add: line_up_def)
qed

text \<open>
  What the history of a polling thread says: some wait was answered with an event, and where the event is the one that
  was asked for, the read of its counter that follows succeeded.
\<close>

fun notified :: "u64 \<Rightarrow> int \<Rightarrow> history \<Rightarrow> bool" where
  "notified EPOLLIN ev [] = False"
| "notified EPOLLIN ev ((c, e) # u) =
     ((case c of
         Epoll_wait fd \<Rightarrow>
           r_ret e > 0 \<and>
           (r_word e AND EPOLLIN \<noteq> 0 \<and> r_fd e = ev \<longrightarrow> (\<exists>r. u \<noteq> [] \<and> hd u = (Read ev, r) \<and> r_ret r > 0))
       | _ \<Rightarrow> False)
      \<or> notified EPOLLIN ev u)"

text \<open>One call of \<open>poll\<close>: its part of the history, and when it returns a positive number.\<close>

lemma poll_trace:
  "\<exists>v u. poll h EPOLLIN n t = Some (Some v, t @ u)
    \<and> (\<forall>z. notified EPOLLIN (Eventfd_of n) (u @ z) = (v > 0 \<or> notified EPOLLIN (Eventfd_of n) z))
    \<and> (\<forall>f e. (Epoll_wait f, e) \<in> set u \<longrightarrow> f = pollfd n)"
proof -
  let ?e = "h t (Epoll_wait (pollfd n))"
  show ?thesis
  proof (cases "r_ret ?e > 0 \<and> r_word ?e AND EPOLLIN \<noteq> 0 \<and> r_fd ?e = Eventfd_of n")
    case True
    let ?r = "h (t @ [(Epoll_wait (pollfd n), ?e)]) (Read (Eventfd_of n))"
    show ?thesis
      using True
      by (intro exI [of _ "r_ret ?r"] exI [of _ "[(Epoll_wait (pollfd n), ?e), (Read (Eventfd_of n), ?r)]"])
        (auto simp: poll_def Let_def)
  next
    case False
    then show ?thesis
      by (intro exI [of _ "r_ret ?e"] exI [of _ "[(Epoll_wait (pollfd n), ?e)]"]) (auto simp: poll_def Let_def)
  qed
qed

lemma polling_idle: "\<not> ret > 0 \<Longrightarrow> StartReqPolling line m ret (d, s) = Inr (d, s)"
  by (simp add: StartReqPolling_def)

lemma rounds_run:
  assumes "irq_consistent s" "line < 64" "INT_VRING m \<noteq> 0"
  shows "\<exists>d' s' u. polling_rounds h EPOLLIN line m w k (d, s) t = Some (Some (Inr (d', s')), t @ u)
    \<and> (if notified EPOLLIN (Eventfd_of (GuestNotifier w)) u then line_up line s s' else d' = d \<and> s' = s)
    \<and> (\<forall>f e. (Epoll_wait f, e) \<in> set u \<longrightarrow> f = pollfd (GuestNotifier w))"
  using assms(1)
proof (induction k arbitrary: d s t)
  case 0
  show ?case by (intro exI [of _ d] exI [of _ s] exI [of _ "[]"]) simp
next
  case (Suc k)
  let ?n = "notified EPOLLIN (Eventfd_of (GuestNotifier w))"
  obtain v u1 where p: "poll h EPOLLIN (GuestNotifier w) t = Some (Some v, t @ u1)" "\<And>z. ?n (u1 @ z) = (v > 0 \<or> ?n z)"
      "\<forall>f e. (Epoll_wait f, e) \<in> set u1 \<longrightarrow> f = pollfd (GuestNotifier w)"
    using poll_trace [of h EPOLLIN "GuestNotifier w" t] by blast
  obtain d1 s1 where 1: "StartReqPolling line m v (d, s) = Inr (d1, s1)" "if v > 0 then line_up line s s1 else d1 = d \<and> s1 = s"
    using polling_raises [OF Suc.prems assms(2,3), of v d] polling_idle [of v line m d s] by (cases "v > 0") auto
  have "irq_consistent s1" using 1(2) Suc.prems by (simp add: line_up_def split: if_splits)
  from Suc.IH [OF this, of d1 "t @ u1"] obtain d' s' u2 where
    2: "polling_rounds h EPOLLIN line m w k (d1, s1) (t @ u1) = Some (Some (Inr (d', s')), (t @ u1) @ u2)"
      "if ?n u2 then line_up line s1 s' else d' = d1 \<and> s' = s1"
      "\<forall>f e. (Epoll_wait f, e) \<in> set u2 \<longrightarrow> f = pollfd (GuestNotifier w)" by blast
  have "polling_rounds h EPOLLIN line m w (Suc k) (d, s) t = Some (Some (Inr (d', s')), t @ u1 @ u2)"
    using 2(1) 1(1) by (simp add: PollGuest_def bind_io_run [of "poll h EPOLLIN (GuestNotifier w)", OF p(1)])
  moreover have "if ?n (u1 @ u2) then line_up line s s' else d' = d \<and> s' = s"
    using 1(2) 2(2) line_up_trans [of line s s1 s'] unfolding p(2) by (cases "v > 0"; cases "?n u2") auto
  ultimately show ?case using p(3) 2(3) by (intro exI [of _ d'] exI [of _ s'] exI [of _ "u1 @ u2"]) auto
qed

lemma not_notified:
  "(\<And>f e. (Epoll_wait f, e) \<in> set u \<Longrightarrow> r_ret e \<le> 0) \<Longrightarrow> \<not> notified EPOLLIN ev u"
proof (induction u)
  case (Cons x u)
  obtain c e where x: "x = (c, e)" by (cases x)
  have "\<not> 0 < r_ret e" if "c = Epoll_wait f" for f using Cons.prems [of f e] that x by simp
  moreover have "\<not> notified EPOLLIN ev u" by (rule Cons.IH) (erule Cons.prems [OF list.set_intros(2)])
  ultimately show ?case by (cases c) (simp_all add: x)
qed simp

lemma notified_prefix:
  "(\<And>c e f. (c, e) \<in> set u \<Longrightarrow> c \<noteq> Epoll_wait f) \<Longrightarrow> notified EPOLLIN ev (u @ z) = notified EPOLLIN ev z"
proof (induction u)
  case (Cons x u)
  obtain c e where x: "x = (c, e)" by (cases x)
  have "\<forall>f. c \<noteq> Epoll_wait f" using Cons.prems [of c e] by (simp add: x)
  moreover have "notified EPOLLIN ev (u @ z) = notified EPOLLIN ev z" by (rule Cons.IH) (erule Cons.prems [OF list.set_intros(2)])
  ultimately show ?case by (cases c) (simp_all add: x)
qed simp

text \<open>Every answer in a history was given by the host.\<close>

definition answered_by :: "os \<Rightarrow> history \<Rightarrow> bool" where
  "answered_by h u \<longleftrightarrow> (\<forall>(c, r) \<in> set u. \<exists>x. r = h x c)"

lemma rounds_answers:
  assumes "polling_rounds h EPOLLIN line m w k s t = Some (Some r, t')" "answered_by h t"
  shows "answered_by h t'"
  using assms
proof (induction k arbitrary: s t)
  case (Suc k)
  have "\<exists>v t1. poll h EPOLLIN (GuestNotifier w) t = Some (Some v, t1) \<and> answered_by h t1"
    using Suc.prems(2) by (auto simp: poll_def Let_def answered_by_def)
  then obtain v t1 where p: "poll h EPOLLIN (GuestNotifier w) t = Some (Some v, t1)" "answered_by h t1" by blast
  show ?case
    using Suc.prems(1) Suc.IH [OF _ p(2)] p(2)
    by (cases "StartReqPolling line m v s") (auto simp: PollGuest_def bind_io_run [of "poll h EPOLLIN (GuestNotifier w)", OF p(1)])
qed simp

text \<open>
  Property C29. A finished request interrupts the guest, if the polling could be set up. Whatever the host answers, from the
  first call of the thread of a queue on, any number of its rounds ends with the interrupt unit consistent. If some wait of these rounds was
  answered with an event, and the read of the counter that follows the event of this queue succeeded, the line is up for every core that
  enables it; if not, the device and the unit are as before. The waits are on the descriptor the host
  gave for polling when it also added the event to it. When one of the two calls failed, which nothing looks at, they are on
  descriptor -1; if those fail, as documented, no interrupt is ever raised.
\<close>

theorem completion_interrupts:
  assumes "irq_consistent s" "line < 64" "INT_VRING m \<noteq> 0" "pollfd (GuestNotifier w) = -1"
    and "fd = r_ret (h [] Epoll_create)" "ev = Eventfd_of (GuestNotifier w)"
    and "r = r_ret (h [(Epoll_create, h [] Epoll_create)] (Epoll_add fd ev))"
    and "\<forall>t. r_ret (h t (Epoll_wait (-1))) \<le> 0"
  shows "\<exists>d' s' u. polling_agent h EPOLLIN line m w k (d, s) [] = Some (Some (Inr (d', s')), u) \<and> irq_consistent s'
    \<and> (if notified EPOLLIN ev u
       then \<forall>c < length (cores s). bit (word_at s (INT_EN0 (c * 2))) line \<longrightarrow> bit (cp0_read (cores s' ! c) H2_CP0_CAUSE SEL_ZERO) 10
       else d' = d \<and> s' = s)
    \<and> (\<forall>f e. (Epoll_wait f, e) \<in> set u \<longrightarrow> f = (if 0 \<le> fd \<and> r \<noteq> -1 then fd else -1))
    \<and> (0 \<le> fd \<and> r \<noteq> -1 \<or> \<not> notified EPOLLIN ev u)"
proof -
  let ?ok = "0 \<le> fd \<and> r \<noteq> -1"
  let ?w = "if ?ok then w\<lparr>GuestNotifier := (GuestNotifier w)\<lparr>pollfd := fd\<rparr>\<rparr> else w"
  have w: "Eventfd_of (GuestNotifier ?w) = ev" "pollfd (GuestNotifier ?w) = (if ?ok then fd else -1)"
    using assms(4,6) by simp_all
  have "\<exists>u0. EnableGuestPolling h w [] = Some (Some ?w, u0) \<and> answered_by h u0 \<and> (\<forall>c e. (c, e) \<in> set u0 \<longrightarrow> (\<forall>f. c \<noteq> Epoll_wait f))"
    using assms(5-7) by (auto simp: EnableGuestPolling_def enablePolling_def Let_def answered_by_def)
  then obtain u0 where u0: "EnableGuestPolling h w [] = Some (Some ?w, u0)" "answered_by h u0"
      "\<forall>c e. (c, e) \<in> set u0 \<longrightarrow> (\<forall>f. c \<noteq> Epoll_wait f)" by blast
  obtain d' s' u where u: "polling_rounds h EPOLLIN line m ?w k (d, s) u0 = Some (Some (Inr (d', s')), u0 @ u)"
      "if notified EPOLLIN ev u then line_up line s s' else d' = d \<and> s' = s"
      "\<forall>f e. (Epoll_wait f, e) \<in> set u \<longrightarrow> f = (if ?ok then fd else -1)"
    using rounds_run [OF assms(1-3), of h EPOLLIN ?w k d u0] unfolding w by blast
  have same: "notified EPOLLIN ev (u0 @ u) = notified EPOLLIN ev u"
    using notified_prefix u0(3) by blast
  have "\<not> notified EPOLLIN ev u" if "\<not> ?ok"
  proof (rule not_notified)
    show "r_ret e \<le> 0" if "(Epoll_wait f, e) \<in> set u" for f e
    proof -
      have "f = -1" using u(3) that \<open>\<not> ?ok\<close> by auto
      moreover have "\<exists>x. e = h x (Epoll_wait f)" using rounds_answers [OF u(1) u0(2)] that by (fastforce simp: answered_by_def)
      ultimately show ?thesis using assms(8) by auto
    qed
  qed
  moreover have "polling_agent h EPOLLIN line m w k (d, s) [] = Some (Some (Inr (d', s')), u0 @ u)"
    using u(1) by (simp add: polling_agent_def bind_io_run [of "EnableGuestPolling h w", OF u0(1)])
  ultimately show ?thesis
    using u(2,3) u0(3) same assms(1)
    by (intro exI [of _ d'] exI [of _ s'] exI [of _ "u0 @ u"]) (auto simp: line_up_def split: if_splits)
qed

text \<open>A host that polls with descriptor 7 and reports the event of descriptor 6.\<close>

definition polling_os :: os where
  "polling_os = (\<lambda>_ c.
     \<lparr>r_ret = (case c of Epoll_create \<Rightarrow> 7 | Epoll_wait fd \<Rightarrow> if fd = 7 then 1 else -1 | Read _ \<Rightarrow> 8 | _ \<Rightarrow> 0), r_word = 1, r_fd = 6,
      r_name = ''''\<rparr>)"

theorem completion_interrupts_witness:
  "\<exists>d' s' u. polling_agent polling_os 1 16 sample_mmio sample_shared 3 (sample_device, reset_CIU) [] = Some (Some (Inr (d', s')), u)
     \<and> irq_consistent s' \<and> (\<forall>f e. (Epoll_wait f, e) \<in> set u \<longrightarrow> f = 7)"
proof -
  have p: "pollfd (GuestNotifier sample_shared) = -1" "INT_VRING sample_mmio \<noteq> 0" "(16 :: nat) < 64"
    by (simp_all add: sample_shared_def sample_mmio_def)
  have h: "7 = r_ret (polling_os [] Epoll_create)" "\<forall>t. r_ret (polling_os t (Epoll_wait (-1))) \<le> 0"
      "0 = r_ret (polling_os [(Epoll_create, polling_os [] Epoll_create)] (Epoll_add 7 (Eventfd_of (GuestNotifier sample_shared))))"
    by (simp_all add: polling_os_def)
  show ?thesis
    using completion_interrupts [OF reset_consistent p(3,2,1) h(1) refl h(3,2), of 1 3 sample_device] by auto
qed

end
