(* ===== verification/Spec2Isabelle.thy ===== *)
theory Spec2Isabelle
  imports MemBlock HashTable HostCorrect
begin

text \<open>
  A verification development for a type-2 hypervisor: a user program that runs on a MIPS64 host under Linux and executes guests
  for an Octeon board by binary translation. The development models the C++ sources under \<^verbatim>\<open>src/\<close>, operation by operation, as
  executable definitions, and proves what makes the parts correct, what does not hold of them, and how they work together.

  \<^bold>\<open>The program.\<close> \<^verbatim>\<open>Main.cpp\<close> reads the command line and builds a board: guest memory, the firmware, one \<^verbatim>\<open>Processor_IPE\<close>
  per core, the central interrupt unit (CIU), a UART and a Virtio disk (and a network card in builds that ask for it), each with a
  thread. A core asks for the block of instructions at its program counter; \<^verbatim>\<open>fetchNextBlock\<close> finds it in the cache of translated blocks
  or collects the guest instructions up to a control transfer, translates each into host words that work on an image of the
  guest's registers, and stores the words under the address and address space. Translated code leaves for the hypervisor with a control
  mark: for the next block, a load or store, an exception, a TLB instruction and so on. Addresses go through a cache, the static
  segments or the TLB to a guest physical address, and through a map of regions to a host address. Accesses to device
  addresses are posted in the device's mailbox; the devices raise lines at the CIU, which sets the interrupt bits in the
  cores' Cause registers.

  \<^bold>\<open>The theories\<close>, in the order they build on each other, with the sources they model:

  \<^item> \<open>Prelude\<close>: machine integers, failures as values (\<open>hv_error\<close>, \<open>result\<close>), shared lemmas.
  \<^item> \<open>CP0\<close> (\<^verbatim>\<open>CP0_IPE\<close>), \<open>Exceptions\<close> (\<^verbatim>\<open>ExceptionHandler_IPE\<close>, \<^verbatim>\<open>Context_IPE\<close>), \<open>TLB\<close> (\<^verbatim>\<open>TLB_IPE\<close>), \<open>MMU\<close> (\<^verbatim>\<open>MMU_IPE\<close>):
    the system state of a core and the translation of its addresses.
  \<^item> \<open>IInfo\<close> (\<^verbatim>\<open>IInfo\<close>, \<^verbatim>\<open>InstBlock\<close>), \<open>Emit\<close> (\<^verbatim>\<open>Translation_IPE\<close>), \<open>Decode\<close> (\<^verbatim>\<open>InsDecoding\<close>, \<^verbatim>\<open>BlockTranslation_IPE\<close>): the translator,
    one definition per emitter and per decoder entry. \<open>HostMips\<close> is the meaning of the emitted words, over an arithmetic unit
    that is a parameter; \<open>TransCorrect\<close> and \<open>TransControl\<close> prove translations correct against it, and \<open>BlockSim\<close> proves
    that a translated block does what the architecture's machine with delayed branches does.
  \<^item> \<open>AddrCache\<close> (\<^verbatim>\<open>AddrTranslationCache\<close>) and \<open>BlockCache\<close> (\<^verbatim>\<open>TranslationBlock\<close>, \<^verbatim>\<open>TranslatedBlockCache_IPE\<close>): the two caches,
    against the interface of a lookup cache.
  \<^item> \<open>GPAMap\<close> (\<^verbatim>\<open>GPAMap_IPE\<close>, \<^verbatim>\<open>GPAtoHVATranslator_IPE\<close>) and \<open>IOManager\<close> (\<^verbatim>\<open>IOManager\<close>, \<^verbatim>\<open>GVAtoHVATranslation_IPE\<close>): guest physical
    memory, device addresses, mailboxes, and the protocol of a core with a device thread as a step relation.
  \<^item> \<open>CIU\<close> (\<^verbatim>\<open>CIU\<close>), \<open>Timer\<close> (\<^verbatim>\<open>timer\<close>), \<open>UART\<close> (\<^verbatim>\<open>UART\<close>), \<open>Vhost\<close> (\<^verbatim>\<open>Vhost\<close>, \<^verbatim>\<open>VirtQueue\<close>), \<open>Virtio\<close> (\<^verbatim>\<open>VirtioDevice\<close>, \<^verbatim>\<open>VirtioBlk\<close>,
    \<^verbatim>\<open>Virtionet\<close>): the devices.
  \<^item> \<open>Processor\<close> (\<^verbatim>\<open>Processor_IPE\<close>): the requests of a core; \<open>ProcessorCorrect\<close> proves their properties.
  \<^item> \<open>Board\<close> (\<^verbatim>\<open>SystemBoard_IPE\<close>, \<^verbatim>\<open>CLParser\<close>, \<^verbatim>\<open>Specifications\<close>, \<^verbatim>\<open>SignalHandler\<close>, \<^verbatim>\<open>GPR_IPE\<close>, \<^verbatim>\<open>Main\<close>): the start, and the properties that
    span devices, interrupt unit and cores.
  \<^item> \<open>Coherence\<close> proves that the address cache answers what the MMU and the memory map would. \<open>MemSim\<close> adds the host's memory and the
    requests to the meaning of the emitted words (\<open>code_run\<close>), with loads and stores through the hypervisor to the guest's RAM, and \<open>MemBlock\<close> proves whole
    blocks with loads and stores and their faults.
  \<^item> \<open>HostCalls\<close> (\<^verbatim>\<open>TapInterface\<close>, \<^verbatim>\<open>EventNotifier\<close>, and the calls of \<^verbatim>\<open>Vhost\<close>, \<^verbatim>\<open>VirtQueue\<close> and the Virtio devices): what the program asks of
    the host, as histories of calls and answers; \<open>HostCorrect\<close> proves which queues the driver gets, which descriptors stay open and when the
    host's events interrupt the guest.
  \<^item> \<open>HashTable\<close> (\<^verbatim>\<open>HashTable\<close>): a table the program no longer uses.

  A definition has the name of the function it translates, with a prefix where two classes share one (\<open>mmu_GVAtoGPA\<close>, \<open>tlb_GVAtoGPA\<close>,
  \<open>blk_PerformOperation\<close>, \<open>net_PerformOperation\<close>). The object a method works on is a record that is passed and returned. A part that
  several functions repeat is a definition of its own. Every array access beyond the end, every
  \<^verbatim>\<open>exit\<close>, null dereference and division by zero is a value of \<open>hv_error\<close>.

  \<^bold>\<open>What the lemmas show.\<close> Translation: the fields of an instruction determine its word, delay slots are translated for the
  instructions that end a block, but for two groups of words that are named, the words emitted for arithmetic do what the instructions do, and whole blocks, with the control transfers
  that are not translated wrongly (\<open>regular\<close>), simulate the architecture; blocks with loads and stores do so together with the core that serves their requests, and an access that faults
  leaves the state of exactly the instructions before it. Memory: RAM is private and disjoint in host memory, a load or store reaches the RAM and nothing else, the
  address cache refines a map and is transparent while the TLB and the coprocessor's registers stay, translations in user mode stay in the segments
  the code admits, a refilled TLB hits. Cores: what exceptions save and how \<^verbatim>\<open>eret\<close> returns, that a core runs the block of its program counter, that an
  interrupt is taken at the next block. Devices: the interrupt lines agree with the cores' Cause registers in every
  state the unit reaches under the cores' stores and the devices' lines, as long as no store goes to a summary word or to the aliased
  enable words; keys and finished disk requests reach the guest, new requests are shared with the host. The start: the reset vector is the
  bootloader, only the first core runs. Where the code does something else than it means to, a lemma states what it does.

  \<^bold>\<open>Parameters.\<close> What is not under \<^verbatim>\<open>src/\<close> is an argument: the host's memory mapping (\<open>mmap_call\<close>, with \<open>mmap_ok\<close> as its
  documented behaviour and \<open>first_fit\<close> as an instance), free memory, timers, random numbers and mapped words (record \<open>Host\<close>),
  the layout of the rings (\<open>abi\<close>, \<open>guest_ring\<close>), the register offsets and feature numbers of Virtio (\<open>mmio\<close>, \<open>features\<close>), files, the answers of the host's calls (\<open>os\<close>, a function of the history of
  calls so far), and what uninitialised memory holds. The host processor is given by the laws of the locale \<open>mips_isa\<close> for its arithmetic and of \<open>mem_isa\<close> for its loads and
  stores, with \<open>ref_isa\<close> and \<open>ref_mem\<close> as instances; the host addresses of the emitted words and the host's registers after a
  request are arbitrary. Overflow traps of the arithmetic, which the program handles through \<^verbatim>\<open>SIGFPE\<close>, are not represented on the host's side or
  the guest's. Some theorems name an environment: \<open>accepts\<close>, in which the driver of the host accepts every call, and the flag of \<open>handshake\<close>
  for wake-ups without a signal, which the mailbox protocol does not survive.

  \<^bold>\<open>Bounds.\<close> The only fuel in the model of the code is that of \<open>getBlock\<close>, which reads instructions until a control transfer: with the distance of the first one as
  fuel it returns the block, and without one no fuel is enough, as the loop of the code does not end. The runs of emitted words, \<open>exec\<close> and \<open>code_run\<close>, have a bound on the words they
  do; the length of the code is shown to be enough. The other loops end by
  a measure: the size that remains in \<open>alloc_chunks\<close>, the value of the word in \<open>NMI_loop\<close>, the descriptors counted in
  \<open>indirect_loop\<close>, \<open>blk_chain\<close>, \<open>net_chain\<close> and \<open>blk_loop\<close>. A handler that waits for another thread returns \<open>None\<close>.

  \<^bold>\<open>Not modelled\<close>: \<^verbatim>\<open>Logger\<close> and \<^verbatim>\<open>Prints\<close>, which write debugging output; the terminal calls of
  \<^verbatim>\<open>UART::getch\<close> and \<^verbatim>\<open>EnableEcho\<close>, and the script the network interface starts; \<^verbatim>\<open>CodeExecutor\<close>, which no other file uses and which does not compile, as
  the member its functions use is commented out; the destructors of the caches and the board, and the creation of threads. The assembly
  that enters and leaves translated code is the caller of \<open>handleRequest\<close>; what it does to the shared array of registers is \<open>enter\<close> and \<open>resume\<close>. The partial
  accesses of unaligned words, \<^verbatim>\<open>ll\<close> and \<^verbatim>\<open>sc\<close>, and accesses to devices are modelled in the emitters and the handlers but not part of the simulation of blocks. Threads interleave in the model of the mailbox protocol
  and in the runs of the interrupt unit only; the other properties are of one operation, or one sequence of operations, at a time.
\<close>

end
